(* ===== verification/Prelude.thy ===== *)
theory Prelude
  imports Main "HOL-Library.Char_ord" "HOL-Library.List_Lexorder" "HOL-Library.Log_Nat"
begin

text \<open>
  Shared vocabulary of the development: identifiers and instants, tables as lists of
  rows with the SQL operations the sources use on them, a contract for a keyed table
  inside a larger database, and a contract for state machines with an invariant.
\<close>

section \<open>Names and collections of facts\<close>

text \<open>
  A UUID is represented by its canonical text (\<open>str(uuid)\<close>), a Python string by its UTF-8
  bytes (with a lone surrogate as its three-byte form), an instant by microseconds.
\<close>

type_synonym uuid = string
type_synonym moment = int

text \<open>The successive readings one operation takes of \<open>clock_timestamp()\<close>, in program order.\<close>

type_synonym clock = "nat \<Rightarrow> moment"

named_theorems table_simps \<open>characteristic equations of the table operations\<close>
named_theorems inv_intros \<open>invariant preservation, one rule per operation\<close>

section \<open>Results\<close>

text \<open>A raised exception is \<open>Inl\<close>, a returned value \<open>Inr\<close>.\<close>

definition bindR :: "'e + 'a \<Rightarrow> ('a \<Rightarrow> 'e + 'b) \<Rightarrow> 'e + 'b" where
  "bindR m f = (case m of Inl e \<Rightarrow> Inl e | Inr x \<Rightarrow> f x)"

lemma bindR_simps [simp]: "bindR (Inl e) f = Inl e" "bindR (Inr x) f = f x"
  by (simp_all add: bindR_def)

lemma bindR_Inr_iff: "bindR m f = Inr y \<longleftrightarrow> (\<exists>x. m = Inr x \<and> f x = Inr y)"
  by (cases m) auto

lemma bindR_InrE: "bindR m f = Inr y \<Longrightarrow> (\<And>x. m = Inr x \<Longrightarrow> f x = Inr y \<Longrightarrow> P) \<Longrightarrow> P"
  by (cases m) auto

lemma case_option_Inr_iff:
  "(case v of None \<Rightarrow> Inl e | Some x \<Rightarrow> f x) = Inr y \<longleftrightarrow> (\<exists>x. v = Some x \<and> f x = Inr y)"
  by (cases v) auto

lemma if_Inl_Inr_iff: "(if b then Inl e else r) = Inr y \<longleftrightarrow> \<not> b \<and> r = Inr y"
  by simp

lemmas inr_iffs = bindR_Inr_iff case_option_Inr_iff if_Inl_Inr_iff

section \<open>Tables\<close>

text \<open>\<open>UPDATE ... WHERE P\<close>, \<open>DELETE ... WHERE P\<close> and the row a key selects.\<close>

definition upd_where :: "('r \<Rightarrow> bool) \<Rightarrow> ('r \<Rightarrow> 'r) \<Rightarrow> 'r list \<Rightarrow> 'r list" where
  "upd_where P f = map (\<lambda>r. if P r then f r else r)"

definition del_where :: "('r \<Rightarrow> bool) \<Rightarrow> 'r list \<Rightarrow> 'r list" where
  "del_where P = filter (\<lambda>r. \<not> P r)"

definition exists_row :: "('r \<Rightarrow> bool) \<Rightarrow> 'r list \<Rightarrow> bool" where
  "exists_row P rows = list_ex P rows"

lemma exists_row_iff [simp]: "exists_row P rows \<longleftrightarrow> (\<exists>r \<in> set rows. P r)"
  by (simp add: exists_row_def list_ex_iff)

lemma set_upd_where [table_simps]: "set (upd_where P f rows) = (\<lambda>r. if P r then f r else r) ` set rows"
  by (simp add: upd_where_def)

lemma set_del_where [table_simps]: "set (del_where P rows) = {r \<in> set rows. \<not> P r}"
  by (simp add: del_where_def)

lemma upd_where_Nil [simp]: "upd_where P f [] = []"
  and upd_where_Cons [simp]: "upd_where P f (r # rs) = (if P r then f r else r) # upd_where P f rs"
  and upd_where_append [simp]: "upd_where P f (rs @ qs) = upd_where P f rs @ upd_where P f qs"
  and length_upd_where [simp]: "length (upd_where P f rs) = length rs"
  by (simp_all add: upd_where_def)

lemma upd_where_idle: "(\<And>r. r \<in> set rows \<Longrightarrow> \<not> P r) \<Longrightarrow> upd_where P f rows = rows"
  by (induction rows) auto

lemma upd_where_False [simp]: "upd_where (\<lambda>_. False) f rows = rows"
  by (induction rows) auto

lemma map_upd_where:
  assumes "\<And>r. P r \<Longrightarrow> k (f r) = k r"
  shows "map k (upd_where P f rows) = map k rows"
  by (induction rows) (auto simp: assms)

lemma filter_upd_where:
  assumes "\<And>r. P r \<Longrightarrow> Q (f r) = Q r"
  shows "filter Q (upd_where P f rows) = upd_where P f (filter Q rows)"
  by (induction rows) (auto simp: assms)

lemma filter_upd_where_disjoint:
  assumes "\<And>r. P r \<Longrightarrow> \<not> Q (f r)" "\<And>r. P r \<Longrightarrow> \<not> Q r"
  shows "filter Q (upd_where P f rows) = filter Q rows"
  by (induction rows) (auto simp: assms)

lemma find_upd_where:
  assumes "\<And>r. P r \<Longrightarrow> Q (f r) = Q r"
  shows "find Q (upd_where P f rows) = map_option (\<lambda>r. if P r then f r else r) (find Q rows)"
  by (induction rows) (auto simp: assms)

lemma find_upd_where_other:
  assumes "\<And>r. P r \<Longrightarrow> \<not> Q r \<and> \<not> Q (f r)"
  shows "find Q (upd_where P f rows) = find Q rows"
  by (induction rows) (auto simp: assms)

lemma find_SomeD: "find P rows = Some r \<Longrightarrow> r \<in> set rows \<and> P r"
  by (induction rows) (auto split: if_splits)

lemma find_Some_if_distinct:
  assumes "distinct (map k rows)" "r \<in> set rows" "\<And>x. P x \<longleftrightarrow> k x = k r"
  shows "find P rows = Some r"
  using assms(1,2)
proof (induction rows)
  case Nil
  then show ?case by simp
next
  case (Cons a rows)
  then show ?case by (cases "a = r") (auto simp: assms(3) image_iff)
qed

lemma find_append: "find P (xs @ ys) = (case find P xs of None \<Rightarrow> find P ys | Some x \<Rightarrow> Some x)"
  by (induction xs) auto

lemma distinct_key_unique:
  assumes "distinct (map k rows)" "a \<in> set rows" "b \<in> set rows" "k a = k b"
  shows "a = b"
  using assms by (simp add: distinct_map inj_on_def)

lemma distinct_map_filter_del: "distinct (map k rows) \<Longrightarrow> distinct (map k (del_where P rows))"
  by (simp add: del_where_def distinct_map_filter)

section \<open>A keyed table inside a database\<close>

text \<open>
  What the operations rely on of one table: the rows can be read and replaced, and the
  key column identifies a row. \<open>keyed d\<close> is the table's primary key constraint.
\<close>

locale keyed_rows =
  fixes key :: "'r \<Rightarrow> 'k"
    and get :: "'db \<Rightarrow> 'r list"
    and put :: "('r list \<Rightarrow> 'r list) \<Rightarrow> 'db \<Rightarrow> 'db"
  assumes get_put: "get (put f d) = f (get d)"
begin

definition keyed :: "'db \<Rightarrow> bool" where
  "keyed d \<longleftrightarrow> distinct (map key (get d))"

definition row_at :: "'k \<Rightarrow> 'db \<Rightarrow> 'r option" where
  "row_at k d = find (\<lambda>r. key r = k) (get d)"

lemma row_at_Some_iff: "keyed d \<Longrightarrow> row_at k d = Some r \<longleftrightarrow> r \<in> set (get d) \<and> key r = k"
  by (auto simp: keyed_def row_at_def dest: find_SomeD intro: find_Some_if_distinct)

lemma keyed_update:
  assumes "keyed d" "\<And>r. P r \<Longrightarrow> key (f r) = key r"
  shows "keyed (put (upd_where P f) d)"
  using assms by (simp add: keyed_def get_put map_upd_where)

lemma keyed_delete: "keyed d \<Longrightarrow> keyed (put (del_where P) d)"
  by (simp add: keyed_def get_put distinct_map_filter_del)

lemma keyed_insert:
  "keyed d \<Longrightarrow> row_at (key r) d = None \<Longrightarrow> keyed (put (\<lambda>rows. rows @ [r]) d)"
  by (auto simp: keyed_def get_put row_at_def find_None_iff)

lemma row_at_update:
  assumes "\<And>r. P r \<Longrightarrow> key (f r) = key r"
  shows "row_at k (put (upd_where P f) d) = map_option (\<lambda>r. if P r then f r else r) (row_at k d)"
  by (simp add: row_at_def get_put find_upd_where assms)

lemma row_at_insert:
  "row_at k (put (\<lambda>rows. rows @ [r]) d) =
     (case row_at k d of None \<Rightarrow> if key r = k then Some r else None | Some q \<Rightarrow> Some q)"
  by (auto simp: row_at_def get_put find_append split: option.splits)

end

section \<open>State machines\<close>

text \<open>A step relation that keeps an invariant keeps it along every run.\<close>

locale guarded_steps =
  fixes step :: "'s \<Rightarrow> 's \<Rightarrow> bool" and good :: "'s \<Rightarrow> bool"
  assumes step_good: "good s \<Longrightarrow> step s t \<Longrightarrow> good t"
begin

lemma run_good: "step\<^sup>*\<^sup>* s t \<Longrightarrow> good s \<Longrightarrow> good t"
  by (induction rule: rtranclp_induct) (auto intro: step_good)

end

section \<open>Lists\<close>

lemma sum_list_filter_le: "sum_list (map f (filter P xs)) \<le> sum_list (map (f :: _ \<Rightarrow> nat) xs)"
  by (induction xs) auto

lemma find_eq_filter_hd: "find P xs = (case filter P xs of [] \<Rightarrow> None | x # _ \<Rightarrow> Some x)"
  by (induction xs) auto

section \<open>Double precision arithmetic on integers\<close>

text \<open>
  A non-negative integer rounded to 53 significant bits, ties to even: what Python's
  \<open>float(n)\<close> and the product of two floats over a power of two compute.
\<close>

definition round53 :: "int \<Rightarrow> int" where
  "round53 a =
     (let b = nat (bitlen a) in
      if b \<le> 53 then a
      else let s = b - 53; q = a div 2 ^ s; r = a mod 2 ^ s; half = 2 ^ (s - 1)
           in (if r > half \<or> r = half \<and> odd q then q + 1 else q) * 2 ^ s)"

end
