(* ===== verification/Memory_Ladder.thy ===== *)
theory Memory_Ladder
  imports Prelude Complex_Main
begin

text \<open>
  The per-model memory ladder of the inference worker
  (\<open>src/worker/worker/memory_ladder.py\<close>): which offloading rung a model loads on, which
  capabilities that rung keeps, and how many realtime slots the worker advertises.
\<close>

section \<open>Rungs and their memory\<close>

datatype memory_mode = Auto | Mode_full | Mode_model_offload | Mode_group_offload
datatype rung = Full | Model_offload | Group_offload

definition GB :: int where "GB = 1024 ^ 3"

definition GROUP_OFFLOAD_GB :: int where "GROUP_OFFLOAD_GB = 2"

definition REALTIME_BAR_MS :: rat where "REALTIME_BAR_MS = 500"

text \<open>The double nearest to 0.55 is \<open>4953959590107546 / 2^53\<close>.\<close>

definition LARGEST_COMPONENT_FRACTION_53 :: int where
  "LARGEST_COMPONENT_FRACTION_53 = 4953959590107546"

definition full_residency_bytes :: "int \<Rightarrow> int" where
  "full_residency_bytes min_vram_gb = min_vram_gb * GB"

definition largest_component_bytes :: "int \<Rightarrow> int" where
  "largest_component_bytes min_vram_gb =
     round53 (round53 (min_vram_gb * GB) * LARGEST_COMPONENT_FRACTION_53) div 2 ^ 53"

definition model_offload_bytes :: "int \<Rightarrow> int option \<Rightarrow> int" where
  "model_offload_bytes min_vram_gb model_offload_vram_gb =
     (case model_offload_vram_gb of
        Some gb \<Rightarrow> gb * GB
      | None \<Rightarrow> max (largest_component_bytes min_vram_gb) (GROUP_OFFLOAD_GB * GB))"

definition group_offload_bytes :: int where
  "group_offload_bytes = GROUP_OFFLOAD_GB * GB"

definition select_rung :: "int \<Rightarrow> int \<Rightarrow> memory_mode \<Rightarrow> bool \<Rightarrow> int option \<Rightarrow> rung" where
  "select_rung min_vram_gb free_bytes mode on_cpu model_offload_vram_gb =
     (if on_cpu then Full
      else if mode = Mode_full then Full
      else if mode = Mode_model_offload then Model_offload
      else if mode = Mode_group_offload then Group_offload
      else if free_bytes \<ge> full_residency_bytes min_vram_gb then Full
      else if free_bytes \<ge> model_offload_bytes min_vram_gb model_offload_vram_gb then Model_offload
      else Group_offload)"

definition rung_vram_bytes :: "int \<Rightarrow> rung \<Rightarrow> int option \<Rightarrow> int" where
  "rung_vram_bytes min_vram_gb r model_offload_vram_gb =
     (case r of
        Full \<Rightarrow> full_residency_bytes min_vram_gb
      | Model_offload \<Rightarrow> model_offload_bytes min_vram_gb model_offload_vram_gb
      | Group_offload \<Rightarrow> group_offload_bytes)"

section \<open>Capabilities on the wire\<close>

definition capabilities_for_rung :: "string list \<Rightarrow> rung \<Rightarrow> string list" where
  "capabilities_for_rung capabilities r =
     (if r = Full then capabilities else filter (\<lambda>cap. cap \<noteq> ''realtime'') capabilities)"

text \<open>The fields of a worker manifest the ladder reads; the rest travels unchanged.\<close>

record ladder_manifest =
  lm_id :: string
  lm_min_vram_gb :: int
  lm_model_offload_vram_gb :: "int option"
  lm_capabilities :: "string list"

definition measured_wire_manifest :: "ladder_manifest \<Rightarrow> rung \<Rightarrow> ladder_manifest" where
  "measured_wire_manifest m r = m\<lparr>lm_capabilities := capabilities_for_rung (lm_capabilities m) r\<rparr>"

definition measured_wire_manifests ::
    "ladder_manifest list \<Rightarrow> int \<Rightarrow> memory_mode \<Rightarrow> bool \<Rightarrow> ladder_manifest list" where
  "measured_wire_manifests manifests free_bytes mode on_cpu =
     map (\<lambda>m. measured_wire_manifest m
            (select_rung (lm_min_vram_gb m) free_bytes mode on_cpu (lm_model_offload_vram_gb m)))
       manifests"

section \<open>Realtime slots\<close>

definition effective_realtime_slots :: "ladder_manifest list \<Rightarrow> int \<Rightarrow> int" where
  "effective_realtime_slots wire configured =
     (if configured \<le> 0 then 0
      else if list_ex (\<lambda>m. ''realtime'' \<in> set (lm_capabilities m)) wire then configured
      else 0)"

definition slots_from_frame_ms :: "rat \<Rightarrow> int \<Rightarrow> rat \<Rightarrow> int" where
  "slots_from_frame_ms p95_ms configured bar_ms =
     (if configured \<le> 0 \<or> p95_ms \<le> 0 then 0
      else if p95_ms > bar_ms then 0
      else min configured (max 1 \<lfloor>bar_ms / p95_ms\<rfloor>))"

text \<open>The loop of \<open>slots_from_batch_curve\<close> from a position on, with \<open>count\<close> so far.\<close>

fun batch_curve_loop :: "int list \<Rightarrow> nat \<Rightarrow> int \<Rightarrow> int \<Rightarrow> int \<Rightarrow> int" where
  "batch_curve_loop [] index count configured bar_ms = count"
| "batch_curve_loop (p95 # curve) index count configured bar_ms =
     (if int index + 1 > configured \<or> p95 \<le> 0 \<or> p95 > bar_ms then count
      else batch_curve_loop curve (Suc index) (int index + 1) configured bar_ms)"

definition slots_from_batch_curve :: "int list \<Rightarrow> int \<Rightarrow> int \<Rightarrow> int" where
  "slots_from_batch_curve curve configured bar_ms =
     (if configured \<le> 0 \<or> curve = [] then 0
      else batch_curve_loop curve 0 0 configured bar_ms)"

section \<open>What the ladder promises\<close>

lemma group_le_model_offload_bytes: "group_offload_bytes \<le> model_offload_bytes gb None"
  by (simp add: group_offload_bytes_def model_offload_bytes_def)

text \<open>
  In automatic mode on a GPU the worker never loads a model on a rung whose
  memory does not fit the free memory it measured, the last rung excepted, which it takes only when
  neither of the others fits.
\<close>

theorem auto_rung_fits:
  assumes "select_rung gb free Auto False off = r"
  shows "if r = Group_offload then free < rung_vram_bytes gb Full off \<and> free < rung_vram_bytes gb Model_offload off
     else rung_vram_bytes gb r off \<le> free"
  using assms by (auto simp: select_rung_def rung_vram_bytes_def split: if_splits)

theorem auto_rung_fits_witness: "rung_vram_bytes 12 Model_offload None \<le> 8 * GB"
proof -
  have "select_rung 12 (8 * GB) Auto False None = Model_offload" by code_simp
  from auto_rung_fits[OF this] show ?thesis by simp
qed

lemma realtime_needs_full:
  "''realtime'' \<in> set (capabilities_for_rung caps r) \<longleftrightarrow> ''realtime'' \<in> set caps \<and> r = Full"
  by (auto simp: capabilities_for_rung_def)

lemma batch_curve_loop_spec:
  "batch_curve_loop curve i (int i) configured bar =
     int i + int (length (takeWhile (\<lambda>(j, p). int j + 1 \<le> configured \<and> 0 < p \<and> p \<le> bar)
        (enumerate i curve)))"
proof (induction curve arbitrary: i)
  case Nil
  then show ?case by simp
next
  case (Cons p curve)
  have "int i + 1 = int (Suc i)" by simp
  with Cons[of "Suc i"] show ?case by (auto simp: add.commute)
qed

end
