(* ===== verification/Json.thy ===== *)
theory Json
  imports Prelude Complex_Main
begin

text \<open>
  JSON values as Python decodes them, and the canonical encoding protocol 6 hashes
  (\<open>src/backend/app/protocol6.py\<close>, \<open>_check_json\<close>, \<open>canonical_bytes\<close>, \<open>_pairs\<close>). A Python
  string is its UTF-8 bytes; a dictionary is the list of its items in insertion order.
\<close>

section \<open>Values\<close>

text \<open>A finite double is \<open>(-1)^sign * mantissa * 2^exponent\<close>; \<open>-0.0\<close> has sign set, mantissa 0.\<close>

datatype pyfloat = Finite bool nat int | Infinite bool | Not_a_number

text \<open>\<open>JOther\<close> stands for any Python object that is none of the JSON types.\<close>

datatype json =
    JNull
  | JBool bool
  | JInt int
  | JFloat pyfloat
  | JStr string
  | JArr "json list"
  | JObj "(string \<times> json) list"
  | JOther

type_synonym dict = "(string \<times> json) list"

fun float_val :: "pyfloat \<Rightarrow> rat option" where
  "float_val (Finite s m e) = Some ((if s then -1 else 1) * of_nat m * 2 powi e)"
| "float_val _ = None"

text \<open>\<open>isinstance(v, (int, float))\<close> as a finite number; a \<open>bool\<close> is an \<open>int\<close> in Python.\<close>

fun num_val :: "json \<Rightarrow> rat option" where
  "num_val (JBool b) = Some (if b then 1 else 0)"
| "num_val (JInt i) = Some (of_int i)"
| "num_val (JFloat f) = float_val f"
| "num_val _ = None"

text \<open>\<open>d.get(k)\<close> and \<open>{k: v for k, v in d.items() if k != field}\<close>.\<close>

definition dget :: "dict \<Rightarrow> string \<Rightarrow> json option" where
  "dget d k = map_of d k"

definition dkeys :: "dict \<Rightarrow> string set" where
  "dkeys d = fst ` set d"

definition dwithout :: "string \<Rightarrow> dict \<Rightarrow> dict" where
  "dwithout k d = filter (\<lambda>(key, _). key \<noteq> k) d"

text \<open>\<open>d[k] = v\<close>: an existing key keeps its place, a new one goes last.\<close>

definition dset :: "string \<Rightarrow> json \<Rightarrow> dict \<Rightarrow> dict" where
  "dset k v d = (if k \<in> fst ` set d then map (\<lambda>(key, x). if key = k then (key, v) else (key, x)) d
                 else d @ [(k, v)])"

text \<open>\<open>d.update(e)\<close>, also the display \<open>{**d, **e}\<close>.\<close>

definition dupdate :: "dict \<Rightarrow> dict \<Rightarrow> dict" where
  "dupdate d e = foldl (\<lambda>acc (k, v). dset k v acc) d e"

section \<open>Python equality\<close>

text \<open>Numbers compare by value across \<open>bool\<close>, \<open>int\<close> and \<open>float\<close>; dictionaries ignore order.\<close>

fun py_eq :: "json \<Rightarrow> json \<Rightarrow> bool"
  and py_eq_list :: "json list \<Rightarrow> json list \<Rightarrow> bool"
  and py_eq_items :: "(string \<times> json) list \<Rightarrow> dict \<Rightarrow> bool"
where
  "py_eq JNull w = (w = JNull)"
| "py_eq (JBool b) w = (num_val w = Some (if b then 1 else 0))"
| "py_eq (JInt i) w = (num_val w = Some (of_int i))"
| "py_eq (JFloat f) w =
     (case f of Finite _ _ _ \<Rightarrow> num_val w = float_val f
              | Infinite s \<Rightarrow> w = JFloat (Infinite s)
              | Not_a_number \<Rightarrow> False)"
| "py_eq (JStr s) w = (w = JStr s)"
| "py_eq (JArr xs) w = (case w of JArr ys \<Rightarrow> py_eq_list xs ys | _ \<Rightarrow> False)"
| "py_eq (JObj ps) w =
     (case w of JObj qs \<Rightarrow> length ps = length qs \<and> py_eq_items ps qs | _ \<Rightarrow> False)"
| "py_eq JOther w = False"
| "py_eq_list [] ys = (ys = [])"
| "py_eq_list (x # xs) ys = (case ys of [] \<Rightarrow> False | y # ys' \<Rightarrow> py_eq x y \<and> py_eq_list xs ys')"
| "py_eq_items [] qs = True"
| "py_eq_items ((k, v) # ps) qs =
     ((case map_of qs k of None \<Rightarrow> False | Some w \<Rightarrow> py_eq v w) \<and> py_eq_items ps qs)"

text \<open>Comparison of two optional items, \<open>a.get(k) == b.get(k)\<close> with an absent key as \<open>None\<close>.\<close>

definition opt_json :: "json option \<Rightarrow> json" where
  "opt_json v = (case v of None \<Rightarrow> JNull | Some x \<Rightarrow> x)"

definition get_eq :: "json option \<Rightarrow> json option \<Rightarrow> bool" where
  "get_eq a b = py_eq (opt_json a) (opt_json b)"

section \<open>Well-formed JSON\<close>

text \<open>
  Strict UTF-8: no lone surrogate, whose bytes are \<open>0xED\<close> followed by \<open>0xA0\<close> or above.
\<close>

fun utf8_strict :: "string \<Rightarrow> bool" where
  "utf8_strict (a # b # s) \<longleftrightarrow>
     \<not> (of_char a = (0xED :: nat) \<and> of_char b \<ge> (0xA0 :: nat)) \<and> utf8_strict (b # s)"
| "utf8_strict _ \<longleftrightarrow> True"

text \<open>
  The exceptions the codec can raise: its own \<open>Protocol6Error\<close> with its message, and the
  exceptions of the Python library it lets through.
\<close>

datatype py_exn = Protocol6Error string | OverflowError | TypeError | AttributeError | KeyError string

fun check_json :: "nat \<Rightarrow> json \<Rightarrow> py_exn + unit"
  and check_items :: "nat \<Rightarrow> json list \<Rightarrow> py_exn + unit"
  and check_pairs :: "nat \<Rightarrow> (string \<times> json) list \<Rightarrow> py_exn + unit"
where
  "check_json depth value =
     (if depth > 64 then Inl (Protocol6Error ''JSON value is too deeply nested'')
      else case value of
        JNull \<Rightarrow> Inr ()
      | JBool _ \<Rightarrow> Inr ()
      | JInt _ \<Rightarrow> Inr ()
      | JFloat f \<Rightarrow> (if float_val f = None then Inl (Protocol6Error ''non-finite JSON number'') else Inr ())
      | JStr s \<Rightarrow> (if utf8_strict s then Inr () else Inl (Protocol6Error ''invalid Unicode''))
      | JArr xs \<Rightarrow> check_items (depth + 1) xs
      | JObj ps \<Rightarrow> check_pairs (depth + 1) ps
      | JOther \<Rightarrow> Inl (Protocol6Error ''value is not JSON''))"
| "check_items depth [] = Inr ()"
| "check_items depth (x # xs) = bindR (check_json depth x) (\<lambda>_. check_items depth xs)"
| "check_pairs depth [] = Inr ()"
| "check_pairs depth ((k, v) # ps) =
     (if depth > 64 then Inl (Protocol6Error ''JSON value is too deeply nested'')
      else if \<not> utf8_strict k then Inl (Protocol6Error ''invalid Unicode'')
      else bindR (check_json depth v) (\<lambda>_. check_pairs depth ps))"

declare check_json.simps [simp del]

section \<open>Text of numbers and strings\<close>

function show_pos :: "int \<Rightarrow> string" where
  "show_pos i = (if i < 10 then [char_of (i + 48)] else show_pos (i div 10) @ [char_of (i mod 10 + 48)])"
  by auto
termination
  by (relation "measure nat") auto

declare show_pos.simps [simp del]

definition show_int :: "int \<Rightarrow> string" where
  "show_int i = (if i < 0 then ''-'' @ show_pos (- i) else show_pos i)"

definition hex_digit :: "nat \<Rightarrow> char" where
  "hex_digit n = char_of (if n < 10 then n + 48 else n + 87)"

text \<open>\<open>ensure_ascii=False\<close> escapes the quote, the backslash and the control characters.\<close>

definition esc_char :: "char \<Rightarrow> string" where
  "esc_char c =
     (let n = of_char c in
      if n = 0x22 then [CHR 0x5C, CHR 0x22]
      else if n = 0x5C then [CHR 0x5C, CHR 0x5C]
      else if n = 0x0A then [CHR 0x5C, CHR ''n'']
      else if n = 0x0D then [CHR 0x5C, CHR ''r'']
      else if n = 0x09 then [CHR 0x5C, CHR ''t'']
      else if n = 0x0C then [CHR 0x5C, CHR ''f'']
      else if n = 0x08 then [CHR 0x5C, CHR ''b'']
      else if n < (0x20 :: nat) then [CHR 0x5C] @ ''u00'' @ [hex_digit (n div 16), hex_digit (n mod 16)]
      else [c])"

text \<open>An equation for evaluation: the common case looks at three bits.\<close>

fun plain_char :: "char \<Rightarrow> bool" where
  "plain_char (Char b0 b1 b2 b3 b4 b5 b6 b7) \<longleftrightarrow> (b5 \<or> b6 \<or> b7)"

lemma plain_char_iff: "plain_char c \<longleftrightarrow> 32 \<le> (of_char c :: nat)"
  by (cases c) (auto simp: of_char_def)

lemma esc_char_code [code]:
  "esc_char c =
     (if plain_char c then if c = CHR 0x22 \<or> c = CHR 0x5C then [CHR 0x5C, c] else [c]
      else let n = of_char c in
        if n = 0x0A then [CHR 0x5C, CHR ''n''] else if n = 0x0D then [CHR 0x5C, CHR ''r'']
        else if n = 0x09 then [CHR 0x5C, CHR ''t''] else if n = 0x0C then [CHR 0x5C, CHR ''f'']
        else if n = 0x08 then [CHR 0x5C, CHR ''b'']
        else [CHR 0x5C] @ ''u00'' @ [hex_digit (n div 16), hex_digit (n mod 16)])"
proof -
  have "c = CHR 0x22 \<longleftrightarrow> of_char c = (0x22 :: nat)" "c = CHR 0x5C \<longleftrightarrow> of_char c = (0x5C :: nat)"
    by (auto simp flip: of_char_eq_iff[where 'a = nat])
  then show ?thesis by (auto simp: esc_char_def plain_char_iff Let_def)
qed
definition quote :: "string \<Rightarrow> string" where
  "quote s = [CHR 0x22] @ concat (map esc_char s) @ [CHR 0x22]"

fun commas :: "string list \<Rightarrow> string" where
  "commas [] = []"
| "commas [s] = s"
| "commas (s # t # ss) = s @ '','' @ commas (t # ss)"

section \<open>Canonical encoding\<close>

text \<open>
  \<open>json.dumps(value, sort_keys=True, separators=(",", ":"), ensure_ascii=False)\<close>; \<open>frepr\<close>
  is Python's \<open>repr\<close> of a finite double.
\<close>

definition member_text :: "string \<times> string \<Rightarrow> string" where
  "member_text p = quote (fst p) @ '':'' @ snd p"

fun dumps :: "(pyfloat \<Rightarrow> string) \<Rightarrow> json \<Rightarrow> string"
  and dumps_items :: "(pyfloat \<Rightarrow> string) \<Rightarrow> json list \<Rightarrow> string list"
  and dumps_pairs :: "(pyfloat \<Rightarrow> string) \<Rightarrow> (string \<times> json) list \<Rightarrow> (string \<times> string) list"
where
  "dumps frepr JNull = ''null''"
| "dumps frepr (JBool b) = (if b then ''true'' else ''false'')"
| "dumps frepr (JInt i) = show_int i"
| "dumps frepr (JFloat f) = frepr f"
| "dumps frepr (JStr s) = quote s"
| "dumps frepr (JArr xs) = ''['' @ commas (dumps_items frepr xs) @ '']''"
| "dumps frepr (JObj ps) = ''{'' @ commas (map member_text (sort_key fst (dumps_pairs frepr ps))) @ ''}''"
| "dumps frepr JOther = []"
| "dumps_items frepr [] = []"
| "dumps_items frepr (x # xs) = dumps frepr x # dumps_items frepr xs"
| "dumps_pairs frepr [] = []"
| "dumps_pairs frepr ((k, v) # ps) = (k, dumps frepr v) # dumps_pairs frepr ps"

text \<open>Python refuses to print an integer of more than 4300 digits.\<close>

definition int_printable :: "int \<Rightarrow> bool" where
  "int_printable i \<longleftrightarrow> \<bar>i\<bar> < 10 ^ 4300"

lemma int_printable_code [code]:
  "int_printable i \<longleftrightarrow> \<bar>i\<bar> < 1000000000000000000000000000000 \<or> \<bar>i\<bar> < 10 ^ 4300"
proof -
  have small: "(1000000000000000000000000000000 :: int) = 10 ^ 30" by simp
  have "(10 :: int) ^ 30 \<le> 10 ^ 4300" by (rule power_increasing) simp_all
  then show ?thesis unfolding int_printable_def small by (blast intro: order_less_le_trans)
qed

fun ints_printable :: "json \<Rightarrow> bool"
  and ints_printable_items :: "json list \<Rightarrow> bool"
  and ints_printable_pairs :: "(string \<times> json) list \<Rightarrow> bool"
where
  "ints_printable (JInt i) = int_printable i"
| "ints_printable (JArr xs) = ints_printable_items xs"
| "ints_printable (JObj ps) = ints_printable_pairs ps"
| "ints_printable _ = True"
| "ints_printable_items [] = True"
| "ints_printable_items (x # xs) = (ints_printable x \<and> ints_printable_items xs)"
| "ints_printable_pairs [] = True"
| "ints_printable_pairs ((_, v) # ps) = (ints_printable v \<and> ints_printable_pairs ps)"

definition canonical_bytes :: "(pyfloat \<Rightarrow> string) \<Rightarrow> json \<Rightarrow> py_exn + string" where
  "canonical_bytes frepr value =
     bindR (check_json 0 value) (\<lambda>_.
       if ints_printable value then Inr (dumps frepr value)
       else Inl (Protocol6Error ''value has no canonical JSON encoding''))"

section \<open>Decoding hooks\<close>

text \<open>
  \<open>_pairs\<close> builds the dictionary of an object's items in order and refuses a repeated key;
  \<open>_constant\<close> refuses \<open>NaN\<close> and the infinities. \<open>json.loads\<close> calls them as its hooks.
\<close>

fun pairs_loop :: "dict \<Rightarrow> dict \<Rightarrow> py_exn + dict" where
  "pairs_loop result [] = Inr result"
| "pairs_loop result ((key, value) # pairs) =
     (if key \<in> dkeys result then Inl (Protocol6Error ''duplicate JSON object key'')
      else pairs_loop (dset key value result) pairs)"

definition pairs_hook :: "dict \<Rightarrow> py_exn + dict" where
  "pairs_hook pairs = pairs_loop [] pairs"

definition constant_hook :: "string \<Rightarrow> py_exn + json" where
  "constant_hook _ = Inl (Protocol6Error ''non-finite JSON number'')"

lemma pairs_loop_spec:
  "distinct (map fst acc) \<Longrightarrow>
   pairs_loop acc ps = (if distinct (map fst (acc @ ps)) then Inr (acc @ ps)
     else Inl (Protocol6Error ''duplicate JSON object key''))"
  by (induction acc ps rule: pairs_loop.induct) (auto simp: dset_def dkeys_def)

lemma pairs_hook_eq:
  "pairs_hook ps = (if distinct (map fst ps) then Inr ps
     else Inl (Protocol6Error ''duplicate JSON object key''))"
  by (simp add: pairs_hook_def pairs_loop_spec)

end
