(* ===== verification/Fleet_Tables.thy ===== *)
theory Fleet_Tables
  imports Json
begin

text \<open>
  The tables of the fleet authority: scheduler leases and worker connections
  (migration 0029), the worker command journal and job attempts (0030), physical ranges and
  report receipts (0031), realtime sessions and their attempts (0032), the identity columns
  and the state contract of a command (0034), and the columns of \<open>users\<close>, \<open>sessions\<close>,
  \<open>jobs\<close> and \<open>assets\<close> the authority reads. A table is the list of its rows; a transaction is a
  function of the database that either raises (and leaves it as it was) or returns a new one.
\<close>

section \<open>Rows\<close>

record scheduler_lease =
  sl_region :: string
  sl_owner_id :: uuid
  sl_owner_epoch :: int
  sl_lease_id :: uuid
  sl_expires_at :: moment

datatype lifecycle = Connecting | Loading | Calibrating | Ready | Draining | Ended

record worker_connection =
  wc_worker_id :: string
  wc_incarnation :: uuid
  wc_transport_owner_id :: uuid
  wc_region :: string
  wc_owner_epoch :: int
  wc_lease_id :: uuid
  wc_lease_expires_at :: moment
  wc_grant_nonce :: uuid
  wc_grant_expires_at :: moment
  wc_grant_ready :: bool
  wc_realtime_slots :: int
  wc_protocol_version :: int
  wc_capabilities :: json
  wc_manifests :: json
  wc_device :: "string option"
  wc_memory_mode :: "string option"
  wc_envelope_revision :: int
  wc_execution_envelope :: dict
  wc_observations :: dict
  wc_lifecycle :: lifecycle
  wc_last_seen_at :: moment
  wc_expires_at :: moment
  wc_closed_at :: "moment option"
  wc_created_at :: moment
  wc_next_command_sequence :: int
  wc_acknowledged_floor :: int

datatype command_state = Pending | Acknowledged | Erased

record worker_command =
  cmd_worker_id :: string
  cmd_incarnation :: uuid
  cmd_sequence :: int
  cmd_command_id :: uuid
  cmd_kind :: string
  cmd_body_hash :: string
  cmd_key_version :: "int option"
  cmd_encrypted_body :: "string option"
  cmd_complete_bytes :: int
  cmd_state :: command_state
  cmd_created_at :: moment
  cmd_acknowledged_at :: "moment option"
  cmd_ack_status :: "string option"
  cmd_ack_code :: "string option"
  cmd_expected_sequence :: "int option"
  cmd_ack_body :: "string option"
  cmd_account_user_id :: "uuid option"
  cmd_subject_id :: "uuid option"
  cmd_subject_sequence :: "int option"
  cmd_ack_identity_hash :: "string option"

datatype session_state = Queued | Assigning | Live | Idle | Ending | Session_ended

record realtime_session =
  rs_id :: uuid
  rs_user_id :: "uuid option"
  rs_auth_session_id :: "uuid option"
  rs_browser_owner_id :: uuid
  rs_region :: string
  rs_model_id :: string
  rs_effective_params :: json
  rs_desired_params :: json
  rs_params_revision :: int
  rs_desired_revision :: int
  rs_state :: session_state
  rs_control_generation :: int
  rs_owner_epoch :: "int option"
  rs_input_revision :: int
  rs_started_at :: "moment option"
  rs_ended_at :: "moment option"
  rs_created_at :: moment

datatype attempt_state = Opening | Running | Attempt_ended

record realtime_attempt =
  ra_session_id :: uuid
  ra_control_generation :: int
  ra_worker_id :: string
  ra_incarnation :: uuid
  ra_owner_epoch :: int
  ra_attempt_id :: uuid
  ra_state :: attempt_state
  ra_gpu_ms :: int
  ra_frames :: int
  ra_duration_ms :: int
  ra_report_sequence :: int
  ra_range_id :: "uuid option"
  ra_started_at :: "moment option"
  ra_ended_at :: "moment option"
  ra_created_at :: moment

text \<open>The state of a job and of a job attempt is a text column, kept as text.\<close>

record job_row =
  jb_id :: uuid
  jb_user_id :: uuid
  jb_model_id :: string
  jb_params :: json
  jb_state :: string
  jb_current_dispatch_sequence :: int
  jb_source_asset_id :: "uuid option"
  jb_dispatched_at :: "moment option"

record job_attempt =
  ja_job_id :: uuid
  ja_dispatch_sequence :: int
  ja_command_id :: uuid
  ja_worker_id :: string
  ja_incarnation :: uuid
  ja_owner_epoch :: int
  ja_state :: string
  ja_dispatch_token_hash :: string
  ja_range_id :: "uuid option"
  ja_created_at :: moment
  ja_gpu_ms :: int
  ja_frames :: int
  ja_duration_ms :: int
  ja_report_sequence :: int
  ja_input_fetch_ms :: "json option"
  ja_load_ms :: "json option"
  ja_postprocess_ms :: "json option"
  ja_terminal_category :: "json option"
  ja_terminal_category_score :: "json option"
  ja_terminal_has_thumbnail :: "json option"
  ja_terminal_failure_code :: "json option"
  ja_terminal_at :: "moment option"

datatype range_kind = Job_range | Session_range
datatype range_state = Outstanding | Drained | Measurement_expired

record physical_range =
  pr_range_id :: uuid
  pr_worker_id :: string
  pr_incarnation :: uuid
  pr_region :: string
  pr_owner_epoch :: int
  pr_account_user_id :: "uuid option"
  pr_kind :: range_kind
  pr_subject_id :: uuid
  pr_attempt_id :: "uuid option"
  pr_control_generation :: "int option"
  pr_dispatch_sequence :: "int option"
  pr_state :: range_state
  pr_report_sequence :: int
  pr_report_floor :: int
  pr_report_hash :: "string option"
  pr_gpu_ms :: int
  pr_frames :: int
  pr_duration_ms :: int
  pr_created_at :: moment

record report_receipt =
  rc_range_id :: uuid
  rc_report_sequence :: int
  rc_report_hash :: string
  rc_gpu_ms :: int
  rc_frames :: int
  rc_duration_ms :: int
  rc_ack_body :: string
  rc_accepted_at :: moment

record user_row =
  us_id :: uuid
  us_role :: string
  us_state :: string

record auth_session_row =
  se_id :: uuid
  se_user_id :: uuid
  se_revoked_at :: "moment option"
  se_idle_expires_at :: "moment option"
  se_absolute_expires_at :: moment

record asset_row =
  as_id :: uuid
  as_user_id :: uuid

section \<open>The database\<close>

record fleet_db =
  db_leases :: "scheduler_lease list"
  db_connections :: "worker_connection list"
  db_commands :: "worker_command list"
  db_sessions :: "realtime_session list"
  db_attempts :: "realtime_attempt list"
  db_jobs :: "job_row list"
  db_job_attempts :: "job_attempt list"
  db_ranges :: "physical_range list"
  db_receipts :: "report_receipt list"
  db_users :: "user_row list"
  db_auth_sessions :: "auth_session_row list"
  db_assets :: "asset_row list"

text \<open>
  What a serving process knows about itself: \<open>SCHEDULER_OWNER_ID\<close>, \<open>TRANSPORT_OWNER_ID\<close>, the
  auth mode (\<open>auth_mode.current()\<close>) and the local user of an installation without accounts.
\<close>

record process_env =
  pe_scheduler_owner :: uuid
  pe_transport_owner :: uuid
  pe_auth_mode :: string
  pe_local_user :: "uuid option"

datatype fleet_exn =
    AuthorityUnavailable string
  | CommandRefused string
  | IntegrityError string
  | ValueError
  | DataError
  | PyError py_exn

type_synonym 'a tx = "fleet_exn + ('a \<times> fleet_db)"

text \<open>The database after a transaction: an exception rolls it back.\<close>

definition after :: "'a tx \<Rightarrow> fleet_db \<Rightarrow> fleet_db" where
  "after r db = (case r of Inl _ \<Rightarrow> db | Inr (_, db') \<Rightarrow> db')"

lemma after_simps [simp]: "after (Inl e) db = db" "after (Inr (v, db')) db = db'"
  by (simp_all add: after_def)

text \<open>\<open>if bad: raise e\<close> in front of the rest of a transaction.\<close>

definition raise_if :: "bool \<Rightarrow> 'e \<Rightarrow> 'e + 'a \<Rightarrow> 'e + 'a" where
  "raise_if bad e rest = (if bad then Inl e else rest)"

lemma raise_if_Inr [simp]: "raise_if bad e rest = Inr x \<longleftrightarrow> \<not> bad \<and> rest = Inr x"
  by (simp add: raise_if_def)

text \<open>A nullable timestamp compared with the clock: \<open>NULL\<close> is not greater.\<close>

definition open_conn :: "worker_connection \<Rightarrow> bool" where
  "open_conn w \<longleftrightarrow> wc_closed_at w = None"

section \<open>Keys\<close>

definition conn_key :: "worker_connection \<Rightarrow> string \<times> uuid" where
  "conn_key w = (wc_worker_id w, wc_incarnation w)"

definition cmd_key :: "worker_command \<Rightarrow> string \<times> uuid \<times> int" where
  "cmd_key c = (cmd_worker_id c, cmd_incarnation c, cmd_sequence c)"

definition cmd_conn :: "worker_command \<Rightarrow> string \<times> uuid" where
  "cmd_conn c = (cmd_worker_id c, cmd_incarnation c)"

definition attempt_key :: "realtime_attempt \<Rightarrow> uuid \<times> int" where
  "attempt_key a = (ra_session_id a, ra_control_generation a)"

definition job_attempt_key :: "job_attempt \<Rightarrow> uuid \<times> int" where
  "job_attempt_key a = (ja_job_id a, ja_dispatch_sequence a)"

definition receipt_key :: "report_receipt \<Rightarrow> uuid \<times> int" where
  "receipt_key r = (rc_range_id r, rc_report_sequence r)"

interpretation leases: keyed_rows sl_region db_leases db_leases_update
  by unfold_locales simp

interpretation conns: keyed_rows conn_key db_connections db_connections_update
  by unfold_locales simp

interpretation cmds: keyed_rows cmd_key db_commands db_commands_update
  by unfold_locales simp

interpretation rts: keyed_rows rs_id db_sessions db_sessions_update
  by unfold_locales simp

interpretation rtas: keyed_rows attempt_key db_attempts db_attempts_update
  by unfold_locales simp

interpretation jobs: keyed_rows jb_id db_jobs db_jobs_update
  by unfold_locales simp

interpretation jas: keyed_rows job_attempt_key db_job_attempts db_job_attempts_update
  by unfold_locales simp

interpretation ranges: keyed_rows pr_range_id db_ranges db_ranges_update
  by unfold_locales simp

interpretation receipts: keyed_rows receipt_key db_receipts db_receipts_update
  by unfold_locales simp

section \<open>Lookups\<close>

definition lease_of :: "string \<Rightarrow> fleet_db \<Rightarrow> scheduler_lease option" where
  "lease_of region db = find (\<lambda>l. sl_region l = region) (db_leases db)"

definition conn_of :: "string \<Rightarrow> uuid \<Rightarrow> fleet_db \<Rightarrow> worker_connection option" where
  "conn_of w i db = find (\<lambda>c. conn_key c = (w, i)) (db_connections db)"

definition session_of :: "uuid \<Rightarrow> fleet_db \<Rightarrow> realtime_session option" where
  "session_of i db = find (\<lambda>s. rs_id s = i) (db_sessions db)"

definition attempt_of :: "uuid \<Rightarrow> int \<Rightarrow> fleet_db \<Rightarrow> realtime_attempt option" where
  "attempt_of i g db = find (\<lambda>a. attempt_key a = (i, g)) (db_attempts db)"

definition job_of :: "uuid \<Rightarrow> fleet_db \<Rightarrow> job_row option" where
  "job_of i db = find (\<lambda>j. jb_id j = i) (db_jobs db)"

definition job_attempt_of :: "uuid \<Rightarrow> int \<Rightarrow> fleet_db \<Rightarrow> job_attempt option" where
  "job_attempt_of i d db = find (\<lambda>a. job_attempt_key a = (i, d)) (db_job_attempts db)"

definition range_of :: "uuid \<Rightarrow> fleet_db \<Rightarrow> physical_range option" where
  "range_of i db = find (\<lambda>r. pr_range_id r = i) (db_ranges db)"

definition command_of :: "string \<Rightarrow> uuid \<Rightarrow> int \<Rightarrow> fleet_db \<Rightarrow> worker_command option" where
  "command_of w i s db = find (\<lambda>c. cmd_key c = (w, i, s)) (db_commands db)"

definition receipt_of :: "uuid \<Rightarrow> int \<Rightarrow> fleet_db \<Rightarrow> report_receipt option" where
  "receipt_of i s db = find (\<lambda>r. receipt_key r = (i, s)) (db_receipts db)"

text \<open>A lookup with a further condition, \<open>SELECT ... WHERE key = ... AND P\<close>.\<close>

definition such :: "('r \<Rightarrow> bool) \<Rightarrow> 'r option \<Rightarrow> 'r option" where
  "such P row = (case row of None \<Rightarrow> None | Some r \<Rightarrow> if P r then Some r else None)"

lemma such_Some [simp]: "such P row = Some r \<longleftrightarrow> row = Some r \<and> P r"
  by (auto simp: such_def split: option.splits if_splits)

lemma such_Some_arg [simp]: "such P (Some r) = (if P r then Some r else None)"
  and such_None_arg [simp]: "such P None = None"
  by (simp_all add: such_def)

end
