(* ===== verification/Protocol6.thy ===== *)
theory Protocol6
  imports Json "HOL-Library.Product_Lexorder"
begin

text \<open>
  The worker control protocol, version 6 (\<open>src/backend/app/protocol6.py\<close>): the catalogue of
  closed message shapes, the validation of a control, and the two entry points
  \<open>decode_control\<close> (received bytes) and \<open>preflight_worker_control\<close> (controls to send).
\<close>

section \<open>Limits and shapes\<close>

definition MAX_HELLO_BYTES :: nat where "MAX_HELLO_BYTES = 2 * 1024 * 1024"
definition MAX_PARAMETER_CONTROL_BYTES :: nat where "MAX_PARAMETER_CONTROL_BYTES = 1024 * 1024"
definition MAX_WORKER_CONTROL_BYTES :: nat where "MAX_WORKER_CONTROL_BYTES = 16 * 1024"
definition MAX_COUNTER :: int where "MAX_COUNTER = 2 ^ 63 - 1"

definition SHAPE_ROWS :: "(string \<times> string \<times> string) list" where
  "SHAPE_ROWS = [
    (''open_session'',
     ''attempt_id,body_hash,command_id,command_sequence,control_generation,grant_nonce,incarnation,lease_expires_at,lease_id,model_id,owner_epoch,params,region,session_id,type,work_budget,worker_id'',
     ''''),
    (''update_session'',
     ''attempt_id,body_hash,command_id,command_sequence,control_generation,grant_nonce,incarnation,lease_expires_at,lease_id,model_id,owner_epoch,params,params_revision,region,session_id,type,worker_id'',
     ''''),
    (''close_session'',
     ''attempt_id,body_hash,command_id,command_sequence,control_generation,grant_nonce,incarnation,lease_expires_at,lease_id,owner_epoch,region,session_id,type,worker_id'',
     ''''),
    (''dispatch_job'',
     ''body_hash,command_id,command_sequence,dispatch_sequence,dispatch_token,grant_nonce,incarnation,job_id,lease_expires_at,lease_id,model_id,owner_epoch,params,region,type,upload,work_budget,worker_id'',
     ''input,thumb_upload''),
    (''cancel_job'',
     ''body_hash,command_id,command_sequence,dispatch_sequence,dispatch_token,grant_nonce,incarnation,job_id,lease_expires_at,lease_id,owner_epoch,region,type,worker_id'',
     ''''),
    (''pause_job'',
     ''body_hash,command_id,command_sequence,dispatch_sequence,dispatch_token,grant_nonce,incarnation,job_id,lease_expires_at,lease_id,owner_epoch,region,type,worker_id'',
     ''''),
    (''resume_job'',
     ''body_hash,checkpoint,command_id,command_sequence,dispatch_sequence,dispatch_token,grant_nonce,incarnation,job_id,lease_expires_at,lease_id,model_id,owner_epoch,params,parent_dispatch_sequence,region,type,upload,work_budget,worker_id'',
     ''input,thumb_upload''),
    (''drain_worker'',
     ''body_hash,command_id,command_sequence,grant_nonce,incarnation,lease_expires_at,lease_id,owner_epoch,region,type,worker_id'',
     ''''),
    (''hello'',
     ''capabilities,compatible_versions,device,grant_nonce,incarnation,memory_mode,models,protocol_version,realtime_slots,type,worker_id'',
     ''previous_incarnation,realtime_batch_ms,realtime_p95_ms''),
    (''registered'',
     ''grant_nonce,incarnation,lease_expires_at,lease_id,owner_epoch,protocol_version,ready,region,remaining_ms,transport_owner_id,type,worker_id'',
     ''model_store''),
    (''grant_request'',
     ''grant_nonce,incarnation,region,type,worker_id'',
     ''''),
    (''work_grant'',
     ''grant_nonce,incarnation,lease_expires_at,lease_id,owner_epoch,ready,region,remaining_ms,type,worker_id'',
     ''''),
    (''command_ack'',
     ''attempt_id,body_hash,command_id,command_sequence,control_generation,grant_nonce,incarnation,lease_expires_at,lease_id,owner_epoch,region,session_id,status,type,worker_id'',
     ''''),
    (''checkpoint'',
     ''attempt_id,control_generation,duration_ms,frames,gpu_ms,incarnation,owner_epoch,range_id,region,report_hash,report_sequence,session_id,type,worker_id'',
     ''''),
    (''checkpoint_ack'',
     ''attempt_id,control_generation,duration_ms,frames,gpu_ms,incarnation,owner_epoch,range_id,region,report_hash,report_sequence,session_id,status,type,worker_id'',
     ''''),
    (''rejected'',
     ''min_supported_version,reason,type'',
     ''''),
    (''heartbeat'',
     ''frame_p95_ms,gpu,incarnation,loaded_models,region,slots_in_use,type,worker_id'',
     ''memory_mode''),
    (''session_ready'',
     ''attempt_id,control_generation,grant_nonce,incarnation,lease_expires_at,lease_id,owner_epoch,params_revision,region,session_id,type,worker_id'',
     ''''),
    (''session_refused'',
     ''attempt_id,code,control_generation,grant_nonce,incarnation,lease_expires_at,lease_id,owner_epoch,region,session_id,type,worker_id'',
     ''''),
    (''session_closed'',
     ''attempt_id,category,control_generation,duration_ms,frames,gpu_ms,grant_nonce,incarnation,lease_expires_at,lease_id,owner_epoch,physical_complete,range_id,region,report_hash,report_sequence,session_id,type,worker_id'',
     ''category_score''),
    (''job_done'',
     ''category,dispatch_sequence,dispatch_token,duration_ms,gpu_ms,grant_nonce,height,images,incarnation,job_id,lease_expires_at,lease_id,owner_epoch,physical_complete,range_id,region,report_hash,report_sequence,type,width,worker_id'',
     ''category_score,has_thumbnail,input_fetch_ms,load_ms,postprocess_ms''),
    (''job_failed'',
     ''dispatch_sequence,dispatch_token,duration_ms,failure_code,gpu_ms,grant_nonce,images,incarnation,job_id,lease_expires_at,lease_id,owner_epoch,physical_complete,range_id,reason,region,report_hash,report_sequence,type,worker_id'',
     ''''),
    (''job_cancelled'',
     ''dispatch_sequence,dispatch_token,duration_ms,gpu_ms,grant_nonce,images,incarnation,job_id,lease_expires_at,lease_id,owner_epoch,physical_complete,range_id,region,report_hash,report_sequence,type,worker_id'',
     ''''),
    (''job_paused'',
     ''checkpoint,dispatch_sequence,dispatch_token,duration_ms,gpu_ms,grant_nonce,images,incarnation,job_id,lease_expires_at,lease_id,owner_epoch,physical_complete,range_id,region,report_hash,report_sequence,type,worker_id'',
     ''''),
    (''job_progress'',
     ''dispatch_sequence,dispatch_token,grant_nonce,incarnation,job_id,lease_expires_at,lease_id,owner_epoch,phase,progress,region,step,steps,type,worker_id'',
     ''''),
    (''worker_drained'',
     ''active_attempt_count,drain_id,final_reports,incarnation,owner_epoch,physical_complete,region,type,worker_id'',
     ''''),
    (''predecessor_report'',
     ''incarnation,previous_incarnation,region,report,type,worker_id'',
     ''''),
    (''prepare_realtime_class'',
     ''attempt_id,control_generation,envelope_revision,grant_nonce,incarnation,lease_expires_at,lease_id,model_id,model_revision,owner_epoch,params,params_hash,params_revision,region,request_id,session_id,type,worker_id'',
     ''''),
    (''class_prepared'',
     ''attempt_id,class_components,class_id,control_generation,envelope_revision,grant_nonce,incarnation,lease_expires_at,lease_id,measured_envelope_id,model_id,model_revision,owner_epoch,params_hash,params_revision,region,request_id,serial_cost_ms,session_id,type,worker_id'',
     ''''),
    (''class_refused'',
     ''attempt_id,code,control_generation,envelope_revision,grant_nonce,incarnation,lease_expires_at,lease_id,model_id,model_revision,owner_epoch,params_hash,params_revision,region,request_id,session_id,type,worker_id'',
     ''''),
    (''gpu_status'',
     ''incarnation,region,request_id,type,worker_id'',
     ''''),
    (''install_model'',
     ''incarnation,model_id,type,worker_id'',
     ''op_id''),
    (''cancel_install'',
     ''incarnation,model_id,type,worker_id'',
     ''op_id''),
    (''remove_model'',
     ''incarnation,model_id,type,worker_id'',
     ''op_id''),
    (''store_status'',
     ''disk_free_bytes,downloads,incarnation,type,worker_id'',
     ''''),
    (''store_inventory'',
     ''catalog,hardware,incarnation,op_id,type,worker_id'',
     ''''),
    (''models_changed'',
     ''catalog,incarnation,models,type,worker_id'',
     ''''),
    (''gpu_status'',
     ''envelope_revision,gpu,incarnation,loaded_models,region,request_id,type,worker_id'',
     ''''),
    (''load_model'',
     ''body_hash,command_id,command_sequence,grant_nonce,incarnation,lease_expires_at,lease_id,model_id,model_revision,owner_epoch,profile,region,request_id,type,worker_id'',
     ''''),
    (''unload_model'',
     ''body_hash,command_id,command_sequence,grant_nonce,incarnation,lease_expires_at,lease_id,model_id,owner_epoch,region,request_id,type,worker_id'',
     ''''),
    (''model_loaded'',
     ''envelope_revision,grant_nonce,incarnation,lease_expires_at,lease_id,loaded_models,model_id,owner_epoch,region,request_id,type,worker_id'',
     ''load_ms''),
    (''model_unloaded'',
     ''envelope_revision,grant_nonce,incarnation,lease_expires_at,lease_id,loaded_models,model_id,owner_epoch,region,request_id,type,worker_id'',
     ''''),
    (''gpu_error'',
     ''envelope_revision,failure_code,grant_nonce,incarnation,lease_expires_at,lease_id,loaded_models,model_id,owner_epoch,reason,region,request_id,type,worker_id'',
     ''''),
    (''checkpoint_ack'',
     ''attempt_id,code,control_generation,duration_ms,frames,gpu_ms,incarnation,owner_epoch,range_id,region,report_hash,report_sequence,session_id,status,type,worker_id'',
     ''''),
    (''command_ack'',
     ''attempt_id,body_hash,code,command_id,command_sequence,control_generation,grant_nonce,incarnation,lease_expires_at,lease_id,owner_epoch,region,session_id,status,type,worker_id'',
     ''''),
    (''command_ack'',
     ''attempt_id,body_hash,code,command_id,command_sequence,control_generation,expected_sequence,grant_nonce,incarnation,lease_expires_at,lease_id,owner_epoch,region,session_id,status,type,worker_id'',
     ''''),
    (''registered'',
     ''protocol_version,type'',
     ''''),
    (''checkpoint'',
     ''dispatch_sequence,duration_ms,gpu_ms,images,incarnation,job_id,owner_epoch,range_id,region,report_hash,report_sequence,type,worker_id'',
     ''''),
    (''checkpoint_ack'',
     ''dispatch_sequence,duration_ms,gpu_ms,images,incarnation,job_id,owner_epoch,range_id,region,report_hash,report_sequence,status,type,worker_id'',
     ''''),
    (''checkpoint_ack'',
     ''code,dispatch_sequence,duration_ms,gpu_ms,images,incarnation,job_id,owner_epoch,range_id,region,report_hash,report_sequence,status,type,worker_id'',
     ''''),
    (''command_ack'',
     ''body_hash,command_id,command_sequence,dispatch_sequence,grant_nonce,incarnation,job_id,lease_expires_at,lease_id,owner_epoch,region,status,type,worker_id'',
     ''''),
    (''command_ack'',
     ''body_hash,code,command_id,command_sequence,dispatch_sequence,grant_nonce,incarnation,job_id,lease_expires_at,lease_id,owner_epoch,region,status,type,worker_id'',
     ''''),
    (''command_ack'',
     ''body_hash,command_id,command_sequence,grant_nonce,incarnation,lease_expires_at,lease_id,model_id,owner_epoch,region,request_id,status,type,worker_id'',
     ''''),
    (''command_ack'',
     ''body_hash,code,command_id,command_sequence,grant_nonce,incarnation,lease_expires_at,lease_id,model_id,owner_epoch,region,request_id,status,type,worker_id'',
     ''''),
    (''command_ack'',
     ''body_hash,code,command_id,command_sequence,dispatch_sequence,expected_sequence,grant_nonce,incarnation,job_id,lease_expires_at,lease_id,owner_epoch,region,status,type,worker_id'',
     ''''),
    (''command_ack'',
     ''body_hash,code,command_id,command_sequence,expected_sequence,grant_nonce,incarnation,lease_expires_at,lease_id,model_id,owner_epoch,region,request_id,status,type,worker_id'',
     ''''),
    (''command_ack'',
     ''body_hash,command_id,command_sequence,grant_nonce,incarnation,lease_expires_at,lease_id,owner_epoch,region,status,type,worker_id'',
     ''''),
    (''command_ack'',
     ''body_hash,code,command_id,command_sequence,grant_nonce,incarnation,lease_expires_at,lease_id,owner_epoch,region,status,type,worker_id'',
     ''''),
    (''command_ack'',
     ''body_hash,code,command_id,command_sequence,expected_sequence,grant_nonce,incarnation,lease_expires_at,lease_id,owner_epoch,region,status,type,worker_id'',
     '''')]"

text \<open>\<open>text.split(",")\<close>; in particular the empty text splits into one empty piece.\<close>

fun split_commas :: "string \<Rightarrow> string list" where
  "split_commas [] = [[]]"
| "split_commas (c # cs) =
     (if c = CHR '','' then [] # split_commas cs
      else case split_commas cs of [] \<Rightarrow> [[c]] | p # ps \<Rightarrow> (c # p) # ps)"

text \<open>\<open>_SHAPES.get(type)\<close>: the required and the optional fields of each variant.\<close>

definition SHAPES :: "string \<Rightarrow> (string list \<times> string list) list" where
  "SHAPES kind = map (\<lambda>(_, required, optional). (split_commas required, split_commas optional))
     (filter (\<lambda>(k, _, _). k = kind) SHAPE_ROWS)"

section \<open>Field classes\<close>

definition UUID_FIELDS :: "string list" where
  "UUID_FIELDS = [
     ''incarnation'', ''previous_incarnation'', ''grant_nonce'', ''lease_id'',
     ''transport_owner_id'', ''command_id'', ''session_id'', ''attempt_id'', ''job_id'',
     ''range_id'', ''drain_id'', ''request_id'', ''measured_envelope_id'']"

definition POSITIVE :: "string list" where
  "POSITIVE = [
     ''protocol_version'', ''owner_epoch'', ''command_sequence'', ''control_generation'',
     ''params_revision'', ''dispatch_sequence'', ''parent_dispatch_sequence'', ''report_sequence'',
     ''expected_sequence'', ''envelope_revision'', ''schema_version'', ''max_bytes'', ''width'',
     ''height'', ''steps'', ''serial_cost_ms'']"

definition NONNEGATIVE :: "string list" where
  "NONNEGATIVE = [
     ''min_supported_version'', ''realtime_slots'', ''slots_in_use'', ''gpu_ms'', ''frames'',
     ''images'', ''duration_ms'', ''active_attempt_count'', ''input_fetch_ms'', ''load_ms'',
     ''postprocess_ms'', ''vram_used_bytes'', ''vram_total_bytes'', ''util_pct'',
     ''vram_used_pct'', ''remaining_ms'', ''start_gpu_ms'', ''byte_size'', ''disk_free_bytes'',
     ''disk_total_bytes'', ''download_bytes'', ''bytes_done'', ''bytes_total'']"

definition HASH_FIELDS :: "string list" where
  "HASH_FIELDS = [
     ''body_hash'', ''report_hash'', ''params_hash'', ''class_id'', ''checkpoint_hash'', ''sha256'']"

definition STRING_FIELDS :: "string list" where
  "STRING_FIELDS = [
     ''worker_id'', ''region'', ''device'', ''model_id'', ''model_revision'', ''memory_mode'',
     ''reason'', ''status'', ''code'', ''category'', ''phase'', ''failure_code'',
     ''dispatch_token'', ''profile'', ''selection'', ''dtype'', ''guidance_mode'', ''kind'',
     ''compatibility_id'', ''url'', ''name'', ''type'']"

section \<open>Field predicates\<close>

definition hex_char :: "char \<Rightarrow> bool" where
  "hex_char c \<longleftrightarrow> c \<in> set ''0123456789abcdef''"

definition dec_char :: "char \<Rightarrow> bool" where
  "dec_char c \<longleftrightarrow> c \<in> set ''0123456789''"

text \<open>
  \<open>str(uuid.UUID(v)) == v\<close>: the constructor accepts many spellings, its text is always the
  lowercase 8-4-4-4-12 form, so the comparison holds on that form alone.
\<close>

definition uuid_text :: "string \<Rightarrow> bool" where
  "uuid_text v \<longleftrightarrow> length v = 36 \<and>
     list_all (\<lambda>(i, c). if i \<in> {8, 13, 18, 23 :: nat} then c = CHR ''-'' else hex_char c)
       (enumerate 0 v)"

fun uuid_value :: "json \<Rightarrow> bool" where
  "uuid_value (JStr v) = uuid_text v"
| "uuid_value _ = False"

fun integer_value :: "bool \<Rightarrow> json \<Rightarrow> bool" where
  "integer_value positive (JInt v) \<longleftrightarrow> (if positive then v > 0 else v \<ge> 0) \<and> v \<le> MAX_COUNTER"
| "integer_value positive _ \<longleftrightarrow> False"

fun hex64_value :: "json \<Rightarrow> bool" where
  "hex64_value (JStr v) \<longleftrightarrow> length v = 64 \<and> list_all hex_char v"
| "hex64_value _ \<longleftrightarrow> False"

fun str_value :: "json \<Rightarrow> bool" where
  "str_value (JStr _) = True"
| "str_value _ = False"

fun bool_value :: "json \<Rightarrow> bool" where
  "bool_value (JBool _) = True"
| "bool_value _ = False"

text \<open>The pattern \<open>dddd-dd-ddTdd:dd:dd\<close>, an optional fraction, \<open>Z\<close>, on the whole text.\<close>

definition rfc3339_text :: "string \<Rightarrow> bool" where
  "rfc3339_text v \<longleftrightarrow>
     list_all2 (\<lambda>p c. if p = CHR ''d'' then dec_char c else c = p) ''dddd-dd-ddTdd:dd:dd'' (take 19 v) \<and>
     (case drop 19 v of
        [] \<Rightarrow> False
      | c # rest \<Rightarrow> c = CHR ''Z'' \<and> rest = [] \<or>
          c = CHR ''.'' \<and> rest \<noteq> [] \<and> last rest = CHR ''Z'' \<and> butlast rest \<noteq> [] \<and>
          list_all dec_char (butlast rest))"

fun rfc3339_value :: "json \<Rightarrow> bool" where
  "rfc3339_value (JStr v) = rfc3339_text v"
| "rfc3339_value _ = False"

text \<open>
  \<open>math.isfinite(v)\<close> converts an integer to a double first, which raises \<open>OverflowError\<close> from
  \<open>2^1024 - 2^970\<close> on.
\<close>

definition int_fits_float :: "int \<Rightarrow> bool" where
  "int_fits_float i \<longleftrightarrow> \<bar>i\<bar> < 2 ^ 1024 - 2 ^ 970"

text \<open>\<open>isinstance(v, bool) or not isinstance(v, (int, float)) or not math.isfinite(v) or not ok(v)\<close>.\<close>

fun bad_measure :: "(rat \<Rightarrow> bool) \<Rightarrow> json \<Rightarrow> py_exn + bool" where
  "bad_measure ok (JInt i) = (if int_fits_float i then Inr (\<not> ok (of_int i)) else Inl OverflowError)"
| "bad_measure ok (JFloat f) =
     Inr (case float_val f of None \<Rightarrow> True | Some q \<Rightarrow> \<not> ok q)"
| "bad_measure ok _ = Inr True"

definition unit_interval :: "rat \<Rightarrow> bool" where
  "unit_interval q \<longleftrightarrow> 0 \<le> q \<and> q \<le> 1"

text \<open>\<open>if bad: raise Protocol6Error(message)\<close>.\<close>

definition refuse_if :: "bool \<Rightarrow> string \<Rightarrow> py_exn + unit" where
  "refuse_if bad message = (if bad then Inl (Protocol6Error message) else Inr ())"

definition refuse_measure :: "(rat \<Rightarrow> bool) \<Rightarrow> json \<Rightarrow> string \<Rightarrow> py_exn + unit" where
  "refuse_measure ok v message = bindR (bad_measure ok v) (\<lambda>bad. refuse_if bad message)"

fun all_ok :: "(py_exn + unit) list \<Rightarrow> py_exn + unit" where
  "all_ok [] = Inr ()"
| "all_ok (c # cs) = bindR c (\<lambda>_. all_ok cs)"

definition BOOLEAN_FIELDS :: "string list" where
  "BOOLEAN_FIELDS = [''ready'', ''available'', ''has_thumbnail'', ''physical_complete'', ''batch_eligible'']"

definition NESTED_KEYS :: "string list" where
  "NESTED_KEYS = [[], ''class_components'', ''checkpoint'', ''gpu'', ''work_budget'']"

section \<open>Types of the fields\<close>

text \<open>The tests of \<open>_validate_types\<close> on one value under one key, in the order of the code.\<close>

definition validate_field :: "string \<Rightarrow> json \<Rightarrow> py_exn + unit" where
  "validate_field key value = all_ok [
     refuse_if (key = ''op_id'' \<and> value \<noteq> JNull \<and> \<not> str_value value)
       ''op_id must be a string or null'',
     refuse_if (key \<in> set UUID_FIELDS \<and> \<not> uuid_value value)
       ''identity must be a canonical UUID'',
     refuse_if (key \<in> set POSITIVE \<and> \<not> integer_value True value)
       ''counter must be a positive signed63 integer'',
     refuse_if (key \<in> set NONNEGATIVE \<and> \<not> integer_value False value)
       ''counter must be a nonnegative signed63 integer'',
     refuse_if (key \<in> set HASH_FIELDS \<and> \<not> hex64_value value)
       ''hash must be lowercase SHA256 hex'',
     refuse_if (key \<in> set STRING_FIELDS \<and> \<not> str_value value)
       ''field must be a string'',
     refuse_if (key = ''lease_expires_at'' \<and> \<not> rfc3339_value value)
       ''lease expiry must be UTC RFC3339'',
     refuse_if (key \<in> {''gpu_ms_limit'', ''remaining_wall_ms''} \<and> value \<noteq> JNull \<and> \<not> integer_value False value)
       ''work limit must be a nonnegative signed63 integer or null'',
     (if key = ''category_score'' then refuse_measure unit_interval value ''category score is invalid'' else Inr ()),
     (if key = ''progress'' then refuse_measure unit_interval value ''progress is invalid'' else Inr ()),
     refuse_if (key \<in> set BOOLEAN_FIELDS \<and> \<not> bool_value value)
       ''observation must be a boolean'']"

fun validate_types :: "json \<Rightarrow> string \<Rightarrow> py_exn + unit"
  and validate_children :: "dict \<Rightarrow> py_exn + unit"
where
  "validate_types (JObj d) key =
     bindR (validate_field key (JObj d)) (\<lambda>_.
       if key \<in> set NESTED_KEYS then validate_children d else Inr ())"
| "validate_types value key = validate_field key value"
| "validate_children [] = Inr ()"
| "validate_children ((child_key, child) # d) =
     bindR (validate_types child child_key) (\<lambda>_. validate_children d)"

section \<open>Size limits\<close>

text \<open>
  Membership of a decoded value in a set of strings: an array or an object is not hashable
  and the test itself raises \<open>TypeError\<close>.
\<close>

fun in_string_set :: "json option \<Rightarrow> string list \<Rightarrow> py_exn + bool" where
  "in_string_set (Some (JStr s)) names = Inr (s \<in> set names)"
| "in_string_set (Some (JArr _)) names = Inl TypeError"
| "in_string_set (Some (JObj _)) names = Inl TypeError"
| "in_string_set _ names = Inr False"

definition message_limit :: "dict \<Rightarrow> py_exn + nat" where
  "message_limit control =
     bindR (in_string_set (dget control ''type'') [''hello'', ''models_changed'', ''store_inventory'']) (\<lambda>big.
     if big then Inr MAX_HELLO_BYTES
     else bindR (in_string_set (dget control ''type'')
         [''open_session'', ''update_session'', ''dispatch_job'', ''resume_job'', ''prepare_realtime_class'']) (\<lambda>par.
     Inr (if par then MAX_PARAMETER_CONTROL_BYTES else MAX_WORKER_CONTROL_BYTES)))"

section \<open>Digests\<close>

text \<open>
  The two library functions the codec calls: \<open>hashlib.sha256(data).hexdigest()\<close> and the text
  \<open>json.dumps\<close> prints for a finite double.
\<close>

record p6_prims =
  p_sha256 :: "string \<Rightarrow> string"
  p_float_repr :: "pyfloat \<Rightarrow> string"

definition sha256_json :: "p6_prims \<Rightarrow> json \<Rightarrow> py_exn + string" where
  "sha256_json P value = bindR (canonical_bytes (p_float_repr P) value) (\<lambda>body. Inr (p_sha256 P body))"

definition digest :: "p6_prims \<Rightarrow> dict \<Rightarrow> string \<Rightarrow> py_exn + unit" where
  "digest P value field =
     bindR (sha256_json P (JObj (dwithout field value))) (\<lambda>h.
       refuse_if (dget value field \<noteq> Some (JStr h)) (field @ '' does not match canonical source bytes''))"

section \<open>The inventory of final reports\<close>

type_synonym report_key = "string \<times> string \<times> string \<times> string"
type_synonym order_key = "string \<times> string \<times> string \<times> int \<times> string"

definition SESSION_REPORT_FIELDS :: "string list" where
  "SESSION_REPORT_FIELDS = [''kind'', ''session_id'', ''attempt_id'', ''control_generation'', ''range_id'',
     ''report_sequence'', ''report_hash'']"

definition JOB_REPORT_FIELDS :: "string list" where
  "JOB_REPORT_FIELDS = [''kind'', ''job_id'', ''dispatch_sequence'', ''range_id'', ''report_sequence'', ''report_hash'']"

fun the_str :: "json option \<Rightarrow> string" where
  "the_str (Some (JStr s)) = s"
| "the_str _ = []"

fun the_int :: "json option \<Rightarrow> int" where
  "the_int (Some (JInt i)) = i"
| "the_int _ = 0"

definition report_subject :: "dict \<Rightarrow> string" where
  "report_subject report = the_str (case dget report ''session_id'' of Some v \<Rightarrow> Some v | None \<Rightarrow> dget report ''job_id'')"

definition report_identity :: "dict \<Rightarrow> report_key" where
  "report_identity report =
     (the_str (dget report ''kind''), report_subject report, the_str (dget report ''attempt_id''),
      the_str (dget report ''range_id''))"

text \<open>
  The sort key \<open>(kind, subject, attempt or dispatch, range_id)\<close>: a session report has an
  attempt and dispatch 0, a job report no attempt and its dispatch sequence.
\<close>

definition report_order :: "dict \<Rightarrow> order_key" where
  "report_order report =
     (the_str (dget report ''kind''), report_subject report, the_str (dget report ''attempt_id''),
      (if dget report ''attempt_id'' = None then the_int (dget report ''dispatch_sequence'') else 0),
      the_str (dget report ''range_id''))"

fun inventory_entry :: "json \<Rightarrow> py_exn + dict" where
  "inventory_entry (JObj report) =
     (let kind = dget report ''kind'';
          fields = (if kind = Some (JStr ''session'') then SESSION_REPORT_FIELDS
                    else if kind = Some (JStr ''job'') then JOB_REPORT_FIELDS else []) in
      if fields = [] \<or> dkeys report \<noteq> set fields then Inl (Protocol6Error ''final report shape is invalid'')
      else bindR (validate_types (JObj report) []) (\<lambda>_. Inr report))"
| "inventory_entry _ = Inl (Protocol6Error ''final report must be an object'')"

fun inventory_loop :: "json list \<Rightarrow> report_key list \<Rightarrow> order_key list \<Rightarrow> py_exn + order_key list" where
  "inventory_loop [] seen order = Inr order"
| "inventory_loop (r # reports) seen order =
     bindR (inventory_entry r) (\<lambda>report.
       if report_identity report \<in> set seen then Inl (Protocol6Error ''final report identity is duplicated'')
       else inventory_loop reports (seen @ [report_identity report]) (order @ [report_order report]))"

definition inventory :: "dict \<Rightarrow> py_exn + unit" where
  "inventory value =
     (case dget value ''final_reports'' of
        Some (JArr reports) \<Rightarrow>
          bindR (inventory_loop reports [] []) (\<lambda>order.
            refuse_if (order \<noteq> sort order) ''final reports are not in canonical order'')
      | _ \<Rightarrow> Inl (Protocol6Error ''final reports must be an array''))"

section \<open>Validation of a control\<close>

text \<open>Is there an item under this key (\<open>k in control\<close>).\<close>

definition has_key :: "dict \<Rightarrow> string \<Rightarrow> bool" where
  "has_key d k \<longleftrightarrow> dget d k \<noteq> None"

text \<open>\<open>not None\<close> for \<open>control.get(k)\<close>: present and not null.\<close>

definition given :: "dict \<Rightarrow> string \<Rightarrow> bool" where
  "given d k \<longleftrightarrow> opt_json (dget d k) \<noteq> JNull"

definition matches_shape :: "string list \<Rightarrow> string list \<times> string list \<Rightarrow> bool" where
  "matches_shape actual shape \<longleftrightarrow>
     set (fst shape) \<subseteq> set actual \<and> set actual \<subseteq> set (fst shape) \<union> set (snd shape)"

definition validate_shape :: "string \<Rightarrow> dict \<Rightarrow> py_exn + unit" where
  "validate_shape kind control =
     refuse_if (\<not> list_ex (matches_shape (map fst control)) (SHAPES kind))
       ''control fields do not match a closed message shape''"

fun validate_download :: "json \<Rightarrow> py_exn + unit" where
  "validate_download (JObj entry) =
     (case dget entry ''kind'' of
        Some (JStr k) \<Rightarrow>
          if k \<in> {''install'', ''remove'', ''cancel''} then
            (case dget entry ''op_id'' of None \<Rightarrow> Inr () | Some v \<Rightarrow> validate_types v ''op_id'')
          else Inl (Protocol6Error ''download kind is invalid'')
      | _ \<Rightarrow> Inl (Protocol6Error ''download kind is invalid''))"
| "validate_download _ = Inl (Protocol6Error ''download kind is invalid'')"

definition validate_downloads :: "string \<Rightarrow> dict \<Rightarrow> py_exn + unit" where
  "validate_downloads kind control =
     (if kind = ''store_status'' then
        (case dget control ''downloads'' of
           Some (JArr entries) \<Rightarrow> all_ok (map validate_download entries)
         | _ \<Rightarrow> Inr ())
      else Inr ())"

definition validate_addressee ::
    "string option \<Rightarrow> uuid option \<Rightarrow> string \<Rightarrow> dict \<Rightarrow> py_exn + unit" where
  "validate_addressee expected_worker_id expected_incarnation kind control = all_ok [
     refuse_if (case expected_worker_id of None \<Rightarrow> False
                | Some w \<Rightarrow> dget control ''worker_id'' \<noteq> Some (JStr w))
       ''control targets a different worker'',
     refuse_if (case expected_incarnation of None \<Rightarrow> False
                | Some i \<Rightarrow> kind \<noteq> ''hello'' \<and> dget control ''incarnation'' \<noteq> Some (JStr i))
       ''control incarnation does not match connection'']"

definition BODY_HASH_KINDS :: "string list" where
  "BODY_HASH_KINDS = [''open_session'', ''update_session'', ''close_session'', ''dispatch_job'', ''cancel_job'',
     ''pause_job'', ''resume_job'', ''drain_worker'', ''load_model'', ''unload_model'']"

definition REPORT_HASH_KINDS :: "string list" where
  "REPORT_HASH_KINDS = [''checkpoint'', ''session_closed'', ''job_done'', ''job_failed'', ''job_cancelled'', ''job_paused'']"

definition validate_digests :: "p6_prims \<Rightarrow> string \<Rightarrow> dict \<Rightarrow> py_exn + unit" where
  "validate_digests P kind control = all_ok [
     (if kind \<in> set BODY_HASH_KINDS then digest P control ''body_hash'' else Inr ()),
     (if kind \<in> set REPORT_HASH_KINDS then digest P control ''report_hash'' else Inr ())]"

definition validate_command_ack :: "string \<Rightarrow> dict \<Rightarrow> py_exn + unit" where
  "validate_command_ack kind control =
     (if kind \<noteq> ''command_ack'' then Inr ()
      else let status = dget control ''status''; code = opt_json (dget control ''code'') in
        bindR (in_string_set status [''accepted'', ''refused'']) (\<lambda>known. all_ok [
          refuse_if (\<not> known) ''command ACK status is invalid'',
          refuse_if (status = Some (JStr ''accepted'') \<and> (code \<noteq> JNull \<or> given control ''expected_sequence'')
              \<or> status = Some (JStr ''refused'') \<and> \<not> str_value code
              \<or> ((code = JStr ''sequence_gap'') \<noteq> given control ''expected_sequence''))
            ''command ACK conditional fields are invalid'',
          refuse_if (has_key control ''job_id'' \<and> (has_key control ''session_id'' \<or> has_key control ''request_id'')
              \<or> has_key control ''session_id'' \<and> has_key control ''job_id''
              \<or> has_key control ''request_id'' \<and> (has_key control ''session_id'' \<or> has_key control ''job_id''))
            ''command ACK subject is ambiguous'']))"

definition validate_checkpoint_ack :: "string \<Rightarrow> dict \<Rightarrow> py_exn + unit" where
  "validate_checkpoint_ack kind control =
     (let refused = (dget control ''status'' = Some (JStr ''refused'')) in
      refuse_if (kind = ''checkpoint_ack'' \<and>
          (refused \<and> \<not> str_value (opt_json (dget control ''code'')) \<or> \<not> refused \<and> has_key control ''code''))
        ''checkpoint ACK conditional fields are invalid'')"

definition GPU_FIELDS :: "string list" where
  "GPU_FIELDS = [''device'', ''available'', ''util_pct'', ''vram_used_pct'', ''vram_used_bytes'',
     ''vram_total_bytes'', ''temperature_c'', ''power_w'']"

definition p95_sample_ok :: "string \<times> json \<Rightarrow> bool" where
  "p95_sample_ok sample \<longleftrightarrow> integer_value True (snd sample) \<and> the_int (Some (snd sample)) \<le> 60000"

definition validate_gpu :: "json \<Rightarrow> py_exn + unit" where
  "validate_gpu gpu =
     (case gpu of
        JNull \<Rightarrow> Inr ()
      | JObj g \<Rightarrow>
          (if \<not> has_key g ''device'' \<or> \<not> dkeys g \<subseteq> set GPU_FIELDS
           then Inl (Protocol6Error ''GPU observation shape is invalid'')
           else all_ok [
             (case dget g ''power_w'' of None \<Rightarrow> Inr ()
              | Some v \<Rightarrow> refuse_measure (\<lambda>q. \<not> q < 0) v ''GPU measurement is invalid''),
             (case dget g ''temperature_c'' of None \<Rightarrow> Inr ()
              | Some v \<Rightarrow> refuse_measure (\<lambda>_. True) v ''GPU measurement is invalid'')])
      | _ \<Rightarrow> Inl (Protocol6Error ''GPU observation shape is invalid''))"

definition validate_heartbeat :: "string \<Rightarrow> dict \<Rightarrow> py_exn + unit" where
  "validate_heartbeat kind control =
     (if kind \<noteq> ''heartbeat'' then Inr ()
      else bindR (case dget control ''frame_p95_ms'' of
                    Some (JObj samples) \<Rightarrow>
                      refuse_if (list_ex (\<lambda>s. \<not> p95_sample_ok s) samples) ''frame p95 observation is invalid''
                  | _ \<Rightarrow> Inl (Protocol6Error ''frame p95 observation is invalid'')) (\<lambda>_.
           validate_gpu (opt_json (dget control ''gpu''))))"

definition validate_budgets :: "string \<Rightarrow> dict \<Rightarrow> py_exn + unit" where
  "validate_budgets kind control = all_ok [
     (if kind \<in> {''open_session'', ''dispatch_job'', ''resume_job''}
      then validate_types (opt_json (dget control ''work_budget'')) [] else Inr ()),
     (if kind \<in> {''resume_job'', ''job_paused''} \<and> has_key control ''checkpoint''
      then validate_types (opt_json (dget control ''checkpoint'')) [] else Inr ())]"

definition validate_chunks :: "dict \<Rightarrow> string \<Rightarrow> py_exn + unit" where
  "validate_chunks components key =
     (case dget components key of
        None \<Rightarrow> Inl (KeyError key)
      | Some (JArr shape) \<Rightarrow>
          refuse_if (length shape > 8 \<or> list_ex (\<lambda>part. \<not> integer_value True part) shape)
            ''class chunk shape is invalid''
      | Some _ \<Rightarrow> Inl (Protocol6Error ''class chunk shape is invalid''))"

definition validate_class :: "p6_prims \<Rightarrow> string \<Rightarrow> dict \<Rightarrow> py_exn + unit" where
  "validate_class P kind control =
     (if kind \<noteq> ''class_prepared'' then Inr ()
      else case dget control ''class_components'' of
        Some (JObj components) \<Rightarrow>
          bindR (sha256_json P (JObj components)) (\<lambda>h. all_ok (
            refuse_if (dget control ''class_id'' \<noteq> Some (JStr h)) ''class identity is invalid''
            # map (validate_chunks components) [''positive_chunks'', ''negative_chunks'', ''edit_chunks'']))
      | _ \<Rightarrow> Inl (Protocol6Error ''class identity is invalid''))"

lemma dget_size: "dget d k = Some v \<Longrightarrow> size v < size (JObj d)"
  unfolding dget_def by (induction d) (auto split: if_splits)

text \<open>
  \<open>validate_message\<close>. The nested report of a \<open>predecessor_report\<close> is validated by the same
  function, against the predecessor's incarnation.
\<close>

function (sequential) validate_message ::
    "p6_prims \<Rightarrow> json \<Rightarrow> string option \<Rightarrow> uuid option \<Rightarrow> py_exn + unit"
where
  "validate_message P (JObj control) expected_worker_id expected_incarnation =
     (case dget control ''type'' of
        Some (JStr kind) \<Rightarrow> all_ok [
          check_json 0 (JObj control),
          validate_shape kind control,
          validate_types (JObj control) [],
          validate_downloads kind control,
          validate_addressee expected_worker_id expected_incarnation kind control,
          validate_digests P kind control,
          validate_command_ack kind control,
          validate_checkpoint_ack kind control,
          validate_heartbeat kind control,
          (if kind = ''worker_drained'' then inventory control else Inr ()),
          (if kind \<noteq> ''predecessor_report'' then Inr ()
           else case dget control ''report'' of
             Some (JObj report) \<Rightarrow>
               bindR (in_string_set (dget report ''type'') [''checkpoint'', ''worker_drained'']) (\<lambda>known.
                 if \<not> known then Inl (Protocol6Error ''predecessor report type is invalid'')
                 else if \<not> uuid_value (opt_json (dget control ''previous_incarnation''))
                 then Inl (Protocol6Error ''predecessor incarnation is invalid'')
                 else validate_message P (JObj report) (Some (the_str (dget control ''worker_id'')))
                        (Some (the_str (dget control ''previous_incarnation''))))
           | _ \<Rightarrow> Inl (Protocol6Error ''predecessor report type is invalid'')),
          validate_budgets kind control,
          validate_class P kind control]
      | _ \<Rightarrow> Inl (Protocol6Error ''control type is missing''))"
| "validate_message P _ _ _ = Inl (Protocol6Error ''control type is missing'')"
  by pat_completeness auto
termination
  by (relation "measure (\<lambda>(_, v, _, _). size v)") (auto dest: dget_size)

declare validate_message.simps [simp del]

section \<open>Entry points\<close>

definition preflight_worker_control ::
    "p6_prims \<Rightarrow> dict \<Rightarrow> string option \<Rightarrow> uuid option \<Rightarrow> py_exn + string" where
  "preflight_worker_control P control expected_worker_id expected_incarnation =
     bindR (validate_message P (JObj control) expected_worker_id expected_incarnation) (\<lambda>_.
     bindR (canonical_bytes (p_float_repr P) (JObj control)) (\<lambda>body.
     bindR (message_limit control) (\<lambda>limit.
       if length body > limit then Inl (Protocol6Error ''control exceeds byte limit'') else Inr body)))"

datatype raw_control = Raw_bytes string | Raw_text string | Raw_other

text \<open>The strict UTF-8 decoder: well-formed sequences only, no surrogate, nothing above U+10FFFF.\<close>

definition cont_byte :: "nat \<Rightarrow> bool" where
  "cont_byte b \<longleftrightarrow> 0x80 \<le> b \<and> b \<le> 0xBF"

fun utf8_bytes :: "nat list \<Rightarrow> bool" where
  "utf8_bytes [] = True"
| "utf8_bytes (a # s) =
     (if a < 0x80 then utf8_bytes s
      else if 0xC2 \<le> a \<and> a \<le> 0xDF then
        (case s of b # t \<Rightarrow> cont_byte b \<and> utf8_bytes t | _ \<Rightarrow> False)
      else if 0xE0 \<le> a \<and> a \<le> 0xEF then
        (case s of b # c # t \<Rightarrow> cont_byte b \<and> cont_byte c \<and> (a = 0xE0 \<longrightarrow> 0xA0 \<le> b)
             \<and> (a = 0xED \<longrightarrow> b \<le> 0x9F) \<and> utf8_bytes t | _ \<Rightarrow> False)
      else if 0xF0 \<le> a \<and> a \<le> 0xF4 then
        (case s of b # c # d # t \<Rightarrow> cont_byte b \<and> cont_byte c \<and> cont_byte d \<and> (a = 0xF0 \<longrightarrow> 0x90 \<le> b)
             \<and> (a = 0xF4 \<longrightarrow> b \<le> 0x8F) \<and> utf8_bytes t | _ \<Rightarrow> False)
      else False)"

definition raw_data :: "raw_control \<Rightarrow> py_exn + string" where
  "raw_data raw =
     (case raw of
        Raw_bytes b \<Rightarrow> if utf8_bytes (map of_char b) then Inr b else Inl (Protocol6Error ''invalid UTF-8'')
      | Raw_text t \<Rightarrow> if utf8_strict t then Inr t else Inl (Protocol6Error ''invalid Unicode'')
      | Raw_other \<Rightarrow> Inl (Protocol6Error ''control must be UTF-8 text''))"

text \<open>
  \<open>json.loads\<close> with its two hooks: \<open>Inl (Some e)\<close> an exception a hook raised, \<open>Inl None\<close> its own
  \<open>ValueError\<close> or \<open>RecursionError\<close>.
\<close>

type_synonym json_loads =
  "(dict \<Rightarrow> py_exn + dict) \<Rightarrow> (string \<Rightarrow> py_exn + json) \<Rightarrow> string \<Rightarrow> py_exn option + json"

definition loaded :: "py_exn option + json \<Rightarrow> py_exn + json" where
  "loaded r = (case r of Inl (Some e) \<Rightarrow> Inl e | Inl None \<Rightarrow> Inl (Protocol6Error ''malformed JSON'')
               | Inr v \<Rightarrow> Inr v)"

definition decode_control :: "json_loads \<Rightarrow> raw_control \<Rightarrow> py_exn + dict" where
  "decode_control loads raw =
     bindR (raw_data raw) (\<lambda>data.
     if data = [] \<or> length data > MAX_HELLO_BYTES then Inl (Protocol6Error ''control size is invalid'')
     else bindR (loaded (loads pairs_hook constant_hook data)) (\<lambda>v.
       case v of
         JObj control \<Rightarrow>
           bindR (check_json 0 (JObj control)) (\<lambda>_.
           bindR (message_limit control) (\<lambda>limit.
             if length data > limit then Inl (Protocol6Error ''control exceeds its byte limit'')
             else Inr control))
       | _ \<Rightarrow> Inl (Protocol6Error ''control must be an object'')))"

section \<open>What acceptance means\<close>

lemma all_ok_iff: "all_ok cs = Inr () \<longleftrightarrow> list_all (\<lambda>c. c = Inr ()) cs"
  by (induction cs) (auto simp: bindR_Inr_iff)

declare all_ok.simps(2) [simp del]

lemma refuse_if_ok [simp]: "refuse_if bad message = Inr () \<longleftrightarrow> \<not> bad"
  by (simp add: refuse_if_def)

text \<open>Every stage of the validation passed, and a nested report was itself accepted.\<close>

lemma validate_message_stages:
  assumes "validate_message P (JObj d) w i = Inr ()"
  obtains kind where "dget d ''type'' = Some (JStr kind)"
    "check_json 0 (JObj d) = Inr ()" "validate_shape kind d = Inr ()" "validate_types (JObj d) [] = Inr ()"
    "validate_addressee w i kind d = Inr ()" "validate_digests P kind d = Inr ()"
    "validate_command_ack kind d = Inr ()" "validate_checkpoint_ack kind d = Inr ()"
    "validate_heartbeat kind d = Inr ()" "kind = ''worker_drained'' \<Longrightarrow> inventory d = Inr ()"
    "validate_budgets kind d = Inr ()" "validate_class P kind d = Inr ()"
    "kind = ''predecessor_report'' \<Longrightarrow> \<exists>report. dget d ''report'' = Some (JObj report) \<and>
       validate_message P (JObj report) (Some (the_str (dget d ''worker_id'')))
         (Some (the_str (dget d ''previous_incarnation''))) = Inr ()"
proof -
  obtain kind where kind: "dget d ''type'' = Some (JStr kind)"
    using assms by (auto simp: validate_message.simps split: option.splits json.splits)
  show ?thesis
    using assms kind
    by (intro that[OF kind])
      (auto simp: validate_message.simps all_ok_iff bindR_Inr_iff split: option.split_asm json.split_asm if_split_asm)
qed

end
