(* ===== verification/Keyring.thy ===== *)
theory Keyring
  imports Json
begin

text \<open>
  The versioned root key ring (\<open>src/backend/app/keyring.py\<close>): parsing of the configured root
  keys, the ring, and authenticated values bound to a purpose and a context. HKDF and AES-GCM
  belong to the \<open>cryptography\<close> package and are parameters.
\<close>

section \<open>Primitives of the cryptography package\<close>

text \<open>
  \<open>cr_hkdf root info\<close> is the derived key, \<open>cr_seal key nonce plaintext ad\<close> the ciphertext with
  its tag, and \<open>cr_open key nonce ciphertext ad\<close> the plaintext, \<open>None\<close> when it raises \<open>InvalidTag\<close>.
\<close>

record crypto =
  cr_hkdf :: "string \<Rightarrow> string \<Rightarrow> string"
  cr_seal :: "string \<Rightarrow> string \<Rightarrow> string \<Rightarrow> string \<Rightarrow> string"
  cr_open :: "string \<Rightarrow> string \<Rightarrow> string \<Rightarrow> string \<Rightarrow> string option"

text \<open>What the documentation of \<open>AESGCM\<close> says: it opens what it sealed, and adds a 16 byte tag.\<close>

definition aead_opens :: "crypto \<Rightarrow> bool" where
  "aead_opens cr \<longleftrightarrow> (\<forall>k n p a. cr_open cr k n (cr_seal cr k n p a) a = Some p)"

definition aead_tagged :: "crypto \<Rightarrow> bool" where
  "aead_tagged cr \<longleftrightarrow> (\<forall>k n p a. length (cr_seal cr k n p a) = length p + 16)"

section \<open>Constants and encodings\<close>

definition KEY_BYTES :: nat where "KEY_BYTES = 32"
definition VERSION_BYTES :: nat where "VERSION_BYTES = 2"
definition NONCE_BYTES :: nat where "NONCE_BYTES = 12"
definition TAG_BYTES :: nat where "TAG_BYTES = 16"
definition MAX_VERSION :: int where "MAX_VERSION = 32767"
definition APPLICATION :: string where "APPLICATION = ''potocolom root key ring v1''"

lemmas ring_sizes = KEY_BYTES_def VERSION_BYTES_def NONCE_BYTES_def TAG_BYTES_def MAX_VERSION_def

text \<open>\<open>struct.pack(">H", n)\<close>, \<open>struct.pack(">I", n)\<close> and \<open>int.from_bytes(b, "big")\<close>.\<close>

definition pack_u16 :: "int \<Rightarrow> string" where
  "pack_u16 n = [char_of (nat (n div 256)), char_of (nat (n mod 256))]"

definition pack_u32 :: "nat \<Rightarrow> string" where
  "pack_u32 n = [char_of (n div 2 ^ 24), char_of (n div 2 ^ 16), char_of (n div 2 ^ 8), char_of n]"

definition from_bytes_big :: "string \<Rightarrow> int" where
  "from_bytes_big b = foldl (\<lambda>acc c. acc * 256 + of_char c) 0 b"

datatype ring_error = KeyRingError string

definition associated_data :: "string \<Rightarrow> string \<Rightarrow> string" where
  "associated_data purpose aad = pack_u32 (length purpose) @ purpose @ aad"

section \<open>Parsing the configured keys\<close>

text \<open>\<open>str.strip()\<close> and \<open>int()\<close> on ASCII text: white space around, a sign, digits with single underscores.\<close>

definition blank :: "char \<Rightarrow> bool" where
  "blank c \<longleftrightarrow> of_char c \<in> {9, 10, 11, 12, 13, 28, 29, 30, 31, 32 :: nat}"

definition strip :: "string \<Rightarrow> string" where
  "strip s = rev (dropWhile blank (rev (dropWhile blank s)))"

fun digits_value :: "bool \<Rightarrow> int \<Rightarrow> string \<Rightarrow> int option" where
  "digits_value after_digit acc [] = (if after_digit then Some acc else None)"
| "digits_value after_digit acc (c # cs) =
     (if CHR ''0'' \<le> c \<and> c \<le> CHR ''9'' then digits_value True (acc * 10 + (of_char c - 48)) cs
      else if c = CHR ''_'' \<and> after_digit then digits_value False acc cs
      else None)"

definition parse_int :: "string \<Rightarrow> int option" where
  "parse_int s =
     (case strip s of
        [] \<Rightarrow> None
      | c # cs \<Rightarrow> if c = CHR ''-'' then map_option uminus (digits_value False 0 cs)
                  else if c = CHR ''+'' then digits_value False 0 cs
                  else digits_value False 0 (c # cs))"

text \<open>\<open>base64.b64decode(s, validate=True)\<close>.\<close>

definition b64_digit :: "char \<Rightarrow> nat option" where
  "b64_digit c =
     (let n = of_char c in
      if 65 \<le> n \<and> n \<le> 90 then Some (n - 65)
      else if 97 \<le> n \<and> n \<le> 122 then Some (n - 71)
      else if 48 \<le> n \<and> n \<le> 57 then Some (n + 4)
      else if n = 43 then Some 62
      else if n = 47 then Some 63
      else None)"

fun b64decode :: "string \<Rightarrow> string option" where
  "b64decode [] = Some []"
| "b64decode (a # b # c # d # s) =
     (case (b64_digit a, b64_digit b) of
        (Some x, Some y) \<Rightarrow>
          (if c = CHR ''='' then if d = CHR ''='' \<and> s = [] then Some [char_of (x * 4 + y div 16)] else None
           else case b64_digit c of
             None \<Rightarrow> None
           | Some z \<Rightarrow>
               (if d = CHR ''='' then
                  if s = [] then Some [char_of (x * 4 + y div 16), char_of (y mod 16 * 16 + z div 4)] else None
                else case b64_digit d of
                  None \<Rightarrow> None
                | Some w \<Rightarrow> map_option (\<lambda>rest. char_of (x * 4 + y div 16) # char_of (y mod 16 * 16 + z div 4)
                              # char_of (z mod 4 * 64 + w) # rest) (b64decode s)))
      | _ \<Rightarrow> None)"
| "b64decode _ = None"

fun split_on :: "char \<Rightarrow> string \<Rightarrow> string list" where
  "split_on sep [] = [[]]"
| "split_on sep (c # cs) =
     (if c = sep then [] # split_on sep cs
      else case split_on sep cs of [] \<Rightarrow> [[c]] | p # ps \<Rightarrow> (c # p) # ps)"

type_synonym root_entry = "int \<times> string"

definition parse_entry :: "root_entry list \<Rightarrow> string \<Rightarrow> ring_error + root_entry" where
  "parse_entry entries item =
     (let text = strip item; version_text = takeWhile (\<lambda>c. c \<noteq> CHR '':'') text;
          key_text = drop (Suc (length version_text)) text in
      if CHR '':'' \<notin> set text then Inl (KeyRingError ''root key entry must be version:base64key'')
      else case parse_int version_text of
        None \<Rightarrow> Inl (KeyRingError ''root key version must be an integer'')
      | Some version \<Rightarrow>
          if \<not> (1 \<le> version \<and> version \<le> MAX_VERSION) then Inl (KeyRingError ''root key version must be between 1 and 32767'')
          else if version \<in> fst ` set entries then Inl (KeyRingError ''root key versions must be unique'')
          else case b64decode key_text of
            None \<Rightarrow> Inl (KeyRingError ''root key must be base64'')
          | Some key \<Rightarrow>
              if length key \<noteq> KEY_BYTES then Inl (KeyRingError ''root key must decode to 32 bytes'')
              else if key \<in> snd ` set entries then Inl (KeyRingError ''root keys must be distinct'')
              else if entries \<noteq> [] \<and> version > fst (last entries)
              then Inl (KeyRingError ''root keys must be listed newest version first'')
              else Inr (version, key))"

fun parse_items :: "root_entry list \<Rightarrow> string list \<Rightarrow> ring_error + root_entry list" where
  "parse_items entries [] = Inr entries"
| "parse_items entries (item # items) =
     bindR (parse_entry entries item) (\<lambda>e. parse_items (entries @ [e]) items)"

definition parse_root_keys :: "string \<Rightarrow> ring_error + root_entry list" where
  "parse_root_keys raw = parse_items [] (split_on CHR '','' raw)"

section \<open>The ring\<close>

record key_ring =
  kr_roots :: "root_entry list"
  kr_active :: int

definition make_ring :: "root_entry list \<Rightarrow> ring_error + key_ring" where
  "make_ring entries =
     (if entries = [] then Inl (KeyRingError ''a key ring needs at least one root key'')
      else if list_ex (\<lambda>(v, _). \<not> (1 \<le> v \<and> v \<le> MAX_VERSION)) entries
      then Inl (KeyRingError ''root key version must be between 1 and 32767'')
      else if list_ex (\<lambda>(_, k). length k \<noteq> KEY_BYTES) entries
      then Inl (KeyRingError ''root key must be 32 bytes'')
      else if \<not> distinct (map fst entries) then Inl (KeyRingError ''root key versions must be unique'')
      else if \<not> distinct (map snd entries) then Inl (KeyRingError ''root keys must be distinct'')
      else Inr \<lparr>kr_roots = entries, kr_active = fst (hd entries)\<rparr>)"

definition ring_versions :: "key_ring \<Rightarrow> int set" where
  "ring_versions ring = fst ` set (kr_roots ring)"

definition root_of :: "key_ring \<Rightarrow> int option \<Rightarrow> ring_error + string" where
  "root_of ring version =
     (case map_of (kr_roots ring) (case version of None \<Rightarrow> kr_active ring | Some v \<Rightarrow> v) of
        None \<Rightarrow> Inl (KeyRingError ''root key version is not in the ring'')
      | Some root_key \<Rightarrow> Inr root_key)"

definition derive :: "crypto \<Rightarrow> key_ring \<Rightarrow> string \<Rightarrow> int option \<Rightarrow> ring_error + string" where
  "derive cr ring purpose version =
     bindR (root_of ring version) (\<lambda>root_key. Inr (cr_hkdf cr root_key (APPLICATION @ ''|'' @ purpose)))"

text \<open>The nonce is the value \<open>os.urandom\<close> returned.\<close>

definition encrypt :: "crypto \<Rightarrow> key_ring \<Rightarrow> string \<Rightarrow> string \<Rightarrow> string \<Rightarrow> string \<Rightarrow> ring_error + string" where
  "encrypt cr ring nonce purpose plaintext aad =
     bindR (derive cr ring purpose None) (\<lambda>key.
       Inr (pack_u16 (kr_active ring) @ nonce @ cr_seal cr key nonce plaintext (associated_data purpose aad)))"

definition version_of :: "string \<Rightarrow> ring_error + int" where
  "version_of blob =
     (if length blob < VERSION_BYTES + NONCE_BYTES + TAG_BYTES
      then Inl (KeyRingError ''blob is too short to hold a version, a nonce and a tag'')
      else Inr (from_bytes_big (take VERSION_BYTES blob)))"

definition decrypt :: "crypto \<Rightarrow> key_ring \<Rightarrow> string \<Rightarrow> string \<Rightarrow> string \<Rightarrow> ring_error + string" where
  "decrypt cr ring purpose blob aad =
     bindR (version_of blob) (\<lambda>v.
     bindR (derive cr ring purpose (Some v)) (\<lambda>key.
       case cr_open cr key (take NONCE_BYTES (drop VERSION_BYTES blob))
              (drop (VERSION_BYTES + NONCE_BYTES) blob) (associated_data purpose aad) of
         None \<Rightarrow> Inl (KeyRingError ''blob does not verify under this purpose, aad and version'')
       | Some p \<Rightarrow> Inr p))"

definition reencrypt :: "crypto \<Rightarrow> key_ring \<Rightarrow> string \<Rightarrow> string \<Rightarrow> string \<Rightarrow> string \<Rightarrow> ring_error + string" where
  "reencrypt cr ring nonce purpose blob aad =
     bindR (decrypt cr ring purpose blob aad) (\<lambda>plaintext. encrypt cr ring nonce purpose plaintext aad)"

definition get_key_ring :: "string \<Rightarrow> ring_error + key_ring" where
  "get_key_ring root_keys = bindR (parse_root_keys root_keys) make_ring"

section \<open>What the ring promises\<close>

lemma of_char_byte: "0 \<le> m \<Longrightarrow> m < 256 \<Longrightarrow> (of_char (char_of (nat m)) :: int) = m"
proof -
  assume m: "0 \<le> m" "m < 256"
  have "(of_char (char_of (nat m)) :: int) = int (of_char (char_of (nat m)))"
    by (simp only: of_nat_of_char)
  also have "\<dots> = m" using m by simp
  finally show ?thesis .
qed

lemma from_bytes_pack_u16: "0 \<le> n \<Longrightarrow> n < 65536 \<Longrightarrow> from_bytes_big (pack_u16 n) = n"
  by (simp add: from_bytes_big_def pack_u16_def of_char_byte)

lemma length_pack_u16 [simp]: "length (pack_u16 n) = 2"
  by (simp add: pack_u16_def)

text \<open>The entries a parse accepts: versions in range and strictly falling, keys whole and distinct.\<close>

definition entries_ok :: "root_entry list \<Rightarrow> bool" where
  "entries_ok es \<longleftrightarrow> sorted_wrt (\<lambda>a b. fst a > fst b) es \<and> distinct (map snd es) \<and>
     (\<forall>e \<in> set es. 1 \<le> fst e \<and> fst e \<le> MAX_VERSION \<and> length (snd e) = KEY_BYTES)"

lemma parse_entry_ok:
  assumes "parse_entry es item = Inr e" "entries_ok es"
  shows "entries_ok (es @ [e])"
proof -
  obtain v k where e: "e = (v, k)" by (cases e)
  have fields: "1 \<le> v" "v \<le> MAX_VERSION" "v \<notin> fst ` set es" "length k = KEY_BYTES" "k \<notin> snd ` set es"
      "es \<noteq> [] \<Longrightarrow> v \<le> fst (last es)"
    using assms(1) by (auto simp: parse_entry_def e Let_def split: if_splits option.splits)
  have "v < fst x" if "x \<in> set es" for x
  proof -
    have "fst (last es) \<le> fst x"
      using that assms(2) unfolding entries_ok_def
      by (induction es) (auto split: if_splits intro: less_imp_le)
    with fields(3,6) that show ?thesis by (cases "v = fst x") force+
  qed
  with fields assms(2) show ?thesis
    by (auto simp: entries_ok_def sorted_wrt_append e)
qed

lemma parse_items_ok:
  "parse_items es items = Inr out \<Longrightarrow> entries_ok es \<Longrightarrow>
     entries_ok out \<and> length out = length es + length items"
  by (induction es items arbitrary: out rule: parse_items.induct)
    (fastforce simp: bindR_Inr_iff dest: parse_entry_ok)+

lemma split_on_nonempty [simp]: "split_on sep s \<noteq> []"
  by (induction s) (auto split: list.splits)

lemma sorted_wrt_greater_distinct: "sorted_wrt (\<lambda>a b. (f a :: int) > f b) xs \<Longrightarrow> distinct (map f xs)"
  by (induction xs) (auto simp: image_iff)

lemma make_ring_ok: "entries_ok es \<Longrightarrow> es \<noteq> [] \<Longrightarrow> make_ring es = Inr \<lparr>kr_roots = es, kr_active = fst (hd es)\<rparr>"
  by (auto simp: make_ring_def entries_ok_def list_ex_iff dest: sorted_wrt_greater_distinct)

lemma parse_root_keys_ok:
  "parse_root_keys raw = Inr es \<Longrightarrow> entries_ok es \<and> es \<noteq> []"
  unfolding parse_root_keys_def
  by (drule parse_items_ok) (auto simp: entries_ok_def)

lemma head_is_newest: "entries_ok es \<Longrightarrow> e \<in> set es \<Longrightarrow> fst e \<le> fst (hd es)"
  by (cases es) (auto simp: entries_ok_def)

definition ring_ok :: "key_ring \<Rightarrow> bool" where
  "ring_ok ring \<longleftrightarrow> kr_active ring \<in> ring_versions ring \<and>
     (\<forall>e \<in> set (kr_roots ring). 1 \<le> fst e \<and> fst e \<le> MAX_VERSION)"

lemma make_ring_ring_ok: "make_ring es = Inr ring \<Longrightarrow> ring_ok ring"
  by (cases es) (auto simp: make_ring_def ring_ok_def ring_versions_def list_ex_iff split: if_splits)

text \<open>
  One ring succeeds another when it still holds the key the other writes with: the
  configuration during a rotation.
\<close>

definition keeps_write_key :: "key_ring \<Rightarrow> key_ring \<Rightarrow> bool" where
  "keeps_write_key old new \<longleftrightarrow> root_of new (Some (kr_active old)) = root_of old None"

lemma keeps_write_key_refl [simp]: "keeps_write_key ring ring"
  by (simp add: keeps_write_key_def root_of_def)

lemma encrypt_total: "ring_ok ring \<Longrightarrow> \<exists>blob. encrypt cr ring nonce purpose p aad = Inr blob"
  by (auto simp: ring_ok_def ring_versions_def encrypt_def derive_def root_of_def bindR_Inr_iff
      split: option.splits dest!: weak_map_of_SomeI)

lemma encrypt_version:
  assumes "ring_ok ring" "aead_tagged cr" "length nonce = NONCE_BYTES"
    "encrypt cr ring nonce purpose p aad = Inr blob"
  shows "version_of blob = Inr (kr_active ring)"
proof -
  have "0 \<le> kr_active ring" "kr_active ring < 65536"
    using assms(1) by (auto simp: ring_ok_def ring_versions_def MAX_VERSION_def)
  with assms(2-4) show ?thesis
    by (auto simp: encrypt_def bindR_Inr_iff version_of_def aead_tagged_def ring_sizes from_bytes_pack_u16)
qed

lemma decrypt_encrypt:
  assumes "ring_ok old" "keeps_write_key old new" "aead_opens cr" "aead_tagged cr"
    "length nonce = NONCE_BYTES" "encrypt cr old nonce purpose p aad = Inr blob"
  shows "decrypt cr new purpose blob aad = Inr p"
  using encrypt_version[OF assms(1,4,5,6)] assms(2,3,5,6)
  by (auto simp: decrypt_def encrypt_def derive_def keeps_write_key_def bindR_Inr_iff aead_opens_def ring_sizes)

text \<open>
  Property C25 (roundtrip). A value a ring encrypted is read back unchanged by every ring that
  still holds its write key, and re-encrypting it under such a ring gives a blob of that ring's
  active version that decrypts to the same value: rotation without downtime. The hypotheses
  on AES-GCM are that it opens what it sealed and adds a 16 byte tag.
\<close>

theorem rotation_keeps_values:
  assumes "get_key_ring old_keys = Inr old" "get_key_ring new_keys = Inr new"
    "keeps_write_key old new" "aead_opens cr" "aead_tagged cr"
    "length nonce = NONCE_BYTES" "length nonce' = NONCE_BYTES"
    "encrypt cr old nonce purpose p aad = Inr blob"
  shows "decrypt cr new purpose blob aad = Inr p \<and>
    (\<exists>blob'. reencrypt cr new nonce' purpose blob aad = Inr blob' \<and>
       version_of blob' = Inr (kr_active new) \<and> decrypt cr new purpose blob' aad = Inr p)"
proof -
  have ok: "ring_ok old" "ring_ok new"
    using assms(1,2) by (auto simp: get_key_ring_def bindR_Inr_iff dest: make_ring_ring_ok)
  have read: "decrypt cr new purpose blob aad = Inr p"
    using decrypt_encrypt[OF ok(1) assms(3-6,8)] .
  obtain blob' where blob': "encrypt cr new nonce' purpose p aad = Inr blob'"
    using encrypt_total[OF ok(2)] by blast
  have "reencrypt cr new nonce' purpose blob aad = Inr blob'"
    by (simp add: reencrypt_def read blob')
  with read encrypt_version[OF ok(2) assms(5,7) blob']
    decrypt_encrypt[OF ok(2) keeps_write_key_refl assms(4,5,7) blob']
  show ?thesis by blast
qed

text \<open>
  The parser never yields a ring the constructor refuses: parsed keys
  always make a ring, its write key is the newest version listed, versions and keys are distinct
  and every key is 32 bytes.
\<close>

theorem parsed_keys_make_newest_first_ring:
  assumes "parse_root_keys raw = Inr es"
  shows "\<exists>ring. get_key_ring raw = Inr ring \<and> kr_roots ring = es \<and>
    kr_active ring = Max (ring_versions ring) \<and> distinct (map fst es) \<and> distinct (map snd es) \<and>
    (\<forall>e \<in> set es. length (snd e) = KEY_BYTES)"
proof -
  have ok: "entries_ok es" "es \<noteq> []" using parse_root_keys_ok[OF assms] by auto
  have "fst (hd es) = Max (fst ` set es)"
    using ok by (intro Max_eqI[symmetric]) (auto dest: head_is_newest)
  with ok assms make_ring_ok[OF ok] show ?thesis
    by (auto simp: get_key_ring_def ring_versions_def entries_ok_def dest: sorted_wrt_greater_distinct)
qed

section \<open>Witnesses\<close>

text \<open>A transparent instance of the primitives and two concrete configurations.\<close>

definition clear_crypto :: crypto where
  "clear_crypto = \<lparr>cr_hkdf = (\<lambda>k info. k), cr_seal = (\<lambda>k n p a. p @ replicate 16 CHR ''t''),
     cr_open = (\<lambda>k n c a. Some (take (length c - 16) c))\<rparr>"

lemma clear_crypto_laws: "aead_opens clear_crypto" "aead_tagged clear_crypto"
  by (simp_all add: aead_opens_def aead_tagged_def clear_crypto_def)

definition demo_keys :: string where
  "demo_keys = ''1:AAAAAAAAAAAAAAAAAAAAAAAAAAAAAAAAAAAAAAAAAAA=''"

definition rotated_keys :: string where
  "rotated_keys = ''2:BBBBBBBBBBBBBBBBBBBBBBBBBBBBBBBBBBBBBBBBBBA=,'' @ demo_keys"

definition demo_ring :: key_ring where
  "demo_ring = \<lparr>kr_roots = [(1, replicate 32 (char_of (0 :: nat)))], kr_active = 1\<rparr>"

definition rotated_ring :: key_ring where
  "rotated_ring =
     (case get_key_ring rotated_keys of Inr ring \<Rightarrow> ring | Inl _ \<Rightarrow> demo_ring)"

lemma demo_rings:
  "get_key_ring demo_keys = Inr demo_ring" "get_key_ring rotated_keys = Inr rotated_ring"
  "keeps_write_key demo_ring rotated_ring" "kr_active rotated_ring = 2"
  by code_simp+

theorem rotation_keeps_values_witness:
  "\<exists>blob blob'. encrypt clear_crypto demo_ring (replicate 12 CHR ''n'') ''p'' ''v'' ''a'' = Inr blob \<and>
     decrypt clear_crypto rotated_ring ''p'' blob ''a'' = Inr ''v'' \<and>
     reencrypt clear_crypto rotated_ring (replicate 12 CHR ''m'') ''p'' blob ''a'' = Inr blob' \<and>
     version_of blob' = Inr 2"
proof -
  have ok: "ring_ok demo_ring" by code_simp
  obtain blob where blob:
    "encrypt clear_crypto demo_ring (replicate 12 CHR ''n'') ''p'' ''v'' ''a'' = Inr blob"
    using encrypt_total[OF ok] by blast
  show ?thesis
    using rotation_keeps_values[OF demo_rings(1-3) clear_crypto_laws _ _ blob, of "replicate 12 CHR ''m''"]
      blob demo_rings(4) by (auto simp: NONCE_BYTES_def)
qed

theorem parsed_keys_witness:
  "\<exists>es ring. parse_root_keys rotated_keys = Inr es \<and> get_key_ring rotated_keys = Inr ring \<and>
     kr_active ring = Max (ring_versions ring)"
proof -
  obtain es where es: "parse_root_keys rotated_keys = Inr es"
    using demo_rings(2) by (auto simp: get_key_ring_def bindR_Inr_iff)
  from parsed_keys_make_newest_first_ring[OF es] es show ?thesis by blast
qed

end
