(* ===== verification/Subjects.thy ===== *)
theory Subjects
  imports Fleet_Tables Protocol6 Keyring
begin

text \<open>
  The subject and browser-binding policy of protocol 6 commands
  (\<open>src/backend/app/command_subjects.py\<close>): what a command is allowed to be about, what it claims
  or changes in the session and job tables, which rows an erasure selects, and which evidence a
  final report must have. Every function runs inside its caller's transaction: it takes the
  database, and returns the new one where it writes.
\<close>

section \<open>Python values in the fleet modules\<close>

definition MAX_SEQUENCE :: int where "MAX_SEQUENCE = 2 ^ 63 - 1"

text \<open>
  \<open>uuid.UUID(text)\<close>: prefixes, braces and hyphens are dropped, 32 hexadecimal digits must remain.
  (Python's \<open>int(text, 16)\<close> would also take a sign, blanks or underscores among the 32 characters;
  such spellings are refused here.)
\<close>

fun drop_all :: "string \<Rightarrow> string \<Rightarrow> string" where
  "drop_all pat [] = []"
| "drop_all pat (c # cs) =
     (if pat \<noteq> [] \<and> take (length pat) (c # cs) = pat then drop_all pat (drop (length pat) (c # cs))
      else c # drop_all pat cs)"

definition lower_hex :: "char \<Rightarrow> char option" where
  "lower_hex c =
     (if hex_char c then Some c
      else if CHR ''A'' \<le> c \<and> c \<le> CHR ''F'' then Some (char_of (of_char c + (32 :: nat))) else None)"

definition brace :: "char \<Rightarrow> bool" where
  "brace c \<longleftrightarrow> c \<in> {CHR ''{'', CHR ''}''}"

definition uuid_digits :: "string \<Rightarrow> string" where
  "uuid_digits s =
     filter (\<lambda>c. c \<noteq> CHR ''-'')
       (rev (dropWhile brace (rev (dropWhile brace (drop_all ''uuid:'' (drop_all ''urn:'' s))))))"

definition uuid_parse :: "string \<Rightarrow> uuid option" where
  "uuid_parse s =
     (let h = map lower_hex (uuid_digits s) in
      if length h = 32 \<and> None \<notin> set h then
        let d = map the h in
        Some (take 8 d @ ''-'' @ take 4 (drop 8 d) @ ''-'' @ take 4 (drop 12 d) @ ''-''
              @ take 4 (drop 16 d) @ ''-'' @ drop 20 d)
      else None)"

fun uuid_of_json :: "json \<Rightarrow> fleet_exn + uuid" where
  "uuid_of_json (JStr s) = (case uuid_parse s of None \<Rightarrow> Inl ValueError | Some u \<Rightarrow> Inr u)"
| "uuid_of_json JNull = Inl (PyError TypeError)"
| "uuid_of_json _ = Inl (PyError AttributeError)"

text \<open>\<open>d[k]\<close>, \<open>uuid.UUID(d[k])\<close>, and \<open>d[k]\<close> bound to a \<open>bigint\<close> parameter.\<close>

definition field :: "dict \<Rightarrow> string \<Rightarrow> fleet_exn + json" where
  "field d k = (case dget d k of None \<Rightarrow> Inl (PyError (KeyError k)) | Some v \<Rightarrow> Inr v)"

definition field_uuid :: "dict \<Rightarrow> string \<Rightarrow> fleet_exn + uuid" where
  "field_uuid d k = bindR (field d k) uuid_of_json"

definition bigint :: "int \<Rightarrow> fleet_exn + int" where
  "bigint i = (if - (2 ^ 63) \<le> i \<and> i < 2 ^ 63 then Inr i else Inl DataError)"

fun bigint_of_json :: "json \<Rightarrow> fleet_exn + int" where
  "bigint_of_json (JInt i) = bigint i"
| "bigint_of_json (JBool b) = Inr (if b then 1 else 0)"
| "bigint_of_json _ = Inl DataError"

definition field_bigint :: "dict \<Rightarrow> string \<Rightarrow> fleet_exn + int" where
  "field_bigint d k = bindR (field d k) bigint_of_json"

text \<open>\<open>a or b\<close> where evaluating either may raise, and \<open>i > v\<close> for a decoded \<open>v\<close>.\<close>

definition orR :: "'e + bool \<Rightarrow> 'e + bool \<Rightarrow> 'e + bool" where
  "orR a b = bindR a (\<lambda>x. if x then Inr True else b)"

fun int_greater :: "int \<Rightarrow> json \<Rightarrow> fleet_exn + bool" where
  "int_greater i (JFloat (Infinite negative)) = Inr negative"
| "int_greater i (JFloat Not_a_number) = Inr False"
| "int_greater i v = (case num_val v of None \<Rightarrow> Inl (PyError TypeError) | Some q \<Rightarrow> Inr (of_int i > q))"

definition ends_with :: "string \<Rightarrow> string \<Rightarrow> bool" where
  "ends_with s suffix \<longleftrightarrow> length suffix \<le> length s \<and> drop (length s - length suffix) s = suffix"

definition ascii :: "string \<Rightarrow> bool" where
  "ascii s \<longleftrightarrow> list_all (\<lambda>c. of_char c < (128 :: nat)) s"

text \<open>Everything outside the repository the fleet modules call.\<close>

record fleet_prims =
  fp_p6 :: p6_prims
  fp_loads :: json_loads
  fp_crypto :: crypto
  fp_ring :: "ring_error + key_ring"

definition lift_py :: "py_exn + 'a \<Rightarrow> fleet_exn + 'a" where
  "lift_py r = (case r of Inl e \<Rightarrow> Inl (PyError e) | Inr v \<Rightarrow> Inr v)"

lemma lift_py_Inr [simp]: "lift_py r = Inr v \<longleftrightarrow> r = Inr v"
  by (cases r) (auto simp: lift_py_def)

section \<open>Command identity\<close>

definition SUBJECT_FIELDS :: "(string \<times> string list) list" where
  "SUBJECT_FIELDS = [
     (''open_session'', [''session_id'', ''attempt_id'', ''control_generation'']),
     (''update_session'', [''session_id'', ''attempt_id'', ''control_generation'']),
     (''close_session'', [''session_id'', ''attempt_id'', ''control_generation'']),
     (''dispatch_job'', [''job_id'', ''dispatch_sequence'']),
     (''cancel_job'', [''job_id'', ''dispatch_sequence''])]"

definition SUBJECT_COMMANDS :: "(string \<times> string list) list" where
  "SUBJECT_COMMANDS = [
     (''job'', [''dispatch_job'', ''cancel_job'']),
     (''session'', [''open_session'', ''update_session'', ''close_session''])]"

definition RESERVED_FIELDS :: "string list" where
  "RESERVED_FIELDS = [''type'', ''worker_id'', ''incarnation'', ''region'', ''owner_epoch'', ''lease_id'',
     ''lease_expires_at'', ''grant_nonce'', ''command_sequence'', ''command_id'', ''body_hash'']"

definition validate_command_identity :: "string \<Rightarrow> uuid option \<Rightarrow> json \<Rightarrow> fleet_exn + dict" where
  "validate_command_identity command_type account_user_id command_fields =
     (if map_of SUBJECT_FIELDS command_type = None then Inl (CommandRefused ''command type is not supported'')
      else if account_user_id = None then Inl (CommandRefused ''command account identity is unavailable'')
      else case command_fields of
        JObj d \<Rightarrow> if list_ex (\<lambda>k. k \<in> set RESERVED_FIELDS) (map fst d)
                  then Inl (CommandRefused ''command fields are invalid'') else Inr d
      | _ \<Rightarrow> Inl (CommandRefused ''command fields are invalid''))"

definition command_size_limit :: "string \<Rightarrow> nat \<Rightarrow> nat \<Rightarrow> nat" where
  "command_size_limit kind parameter_limit small_limit =
     (if kind \<in> {''dispatch_job'', ''open_session'', ''update_session''} then parameter_limit else small_limit)"

section \<open>Principals and browser bindings\<close>

definition current_owner :: "uuid \<Rightarrow> fleet_db \<Rightarrow> bool" where
  "current_owner account_user_id db =
     (case find (\<lambda>u. us_id u = account_user_id) (db_users db) of
        None \<Rightarrow> False
      | Some u \<Rightarrow> us_role u \<in> {''user'', ''admin''} \<and> us_state u = ''active'')"

text \<open>The idle and the absolute deadline of a binding; both absent without accounts.\<close>

type_synonym deadlines = "moment option \<times> moment option"

definition lock_browser_binding ::
    "process_env \<Rightarrow> uuid \<Rightarrow> uuid option \<Rightarrow> fleet_db \<Rightarrow> deadlines option" where
  "lock_browser_binding env account_user_id auth_session_id db =
     (if \<not> current_owner account_user_id db then None
      else if pe_auth_mode env = ''none'' then
        (if pe_local_user env = Some account_user_id \<and> auth_session_id = None then Some (None, None) else None)
      else if pe_auth_mode env \<noteq> ''accounts'' then None
      else case auth_session_id of
        None \<Rightarrow> None
      | Some sid \<Rightarrow>
          (case find (\<lambda>s. se_id s = sid \<and> se_user_id s = account_user_id \<and> se_revoked_at s = None)
                  (db_auth_sessions db) of
             None \<Rightarrow> None
           | Some s \<Rightarrow> Some (se_idle_expires_at s, Some (se_absolute_expires_at s))))"

text \<open>Two readings of the clock, one for each deadline.\<close>

definition binding_is_live :: "deadlines option \<Rightarrow> moment \<Rightarrow> moment \<Rightarrow> bool" where
  "binding_is_live deadlines t_absolute t_idle =
     (case deadlines of
        None \<Rightarrow> False
      | Some (idle, None) \<Rightarrow> True
      | Some (idle, Some absolute) \<Rightarrow>
          absolute > t_absolute \<and> (case idle of None \<Rightarrow> True | Some i \<Rightarrow> i > t_idle))"

definition current_principal ::
    "process_env \<Rightarrow> uuid \<Rightarrow> uuid option \<Rightarrow> moment \<Rightarrow> moment \<Rightarrow> fleet_db \<Rightarrow> bool" where
  "current_principal env account_user_id auth_session_id t_absolute t_idle db =
     binding_is_live (lock_browser_binding env account_user_id auth_session_id db) t_absolute t_idle"

section \<open>Preparing a command\<close>

text \<open>
  The caller's context of a session command; a missing key is \<open>None\<close>. \<open>sx_terminal\<close> is
  \<open>session_context.get("terminal") is True\<close>.
\<close>

record session_context =
  sx_browser_owner_id :: "uuid option"
  sx_auth_session_id :: "uuid option"
  sx_model_id :: "string option"
  sx_params :: "json option"
  sx_base_desired_revision :: "int option"
  sx_desired_revision :: "int option"
  sx_attempt_id :: "uuid option"
  sx_terminal :: bool

record session_claim =
  sc_subject_id :: uuid
  sc_attempt_id :: uuid
  sc_control_generation :: json
  sc_range_id :: uuid
  sc_account_user_id :: uuid
  sc_context :: session_context

record job_claim =
  jc_subject_id :: uuid
  jc_previous_dispatch_sequence :: int
  jc_dispatch_sequence :: int
  jc_range_id :: uuid
  jc_dispatch_token :: json

datatype claim = Session_claim session_claim | Job_claim job_claim

record prepared =
  pp_claim :: "claim option"
  pp_cancel_attempt :: "job_attempt option"
  pp_message_fields :: dict
  pp_committed_desired :: "(json \<times> int) option"

text \<open>\<open>fields["work_budget"]["range_id"]\<close> as a UUID.\<close>

definition budget_range :: "dict \<Rightarrow> fleet_exn + uuid" where
  "budget_range fs =
     bindR (field fs ''work_budget'') (\<lambda>b.
       case b of JObj d \<Rightarrow> field_uuid d ''range_id'' | _ \<Rightarrow> Inl (PyError TypeError))"

definition context_owner :: "session_context \<Rightarrow> fleet_exn + uuid" where
  "context_owner cx =
     (case sx_browser_owner_id cx of None \<Rightarrow> Inl (PyError (KeyError ''browser_owner_id'')) | Some u \<Rightarrow> Inr u)"

definition prepare_open_session ::
    "uuid \<Rightarrow> session_context option \<Rightarrow> dict \<Rightarrow> fleet_db \<Rightarrow> prepared tx" where
  "prepare_open_session account_user_id context fs db =
     (case context of
        None \<Rightarrow> Inl (CommandRefused ''session claim identity is unavailable'')
      | Some cx \<Rightarrow>
          bindR (field_uuid fs ''session_id'') (\<lambda>session_id.
          bindR (case session_of session_id db of
                   None \<Rightarrow> Inr False
                 | Some existing \<Rightarrow>
                     orR (Inr (rs_user_id existing \<noteq> Some account_user_id))
                    (orR (bindR (context_owner cx) (\<lambda>u. Inr (rs_browser_owner_id existing \<noteq> u)))
                         (bindR (field fs ''control_generation'') (int_greater (rs_control_generation existing)))))
            (\<lambda>stale.
          if stale then Inl (CommandRefused ''session claim identity is stale'')
          else bindR (field_uuid fs ''attempt_id'') (\<lambda>attempt_id.
               bindR (field fs ''control_generation'') (\<lambda>generation.
               bindR (budget_range fs) (\<lambda>range_id.
                 Inr (\<lparr>pp_claim = Some (Session_claim \<lparr>sc_subject_id = session_id, sc_attempt_id = attempt_id,
                        sc_control_generation = generation, sc_range_id = range_id,
                        sc_account_user_id = account_user_id, sc_context = cx\<rparr>),
                       pp_cancel_attempt = None, pp_message_fields = fs, pp_committed_desired = None\<rparr>, db)))))))"

definition active_attempt :: "realtime_attempt \<Rightarrow> bool" where
  "active_attempt a \<longleftrightarrow> ra_state a \<in> {Opening, Running}"

text \<open>The revision the caller read, when its context and the fields agree on the next one.\<close>

definition update_base :: "session_context \<Rightarrow> dict \<Rightarrow> int option" where
  "update_base cx fs =
     (case (sx_base_desired_revision cx, sx_desired_revision cx) of
        (Some base, Some revision) \<Rightarrow>
          if base < 1 \<or> base \<ge> MAX_SEQUENCE \<or> revision \<noteq> base + 1 \<or> revision \<ge> MAX_SEQUENCE
             \<or> \<not> get_eq (dget fs ''params_revision'') (Some (JInt revision))
             \<or> \<not> get_eq (dget fs ''model_id'') (map_option JStr (sx_model_id cx))
             \<or> \<not> get_eq (dget fs ''params'') (sx_params cx)
          then None else Some base
      | _ \<Rightarrow> None)"

definition prepare_update_session ::
    "process_env \<Rightarrow> clock \<Rightarrow> string \<Rightarrow> uuid \<Rightarrow> uuid \<Rightarrow> session_context option \<Rightarrow> dict \<Rightarrow> fleet_db \<Rightarrow> prepared tx"
where
  "prepare_update_session env clk worker_id incarnation account_user_id context fs db =
     (case context of
        None \<Rightarrow> Inl (CommandRefused ''session update identity is unavailable'')
      | Some cx \<Rightarrow>
          bindR (field_uuid fs ''session_id'') (\<lambda>session_id.
          bindR (field_uuid fs ''attempt_id'') (\<lambda>attempt_id.
          bindR (field fs ''control_generation'') (\<lambda>raw_generation.
          case update_base cx fs of
            None \<Rightarrow> Inl (CommandRefused ''session desired update changed before commit'')
          | Some base \<Rightarrow>
          bindR (bigint_of_json raw_generation) (\<lambda>generation.
          case (such (\<lambda>s. rs_control_generation s = generation) (session_of session_id db),
                such (\<lambda>a. ra_attempt_id a = attempt_id \<and> active_attempt a) (attempt_of session_id generation db)) of
            (Some entity, Some attempt) \<Rightarrow>
              raise_if (rs_user_id entity \<noteq> Some account_user_id
                  \<or> rs_auth_session_id entity \<noteq> sx_auth_session_id cx
                  \<or> Some (rs_browser_owner_id entity) \<noteq> sx_browser_owner_id cx
                  \<or> \<not> current_principal env account_user_id (rs_auth_session_id entity) (clk 1) (clk 2) db
                  \<or> Some (rs_model_id entity) \<noteq> sx_model_id cx
                  \<or> rs_desired_revision entity \<noteq> base
                  \<or> ra_worker_id attempt \<noteq> worker_id \<or> ra_incarnation attempt \<noteq> incarnation
                  \<or> Some (ra_attempt_id attempt) \<noteq> sx_attempt_id cx)
                (CommandRefused ''session update is stale'')
              (bindR (field fs ''params'') (\<lambda>params.
                let hit = (\<lambda>s. rs_id s = session_id \<and> rs_desired_revision s = base) in
                raise_if (\<not> exists_row hit (db_sessions db))
                  (CommandRefused ''session desired update lost its compare-and-set'')
                  (Inr (\<lparr>pp_claim = None, pp_cancel_attempt = None,
                         pp_message_fields = dset ''model_id'' (JStr (rs_model_id entity)) fs,
                         pp_committed_desired = Some (params, base + 1)\<rparr>,
                        db_sessions_update (upd_where hit
                          (\<lambda>s. s\<lparr>rs_desired_params := params, rs_desired_revision := base + 1\<rparr>)) db))))
          | _ \<Rightarrow> Inl (CommandRefused ''session update is stale''))))))"

definition prepare_close_session ::
    "process_env \<Rightarrow> clock \<Rightarrow> string \<Rightarrow> uuid \<Rightarrow> uuid \<Rightarrow> uuid \<Rightarrow> session_context option \<Rightarrow> dict \<Rightarrow> fleet_db \<Rightarrow> prepared tx"
where
  "prepare_close_session env clk worker_id incarnation expected_transport_owner account_user_id context fs db =
     bindR (field_uuid fs ''session_id'') (\<lambda>session_id.
     bindR (field_uuid fs ''attempt_id'') (\<lambda>attempt_id.
     bindR (field_bigint fs ''control_generation'') (\<lambda>generation.
     case (such (\<lambda>s. rs_control_generation s = generation) (session_of session_id db),
           such (\<lambda>a. ra_attempt_id a = attempt_id \<and> active_attempt a) (attempt_of session_id generation db)) of
       (Some entity, Some attempt) \<Rightarrow>
         raise_if (rs_user_id entity \<noteq> Some account_user_id \<or> rs_state entity \<noteq> Live
             \<or> rs_browser_owner_id entity \<noteq> expected_transport_owner
             \<or> \<not> current_principal env account_user_id (rs_auth_session_id entity) (clk 1) (clk 2) db
             \<or> ra_worker_id attempt \<noteq> worker_id \<or> ra_incarnation attempt \<noteq> incarnation)
           (CommandRefused ''session close is stale'')
        (let terminal = (case context of None \<Rightarrow> False | Some cx \<Rightarrow> sx_terminal cx);
             hit = (\<lambda>s. rs_id s = session_id \<and> rs_control_generation s = generation \<and> rs_state s = Live) in
         raise_if (terminal \<and> exists_row (\<lambda>c. cmd_subject_id c = Some session_id
               \<and> cmd_subject_sequence c = Some generation \<and> cmd_state c = Pending) (db_commands db))
           (CommandRefused ''session close has a pending command'')
        (raise_if (\<not> exists_row hit (db_sessions db))
           (CommandRefused ''session release changed before commit'')
           (Inr (\<lparr>pp_claim = None, pp_cancel_attempt = None, pp_message_fields = fs, pp_committed_desired = None\<rparr>,
              db_sessions_update (upd_where hit
                (\<lambda>s. s\<lparr>rs_state := (if terminal then Ending else Idle)\<rparr>)) db))))
     | _ \<Rightarrow> Inl (CommandRefused ''session close is stale''))))"

text \<open>\<open>job_context\<close> is a dictionary whose \<open>source_asset_id\<close> may be absent or null.\<close>

definition prepare_dispatch_job ::
    "uuid \<Rightarrow> uuid option option \<Rightarrow> dict \<Rightarrow> fleet_db \<Rightarrow> prepared tx" where
  "prepare_dispatch_job account_user_id job_context fs db =
     bindR (field_uuid fs ''job_id'') (\<lambda>job_id.
     case job_of job_id db of
       None \<Rightarrow> Inl (CommandRefused ''job claim is stale'')
     | Some job \<Rightarrow>
       bindR (orR (Inr (jb_user_id job \<noteq> account_user_id \<or> jb_state job \<noteq> ''queued''))
             (orR (bindR (field fs ''model_id'') (\<lambda>m. Inr (m \<noteq> JStr (jb_model_id job))))
                  (bindR (field fs ''params'') (\<lambda>p. Inr (\<not> py_eq (jb_params job) p))))) (\<lambda>stale.
       raise_if stale (CommandRefused ''job claim is stale'')
      (raise_if (case job_context of None \<Rightarrow> False | Some src \<Rightarrow> src \<noteq> jb_source_asset_id job)
        (CommandRefused ''job input changed before claim'')
      (raise_if (case jb_source_asset_id job of None \<Rightarrow> False
            | Some asset \<Rightarrow> \<not> exists_row (\<lambda>a. as_id a = asset \<and> as_user_id a = account_user_id) (db_assets db))
        (CommandRefused ''job input is unavailable'')
      (let dispatch_sequence = jb_current_dispatch_sequence job + 1 in
       raise_if (dispatch_sequence \<ge> MAX_SEQUENCE) (CommandRefused ''job dispatch sequence is exhausted'')
      (bindR (budget_range fs) (\<lambda>range_id.
       bindR (field fs ''dispatch_token'') (\<lambda>token.
         Inr (\<lparr>pp_claim = Some (Job_claim \<lparr>jc_subject_id = job_id,
                  jc_previous_dispatch_sequence = jb_current_dispatch_sequence job,
                  jc_dispatch_sequence = dispatch_sequence, jc_range_id = range_id, jc_dispatch_token = token\<rparr>),
               pp_cancel_attempt = None,
               pp_message_fields = dset ''dispatch_sequence'' (JInt dispatch_sequence) fs,
               pp_committed_desired = None\<rparr>, db)))))))))"

definition prepare_cancel_job :: "p6_prims \<Rightarrow> uuid \<Rightarrow> dict \<Rightarrow> fleet_db \<Rightarrow> prepared tx" where
  "prepare_cancel_job P account_user_id fs db =
     (case (dget fs ''dispatch_sequence'', dget fs ''dispatch_token'') of
        (Some (JInt sequence), Some (JStr token)) \<Rightarrow>
          raise_if (\<not> ascii token) (CommandRefused ''job cancellation identity is unavailable'')
         (bindR (field_uuid fs ''job_id'') (\<lambda>job_id.
          case job_of job_id db of
            None \<Rightarrow> Inl (CommandRefused ''job cancellation is stale'')
          | Some job \<Rightarrow>
              raise_if (jb_user_id job \<noteq> account_user_id \<or> jb_state job \<noteq> ''cancelled''
                  \<or> jb_current_dispatch_sequence job \<noteq> sequence)
                (CommandRefused ''job cancellation is stale'')
              (case job_attempt_of job_id sequence db of
                 None \<Rightarrow> Inl (CommandRefused ''job cancellation token is stale'')
               | Some attempt \<Rightarrow>
                   raise_if (ja_dispatch_token_hash attempt \<noteq> p_sha256 P token)
                     (CommandRefused ''job cancellation token is stale'')
                     (Inr (\<lparr>pp_claim = None, pp_cancel_attempt = Some attempt, pp_message_fields = fs,
                            pp_committed_desired = None\<rparr>, db)))))
      | _ \<Rightarrow> Inl (CommandRefused ''job cancellation identity is unavailable''))"

definition prepare_command_subject ::
    "p6_prims \<Rightarrow> process_env \<Rightarrow> clock \<Rightarrow> string \<Rightarrow> dict \<Rightarrow> uuid \<Rightarrow> session_context option \<Rightarrow> uuid option option \<Rightarrow>
     string \<Rightarrow> uuid \<Rightarrow> uuid \<Rightarrow> fleet_db \<Rightarrow> prepared tx"
where
  "prepare_command_subject P env clk command_type fs account_user_id context job_context
       worker_id incarnation expected_transport_owner db =
     (if command_type = ''open_session'' then prepare_open_session account_user_id context fs db
      else if command_type = ''update_session'' then
        prepare_update_session env clk worker_id incarnation account_user_id context fs db
      else if command_type = ''close_session'' then
        prepare_close_session env clk worker_id incarnation expected_transport_owner account_user_id context fs db
      else if command_type = ''dispatch_job'' then prepare_dispatch_job account_user_id job_context fs db
      else if command_type = ''cancel_job'' then prepare_cancel_job P account_user_id fs db
      else Inr (\<lparr>pp_claim = None, pp_cancel_attempt = None, pp_message_fields = fs,
                 pp_committed_desired = None\<rparr>, db))"

section \<open>Applying a claim\<close>

text \<open>
  The generation and the token come from the command's fields, which by now have passed
  \<open>preflight_worker_control\<close>: a positive integer and a string.
\<close>

definition opened_session :: "session_claim \<Rightarrow> string \<Rightarrow> json \<Rightarrow> uuid \<Rightarrow> worker_connection \<Rightarrow> moment \<Rightarrow> realtime_session" where
  "opened_session c model_id params browser worker now =
     \<lparr>rs_id = sc_subject_id c, rs_user_id = Some (sc_account_user_id c),
      rs_auth_session_id = sx_auth_session_id (sc_context c), rs_browser_owner_id = browser,
      rs_region = wc_region worker, rs_model_id = model_id, rs_effective_params = params,
      rs_desired_params = params, rs_params_revision = 1, rs_desired_revision = 1, rs_state = Assigning,
      rs_control_generation = the_int (Some (sc_control_generation c)),
      rs_owner_epoch = Some (wc_owner_epoch worker), rs_input_revision = 0, rs_started_at = None,
      rs_ended_at = None, rs_created_at = now\<rparr>"

text \<open>\<open>ON CONFLICT (id) DO UPDATE\<close>: owner, browser, region, input revision and creation stay.\<close>

definition reopened_session :: "realtime_session \<Rightarrow> realtime_session \<Rightarrow> realtime_session" where
  "reopened_session new old = old\<lparr>rs_model_id := rs_model_id new, rs_effective_params := rs_effective_params new,
     rs_desired_params := rs_desired_params new, rs_params_revision := rs_params_revision new,
     rs_desired_revision := rs_desired_revision new, rs_state := Assigning,
     rs_control_generation := rs_control_generation new, rs_started_at := None, rs_ended_at := None,
     rs_owner_epoch := rs_owner_epoch new\<rparr>"

definition insert_or_reopen_session :: "realtime_session \<Rightarrow> fleet_db \<Rightarrow> fleet_exn + fleet_db" where
  "insert_or_reopen_session new db =
     (if exists_row (\<lambda>s. rs_id s = rs_id new) (db_sessions db)
      then Inr (db_sessions_update (upd_where (\<lambda>s. rs_id s = rs_id new) (reopened_session new)) db)
      else if exists_row (\<lambda>u. Some (us_id u) = rs_user_id new) (db_users db)
      then Inr (db_sessions_update (\<lambda>rows. rows @ [new]) db)
      else Inl (IntegrityError ''realtime_sessions.user_id''))"

definition opening_attempt :: "session_claim \<Rightarrow> string \<Rightarrow> uuid \<Rightarrow> worker_connection \<Rightarrow> moment \<Rightarrow> realtime_attempt" where
  "opening_attempt c worker_id incarnation worker now =
     \<lparr>ra_session_id = sc_subject_id c, ra_control_generation = the_int (Some (sc_control_generation c)),
      ra_worker_id = worker_id, ra_incarnation = incarnation, ra_owner_epoch = wc_owner_epoch worker,
      ra_attempt_id = sc_attempt_id c, ra_state = Opening, ra_gpu_ms = 0, ra_frames = 0, ra_duration_ms = 0,
      ra_report_sequence = 0, ra_range_id = Some (sc_range_id c), ra_started_at = None, ra_ended_at = None,
      ra_created_at = now\<rparr>"

definition insert_attempt :: "realtime_attempt \<Rightarrow> fleet_db \<Rightarrow> fleet_exn + fleet_db" where
  "insert_attempt a db =
     (if exists_row (\<lambda>b. attempt_key b = attempt_key a \<or> ra_attempt_id b = ra_attempt_id a) (db_attempts db)
      then Inl (IntegrityError ''realtime_session_attempts'')
      else Inr (db_attempts_update (\<lambda>rows. rows @ [a]) db))"

definition fresh_range ::
    "uuid \<Rightarrow> string \<Rightarrow> uuid \<Rightarrow> worker_connection \<Rightarrow> uuid \<Rightarrow> range_kind \<Rightarrow> uuid \<Rightarrow> uuid option \<Rightarrow> int option \<Rightarrow> int option \<Rightarrow>
     moment \<Rightarrow> physical_range" where
  "fresh_range range_id worker_id incarnation worker account kind subject attempt generation dispatch now =
     \<lparr>pr_range_id = range_id, pr_worker_id = worker_id, pr_incarnation = incarnation, pr_region = wc_region worker,
      pr_owner_epoch = wc_owner_epoch worker, pr_account_user_id = Some account, pr_kind = kind,
      pr_subject_id = subject, pr_attempt_id = attempt, pr_control_generation = generation,
      pr_dispatch_sequence = dispatch, pr_state = Outstanding, pr_report_sequence = 0, pr_report_floor = 0,
      pr_report_hash = None, pr_gpu_ms = 0, pr_frames = 0, pr_duration_ms = 0, pr_created_at = now\<rparr>"

definition insert_range :: "physical_range \<Rightarrow> fleet_db \<Rightarrow> fleet_exn + fleet_db" where
  "insert_range r db =
     (if exists_row (\<lambda>q. pr_range_id q = pr_range_id r) (db_ranges db)
      then Inl (IntegrityError ''worker_physical_ranges'')
      else Inr (db_ranges_update (\<lambda>rows. rows @ [r]) db))"

definition apply_session_claim ::
    "clock \<Rightarrow> session_claim \<Rightarrow> string \<Rightarrow> uuid \<Rightarrow> uuid \<Rightarrow> worker_connection \<Rightarrow> fleet_db \<Rightarrow> fleet_exn + fleet_db" where
  "apply_session_claim clk c worker_id incarnation account_user_id worker db =
     bindR (context_owner (sc_context c)) (\<lambda>browser.
     case (sx_model_id (sc_context c), sx_params (sc_context c)) of
       (Some model_id, Some params) \<Rightarrow>
         bindR (insert_or_reopen_session (opened_session c model_id params browser worker (clk 3)) db) (\<lambda>db1.
         bindR (insert_attempt (opening_attempt c worker_id incarnation worker (clk 4)) db1) (\<lambda>db2.
           insert_range (fresh_range (sc_range_id c) worker_id incarnation worker account_user_id Session_range
             (sc_subject_id c) (Some (sc_attempt_id c)) (Some (the_int (Some (sc_control_generation c)))) None
             (clk 0)) db2))
     | (None, _) \<Rightarrow> Inl (PyError (KeyError ''model_id''))
     | _ \<Rightarrow> Inl (PyError (KeyError ''params'')))"

definition dispatching_attempt ::
    "p6_prims \<Rightarrow> job_claim \<Rightarrow> string \<Rightarrow> uuid \<Rightarrow> uuid \<Rightarrow> worker_connection \<Rightarrow> moment \<Rightarrow> job_attempt" where
  "dispatching_attempt P c worker_id incarnation command_id worker now =
     \<lparr>ja_job_id = jc_subject_id c, ja_dispatch_sequence = jc_dispatch_sequence c, ja_command_id = command_id,
      ja_worker_id = worker_id, ja_incarnation = incarnation, ja_owner_epoch = wc_owner_epoch worker,
      ja_state = ''dispatching'', ja_dispatch_token_hash = p_sha256 P (the_str (Some (jc_dispatch_token c))),
      ja_range_id = Some (jc_range_id c), ja_created_at = now, ja_gpu_ms = 0, ja_frames = 0, ja_duration_ms = 0,
      ja_report_sequence = 0, ja_input_fetch_ms = None, ja_load_ms = None, ja_postprocess_ms = None,
      ja_terminal_category = None, ja_terminal_category_score = None, ja_terminal_has_thumbnail = None,
      ja_terminal_failure_code = None, ja_terminal_at = None\<rparr>"

definition insert_job_attempt :: "job_attempt \<Rightarrow> fleet_db \<Rightarrow> fleet_exn + fleet_db" where
  "insert_job_attempt a db =
     (if exists_row (\<lambda>b. job_attempt_key b = job_attempt_key a \<or> ja_command_id b = ja_command_id a) (db_job_attempts db)
      then Inl (IntegrityError ''job_attempts'')
      else Inr (db_job_attempts_update (\<lambda>rows. rows @ [a]) db))"

definition apply_job_claim ::
    "p6_prims \<Rightarrow> clock \<Rightarrow> job_claim \<Rightarrow> string \<Rightarrow> uuid \<Rightarrow> uuid \<Rightarrow> uuid \<Rightarrow> worker_connection \<Rightarrow> fleet_db \<Rightarrow> fleet_exn + fleet_db"
where
  "apply_job_claim P clk c worker_id incarnation account_user_id command_id worker db =
     bindR (insert_job_attempt (dispatching_attempt P c worker_id incarnation command_id worker (clk 3)) db) (\<lambda>db1.
       let hit = (\<lambda>j. jb_id j = jc_subject_id c \<and> jb_state j = ''queued''
                    \<and> jb_current_dispatch_sequence j = jc_previous_dispatch_sequence c) in
       raise_if (\<not> exists_row hit (db_jobs db1)) (CommandRefused ''job claim changed before commit'')
         (insert_range (fresh_range (jc_range_id c) worker_id incarnation worker account_user_id Job_range
             (jc_subject_id c) None None (Some (jc_dispatch_sequence c)) (clk 0))
           (db_jobs_update (upd_where hit (\<lambda>j. j\<lparr>jb_state := ''running'',
             jb_current_dispatch_sequence := jc_dispatch_sequence c, jb_dispatched_at := Some (clk 4)\<rparr>)) db1)))"

definition claim_range :: "claim \<Rightarrow> uuid" where
  "claim_range c = (case c of Session_claim s \<Rightarrow> sc_range_id s | Job_claim j \<Rightarrow> jc_range_id j)"

definition apply_command_claim ::
    "p6_prims \<Rightarrow> clock \<Rightarrow> claim option \<Rightarrow> string \<Rightarrow> uuid \<Rightarrow> uuid \<Rightarrow> uuid \<Rightarrow> worker_connection \<Rightarrow> fleet_db \<Rightarrow> fleet_exn + fleet_db"
where
  "apply_command_claim P clk claim_opt worker_id incarnation account_user_id command_id worker db =
     (case claim_opt of
        None \<Rightarrow> Inr db
      | Some c \<Rightarrow>
          raise_if (exists_row (\<lambda>r. pr_range_id r = claim_range c) (db_ranges db))
            (CommandRefused ''physical range identity is already used'')
            (case c of
               Session_claim s \<Rightarrow> apply_session_claim clk s worker_id incarnation account_user_id worker db
             | Job_claim j \<Rightarrow> apply_job_claim P clk j worker_id incarnation account_user_id command_id worker db))"

section \<open>Delivery\<close>

record stored_command =
  st_worker_id :: string
  st_incarnation :: uuid
  st_sequence :: int
  st_command_id :: uuid
  st_body_hash :: string
  st_body :: string
  st_created_at :: moment
  st_account_user_id :: "uuid option"
  st_subject_id :: "uuid option"
  st_subject_sequence :: "int option"
  st_ack_identity_hash :: "string option"

definition expected_session_states :: "string \<Rightarrow> session_state list option" where
  "expected_session_states kind = map_of [(''open_session'', [Assigning]), (''update_session'', [Live, Idle]),
     (''close_session'', [Idle, Ending])] kind"

text \<open>What the checks on a delivery read of an attempt: worker, incarnation, range, and state as expected.\<close>

definition delivery_range ::
    "uuid option \<Rightarrow> uuid option \<Rightarrow> fleet_db \<Rightarrow> fleet_exn + unit" where
  "delivery_range account range_id db =
     (case range_id of
        None \<Rightarrow> Inr ()
      | Some r \<Rightarrow>
          (case range_of r db of
             None \<Rightarrow> Inl (CommandRefused ''command physical range is no longer current'')
           | Some p \<Rightarrow> raise_if (pr_account_user_id p \<noteq> account \<or> pr_state p \<noteq> Outstanding)
               (CommandRefused ''command physical range is no longer current'') (Inr ())))"

definition lock_session_delivery ::
    "process_env \<Rightarrow> string \<Rightarrow> uuid \<Rightarrow> uuid \<Rightarrow> uuid \<Rightarrow> uuid \<Rightarrow> int \<Rightarrow> string \<Rightarrow> dict \<Rightarrow> fleet_db \<Rightarrow> fleet_exn + deadlines option"
where
  "lock_session_delivery env worker_id incarnation transport_owner_id account subject sequence kind body db =
     (case session_of subject db of
        None \<Rightarrow> Inl (CommandRefused ''session command is no longer current'')
      | Some entity \<Rightarrow>
        raise_if (rs_user_id entity \<noteq> Some account \<or> rs_control_generation entity \<noteq> sequence)
          (CommandRefused ''session command is no longer current'')
       (case lock_browser_binding env account (rs_auth_session_id entity) db of
          None \<Rightarrow> Inl (CommandRefused ''session command principal is no longer current'')
        | Some deadlines \<Rightarrow>
          raise_if (case expected_session_states kind of None \<Rightarrow> True | Some states \<Rightarrow> rs_state entity \<notin> set states)
            (CommandRefused ''session command state is no longer current'')
         (raise_if (rs_browser_owner_id entity \<noteq> transport_owner_id
              \<or> kind \<in> {''open_session'', ''update_session''} \<and> dget body ''model_id'' \<noteq> Some (JStr (rs_model_id entity)))
            (CommandRefused ''session command principal is no longer current'')
         (bindR (field_uuid body ''attempt_id'') (\<lambda>attempt_id.
          case such (\<lambda>a. ra_attempt_id a = attempt_id \<and> active_attempt a) (attempt_of subject sequence db) of
            None \<Rightarrow> Inl (CommandRefused ''command attempt is no longer current'')
          | Some attempt \<Rightarrow>
              raise_if (ra_worker_id attempt \<noteq> worker_id \<or> ra_incarnation attempt \<noteq> incarnation
                  \<or> ra_state attempt \<noteq> (if kind = ''open_session'' then Opening else Running))
                (CommandRefused ''command attempt is no longer current'')
                (bindR (delivery_range (Some account) (ra_range_id attempt) db) (\<lambda>_. Inr (Some deadlines))))))))"

definition lock_job_delivery ::
    "string \<Rightarrow> uuid \<Rightarrow> uuid \<Rightarrow> uuid \<Rightarrow> int \<Rightarrow> string \<Rightarrow> fleet_db \<Rightarrow> fleet_exn + deadlines option"
where
  "lock_job_delivery worker_id incarnation account subject sequence kind db =
     (case job_of subject db of
        None \<Rightarrow> Inl (CommandRefused ''job command is no longer current'')
      | Some entity \<Rightarrow>
        raise_if (jb_user_id entity \<noteq> account \<or> jb_current_dispatch_sequence entity \<noteq> sequence)
          (CommandRefused ''job command is no longer current'')
       (raise_if (jb_state entity \<noteq> (if kind = ''dispatch_job'' then ''running'' else ''cancelled''))
          (CommandRefused ''job command state is no longer current'')
       (raise_if (\<not> current_owner account db) (CommandRefused ''job command owner is no longer current'')
       (case job_attempt_of subject sequence db of
          None \<Rightarrow> Inl (CommandRefused ''command attempt is no longer current'')
        | Some attempt \<Rightarrow>
            raise_if (ja_worker_id attempt \<noteq> worker_id \<or> ja_incarnation attempt \<noteq> incarnation
                \<or> ja_state attempt \<notin> (if kind = ''dispatch_job'' then {''dispatching''} else {''dispatching'', ''running''}))
              (CommandRefused ''command attempt is no longer current'')
              (bindR (delivery_range (Some account) (ja_range_id attempt) db) (\<lambda>_. Inr None))))))"

text \<open>The kind of the body is one of the five subject commands; anything else has no ACK identity.\<close>

definition lock_delivery_subject ::
    "process_env \<Rightarrow> stored_command \<Rightarrow> uuid \<Rightarrow> dict \<Rightarrow> string \<Rightarrow> uuid \<Rightarrow> uuid \<Rightarrow> fleet_db \<Rightarrow> fleet_exn + deadlines option"
where
  "lock_delivery_subject env command account body worker_id incarnation transport_owner_id db =
     (let kind = the_str (dget body ''type'') in
      case (st_subject_id command, st_subject_sequence command) of
        (Some subject, Some sequence) \<Rightarrow>
          if ends_with kind ''session'' then
            lock_session_delivery env worker_id incarnation transport_owner_id account subject sequence kind body db
          else lock_job_delivery worker_id incarnation account subject sequence kind db
      | _ \<Rightarrow> Inl (CommandRefused (if ends_with kind ''session'' then ''session command is no longer current''
                                  else ''job command is no longer current'')))"

section \<open>Reports\<close>

definition TERMINAL_JOB_REPORTS :: "string list" where
  "TERMINAL_JOB_REPORTS = [''job_done'', ''job_failed'', ''job_cancelled'']"

text \<open>
  The subject of a report: a session or a job and its current dispatch. The result also says
  whether the identity matches; \<open>None\<close> is Python's \<open>None\<close>.
\<close>

datatype report_entity = Session_entity realtime_session | Job_entity job_row

definition session_attempt_matches ::
    "string \<Rightarrow> uuid \<Rightarrow> json \<Rightarrow> uuid \<Rightarrow> uuid option \<Rightarrow> realtime_attempt \<Rightarrow> bool" where
  "session_attempt_matches worker_id incarnation owner_epoch range_id attempt_id a \<longleftrightarrow>
     ra_worker_id a = worker_id \<and> ra_incarnation a = incarnation \<and> py_eq (JInt (ra_owner_epoch a)) owner_epoch
     \<and> ra_range_id a = Some range_id \<and> Some (ra_attempt_id a) = attempt_id"

definition job_attempt_matches :: "string \<Rightarrow> uuid \<Rightarrow> json \<Rightarrow> uuid \<Rightarrow> job_attempt \<Rightarrow> bool" where
  "job_attempt_matches worker_id incarnation owner_epoch range_id a \<longleftrightarrow>
     ja_worker_id a = worker_id \<and> ja_incarnation a = incarnation \<and> py_eq (JInt (ja_owner_epoch a)) owner_epoch
     \<and> ja_range_id a = Some range_id"

definition dispatch_token_matches :: "p6_prims \<Rightarrow> dict \<Rightarrow> job_attempt \<Rightarrow> bool" where
  "dispatch_token_matches P report a =
     (case dget report ''dispatch_token'' of
        Some (JStr token) \<Rightarrow> ascii token \<and> ja_dispatch_token_hash a = p_sha256 P token
      | _ \<Rightarrow> False)"

definition lock_report_subject ::
    "p6_prims \<Rightarrow> uuid \<Rightarrow> uuid \<Rightarrow> bool \<Rightarrow> int \<Rightarrow> int \<Rightarrow> string \<Rightarrow> uuid \<Rightarrow> json \<Rightarrow> uuid \<Rightarrow> uuid option \<Rightarrow> dict \<Rightarrow> fleet_db \<Rightarrow>
     report_entity option"
where
  "lock_report_subject P subject_id user_id is_session generation dispatch_sequence worker_id incarnation
       owner_epoch range_id attempt_id report db =
     (if is_session then
        (case such (\<lambda>s. rs_user_id s = Some user_id) (session_of subject_id db) of
           None \<Rightarrow> None
         | Some entity \<Rightarrow>
             (case attempt_of subject_id generation db of
                None \<Rightarrow> None
              | Some a \<Rightarrow> if session_attempt_matches worker_id incarnation owner_epoch range_id attempt_id a
                          then Some (Session_entity entity) else None))
      else
        (case such (\<lambda>j. jb_user_id j = user_id) (job_of subject_id db) of
           None \<Rightarrow> None
         | Some entity \<Rightarrow>
             (case job_attempt_of subject_id dispatch_sequence db of
                None \<Rightarrow> None
              | Some a \<Rightarrow>
                  if \<not> job_attempt_matches worker_id incarnation owner_epoch range_id a then None
                  else if the_str (dget report ''type'') \<in> set TERMINAL_JOB_REPORTS
                          \<and> \<not> dispatch_token_matches P report a then None
                  else Some (Job_entity entity))))"

definition report_ack ::
    "dict \<Rightarrow> uuid \<Rightarrow> uuid \<Rightarrow> uuid \<Rightarrow> uuid option \<Rightarrow> json \<Rightarrow> json \<Rightarrow> fleet_exn + dict" where
  "report_ack report subject_id incarnation range_id attempt_id generation dispatch_sequence =
     bindR (field report ''worker_id'') (\<lambda>worker_id.
     bindR (field report ''region'') (\<lambda>region.
     bindR (field report ''owner_epoch'') (\<lambda>owner_epoch.
     bindR (field report ''report_sequence'') (\<lambda>report_sequence.
     bindR (field report ''report_hash'') (\<lambda>report_hash.
     bindR (field report ''gpu_ms'') (\<lambda>gpu_ms.
     bindR (field report ''duration_ms'') (\<lambda>duration_ms.
       let common = [(''type'', JStr ''checkpoint_ack''), (''worker_id'', worker_id),
             (''incarnation'', JStr incarnation), (''region'', region), (''owner_epoch'', owner_epoch),
             (''range_id'', JStr range_id), (''report_sequence'', report_sequence), (''report_hash'', report_hash),
             (''gpu_ms'', gpu_ms), (''duration_ms'', duration_ms), (''status'', JStr ''accepted'')];
           own = (if has_key report ''session_id'' then
                    [(''session_id'', JStr subject_id),
                     (''attempt_id'', JStr (case attempt_id of None \<Rightarrow> ''None'' | Some a \<Rightarrow> a)),
                     (''control_generation'', generation),
                     (''frames'', case dget report ''frames'' of None \<Rightarrow> JInt 0 | Some v \<Rightarrow> v)]
                  else
                    [(''job_id'', JStr subject_id), (''dispatch_sequence'', dispatch_sequence),
                     (''images'', case dget report ''images'' of None \<Rightarrow> JInt 0 | Some v \<Rightarrow> v)])
       in Inr (dupdate common own))))))))"

text \<open>The pending commands of one kind and subject on one connection.\<close>

definition reported_row :: "uuid \<Rightarrow> string \<Rightarrow> uuid \<Rightarrow> int \<Rightarrow> string \<Rightarrow> uuid \<Rightarrow> worker_command \<Rightarrow> bool" where
  "reported_row account kind subject_id subject_sequence worker_id incarnation c \<longleftrightarrow>
     cmd_account_user_id c = Some account \<and> cmd_worker_id c = worker_id \<and> cmd_incarnation c = incarnation
     \<and> cmd_kind c = kind \<and> cmd_subject_id c = Some subject_id \<and> cmd_subject_sequence c = Some subject_sequence
     \<and> cmd_state c = Pending"

definition lock_reported_subject_rows ::
    "uuid \<Rightarrow> string \<Rightarrow> uuid \<Rightarrow> int \<Rightarrow> string \<Rightarrow> uuid \<Rightarrow> fleet_db \<Rightarrow> worker_command list" where
  "lock_reported_subject_rows account kind subject_id subject_sequence worker_id incarnation db =
     sort_key cmd_sequence
       (filter (reported_row account kind subject_id subject_sequence worker_id incarnation) (db_commands db))"

definition session_close_proved ::
    "uuid \<Rightarrow> uuid \<Rightarrow> int \<Rightarrow> string \<Rightarrow> uuid \<Rightarrow> uuid \<Rightarrow> uuid option \<Rightarrow> fleet_db \<Rightarrow> bool" where
  "session_close_proved account subject_id subject_sequence worker_id incarnation range_id attempt_id db =
     (case (such (\<lambda>s. rs_user_id s = Some account \<and> rs_control_generation s \<ge> subject_sequence)
              (session_of subject_id db), attempt_of subject_id subject_sequence db) of
        (Some entity, Some a) \<Rightarrow>
          \<not> (rs_control_generation entity = subject_sequence \<and> rs_state entity \<notin> {Idle, Session_ended})
          \<and> ra_state a = Attempt_ended \<and> Some (ra_attempt_id a) = attempt_id \<and> ra_worker_id a = worker_id
          \<and> ra_incarnation a = incarnation \<and> ra_range_id a = Some range_id
      | _ \<Rightarrow> False)"

definition job_terminal_proved ::
    "uuid \<Rightarrow> uuid \<Rightarrow> int \<Rightarrow> string \<Rightarrow> uuid \<Rightarrow> uuid \<Rightarrow> fleet_db \<Rightarrow> bool" where
  "job_terminal_proved account subject_id subject_sequence worker_id incarnation range_id db =
     (case (such (\<lambda>j. jb_user_id j = account \<and> jb_current_dispatch_sequence j = subject_sequence)
              (job_of subject_id db), job_attempt_of subject_id subject_sequence db) of
        (Some entity, Some a) \<Rightarrow>
          jb_state entity \<in> {''running'', ''completed'', ''failed'', ''cancelled''}
          \<and> ja_state a \<in> {''completed'', ''failed'', ''cancelled''} \<and> ja_terminal_at a \<noteq> None
          \<and> ja_worker_id a = worker_id \<and> ja_incarnation a = incarnation \<and> ja_range_id a = Some range_id
      | _ \<Rightarrow> False)"

definition lock_reported_command ::
    "uuid \<Rightarrow> string \<Rightarrow> uuid \<Rightarrow> int \<Rightarrow> string \<Rightarrow> uuid \<Rightarrow> uuid \<Rightarrow> uuid option \<Rightarrow> int \<Rightarrow> string \<Rightarrow> fleet_db \<Rightarrow>
     fleet_exn + worker_command list"
where
  "lock_reported_command account kind subject_id subject_sequence worker_id incarnation range_id attempt_id
       report_sequence report_hash db =
     raise_if (kind \<notin> {''close_session'', ''dispatch_job''}
         \<or> \<not> (1 \<le> subject_sequence \<and> subject_sequence \<le> MAX_SEQUENCE)
         \<or> report_sequence < 1 \<or> length report_hash \<noteq> 64
         \<or> ((kind = ''close_session'') \<noteq> (attempt_id \<noteq> None)))
       (CommandRefused ''reported command identity is invalid'')
    (raise_if (\<not> exists_row (\<lambda>r. rc_range_id r = range_id \<and> rc_report_sequence r = report_sequence
           \<and> rc_report_hash r = report_hash) (db_receipts db))
       (CommandRefused ''physical report receipt is unavailable'')
    (raise_if (case such (\<lambda>p. pr_worker_id p = worker_id \<and> pr_incarnation p = incarnation) (range_of range_id db) of
           None \<Rightarrow> True
         | Some p \<Rightarrow> pr_kind p \<noteq> (if kind = ''close_session'' then Session_range else Job_range)
             \<or> pr_subject_id p \<noteq> subject_id \<or> pr_attempt_id p \<noteq> attempt_id
             \<or> pr_control_generation p \<noteq> (if kind = ''close_session'' then Some subject_sequence else None)
             \<or> pr_dispatch_sequence p \<noteq> (if kind = ''dispatch_job'' then Some subject_sequence else None))
       (CommandRefused ''physical report range identity changed'')
    (raise_if (kind = ''close_session'' \<and> \<not> session_close_proved account subject_id subject_sequence worker_id
           incarnation range_id attempt_id db)
       (CommandRefused ''session close report is not physically complete'')
    (raise_if (kind \<noteq> ''close_session'' \<and> \<not> job_terminal_proved account subject_id subject_sequence worker_id
           incarnation range_id db)
       (CommandRefused ''job terminal report is not physically complete'')
       (Inr (lock_reported_subject_rows account kind subject_id subject_sequence worker_id incarnation db))))))"

section \<open>Acknowledged updates\<close>

definition lock_update_ack_subject ::
    "worker_command option \<Rightarrow> fleet_db \<Rightarrow> realtime_session option \<times> realtime_attempt option \<times> physical_range option"
where
  "lock_update_ack_subject hint db =
     (case hint of
        None \<Rightarrow> (None, None, None)
      | Some h \<Rightarrow>
          if cmd_state h \<noteq> Pending \<or> cmd_kind h \<noteq> ''update_session'' then (None, None, None)
          else case cmd_subject_id h of
            None \<Rightarrow> (None, None, None)
          | Some subject \<Rightarrow>
              (case session_of subject db of
                 None \<Rightarrow> (None, None, None)
               | Some entity \<Rightarrow>
                   if Some (rs_control_generation entity) \<noteq> cmd_subject_sequence h then (Some entity, None, None)
                   else (case attempt_of subject (rs_control_generation entity) db of
                       None \<Rightarrow> (Some entity, None, None)
                     | Some a \<Rightarrow> (Some entity, Some a,
                         case ra_range_id a of None \<Rightarrow> None | Some r \<Rightarrow> range_of r db))))"

definition read_committed_desired :: "uuid \<Rightarrow> uuid \<Rightarrow> int \<Rightarrow> fleet_db \<Rightarrow> (json \<times> int) option" where
  "read_committed_desired session_id account_user_id generation db =
     map_option (\<lambda>s. (rs_desired_params s, rs_desired_revision s))
       (such (\<lambda>s. rs_user_id s = Some account_user_id \<and> rs_control_generation s = generation)
         (session_of session_id db))"

section \<open>Erasure selections\<close>

text \<open>
  A selection is a condition on the journal with the connections to fence; the connections are
  the pairs of worker and incarnation of the attempts found.
\<close>

type_synonym conns = "(string \<times> uuid) list"

definition subject_command_kinds :: "string \<Rightarrow> fleet_exn + string list" where
  "subject_command_kinds kind =
     (let commands = (case map_of SUBJECT_COMMANDS kind of None \<Rightarrow> [kind] | Some ks \<Rightarrow> ks) in
      if list_ex (\<lambda>k. map_of SUBJECT_FIELDS k = None) commands
      then Inl (CommandRefused ''command erasure subject identity is invalid'') else Inr commands)"

definition session_range_matches :: "uuid list \<Rightarrow> realtime_session \<Rightarrow> realtime_attempt \<Rightarrow> physical_range \<Rightarrow> bool" where
  "session_range_matches accounts s a p \<longleftrightarrow>
     ra_range_id a = Some (pr_range_id p) \<and> pr_account_user_id p \<in> Some ` set accounts
     \<and> pr_kind p = Session_range \<and> pr_subject_id p = rs_id s \<and> pr_attempt_id p = Some (ra_attempt_id a)
     \<and> pr_control_generation p = Some (ra_control_generation a)"

definition job_range_matches :: "uuid list \<Rightarrow> job_row \<Rightarrow> job_attempt \<Rightarrow> physical_range \<Rightarrow> bool" where
  "job_range_matches accounts j a p \<longleftrightarrow>
     ja_range_id a = Some (pr_range_id p) \<and> pr_account_user_id p \<in> Some ` set accounts
     \<and> pr_kind p = Job_range \<and> pr_subject_id p = jb_id j \<and> pr_dispatch_sequence p = Some (ja_dispatch_sequence a)"

definition OPEN_SESSION_STATES :: "session_state list" where
  "OPEN_SESSION_STATES = [Assigning, Live, Idle, Ending]"

definition session_attempt_conns ::
    "uuid list \<Rightarrow> (realtime_session \<Rightarrow> bool) \<Rightarrow> (realtime_attempt \<Rightarrow> bool) \<Rightarrow> fleet_db \<Rightarrow> conns" where
  "session_attempt_conns accounts P Q db =
     [(ra_worker_id a, ra_incarnation a). s \<leftarrow> db_sessions db, a \<leftarrow> db_attempts db, p \<leftarrow> db_ranges db,
        ra_session_id a = rs_id s \<and> session_range_matches accounts s a p \<and> P s \<and> Q a
        \<and> rs_state s \<in> set OPEN_SESSION_STATES \<and> active_attempt a]"

definition job_attempt_conns ::
    "uuid list \<Rightarrow> (job_row \<Rightarrow> job_attempt \<Rightarrow> bool) \<Rightarrow> fleet_db \<Rightarrow> conns" where
  "job_attempt_conns accounts P db =
     [(ja_worker_id a, ja_incarnation a). j \<leftarrow> db_jobs db, a \<leftarrow> db_job_attempts db, p \<leftarrow> db_ranges db,
        ja_job_id a = jb_id j \<and> job_range_matches accounts j a p \<and> P j a
        \<and> jb_state j \<in> {''running'', ''cancelled''} \<and> ja_state a = ''dispatching'']"

definition lock_attempt_ranges :: "conns \<Rightarrow> conns" where
  "lock_attempt_ranges attempts = remdups attempts"

definition lock_subject_attempts :: "uuid \<Rightarrow> bool \<Rightarrow> uuid list \<Rightarrow> int option \<Rightarrow> fleet_db \<Rightarrow> conns" where
  "lock_subject_attempts account is_session subject_ids subject_sequence db =
     lock_attempt_ranges (if is_session
       then session_attempt_conns [account] (\<lambda>s. rs_id s \<in> set subject_ids)
              (\<lambda>a. case subject_sequence of None \<Rightarrow> True | Some n \<Rightarrow> ra_control_generation a = n) db
       else job_attempt_conns [account] (\<lambda>j a. jb_id j \<in> set subject_ids \<and>
              (case subject_sequence of None \<Rightarrow> True | Some n \<Rightarrow> ja_dispatch_sequence a = n)) db)"

type_synonym selection = "(worker_command \<Rightarrow> bool) \<times> conns"

definition realtime_erasure_selection ::
    "uuid \<Rightarrow> uuid list option \<Rightarrow> uuid option \<Rightarrow> fleet_db \<Rightarrow> selection option" where
  "realtime_erasure_selection account auth_session_ids keep_auth_session_id db =
     (if auth_session_ids = Some [] then None
      else let bindings = map rs_id (filter (\<lambda>s. rs_user_id s = Some account
                 \<and> (case auth_session_ids of None \<Rightarrow> True | Some ids \<Rightarrow> rs_auth_session_id s \<in> Some ` set ids)
                 \<and> (keep_auth_session_id = None \<or> rs_auth_session_id s \<noteq> keep_auth_session_id)) (db_sessions db))
           in if bindings = [] then None
              else Some ((\<lambda>c. cmd_account_user_id c = Some account
                     \<and> cmd_kind c \<in> {''open_session'', ''update_session'', ''close_session''}
                     \<and> cmd_subject_id c \<in> Some ` set bindings),
                   lock_subject_attempts account True bindings None db))"

definition account_erasure_selection :: "uuid list \<Rightarrow> fleet_db \<Rightarrow> selection" where
  "account_erasure_selection accounts db =
     ((\<lambda>c. cmd_account_user_id c \<in> Some ` set accounts),
      lock_attempt_ranges (session_attempt_conns accounts (\<lambda>_. True) (\<lambda>_. True) db
        @ job_attempt_conns accounts (\<lambda>j a. ja_dispatch_sequence a = jb_current_dispatch_sequence j) db))"

definition subject_erasure_selection ::
    "uuid \<Rightarrow> string \<Rightarrow> uuid \<Rightarrow> int option \<Rightarrow> fleet_db \<Rightarrow> fleet_exn + selection" where
  "subject_erasure_selection account kind subject_id subject_sequence db =
     bindR (subject_command_kinds kind) (\<lambda>kinds.
     raise_if (case subject_sequence of None \<Rightarrow> False | Some n \<Rightarrow> \<not> (1 \<le> n \<and> n \<le> MAX_SEQUENCE))
       (CommandRefused ''command erasure subject sequence is invalid'')
       (Inr ((\<lambda>c. cmd_account_user_id c = Some account \<and> cmd_kind c \<in> set kinds \<and> cmd_subject_id c = Some subject_id
              \<and> (case subject_sequence of None \<Rightarrow> True | Some n \<Rightarrow> cmd_subject_sequence c = Some n)),
            lock_subject_attempts account (list_all (\<lambda>k. ends_with k ''_session'') kinds) [subject_id]
              subject_sequence db)))"

end
