(* ===== verification/Command_Store.thy ===== *)
theory Command_Store
  imports Subjects
begin

text \<open>
  The bounded encrypted journal of worker commands (\<open>src/backend/app/command_store.py\<close>): commit
  of a command, reading the head of the journal, erasure with fencing, registration of a
  delivery and acknowledgement.
\<close>

section \<open>Limits\<close>

definition MAX_RETAINED_COMMANDS :: nat where "MAX_RETAINED_COMMANDS = 256"
definition MAX_PENDING_BYTES :: int where "MAX_PENDING_BYTES = 4 * 1024 * 1024"
definition MAX_SMALL_COMMAND_BYTES :: nat where "MAX_SMALL_COMMAND_BYTES = 16 * 1024"
definition MAX_PARAMETER_COMMAND_BYTES :: nat where "MAX_PARAMETER_COMMAND_BYTES = 1024 * 1024"

definition CONSUMING_REFUSALS :: "string list" where
  "CONSUMING_REFUSALS = [''authority_expired'', ''authority_mismatch'', ''attempt_stale'', ''revision_stale'',
     ''unsupported_control'', ''out_of_memory'', ''model_unavailable'', ''invalid_params'',
     ''capacity_unavailable'', ''dependency_unavailable'', ''checkpoint_incompatible'']"

definition ACK_COMMON :: "string list" where
  "ACK_COMMON = [''worker_id'', ''incarnation'', ''region'', ''owner_epoch'', ''lease_id'',
     ''lease_expires_at'', ''grant_nonce'', ''command_sequence'', ''command_id'', ''body_hash'']"

section \<open>Identities\<close>

definition command_aad :: "p6_prims \<Rightarrow> string \<Rightarrow> uuid \<Rightarrow> int \<Rightarrow> uuid \<Rightarrow> string \<Rightarrow> py_exn + string" where
  "command_aad P worker_id incarnation sequence command_id body_hash =
     canonical_bytes (p_float_repr P) (JObj [
       (''body_hash'', JStr body_hash), (''command_id'', JStr command_id), (''command_sequence'', JInt sequence),
       (''incarnation'', JStr incarnation), (''worker_id'', JStr worker_id)])"

definition ack_identity_projection :: "string \<Rightarrow> dict \<Rightarrow> fleet_exn + dict" where
  "ack_identity_projection kind value =
     (case map_of SUBJECT_FIELDS kind of
        None \<Rightarrow> Inl (CommandRefused ''command kind has no ACK identity'')
      | Some subject_fields \<Rightarrow>
          let names = ACK_COMMON @ subject_fields in
          raise_if (list_ex (\<lambda>name. \<not> has_key value name) names)
            (CommandRefused ''command acknowledgement identity is incomplete'')
            (Inr (dupdate
               [(''ack_variant'', JStr (if ends_with kind ''session'' then ''session'' else ''job'')),
                (''command_kind'', JStr kind)]
               (map (\<lambda>name. (name, opt_json (dget value name))) names))))"

definition ack_identity_hash :: "p6_prims \<Rightarrow> string \<Rightarrow> dict \<Rightarrow> fleet_exn + string" where
  "ack_identity_hash P kind value =
     bindR (ack_identity_projection kind value) (\<lambda>projection. lift_py (sha256_json P (JObj projection)))"

fun subject_sequence_of :: "json \<Rightarrow> int option" where
  "subject_sequence_of (JInt i) = (if 1 \<le> i \<and> i \<le> MAX_SEQUENCE then Some i else None)"
| "subject_sequence_of _ = None"

definition command_identity :: "string \<Rightarrow> dict \<Rightarrow> fleet_exn + (uuid \<times> int)" where
  "command_identity kind value =
     (let is_session = ends_with kind ''session'';
          subject = opt_json (dget value (if is_session then ''session_id'' else ''job_id''));
          sequence = opt_json (dget value (if is_session then ''control_generation'' else ''dispatch_sequence'')) in
      case uuid_of_json subject of
        Inl (PyError AttributeError) \<Rightarrow> Inl (PyError AttributeError)
      | Inl _ \<Rightarrow> Inl (CommandRefused ''command subject identity is invalid'')
      | Inr subject_id \<Rightarrow>
          (case subject_sequence_of sequence of
             None \<Rightarrow> Inl (CommandRefused ''command subject sequence is invalid'')
           | Some n \<Rightarrow> Inr (subject_id, n)))"

definition ack_matches :: "dict \<Rightarrow> dict \<Rightarrow> bool" where
  "ack_matches command ack =
     (let common = [''worker_id'', ''incarnation'', ''region'', ''owner_epoch'', ''lease_id'', ''grant_nonce'',
            ''command_sequence'', ''command_id'', ''body_hash''];
          own = (case map_of SUBJECT_FIELDS (the_str (dget command ''type'')) of None \<Rightarrow> [] | Some fs \<Rightarrow> fs) in
      list_all (\<lambda>f. get_eq (dget ack f) (dget command f)) (common @ own)
      \<and> (\<not> has_key ack ''lease_expires_at''
         \<or> get_eq (dget ack ''lease_expires_at'') (dget command ''lease_expires_at'')))"

text \<open>
  \<open>json.loads(body)\<close> without hooks: a repeated key keeps its last value, the named constants are
  the non-finite doubles.
\<close>

definition std_constant :: "string \<Rightarrow> py_exn + json" where
  "std_constant name = Inr (JFloat (if name = ''Infinity'' then Infinite False
     else if name = ''-Infinity'' then Infinite True else Not_a_number))"

definition plain_loads :: "fleet_prims \<Rightarrow> string \<Rightarrow> json option" where
  "plain_loads P body =
     (case fp_loads P (\<lambda>pairs. Inr (dupdate [] pairs)) std_constant body of Inl _ \<Rightarrow> None | Inr v \<Rightarrow> Some v)"

text \<open>\<open>set(ack) == required\<close>.\<close>

definition ack_fields_exact :: "string list \<Rightarrow> bool \<Rightarrow> dict \<Rightarrow> bool" where
  "ack_fields_exact subject_fields refused ack \<longleftrightarrow>
     dkeys ack = set (ACK_COMMON @ subject_fields @ [''type'', ''status'']
       @ (if refused then [''code''] else []))"

text \<open>
  A stored acknowledgement that proves the command is settled. Every exception the source
  catches is \<open>False\<close>; the bodies it reads are acknowledgements \<open>acknowledge\<close> validated and stored.
\<close>

definition known_acknowledged :: "fleet_prims \<Rightarrow> worker_command \<Rightarrow> bool" where
  "known_acknowledged P row \<longleftrightarrow>
     cmd_state row = Acknowledged \<and> cmd_acknowledged_at row \<noteq> None \<and> cmd_expected_sequence row = None \<and>
     (case (cmd_ack_identity_hash row, cmd_ack_body row, map_of SUBJECT_FIELDS (cmd_kind row)) of
        (Some identity, Some body, Some subject_fields) \<Rightarrow>
          length body \<le> MAX_SMALL_COMMAND_BYTES \<and>
          (case plain_loads P body of
             Some (JObj ack) \<Rightarrow>
               canonical_bytes (p_float_repr (fp_p6 P)) (JObj ack) = Inr body \<and>
               dget ack ''type'' = Some (JStr ''command_ack'') \<and>
               validate_message (fp_p6 P) (JObj ack) (Some (cmd_worker_id row)) (Some (cmd_incarnation row)) = Inr () \<and>
               dget ack ''status'' = map_option JStr (cmd_ack_status row) \<and>
               opt_json (dget ack ''code'') = opt_json (map_option JStr (cmd_ack_code row)) \<and>
               \<not> given ack ''expected_sequence'' \<and>
               \<not> (cmd_ack_status row = Some ''accepted'' \<and> cmd_ack_code row \<noteq> None) \<and>
               \<not> (cmd_ack_status row = Some ''refused'' \<and> cmd_ack_code row \<notin> Some ` set CONSUMING_REFUSALS) \<and>
               ack_fields_exact subject_fields (cmd_ack_status row = Some ''refused'') ack \<and>
               dget ack ''command_id'' = Some (JStr (cmd_command_id row)) \<and>
               dget ack ''body_hash'' = Some (JStr (cmd_body_hash row)) \<and>
               dget ack ''command_sequence'' = Some (JInt (cmd_sequence row)) \<and>
               ack_identity_hash (fp_p6 P) (cmd_kind row) ack = Inr identity
           | _ \<Rightarrow> False)
      | _ \<Rightarrow> False)"

section \<open>Instants as text\<close>

text \<open>\<open>datetime.isoformat()\<close> of a UTC instant in microseconds, with \<open>Z\<close> for the offset.\<close>

definition pad :: "nat \<Rightarrow> int \<Rightarrow> string" where
  "pad width n = (let s = show_int n in replicate (width - length s) CHR ''0'' @ s)"

definition civil_date :: "int \<Rightarrow> int \<times> int \<times> int" where
  "civil_date days =
     (let z = days + 719468; era = z div 146097; doe = z mod 146097;
          yoe = (doe - doe div 1460 + doe div 36524 - doe div 146096) div 365;
          doy = doe - (365 * yoe + yoe div 4 - yoe div 100);
          mp = (5 * doy + 2) div 153; d = doy - (153 * mp + 2) div 5 + 1;
          m = (if mp < 10 then mp + 3 else mp - 9)
      in (yoe + era * 400 + (if m \<le> 2 then 1 else 0), m, d))"

definition isoformat_z :: "moment \<Rightarrow> string" where
  "isoformat_z t =
     (let micro = t mod 1000000; secs = t div 1000000; tod = secs mod 86400;
          (y, m, d) = civil_date (secs div 86400)
      in pad 4 y @ ''-'' @ pad 2 m @ ''-'' @ pad 2 d @ ''T'' @ pad 2 (tod div 3600) @ '':''
         @ pad 2 (tod div 60 mod 60) @ '':'' @ pad 2 (tod mod 60)
         @ (if micro = 0 then [] else ''.'' @ pad 6 micro) @ ''Z'')"

lemma isoformat_examples:
  "isoformat_z 0 = ''1970-01-01T00:00:00Z''"
  "isoformat_z 1721952000000001 = ''2024-07-26T00:00:00.000001Z''"
  "isoformat_z 951782399000000 = ''2000-02-28T23:59:59Z''"
  by code_simp+

section \<open>Committing a command\<close>

definition conn_commands :: "string \<Rightarrow> uuid \<Rightarrow> fleet_db \<Rightarrow> worker_command list" where
  "conn_commands worker_id incarnation db =
     sort_key cmd_sequence (filter (\<lambda>c. cmd_conn c = (worker_id, incarnation)) (db_commands db))"

definition ready_conn :: "string \<Rightarrow> uuid \<Rightarrow> fleet_db \<Rightarrow> worker_connection option" where
  "ready_conn worker_id incarnation db =
     such (\<lambda>w. open_conn w \<and> wc_lifecycle w = Ready) (conn_of worker_id incarnation db)"

text \<open>The guards between the hint and the allocation of a sequence number.\<close>

definition commit_authority ::
    "process_env \<Rightarrow> clock \<Rightarrow> worker_connection \<Rightarrow> uuid \<Rightarrow> uuid \<Rightarrow> string \<Rightarrow> uuid \<Rightarrow> job_attempt option \<Rightarrow> fleet_db \<Rightarrow>
     fleet_exn + worker_connection"
where
  "commit_authority env clk worker_hint expected_transport_owner grant_nonce worker_id incarnation cancel_attempt db =
     (case such (\<lambda>l. sl_owner_id l = pe_scheduler_owner env) (lease_of (wc_region worker_hint) db) of
        None \<Rightarrow> Inl (CommandRefused ''regional scheduler lease is unavailable'')
      | Some lease \<Rightarrow>
        (case such (\<lambda>w. wc_transport_owner_id w = expected_transport_owner \<and> wc_grant_ready w)
               (ready_conn worker_id incarnation db) of
           None \<Rightarrow> Inl (CommandRefused ''worker has no current work grant'')
         | Some worker \<Rightarrow>
           raise_if (wc_region worker \<noteq> wc_region worker_hint
               \<or> wc_next_command_sequence worker \<noteq> wc_next_command_sequence worker_hint
               \<or> wc_acknowledged_floor worker \<noteq> wc_acknowledged_floor worker_hint)
             (CommandRefused ''worker command allocation changed; retry the command'')
          (raise_if (case cancel_attempt of None \<Rightarrow> False
               | Some a \<Rightarrow> ja_worker_id a \<noteq> worker_id \<or> ja_incarnation a \<noteq> incarnation
                   \<or> ja_owner_epoch a \<noteq> wc_owner_epoch worker)
             (CommandRefused ''job cancellation owner is stale'')
          (raise_if (wc_grant_nonce worker \<noteq> grant_nonce) (CommandRefused ''worker grant nonce is stale'')
          (raise_if (wc_owner_epoch worker \<noteq> sl_owner_epoch lease \<or> wc_lease_id worker \<noteq> sl_lease_id lease)
             (CommandRefused ''worker authority is no longer current'')
          (raise_if (\<not> sl_expires_at lease > clk 5) (CommandRefused ''regional scheduler lease has expired'')
          (raise_if (\<not> wc_grant_expires_at worker > clk 6) (CommandRefused ''worker grant has expired'')
          (raise_if (wc_next_command_sequence worker \<ge> MAX_SEQUENCE)
             (CommandRefused ''worker command sequence is exhausted'')
             (Inr worker)))))))))"

text \<open>The message with its body hash, and its canonical bytes.\<close>

definition command_message ::
    "dict \<Rightarrow> string \<Rightarrow> string \<Rightarrow> uuid \<Rightarrow> worker_connection \<Rightarrow> uuid \<Rightarrow> uuid \<Rightarrow> dict" where
  "command_message message_fields command_type worker_id incarnation worker grant_nonce command_id =
     dupdate message_fields [
       (''type'', JStr command_type), (''worker_id'', JStr worker_id), (''incarnation'', JStr incarnation),
       (''region'', JStr (wc_region worker)), (''owner_epoch'', JInt (wc_owner_epoch worker)),
       (''lease_id'', JStr (wc_lease_id worker)),
       (''lease_expires_at'', JStr (isoformat_z (wc_lease_expires_at worker))),
       (''grant_nonce'', JStr grant_nonce), (''command_sequence'', JInt (wc_next_command_sequence worker)),
       (''command_id'', JStr command_id)]"

definition value_error_as :: "fleet_exn \<Rightarrow> py_exn + 'a \<Rightarrow> fleet_exn + 'a" where
  "value_error_as e r =
     (case r of Inl (Protocol6Error _) \<Rightarrow> Inl e | Inl x \<Rightarrow> Inl (PyError x) | Inr v \<Rightarrow> Inr v)"

lemma value_error_as_Inr [simp]: "value_error_as e r = Inr v \<longleftrightarrow> r = Inr v"
  by (auto simp: value_error_as_def split: sum.splits py_exn.splits)

record sealed_message =
  sm_body :: string
  sm_body_hash :: string
  sm_subject_id :: uuid
  sm_subject_sequence :: int
  sm_ack_identity_hash :: string

definition seal_message ::
    "p6_prims \<Rightarrow> string \<Rightarrow> string \<Rightarrow> uuid \<Rightarrow> dict \<Rightarrow> fleet_exn + sealed_message" where
  "seal_message P command_type worker_id incarnation message =
     bindR (lift_py (sha256_json P (JObj message))) (\<lambda>body_hash.
     let sealed = dset ''body_hash'' (JStr body_hash) message in
     bindR (command_identity command_type sealed) (\<lambda>(subject_id, subject_sequence).
     bindR (ack_identity_hash P command_type sealed) (\<lambda>identity_hash.
     bindR (value_error_as (CommandRefused ''command does not match protocol6'')
         (preflight_worker_control P sealed (Some worker_id) (Some incarnation))) (\<lambda>body.
     raise_if (length body > command_size_limit command_type MAX_PARAMETER_COMMAND_BYTES MAX_SMALL_COMMAND_BYTES)
       (CommandRefused ''command exceeds protocol6 size limit'')
       (Inr \<lparr>sm_body = body, sm_body_hash = body_hash, sm_subject_id = subject_id,
             sm_subject_sequence = subject_sequence, sm_ack_identity_hash = identity_hash\<rparr>)))))"

text \<open>The loop that moves the floor over settled commands, up to the next sequence number.\<close>

function advance_floor :: "(int \<Rightarrow> bool) \<Rightarrow> int \<Rightarrow> int \<Rightarrow> int" where
  "advance_floor settled next flr =
     (if flr + 1 < next \<and> settled (flr + 1) then advance_floor settled next (flr + 1) else flr)"
  by auto
termination
  by (relation "measure (\<lambda>(_, next, flr). nat (next - flr))") auto

declare advance_floor.simps [simp del]

definition row_at_sequence :: "int \<Rightarrow> worker_command list \<Rightarrow> worker_command option" where
  "row_at_sequence n rows = find (\<lambda>c. cmd_sequence c = n) rows"

text \<open>Moving the floor drops the acknowledged rows at or below it.\<close>

definition settle_floor :: "string \<Rightarrow> uuid \<Rightarrow> int \<Rightarrow> int \<Rightarrow> fleet_db \<Rightarrow> fleet_db" where
  "settle_floor worker_id incarnation old_floor flr db =
     (if flr > old_floor then
        db_commands_update (del_where (\<lambda>c. cmd_conn c = (worker_id, incarnation) \<and> cmd_sequence c \<le> flr
            \<and> cmd_state c = Acknowledged))
         (db_connections_update (upd_where (\<lambda>w. conn_key w = (worker_id, incarnation))
            (\<lambda>w. w\<lparr>wc_acknowledged_floor := flr\<rparr>)) db)
      else db)"

definition journal_full :: "worker_command list \<Rightarrow> int \<Rightarrow> int \<Rightarrow> nat \<Rightarrow> bool" where
  "journal_full locked old_floor flr body_length \<longleftrightarrow>
     length (filter (\<lambda>c. \<not> (flr > old_floor \<and> cmd_sequence c \<le> flr \<and> cmd_state c = Acknowledged)) locked)
       \<ge> MAX_RETAINED_COMMANDS
     \<or> sum_list (map cmd_complete_bytes (filter (\<lambda>c. cmd_state c = Pending) locked)) + int body_length
       > MAX_PENDING_BYTES"

definition ring_refused :: "fleet_exn \<Rightarrow> ring_error + 'a \<Rightarrow> fleet_exn + 'a" where
  "ring_refused e r = (case r of Inl _ \<Rightarrow> Inl e | Inr v \<Rightarrow> Inr v)"

lemma ring_refused_Inr [simp]: "ring_refused e r = Inr v \<longleftrightarrow> r = Inr v"
  by (cases r) (auto simp: ring_refused_def)

definition encrypt_command ::
    "fleet_prims \<Rightarrow> string \<Rightarrow> string \<Rightarrow> uuid \<Rightarrow> int \<Rightarrow> uuid \<Rightarrow> sealed_message \<Rightarrow> fleet_exn + (string \<times> int)" where
  "encrypt_command P nonce worker_id incarnation sequence command_id m =
     (let refused = CommandRefused ''worker command key is unavailable'' in
      bindR (ring_refused refused (fp_ring P)) (\<lambda>ring.
      bindR (lift_py (command_aad (fp_p6 P) worker_id incarnation sequence command_id (sm_body_hash m))) (\<lambda>aad.
      bindR (ring_refused refused (encrypt (fp_crypto P) ring nonce ''worker-command'' (sm_body m) aad)) (\<lambda>blob.
      bindR (ring_refused refused (version_of blob)) (\<lambda>v. Inr (blob, v))))))"

definition pending_command ::
    "string \<Rightarrow> uuid \<Rightarrow> int \<Rightarrow> uuid \<Rightarrow> string \<Rightarrow> uuid \<Rightarrow> sealed_message \<Rightarrow> string \<Rightarrow> int \<Rightarrow> moment \<Rightarrow> worker_command" where
  "pending_command worker_id incarnation sequence command_id kind account m blob version now =
     \<lparr>cmd_worker_id = worker_id, cmd_incarnation = incarnation, cmd_sequence = sequence, cmd_command_id = command_id,
      cmd_kind = kind, cmd_body_hash = sm_body_hash m, cmd_key_version = Some version, cmd_encrypted_body = Some blob,
      cmd_complete_bytes = int (length (sm_body m)), cmd_state = Pending, cmd_created_at = now,
      cmd_acknowledged_at = None, cmd_ack_status = None, cmd_ack_code = None, cmd_expected_sequence = None,
      cmd_ack_body = None, cmd_account_user_id = Some account, cmd_subject_id = Some (sm_subject_id m),
      cmd_subject_sequence = Some (sm_subject_sequence m), cmd_ack_identity_hash = Some (sm_ack_identity_hash m)\<rparr>"

definition insert_command :: "worker_command \<Rightarrow> fleet_db \<Rightarrow> fleet_exn + fleet_db" where
  "insert_command c db =
     (if exists_row (\<lambda>d. cmd_key d = cmd_key c \<or> cmd_command_id d = cmd_command_id c) (db_commands db)
      then Inl (IntegrityError ''worker_commands'')
      else Inr (db_commands_update (\<lambda>rows. rows @ [c]) db))"

definition bump_sequence :: "string \<Rightarrow> uuid \<Rightarrow> fleet_db \<Rightarrow> fleet_db" where
  "bump_sequence worker_id incarnation =
     db_connections_update (upd_where (\<lambda>w. conn_key w = (worker_id, incarnation))
       (\<lambda>w. w\<lparr>wc_next_command_sequence := wc_next_command_sequence w + 1\<rparr>))"

text \<open>From the locked journal on: move the floor, check the bounds, encrypt, claim, insert, advance.\<close>

definition journal_command ::
    "fleet_prims \<Rightarrow> clock \<Rightarrow> string \<Rightarrow> uuid \<Rightarrow> string \<Rightarrow> uuid \<Rightarrow> string \<Rightarrow> uuid \<Rightarrow> claim option \<Rightarrow> worker_connection \<Rightarrow>
     sealed_message \<Rightarrow> fleet_db \<Rightarrow> stored_command tx"
where
  "journal_command P clk nonce command_id worker_id incarnation command_type account_user_id claim_opt worker m db =
     (let sequence = wc_next_command_sequence worker; old_floor = wc_acknowledged_floor worker;
          locked = conn_commands worker_id incarnation db;
          flr = advance_floor (\<lambda>n. case row_at_sequence n locked of None \<Rightarrow> False
                    | Some row \<Rightarrow> known_acknowledged P row) sequence old_floor;
          db1 = settle_floor worker_id incarnation old_floor flr db in
      raise_if (journal_full locked old_floor flr (length (sm_body m)))
        (CommandRefused ''worker command journal is full'')
     (bindR (encrypt_command P nonce worker_id incarnation sequence command_id m) (\<lambda>(blob, version).
      bindR (apply_command_claim (fp_p6 P) clk claim_opt worker_id incarnation account_user_id command_id worker db1) (\<lambda>db2.
      bindR (insert_command (pending_command worker_id incarnation sequence command_id command_type account_user_id
          m blob version (clk 0)) db2) (\<lambda>db3.
        Inr (\<lparr>st_worker_id = worker_id, st_incarnation = incarnation, st_sequence = sequence,
              st_command_id = command_id, st_body_hash = sm_body_hash m, st_body = [], st_created_at = clk 0,
              st_account_user_id = Some account_user_id, st_subject_id = Some (sm_subject_id m),
              st_subject_sequence = Some (sm_subject_sequence m),
              st_ack_identity_hash = Some (sm_ack_identity_hash m)\<rparr>,
             bump_sequence worker_id incarnation db3))))))"

text \<open>
  The arguments of one call. \<open>rq_desired_callback\<close> says whether \<open>desired_committed\<close> was given;
  the callback runs after the commit with the desired parameters, the second component of the result.
\<close>

record commit_request =
  rq_worker_id :: string
  rq_incarnation :: uuid
  rq_command_type :: string
  rq_fields :: json
  rq_grant_nonce :: uuid
  rq_transport_owner_id :: "uuid option"
  rq_account_user_id :: "uuid option"
  rq_session_context :: "session_context option"
  rq_job_context :: "uuid option option"
  rq_desired_callback :: bool

text \<open>
  \<open>commit_command\<close>. \<open>hdb\<close> is the database the two unlocked hint reads see, \<open>db\<close> the one the
  locked reads see; the guards compare them. \<open>command_id\<close> and \<open>nonce\<close> are the random values drawn.
\<close>

definition commit_command ::
    "fleet_prims \<Rightarrow> process_env \<Rightarrow> clock \<Rightarrow> uuid \<Rightarrow> string \<Rightarrow> commit_request \<Rightarrow> fleet_db \<Rightarrow> fleet_db \<Rightarrow>
     (stored_command \<times> (json \<times> int) option) tx"
where
  "commit_command P env clk command_id nonce r hdb db =
     bindR (validate_command_identity (rq_command_type r) (rq_account_user_id r) (rq_fields r)) (\<lambda>fs.
     raise_if (rq_desired_callback r \<and> rq_command_type r \<noteq> ''update_session'')
       (CommandRefused ''desired state callback is only valid for session updates'')
    (let worker_id = rq_worker_id r; incarnation = rq_incarnation r; account = the (rq_account_user_id r);
         expected_owner = (case rq_transport_owner_id r of None \<Rightarrow> pe_transport_owner env | Some u \<Rightarrow> u) in
     raise_if (case conn_of worker_id incarnation hdb of None \<Rightarrow> False
         | Some w \<Rightarrow> wc_next_command_sequence w \<ge> MAX_SEQUENCE)
       (CommandRefused ''worker command sequence is exhausted'')
    (bindR (prepare_command_subject (fp_p6 P) env clk (rq_command_type r) fs account (rq_session_context r)
        (rq_job_context r) worker_id incarnation expected_owner db) (\<lambda>(prep, db1).
     case ready_conn worker_id incarnation hdb of
       None \<Rightarrow> Inl (CommandRefused ''worker has no current work grant'')
     | Some worker_hint \<Rightarrow>
       bindR (commit_authority env clk worker_hint expected_owner (rq_grant_nonce r) worker_id incarnation
           (pp_cancel_attempt prep) db1) (\<lambda>worker.
       bindR (seal_message (fp_p6 P) (rq_command_type r) worker_id incarnation
           (command_message (pp_message_fields prep) (rq_command_type r) worker_id incarnation worker
              (rq_grant_nonce r) command_id)) (\<lambda>m.
       bindR (journal_command P clk nonce command_id worker_id incarnation (rq_command_type r) account
           (pp_claim prep) worker m db1) (\<lambda>(stored, db2).
         Inr ((stored, if rq_desired_callback r then pp_committed_desired prep else None), db2))))))))"

section \<open>The head of the journal\<close>

text \<open>The connection under a live lease it was registered under.\<close>

definition delivery_authority ::
    "moment \<Rightarrow> string \<Rightarrow> uuid \<Rightarrow> uuid \<Rightarrow> fleet_db \<Rightarrow> worker_connection option" where
  "delivery_authority now worker_id incarnation transport_owner_id db =
     such (\<lambda>w. wc_transport_owner_id w = transport_owner_id \<and> open_conn w \<and> wc_lifecycle w \<in> {Ready, Draining}
            \<and> (case lease_of (wc_region w) db of None \<Rightarrow> False
               | Some l \<Rightarrow> sl_owner_epoch l = wc_owner_epoch w \<and> sl_lease_id l = wc_lease_id w \<and> sl_expires_at l > now))
       (conn_of worker_id incarnation db)"

definition read_fenced :: "string \<Rightarrow> uuid \<Rightarrow> uuid \<Rightarrow> fleet_db \<Rightarrow> fleet_exn + stored_command option" where
  "read_fenced worker_id incarnation transport_owner_id db =
     (case such (\<lambda>w. wc_transport_owner_id w = transport_owner_id) (conn_of worker_id incarnation db) of
        None \<Rightarrow> Inr None
      | Some w \<Rightarrow>
          if wc_acknowledged_floor w + 1 < wc_next_command_sequence w
             \<and> map_option cmd_state (command_of worker_id incarnation (wc_acknowledged_floor w + 1) db) \<noteq> Some Pending
          then Inl (CommandRefused ''worker command head is unresolved'')
          else Inr None)"

definition string_kind :: "dict \<Rightarrow> fleet_exn + string" where
  "string_kind d = bindR (field d ''type'') (\<lambda>v. case v of JStr k \<Rightarrow> Inr k | _ \<Rightarrow> Inl (PyError AttributeError))"

text \<open>Decryption of a retained row and the proof that it is the command the row says it is.\<close>

definition open_command :: "fleet_prims \<Rightarrow> worker_connection \<Rightarrow> worker_command \<Rightarrow> fleet_exn + stored_command" where
  "open_command P w row =
     (let refused = CommandRefused ''retained worker command cannot be read'' in
      bindR (ring_refused refused (fp_ring P)) (\<lambda>ring.
      bindR (lift_py (command_aad (fp_p6 P) (wc_worker_id w) (wc_incarnation w) (cmd_sequence row)
          (cmd_command_id row) (cmd_body_hash row))) (\<lambda>aad.
      bindR (ring_refused refused (decrypt (fp_crypto P) ring ''worker-command''
          (the (cmd_encrypted_body row)) aad)) (\<lambda>plaintext.
      bindR (lift_py (decode_control (fp_loads P) (Raw_bytes plaintext))) (\<lambda>message.
      raise_if (\<not> get_eq (dget message ''worker_id'') (Some (JStr (wc_worker_id w)))
          \<or> \<not> get_eq (dget message ''incarnation'') (Some (JStr (wc_incarnation w)))
          \<or> \<not> get_eq (dget message ''owner_epoch'') (Some (JInt (wc_owner_epoch w)))
          \<or> \<not> get_eq (dget message ''lease_id'') (Some (JStr (wc_lease_id w))))
        (CommandRefused ''pending worker command authority is stale'')
     (bindR (lift_py (sha256_json (fp_p6 P) (JObj (dwithout ''body_hash'' message)))) (\<lambda>digest.
      raise_if (digest \<noteq> cmd_body_hash row) (CommandRefused ''retained worker command failed its body hash'')
     (bindR (string_kind message) (\<lambda>kind.
      bindR (command_identity kind message) (\<lambda>(subject_id, subject_sequence).
      raise_if (cmd_account_user_id row = None \<or> cmd_subject_id row \<noteq> Some subject_id
          \<or> cmd_subject_sequence row \<noteq> Some subject_sequence)
        (CommandRefused ''retained worker command identity is unavailable'')
     (bindR (ack_identity_hash (fp_p6 P) kind message) (\<lambda>identity.
      raise_if (cmd_ack_identity_hash row \<noteq> Some identity)
        (CommandRefused ''retained worker command identity is unavailable'')
        (Inr \<lparr>st_worker_id = wc_worker_id w, st_incarnation = wc_incarnation w, st_sequence = cmd_sequence row,
              st_command_id = cmd_command_id row, st_body_hash = cmd_body_hash row, st_body = plaintext,
              st_created_at = cmd_created_at row, st_account_user_id = cmd_account_user_id row,
              st_subject_id = cmd_subject_id row, st_subject_sequence = cmd_subject_sequence row,
              st_ack_identity_hash = cmd_ack_identity_hash row\<rparr>)))))))))))))"

definition read_exact_pending ::
    "fleet_prims \<Rightarrow> process_env \<Rightarrow> moment \<Rightarrow> string \<Rightarrow> uuid \<Rightarrow> uuid option \<Rightarrow> fleet_db \<Rightarrow> fleet_exn + stored_command option"
where
  "read_exact_pending P env now worker_id incarnation transport_owner db =
     (let expected_owner = (case transport_owner of None \<Rightarrow> pe_transport_owner env | Some u \<Rightarrow> u) in
      case delivery_authority now worker_id incarnation expected_owner db of
        None \<Rightarrow> read_fenced worker_id incarnation expected_owner db
      | Some w \<Rightarrow>
          if wc_acknowledged_floor w + 1 \<ge> wc_next_command_sequence w then Inr None
          else case command_of worker_id incarnation (wc_acknowledged_floor w + 1) db of
            None \<Rightarrow> Inl (CommandRefused ''worker command journal has an unresolved gap'')
          | Some row \<Rightarrow>
              if cmd_state row \<noteq> Pending then Inl (CommandRefused ''worker command head is unresolved'')
              else bindR (open_command P w row) (\<lambda>stored. Inr (Some stored)))"

section \<open>Erasure\<close>

definition erased_command :: "worker_command \<Rightarrow> worker_command" where
  "erased_command c = c\<lparr>cmd_state := Erased, cmd_encrypted_body := None, cmd_key_version := None,
     cmd_complete_bytes := 0, cmd_acknowledged_at := None, cmd_ack_status := None, cmd_ack_code := None,
     cmd_expected_sequence := None, cmd_ack_body := None\<rparr>"

definition fence_conn :: "string \<times> uuid \<Rightarrow> moment \<Rightarrow> fleet_db \<Rightarrow> fleet_db" where
  "fence_conn key now =
     db_connections_update (upd_where (\<lambda>w. conn_key w = key)
       (\<lambda>w. w\<lparr>wc_closed_at := (case wc_closed_at w of None \<Rightarrow> Some now | Some t \<Rightarrow> Some t)\<rparr>))"

text \<open>One clock reading per fenced connection, in the order of the loop.\<close>

definition fence_conns :: "clock \<Rightarrow> conns \<Rightarrow> fleet_db \<Rightarrow> fleet_db" where
  "fence_conns clk workers db =
     fold (\<lambda>(i, key). fence_conn key (clk i)) (enumerate 1 (sort workers)) db"

definition erase_pending_rows :: "clock \<Rightarrow> selection \<Rightarrow> fleet_db \<Rightarrow> nat \<times> fleet_db" where
  "erase_pending_rows clk sel db =
     (let hit = (\<lambda>c. fst sel c \<and> cmd_state c = Pending);
          pending = filter hit (db_commands db);
          workers = remdups (map cmd_conn pending @ snd sel) in
      if workers = [] then (0, db)
      else (length pending, fence_conns clk workers (db_commands_update (upd_where hit erased_command) db)))"

definition erase_account_commands :: "clock \<Rightarrow> uuid list \<Rightarrow> fleet_db \<Rightarrow> nat \<times> fleet_db" where
  "erase_account_commands clk accounts db = erase_pending_rows clk (account_erasure_selection accounts db) db"

definition erase_realtime_commands ::
    "clock \<Rightarrow> uuid \<Rightarrow> uuid list option \<Rightarrow> uuid option \<Rightarrow> fleet_db \<Rightarrow> nat \<times> fleet_db" where
  "erase_realtime_commands clk account auth_session_ids keep_auth_session_id db =
     (case realtime_erasure_selection account auth_session_ids keep_auth_session_id db of
        None \<Rightarrow> (0, db)
      | Some sel \<Rightarrow> erase_pending_rows clk sel db)"

definition erase_subject_commands ::
    "clock \<Rightarrow> uuid \<Rightarrow> string \<Rightarrow> uuid \<Rightarrow> int option \<Rightarrow> fleet_db \<Rightarrow> nat tx" where
  "erase_subject_commands clk account kind subject_id subject_sequence db =
     bindR (subject_erasure_selection account kind subject_id subject_sequence db) (\<lambda>sel.
       Inr (erase_pending_rows clk sel db))"

definition erase_reported_subject_command ::
    "uuid \<Rightarrow> string \<Rightarrow> uuid \<Rightarrow> int \<Rightarrow> string \<Rightarrow> uuid \<Rightarrow> uuid \<Rightarrow> uuid option \<Rightarrow> int \<Rightarrow> string \<Rightarrow> fleet_db \<Rightarrow> nat tx"
where
  "erase_reported_subject_command account kind subject_id subject_sequence worker_id incarnation range_id attempt_id
       report_sequence report_hash db =
     bindR (lock_reported_command account kind subject_id subject_sequence worker_id incarnation range_id attempt_id
         report_sequence report_hash db) (\<lambda>rows.
       case rows of
         [row] \<Rightarrow>
           (case cmd_ack_identity_hash row of
              None \<Rightarrow> Inl (CommandRefused ''pending command identity is unavailable'')
            | Some h \<Rightarrow>
                raise_if (length h \<noteq> 64 \<or> \<not> list_all hex_char h)
                  (CommandRefused ''reported pending command identity changed'')
                  (Inr (1, db_commands_update (upd_where
                     (\<lambda>c. cmd_key c = (worker_id, incarnation, cmd_sequence row) \<and> cmd_state c = Pending)
                     erased_command) db)))
       | _ \<Rightarrow> Inr (0, db))"

section \<open>Delivery\<close>

text \<open>\<open>KeyError\<close> and \<open>ValueError\<close> of the decoding become one refusal, a refusal passes.\<close>

definition delivery_body_error :: "fleet_exn \<Rightarrow> fleet_exn" where
  "delivery_body_error e =
     (case e of
        PyError (Protocol6Error _) \<Rightarrow> CommandRefused ''command delivery body is invalid''
      | PyError (KeyError _) \<Rightarrow> CommandRefused ''command delivery body is invalid''
      | ValueError \<Rightarrow> CommandRefused ''command delivery body is invalid''
      | _ \<Rightarrow> e)"

definition delivery_kind :: "dict \<Rightarrow> fleet_exn + string" where
  "delivery_kind body =
     bindR (field body ''type'') (\<lambda>v.
       case v of JStr k \<Rightarrow> Inr k | JArr _ \<Rightarrow> Inl (PyError TypeError) | JObj _ \<Rightarrow> Inl (PyError TypeError)
       | _ \<Rightarrow> Inl (CommandRefused ''command kind has no ACK identity''))"

definition delivery_body :: "fleet_prims \<Rightarrow> stored_command \<Rightarrow> string \<Rightarrow> uuid \<Rightarrow> fleet_exn + dict" where
  "delivery_body P command worker_id incarnation =
     (let changed = CommandRefused ''command delivery body changed'' in
      case
        bindR (lift_py (decode_control (fp_loads P) (Raw_bytes (st_body command)))) (\<lambda>body.
        raise_if (dget body ''worker_id'' \<noteq> Some (JStr worker_id) \<or> dget body ''incarnation'' \<noteq> Some (JStr incarnation))
          changed
       (bindR (lift_py (sha256_json (fp_p6 P) (JObj (dwithout ''body_hash'' body)))) (\<lambda>digest.
        raise_if (digest \<noteq> st_body_hash command) changed
       (bindR (delivery_kind body) (\<lambda>kind.
        bindR (ack_identity_hash (fp_p6 P) kind body) (\<lambda>identity.
        raise_if (Some identity \<noteq> st_ack_identity_hash command) changed (Inr body)))))))
      of Inl e \<Rightarrow> Inl (delivery_body_error e) | Inr body \<Rightarrow> Inr body)"

definition journal_head_matches :: "stored_command \<Rightarrow> worker_command option \<Rightarrow> bool" where
  "journal_head_matches command head =
     (case head of
        None \<Rightarrow> False
      | Some row \<Rightarrow> cmd_state row = Pending \<and> cmd_command_id row = st_command_id command
          \<and> cmd_body_hash row = st_body_hash command \<and> cmd_account_user_id row = st_account_user_id command
          \<and> cmd_subject_id row = st_subject_id command \<and> cmd_subject_sequence row = st_subject_sequence command
          \<and> cmd_ack_identity_hash row = st_ack_identity_hash command)"

definition delivery_lease_current ::
    "process_env \<Rightarrow> uuid \<Rightarrow> scheduler_lease \<Rightarrow> worker_connection \<Rightarrow> bool" where
  "delivery_lease_current env transport_owner_id lease worker \<longleftrightarrow>
     open_conn worker \<and> wc_transport_owner_id worker = transport_owner_id \<and> wc_region worker = sl_region lease
     \<and> sl_owner_id lease = pe_scheduler_owner env \<and> wc_owner_epoch worker = sl_owner_epoch lease
     \<and> wc_lease_id worker = sl_lease_id lease \<and> wc_grant_ready worker \<and> wc_lifecycle worker = Ready"

definition not_past :: "moment option \<Rightarrow> moment \<Rightarrow> bool" where
  "not_past deadline now = (case deadline of None \<Rightarrow> True | Some t \<Rightarrow> t > now)"

text \<open>\<open>outcome\<close> is what the \<open>register\<close> callback returned; nothing is written.\<close>

definition register_delivery ::
    "fleet_prims \<Rightarrow> process_env \<Rightarrow> clock \<Rightarrow> stored_command \<Rightarrow> string \<Rightarrow> uuid \<Rightarrow> uuid \<Rightarrow> bool \<Rightarrow> fleet_db \<Rightarrow> fleet_exn + bool"
where
  "register_delivery P env clk command worker_id incarnation transport_owner_id outcome db =
     (case st_account_user_id command of
        None \<Rightarrow> Inl (CommandRefused ''command delivery identity changed'')
      | Some account \<Rightarrow>
        raise_if (st_worker_id command \<noteq> worker_id \<or> st_incarnation command \<noteq> incarnation \<or> st_body command = [])
          (CommandRefused ''command delivery identity changed'')
       (bindR (delivery_body P command worker_id incarnation) (\<lambda>body.
        bindR (lock_delivery_subject env command account body worker_id incarnation transport_owner_id db) (\<lambda>deadlines.
        raise_if (\<not> journal_head_matches command
            (row_at_sequence (st_sequence command) (conn_commands worker_id incarnation db)))
          (CommandRefused ''command is no longer pending'')
       (case conn_of worker_id incarnation db of
          None \<Rightarrow> Inl (CommandRefused ''worker connection is unavailable'')
        | Some worker \<Rightarrow>
          (case lease_of (wc_region worker) db of
             None \<Rightarrow> Inl (CommandRefused ''worker delivery authority is stale'')
           | Some lease \<Rightarrow>
             raise_if (\<not> delivery_lease_current env transport_owner_id lease worker)
               (CommandRefused ''worker delivery authority is stale'')
            (raise_if (st_sequence command \<noteq> wc_acknowledged_floor worker + 1)
               (CommandRefused ''command is not the unresolved journal head'')
            (let (idle, absolute) = (case deadlines of None \<Rightarrow> (None, None) | Some d \<Rightarrow> d) in
             raise_if (\<not> (sl_expires_at lease > clk 1 \<and> wc_grant_expires_at worker > clk 2
                 \<and> not_past absolute (clk 3) \<and> not_past idle (clk 4)))
               (CommandRefused ''worker delivery authority or browser binding expired'')
               (raise_if (\<not> outcome) (CommandRefused ''command delivery registration refused'') (Inr True))))))))))"

section \<open>Acknowledgement\<close>

record ack_publication =
  ap_account_user_id :: uuid
  ap_subject_id :: "uuid option"
  ap_subject_sequence :: "int option"
  ap_model_id :: json
  ap_params :: json
  ap_params_revision :: json
  ap_attempt_id :: json

record ack_result =
  ar_recorded :: bool
  ar_obsolete :: bool
  ar_publication :: "ack_publication option"

definition not_recorded :: ack_result where
  "not_recorded = \<lparr>ar_recorded = False, ar_obsolete = False, ar_publication = None\<rparr>"

definition obsolete_ack :: ack_result where
  "obsolete_ack = \<lparr>ar_recorded = False, ar_obsolete = True, ar_publication = None\<rparr>"

text \<open>\<open>KeyError\<close>, \<open>ValueError\<close> and \<open>TypeError\<close> of the validation become one refusal.\<close>

definition ack_error :: "py_exn \<Rightarrow> fleet_exn" where
  "ack_error e =
     (case e of Protocol6Error _ \<Rightarrow> CommandRefused ''command acknowledgement is invalid''
      | TypeError \<Rightarrow> CommandRefused ''command acknowledgement is invalid''
      | KeyError _ \<Rightarrow> CommandRefused ''command acknowledgement is invalid''
      | x \<Rightarrow> PyError x)"

text \<open>The validated acknowledgement with its canonical bytes.\<close>

definition accept_ack ::
    "p6_prims \<Rightarrow> json \<Rightarrow> string \<Rightarrow> uuid \<Rightarrow> fleet_exn + (dict \<times> string)" where
  "accept_ack P message expected_worker_id expected_incarnation =
     (case validate_message P message (Some expected_worker_id) (Some expected_incarnation) of
        Inl e \<Rightarrow> Inl (ack_error e)
      | Inr _ \<Rightarrow>
          (case message of
             JObj ack \<Rightarrow>
               raise_if (dget ack ''type'' \<noteq> Some (JStr ''command_ack''))
                 (CommandRefused ''command acknowledgement is invalid'')
                 (case canonical_bytes (p_float_repr P) message of
                    Inl e \<Rightarrow> Inl (ack_error e)
                  | Inr body \<Rightarrow> raise_if (length body > 16 * 1024)
                      (CommandRefused ''command acknowledgement is invalid'') (Inr (ack, body)))
           | _ \<Rightarrow> Inl (CommandRefused ''command acknowledgement is invalid'')))"

definition consuming :: "dict \<Rightarrow> bool" where
  "consuming ack \<longleftrightarrow> dget ack ''status'' = Some (JStr ''accepted'')
     \<or> (case dget ack ''code'' of Some (JStr c) \<Rightarrow> c \<in> set CONSUMING_REFUSALS | _ \<Rightarrow> False)"

text \<open>The row an acknowledgement is for: same command, same hint, same identity.\<close>

definition ack_names_row :: "p6_prims \<Rightarrow> dict \<Rightarrow> worker_command option \<Rightarrow> worker_command \<Rightarrow> bool" where
  "ack_names_row P ack hint row \<longleftrightarrow>
     Some (JStr (cmd_command_id row)) = dget ack ''command_id'' \<and> Some (JStr (cmd_body_hash row)) = dget ack ''body_hash''
     \<and> (case hint of None \<Rightarrow> True
        | Some h \<Rightarrow> cmd_kind row = cmd_kind h \<and> cmd_account_user_id row = cmd_account_user_id h
            \<and> cmd_subject_id row = cmd_subject_id h \<and> cmd_subject_sequence row = cmd_subject_sequence h)
     \<and> (case (cmd_ack_identity_hash row, ack_identity_hash P (cmd_kind row) ack) of
          (Some h, Inr identity) \<Rightarrow> h = identity | _ \<Rightarrow> False)"

definition acknowledged_command :: "moment \<Rightarrow> dict \<Rightarrow> string \<Rightarrow> worker_command \<Rightarrow> worker_command" where
  "acknowledged_command now ack body c = c\<lparr>cmd_state := Acknowledged, cmd_encrypted_body := None,
     cmd_key_version := None, cmd_complete_bytes := 0, cmd_acknowledged_at := Some now,
     cmd_ack_status := Some (the_str (dget ack ''status'')),
     cmd_ack_code := map_option (\<lambda>v. the_str (Some v)) (dget ack ''code''),
     cmd_expected_sequence := None, cmd_ack_body := Some body\<rparr>"

text \<open>An erased row has no body left: only the acknowledgement columns are set.\<close>

definition acknowledged_erased :: "moment \<Rightarrow> dict \<Rightarrow> string \<Rightarrow> worker_command \<Rightarrow> worker_command" where
  "acknowledged_erased now ack body c = c\<lparr>cmd_state := Acknowledged, cmd_acknowledged_at := Some now,
     cmd_ack_status := Some (the_str (dget ack ''status'')),
     cmd_ack_code := map_option (\<lambda>v. the_str (Some v)) (dget ack ''code''), cmd_ack_body := Some body\<rparr>"

definition update_command_row :: "string \<Rightarrow> uuid \<Rightarrow> int \<Rightarrow> (worker_command \<Rightarrow> worker_command) \<Rightarrow> fleet_db \<Rightarrow> fleet_db" where
  "update_command_row worker_id incarnation sequence f =
     db_commands_update (upd_where (\<lambda>c. cmd_key c = (worker_id, incarnation, sequence)) f)"

text \<open>
  The pending body as the ring reads it: \<open>Inr None\<close> when the key is missing, an exception when
  it does not verify.
\<close>

definition pending_body ::
    "fleet_prims \<Rightarrow> string \<Rightarrow> uuid \<Rightarrow> int \<Rightarrow> worker_command \<Rightarrow> fleet_exn + dict option" where
  "pending_body P worker_id incarnation sequence row =
     (let refused = CommandRefused ''pending command cannot be verified'' in
      case fp_ring P of
        Inl _ \<Rightarrow> Inr None
      | Inr ring \<Rightarrow>
          if cmd_key_version row \<notin> Some ` ring_versions ring then Inr None
          else bindR (value_error_as refused (command_aad (fp_p6 P) worker_id incarnation sequence
                 (cmd_command_id row) (cmd_body_hash row))) (\<lambda>aad.
               bindR (ring_refused refused (decrypt (fp_crypto P) ring ''worker-command''
                 (the (cmd_encrypted_body row)) aad)) (\<lambda>plaintext.
               bindR (value_error_as refused (decode_control (fp_loads P) (Raw_bytes plaintext))) (\<lambda>command.
                 Inr (Some command)))))"

definition update_proved ::
    "process_env \<Rightarrow> clock \<Rightarrow> string \<Rightarrow> uuid \<Rightarrow> uuid \<Rightarrow> worker_command \<Rightarrow> dict \<Rightarrow> realtime_session \<Rightarrow> realtime_attempt \<Rightarrow>
     physical_range \<Rightarrow> fleet_db \<Rightarrow> bool"
where
  "update_proved env clk worker_id incarnation transport_owner_id row command entity attempt physical db \<longleftrightarrow>
     rs_user_id entity = cmd_account_user_id row \<and> Some (rs_control_generation entity) = cmd_subject_sequence row
     \<and> dget command ''model_id'' = Some (JStr (rs_model_id entity)) \<and> rs_state entity \<in> {Live, Idle}
     \<and> rs_browser_owner_id entity = transport_owner_id
     \<and> (case cmd_account_user_id row of None \<Rightarrow> False
        | Some account \<Rightarrow> current_principal env account (rs_auth_session_id entity) (clk 1) (clk 2) db)
     \<and> rs_params_revision entity < the_int (dget command ''params_revision'')
     \<and> ra_worker_id attempt = worker_id \<and> ra_incarnation attempt = incarnation
     \<and> (case field_uuid command ''attempt_id'' of Inr a \<Rightarrow> ra_attempt_id attempt = a | Inl _ \<Rightarrow> False)
     \<and> ra_state attempt = Running \<and> pr_account_user_id physical = cmd_account_user_id row
     \<and> pr_state physical = Outstanding"

definition apply_update ::
    "worker_command \<Rightarrow> dict \<Rightarrow> fleet_db \<Rightarrow> ack_publication option \<times> fleet_db" where
  "apply_update row command db =
     (let revision = the_int (dget command ''params_revision''); params = opt_json (dget command ''params'') in
      (Some \<lparr>ap_account_user_id = the (cmd_account_user_id row), ap_subject_id = cmd_subject_id row,
         ap_subject_sequence = cmd_subject_sequence row, ap_model_id = opt_json (dget command ''model_id''),
         ap_params = params, ap_params_revision = opt_json (dget command ''params_revision''),
         ap_attempt_id = opt_json (dget command ''attempt_id'')\<rparr>,
       db_sessions_update (upd_where (\<lambda>s. Some (rs_id s) = cmd_subject_id row
           \<and> Some (rs_control_generation s) = cmd_subject_sequence row \<and> rs_params_revision s < revision)
         (\<lambda>s. s\<lparr>rs_effective_params := params, rs_params_revision := revision\<rparr>)) db))"

definition end_conn :: "string \<times> uuid \<Rightarrow> moment \<Rightarrow> fleet_db \<Rightarrow> fleet_db" where
  "end_conn key now =
     db_connections_update (upd_where (\<lambda>w. conn_key w = key)
       (\<lambda>w. w\<lparr>wc_lifecycle := Ended,
              wc_closed_at := (case wc_closed_at w of None \<Rightarrow> Some now | Some t \<Rightarrow> Some t)\<rparr>))"

text \<open>
  The branch on the state of the row: \<open>Inr None\<close> is \<open>return CommandAckResult(False)\<close>, otherwise
  the publication and the database with the row acknowledged.
\<close>

definition ack_pending_row ::
    "fleet_prims \<Rightarrow> process_env \<Rightarrow> clock \<Rightarrow> string \<Rightarrow> uuid \<Rightarrow> uuid \<Rightarrow> dict \<Rightarrow> string \<Rightarrow> worker_command \<Rightarrow>
     realtime_session option \<times> realtime_attempt option \<times> physical_range option \<Rightarrow> fleet_db \<Rightarrow>
     fleet_exn + (ack_publication option \<times> fleet_db) option"
where
  "ack_pending_row P env clk worker_id incarnation transport_owner_id ack body row subject db =
     (if cmd_account_user_id row = None then Inr None
      else bindR (pending_body P worker_id incarnation (cmd_sequence row) row) (\<lambda>command.
        case command of
          None \<Rightarrow> Inr (Some (None, end_conn (worker_id, incarnation) (clk 4)
              (update_command_row worker_id incarnation (cmd_sequence row) (acknowledged_command (clk 3) ack body) db)))
        | Some cmd \<Rightarrow>
            if \<not> ack_matches cmd ack then Inr None
            else let (publication, db1) =
                (case subject of
                   (Some entity, Some attempt, Some physical) \<Rightarrow>
                     if dget ack ''status'' = Some (JStr ''accepted'') \<and> cmd_kind row = ''update_session''
                        \<and> update_proved env clk worker_id incarnation transport_owner_id row cmd entity attempt physical db
                     then apply_update row cmd db else (None, db)
                 | _ \<Rightarrow> (None, db))
              in Inr (Some (publication, update_command_row worker_id incarnation (cmd_sequence row)
                   (acknowledged_command (clk 3) ack body) db1))))"

definition ack_row ::
    "fleet_prims \<Rightarrow> process_env \<Rightarrow> clock \<Rightarrow> string \<Rightarrow> uuid \<Rightarrow> uuid \<Rightarrow> dict \<Rightarrow> string \<Rightarrow> worker_command \<Rightarrow>
     realtime_session option \<times> realtime_attempt option \<times> physical_range option \<Rightarrow> fleet_db \<Rightarrow>
     fleet_exn + (ack_publication option \<times> fleet_db) option"
where
  "ack_row P env clk worker_id incarnation transport_owner_id ack body row subject db =
     (case cmd_state row of
        Acknowledged \<Rightarrow>
          Inr (if known_acknowledged P row \<and> cmd_ack_body row = Some body then Some (None, db) else None)
      | Erased \<Rightarrow>
          Inr (Some (None, update_command_row worker_id incarnation (cmd_sequence row)
            (acknowledged_erased (clk 3) ack body) db))
      | Pending \<Rightarrow> ack_pending_row P env clk worker_id incarnation transport_owner_id ack body row subject db)"

text \<open>Which rows the floor may pass: the one just acknowledged, and those already settled.\<close>

definition ack_settled :: "fleet_prims \<Rightarrow> dict \<Rightarrow> int \<Rightarrow> worker_command list \<Rightarrow> int \<Rightarrow> bool" where
  "ack_settled P ack sequence rows n =
     (case row_at_sequence n rows of
        None \<Rightarrow> False
      | Some candidate \<Rightarrow> cmd_ack_identity_hash candidate \<noteq> None
          \<and> (n = sequence \<or> known_acknowledged P candidate) \<and> (n = sequence \<longrightarrow> consuming ack))"

definition acknowledge ::
    "fleet_prims \<Rightarrow> process_env \<Rightarrow> clock \<Rightarrow> json \<Rightarrow> string \<Rightarrow> uuid \<Rightarrow> uuid \<Rightarrow> fleet_db \<Rightarrow> fleet_db \<Rightarrow> ack_result tx"
where
  "acknowledge P env clk message worker_id incarnation transport_owner_id hdb db =
     bindR (accept_ack (fp_p6 P) message worker_id incarnation) (\<lambda>(ack, body).
     if \<not> consuming ack then Inr (not_recorded, db)
     else let sequence = the_int (dget ack ''command_sequence'');
              hint = command_of worker_id incarnation sequence hdb;
              subject = lock_update_ack_subject hint db;
              journal = conn_commands worker_id incarnation db in
       case conn_of worker_id incarnation db of
         None \<Rightarrow> Inr (not_recorded, db)
       | Some worker \<Rightarrow>
         raise_if (wc_transport_owner_id worker \<noteq> transport_owner_id)
           (CommandRefused ''command acknowledgement transport is stale'')
          (case row_at_sequence sequence journal of
             None \<Rightarrow> Inr (if sequence \<le> wc_acknowledged_floor worker then obsolete_ack else not_recorded, db)
           | Some row \<Rightarrow>
             if \<not> ack_names_row (fp_p6 P) ack hint row then Inr (not_recorded, db)
             else bindR (ack_row P env clk worker_id incarnation transport_owner_id ack body row subject db) (\<lambda>step.
               case step of
                 None \<Rightarrow> Inr (not_recorded, db)
               | Some (publication, db1) \<Rightarrow>
                   Inr (\<lparr>ar_recorded = True, ar_obsolete = False, ar_publication = publication\<rparr>,
                     settle_floor worker_id incarnation (wc_acknowledged_floor worker)
                       (advance_floor (ack_settled P ack sequence journal) (wc_next_command_sequence worker)
                          (wc_acknowledged_floor worker)) db1))))"

end
