(* ===== verification/Authority.thy ===== *)
theory Authority
  imports Command_Store
begin

text \<open>
  The PostgreSQL authority over regional leases and worker incarnations
  (\<open>src/backend/app/worker_authority.py\<close>): the scheduler lease, registration and activation of a
  worker, work grants, the end of sessions and attempts, and the durable receipt of a report.
\<close>

section \<open>Constants\<close>

definition REGION :: string where "REGION = ''local''"

text \<open>Seconds in microseconds.\<close>

definition LEASE_SECONDS :: int where "LEASE_SECONDS = 10 * 1000000"
definition HEARTBEAT_SECONDS :: int where "HEARTBEAT_SECONDS = 90 * 1000000"

section \<open>The regional lease\<close>

text \<open>
  \<open>INSERT ... ON CONFLICT DO UPDATE ... WHERE\<close>: PostgreSQL evaluates the condition first (reading
  1), then the targets in the order of the columns (readings 2 to 4).
\<close>

definition lease_takeover :: "clock \<Rightarrow> uuid \<Rightarrow> uuid \<Rightarrow> scheduler_lease \<Rightarrow> scheduler_lease" where
  "lease_takeover clk owner fresh_lease_id l =
     l\<lparr>sl_owner_id := owner,
       sl_owner_epoch := (if sl_owner_id l = owner \<and> sl_expires_at l > clk 2 then sl_owner_epoch l
                          else sl_owner_epoch l + 1),
       sl_lease_id := (if sl_owner_id l = owner \<and> sl_expires_at l > clk 3 then sl_lease_id l else fresh_lease_id),
       sl_expires_at := clk 4 + LEASE_SECONDS\<rparr>"

definition refresh_conn_leases :: "scheduler_lease \<Rightarrow> fleet_db \<Rightarrow> fleet_db" where
  "refresh_conn_leases l =
     db_connections_update (upd_where (\<lambda>w. wc_region w = sl_region l \<and> wc_owner_epoch w = sl_owner_epoch l
         \<and> wc_lease_id w = sl_lease_id l \<and> open_conn w)
       (\<lambda>w. w\<lparr>wc_lease_expires_at := sl_expires_at l\<rparr>))"

definition put_lease :: "scheduler_lease \<Rightarrow> fleet_db \<Rightarrow> fleet_db" where
  "put_lease l = db_leases_update (upd_where (\<lambda>r. sl_region r = sl_region l) (\<lambda>_. l))"

text \<open>
  The module variable \<open>_lease\<close> is set by the caller to the lease returned, and cleared when
  \<open>renew_scheduler_lease\<close> raises. \<open>fresh\<close> is the UUID drawn for a new lease.
\<close>

definition acquire_scheduler_lease ::
    "process_env \<Rightarrow> clock \<Rightarrow> uuid \<Rightarrow> string \<Rightarrow> fleet_db \<Rightarrow> scheduler_lease tx" where
  "acquire_scheduler_lease env clk fresh region db =
     (let owner = pe_scheduler_owner env in
      case lease_of region db of
        None \<Rightarrow>
          let l = \<lparr>sl_region = region, sl_owner_id = owner, sl_owner_epoch = 1, sl_lease_id = fresh,
                   sl_expires_at = clk 1 + LEASE_SECONDS\<rparr>
          in Inr (l, refresh_conn_leases l (db_leases_update (\<lambda>rows. rows @ [l]) db))
      | Some l \<Rightarrow>
          if sl_owner_id l = owner \<or> sl_expires_at l \<le> clk 1 then
            let l' = lease_takeover clk owner fresh l in Inr (l', refresh_conn_leases l' (put_lease l' db))
          else Inl (AuthorityUnavailable ''regional scheduler lease is held''))"

definition same_lease :: "scheduler_lease \<Rightarrow> process_env \<Rightarrow> scheduler_lease \<Rightarrow> bool" where
  "same_lease lease env r \<longleftrightarrow> sl_owner_id r = pe_scheduler_owner env \<and> sl_owner_epoch r = sl_owner_epoch lease
     \<and> sl_lease_id r = sl_lease_id lease"

definition renew_scheduler_lease ::
    "process_env \<Rightarrow> clock \<Rightarrow> scheduler_lease option \<Rightarrow> fleet_db \<Rightarrow> scheduler_lease tx" where
  "renew_scheduler_lease env clk held db =
     (case held of
        None \<Rightarrow> Inl (AuthorityUnavailable ''regional scheduler lease is unavailable'')
      | Some lease \<Rightarrow>
          (case such (\<lambda>r. same_lease lease env r \<and> sl_expires_at r > clk 1) (lease_of (sl_region lease) db) of
             None \<Rightarrow> Inl (AuthorityUnavailable ''regional scheduler lease was lost'')
           | Some r \<Rightarrow>
               let l' = r\<lparr>sl_expires_at := clk 2 + LEASE_SECONDS\<rparr>
               in Inr (l', refresh_conn_leases l' (put_lease l' db))))"

text \<open>One iteration of \<open>maintain_scheduler_lease\<close>: the new \<open>_lease\<close> and the database.\<close>

definition maintain_step ::
    "process_env \<Rightarrow> clock \<Rightarrow> uuid \<Rightarrow> scheduler_lease option \<times> fleet_db \<Rightarrow> scheduler_lease option \<times> fleet_db" where
  "maintain_step env clk fresh st =
     (case fst st of
        None \<Rightarrow> (case acquire_scheduler_lease env clk fresh REGION (snd st) of
            Inl _ \<Rightarrow> (None, snd st) | Inr (l, db) \<Rightarrow> (Some l, db))
      | Some held \<Rightarrow> (case renew_scheduler_lease env clk (Some held) (snd st) of
            Inl _ \<Rightarrow> (None, snd st) | Inr (l, db) \<Rightarrow> (Some l, db)))"

section \<open>Registration\<close>

text \<open>\<open>x or {}\<close> on a decoded value.\<close>

definition or_empty :: "dict option \<Rightarrow> dict" where
  "or_empty d = (case d of None \<Rightarrow> [] | Some x \<Rightarrow> x)"

definition opt_str :: "string option \<Rightarrow> json" where
  "opt_str s = (case s of None \<Rightarrow> JNull | Some x \<Rightarrow> JStr x)"

definition execution_envelope ::
    "json list \<Rightarrow> string option \<Rightarrow> string option \<Rightarrow> dict option \<Rightarrow> dict option \<Rightarrow> dict \<times> bool" where
  "execution_envelope manifests device memory_mode p95 batch =
     ([(''device'', opt_str device), (''memory_mode'', opt_str memory_mode), (''models'', JArr manifests),
       (''realtime_p95_ms'', JObj (or_empty p95)), (''realtime_batch_ms'', JObj (or_empty batch))],
      manifests \<noteq> [] \<and> device \<notin> {None, Some []} \<and> memory_mode \<notin> {None, Some []})"

record hello_facts =
  hf_worker_id :: string
  hf_incarnation :: uuid
  hf_protocol_version :: int
  hf_grant_nonce :: uuid
  hf_capabilities :: "string list"
  hf_manifests :: "json list"
  hf_device :: "string option"
  hf_memory_mode :: "string option"
  hf_realtime_slots :: int
  hf_realtime_p95_ms :: "dict option"
  hf_realtime_batch_ms :: "dict option"

definition live_lease :: "string \<Rightarrow> moment \<Rightarrow> fleet_db \<Rightarrow> scheduler_lease option" where
  "live_lease region now db = such (\<lambda>l. sl_expires_at l > now) (lease_of region db)"

text \<open>Open rows of this worker id that this process left behind or a newer lease fenced out.\<close>

definition abandoned_conn :: "process_env \<Rightarrow> scheduler_lease \<Rightarrow> string \<Rightarrow> worker_connection \<Rightarrow> bool" where
  "abandoned_conn env l worker_id w \<longleftrightarrow> wc_worker_id w = worker_id \<and> open_conn w
     \<and> (wc_transport_owner_id w = pe_transport_owner env \<or> wc_owner_epoch w \<noteq> sl_owner_epoch l
        \<or> wc_lease_id w \<noteq> sl_lease_id l)"

definition new_connection :: "process_env \<Rightarrow> clock \<Rightarrow> scheduler_lease \<Rightarrow> hello_facts \<Rightarrow> worker_connection" where
  "new_connection env clk l h =
     (let (envelope, ready) = execution_envelope (hf_manifests h) (hf_device h) (hf_memory_mode h)
            (hf_realtime_p95_ms h) (hf_realtime_batch_ms h)
      in \<lparr>wc_worker_id = hf_worker_id h, wc_incarnation = hf_incarnation h,
          wc_transport_owner_id = pe_transport_owner env, wc_region = sl_region l, wc_owner_epoch = sl_owner_epoch l,
          wc_lease_id = sl_lease_id l, wc_lease_expires_at = sl_expires_at l, wc_grant_nonce = hf_grant_nonce h,
          wc_grant_expires_at = sl_expires_at l, wc_grant_ready = False, wc_realtime_slots = hf_realtime_slots h,
          wc_protocol_version = hf_protocol_version h, wc_capabilities = JArr (map JStr (hf_capabilities h)),
          wc_manifests = JArr (hf_manifests h), wc_device = hf_device h, wc_memory_mode = hf_memory_mode h,
          wc_envelope_revision = (if ready then 1 else 0), wc_execution_envelope = envelope, wc_observations = [],
          wc_lifecycle = Connecting, wc_last_seen_at = clk 3, wc_expires_at = clk 4 + HEARTBEAT_SECONDS,
          wc_closed_at = None, wc_created_at = clk 0, wc_next_command_sequence = 1, wc_acknowledged_floor = 0\<rparr>)"

text \<open>The checks of migration 0029 on a new row.\<close>

definition conn_checks :: "worker_connection \<Rightarrow> bool" where
  "conn_checks w \<longleftrightarrow> wc_protocol_version w \<in> {5, 6} \<and> wc_owner_epoch w > 0 \<and> wc_realtime_slots w \<ge> 0"

definition register_worker :: "process_env \<Rightarrow> clock \<Rightarrow> hello_facts \<Rightarrow> fleet_db \<Rightarrow> scheduler_lease tx" where
  "register_worker env clk h db =
     (case live_lease REGION (clk 1) db of
        None \<Rightarrow> Inl (AuthorityUnavailable ''regional scheduler lease was lost'')
      | Some l \<Rightarrow>
        raise_if (sl_owner_id l \<noteq> pe_scheduler_owner env)
          (AuthorityUnavailable ''regional scheduler lease is held by another owner'')
       (raise_if (exists_row (\<lambda>w. wc_incarnation w = hf_incarnation h) (db_connections db))
          (AuthorityUnavailable ''worker incarnation was already used'')
       (let db1 = db_connections_update (upd_where (abandoned_conn env l (hf_worker_id h))
                    (\<lambda>w. w\<lparr>wc_lifecycle := Ended, wc_closed_at := Some (clk 2)\<rparr>)) db;
            row = new_connection env clk l h in
        raise_if (exists_row (\<lambda>w. wc_worker_id w = hf_worker_id h \<and> open_conn w) (db_connections db1))
          (AuthorityUnavailable ''worker id is connected to another owner'')
       (raise_if (\<not> conn_checks row) (IntegrityError ''worker_connections'')
          (Inr (l, db_connections_update (\<lambda>rows. rows @ [row]) db1))))))"

section \<open>Models and activation\<close>

definition own_open_conn :: "process_env \<Rightarrow> string \<Rightarrow> uuid \<Rightarrow> fleet_db \<Rightarrow> worker_connection option" where
  "own_open_conn env worker_id incarnation db =
     such (\<lambda>w. wc_transport_owner_id w = pe_transport_owner env \<and> open_conn w) (conn_of worker_id incarnation db)"

definition set_conn :: "string \<times> uuid \<Rightarrow> (worker_connection \<Rightarrow> worker_connection) \<Rightarrow> fleet_db \<Rightarrow> fleet_db" where
  "set_conn key f = db_connections_update (upd_where (\<lambda>w. conn_key w = key) f)"

text \<open>A job the same worker id still runs under another incarnation.\<close>

definition blocked_by_predecessor :: "string \<Rightarrow> uuid \<Rightarrow> fleet_db \<Rightarrow> bool" where
  "blocked_by_predecessor worker_id incarnation db \<longleftrightarrow>
     exists_row (\<lambda>j. exists_row (\<lambda>a. ja_job_id a = jb_id j
         \<and> ja_dispatch_sequence a = jb_current_dispatch_sequence j \<and> jb_state j = ''running''
         \<and> ja_worker_id a = worker_id \<and> ja_incarnation a \<noteq> incarnation) (db_job_attempts db)) (db_jobs db)"

definition activate_initial_worker ::
    "process_env \<Rightarrow> moment \<Rightarrow> string \<Rightarrow> uuid \<Rightarrow> fleet_db \<Rightarrow> bool \<times> fleet_db" where
  "activate_initial_worker env now worker_id incarnation db =
     (case (live_lease REGION now db, own_open_conn env worker_id incarnation db) of
        (Some l, Some w) \<Rightarrow>
          if wc_lifecycle w \<noteq> Connecting \<or> wc_envelope_revision w < 1 \<or> wc_manifests w = JArr []
             \<or> wc_owner_epoch w \<noteq> sl_owner_epoch l \<or> wc_lease_id w \<noteq> sl_lease_id l
             \<or> blocked_by_predecessor worker_id incarnation db
          then (False, db)
          else (True, set_conn (worker_id, incarnation) (\<lambda>w. w\<lparr>wc_lifecycle := Ready\<rparr>) db)
      | _ \<Rightarrow> (False, db))"

text \<open>The text values of an envelope; anything else counts as absent for readiness.\<close>

definition envelope_text :: "dict \<Rightarrow> string \<Rightarrow> string option" where
  "envelope_text d k = (case dget d k of Some (JStr s) \<Rightarrow> Some s | _ \<Rightarrow> None)"

definition envelope_dict :: "dict \<Rightarrow> string \<Rightarrow> dict option" where
  "envelope_dict d k = (case dget d k of Some (JObj x) \<Rightarrow> Some x | _ \<Rightarrow> None)"

definition update_worker_models ::
    "process_env \<Rightarrow> clock \<Rightarrow> string \<Rightarrow> uuid \<Rightarrow> json list \<Rightarrow> fleet_db \<Rightarrow> unit tx" where
  "update_worker_models env clk worker_id incarnation manifests db =
     (case (live_lease REGION (clk 1) db,
            such (\<lambda>w. wc_region w = REGION) (own_open_conn env worker_id incarnation db)) of
        (Some l, Some w) \<Rightarrow>
          raise_if (wc_owner_epoch w \<noteq> sl_owner_epoch l \<or> wc_lease_id w \<noteq> sl_lease_id l)
            (AuthorityUnavailable ''worker authority is no longer current'')
           (let previous = wc_execution_envelope w;
                (envelope, ready) = execution_envelope manifests (envelope_text previous ''device'')
                  (envelope_text previous ''memory_mode'') (envelope_dict previous ''realtime_p95_ms'')
                  (envelope_dict previous ''realtime_batch_ms'');
                db1 = set_conn (worker_id, incarnation) (\<lambda>w. w\<lparr>wc_manifests := JArr manifests,
                  wc_execution_envelope := envelope,
                  wc_envelope_revision := (if ready then max (wc_envelope_revision w) 1 else 0)\<rparr>) db
            in Inr ((), snd (activate_initial_worker env (clk 2) worker_id incarnation db1)))
      | _ \<Rightarrow> Inl (AuthorityUnavailable ''worker authority is no longer current''))"

section \<open>Closing a worker\<close>

definition conn_attempts :: "string \<Rightarrow> uuid \<Rightarrow> fleet_db \<Rightarrow> (realtime_session \<times> realtime_attempt) list" where
  "conn_attempts worker_id incarnation db =
     [(s, a). s \<leftarrow> db_sessions db, a \<leftarrow> db_attempts db,
        ra_session_id a = rs_id s \<and> ra_worker_id a = worker_id \<and> ra_incarnation a = incarnation \<and> active_attempt a]"

fun erase_attempts :: "clock \<Rightarrow> (realtime_session \<times> realtime_attempt) list \<Rightarrow> fleet_db \<Rightarrow> fleet_exn + fleet_db" where
  "erase_attempts clk [] db = Inr db"
| "erase_attempts clk ((s, a) # rest) db =
     (case rs_user_id s of
        None \<Rightarrow> Inl (PyError AttributeError)
      | Some account \<Rightarrow>
          bindR (erase_subject_commands clk account ''session'' (rs_id s) (Some (ra_control_generation a)) db)
            (\<lambda>(_, db'). erase_attempts clk rest db'))"

definition ended_attempt :: "moment \<Rightarrow> realtime_attempt \<Rightarrow> realtime_attempt" where
  "ended_attempt now a = a\<lparr>ra_state := Attempt_ended,
     ra_ended_at := (case ra_ended_at a of None \<Rightarrow> Some now | Some t \<Rightarrow> Some t)\<rparr>"

definition ended_session :: "moment \<Rightarrow> realtime_session \<Rightarrow> realtime_session" where
  "ended_session now s = s\<lparr>rs_state := Session_ended,
     rs_ended_at := (case rs_ended_at s of None \<Rightarrow> Some now | Some t \<Rightarrow> Some t)\<rparr>"

definition end_ending_session :: "moment \<Rightarrow> realtime_session \<times> realtime_attempt \<Rightarrow> fleet_db \<Rightarrow> fleet_db" where
  "end_ending_session now sa =
     db_sessions_update (upd_where (\<lambda>s. rs_id s = rs_id (fst sa)
         \<and> rs_control_generation s = ra_control_generation (snd sa) \<and> rs_state s = Ending) (ended_session now))"

definition close_worker :: "process_env \<Rightarrow> clock \<Rightarrow> string \<Rightarrow> uuid \<Rightarrow> fleet_db \<Rightarrow> unit tx" where
  "close_worker env clk worker_id incarnation db =
     (let attempts = conn_attempts worker_id incarnation db in
      raise_if (list_ex (\<lambda>(s, _). rs_user_id s = None) attempts) (PyError AttributeError)
     (bindR (erase_attempts clk attempts db) (\<lambda>db1.
      let db2 = db_connections_update (upd_where
                  (\<lambda>w. conn_key w = (worker_id, incarnation) \<and> wc_transport_owner_id w = pe_transport_owner env)
                  (\<lambda>w. w\<lparr>wc_lifecycle := Ended,
                     wc_closed_at := (case wc_closed_at w of None \<Rightarrow> Some (clk 1) | Some t \<Rightarrow> Some t)\<rparr>)) db1;
          db3 = db_attempts_update (upd_where
                  (\<lambda>a. ra_worker_id a = worker_id \<and> ra_incarnation a = incarnation \<and> active_attempt a)
                  (ended_attempt (clk 2))) db2
      in Inr ((), fold (end_ending_session (clk 3)) attempts db3))))"

section \<open>Heartbeats and grants\<close>

definition conn_lease_live :: "moment \<Rightarrow> fleet_db \<Rightarrow> worker_connection \<Rightarrow> bool" where
  "conn_lease_live now db w =
     (case lease_of (wc_region w) db of None \<Rightarrow> False
      | Some l \<Rightarrow> sl_owner_epoch l = wc_owner_epoch w \<and> sl_lease_id l = wc_lease_id w \<and> sl_expires_at l > now)"

definition observe_p95 :: "dict option \<Rightarrow> dict \<Rightarrow> dict" where
  "observe_p95 p95 observations =
     (case p95 of
        None \<Rightarrow> observations
      | Some new \<Rightarrow> if new = [] then observations
          else dset ''frame_p95_ms'' (JObj (dupdate (or_empty (envelope_dict observations ''frame_p95_ms'')) new)) observations)"

definition touch_worker ::
    "process_env \<Rightarrow> clock \<Rightarrow> string \<Rightarrow> uuid \<Rightarrow> dict option \<Rightarrow> fleet_db \<Rightarrow> unit tx" where
  "touch_worker env clk worker_id incarnation p95 db =
     (case such (\<lambda>w. wc_lifecycle w \<noteq> Ended \<and> conn_lease_live (clk 1) db w) (own_open_conn env worker_id incarnation db) of
        None \<Rightarrow> Inl (AuthorityUnavailable ''worker authority is no longer current'')
      | Some w \<Rightarrow> Inr ((), set_conn (worker_id, incarnation) (\<lambda>w. w\<lparr>wc_observations := observe_p95 p95 (wc_observations w),
            wc_last_seen_at := clk 2, wc_expires_at := clk 3 + HEARTBEAT_SECONDS\<rparr>) db))"

record work_grant =
  wg_worker_id :: string
  wg_incarnation :: uuid
  wg_region :: string
  wg_owner_epoch :: int
  wg_lease_id :: uuid
  wg_lease_expires_at :: moment
  wg_grant_nonce :: uuid
  wg_ready :: bool
  wg_remaining_ms :: int

definition grantable :: "moment \<Rightarrow> scheduler_lease \<Rightarrow> worker_connection \<Rightarrow> bool" where
  "grantable now l w \<longleftrightarrow> wc_lifecycle w = Ready \<and> wc_envelope_revision w > 0
     \<and> sl_owner_epoch l = wc_owner_epoch w \<and> sl_lease_id l = wc_lease_id w \<and> sl_expires_at l > now"

text \<open>
  PostgreSQL computes the targets in column order: \<open>grant_expires_at\<close> (readings 2 and 3) before
  \<open>grant_ready\<close> (reading 4).
\<close>

definition granted_conn :: "clock \<Rightarrow> uuid \<Rightarrow> scheduler_lease \<Rightarrow> worker_connection \<Rightarrow> worker_connection" where
  "granted_conn clk grant_nonce l w =
     w\<lparr>wc_lease_expires_at := sl_expires_at l, wc_grant_nonce := grant_nonce,
       wc_grant_expires_at := (if grantable (clk 2) l w then min (sl_expires_at l) (clk 3 + 10 * 1000000) else clk 3),
       wc_grant_ready := grantable (clk 4) l w\<rparr>"

definition grant_of :: "moment \<Rightarrow> worker_connection \<Rightarrow> work_grant" where
  "grant_of now w =
     \<lparr>wg_worker_id = wc_worker_id w, wg_incarnation = wc_incarnation w, wg_region = wc_region w,
      wg_owner_epoch = wc_owner_epoch w, wg_lease_id = wc_lease_id w, wg_lease_expires_at = wc_lease_expires_at w,
      wg_grant_nonce = wc_grant_nonce w, wg_ready = wc_grant_ready w,
      wg_remaining_ms = (if wc_grant_ready w then (wc_grant_expires_at w - now) div 1000 else 0)\<rparr>"

text \<open>The activation runs in a transaction of its own and keeps its effect when the grant is refused.\<close>

definition renew_worker_grant ::
    "process_env \<Rightarrow> clock \<Rightarrow> string \<Rightarrow> uuid \<Rightarrow> uuid \<Rightarrow> fleet_db \<Rightarrow> (fleet_exn + work_grant) \<times> fleet_db" where
  "renew_worker_grant env clk worker_id incarnation grant_nonce db =
     (let db1 = snd (activate_initial_worker env (clk 1) worker_id incarnation db);
          gone = Inl (AuthorityUnavailable ''worker connection is no longer current'') in
      case such (\<lambda>w. wc_grant_nonce w \<noteq> grant_nonce) (own_open_conn env worker_id incarnation db1) of
        None \<Rightarrow> (gone, db1)
      | Some w \<Rightarrow>
          (case lease_of (wc_region w) db1 of
             None \<Rightarrow> (gone, db1)
           | Some l \<Rightarrow>
               (Inr (grant_of (clk 5) (granted_conn clk grant_nonce l w)),
                set_conn (worker_id, incarnation) (granted_conn clk grant_nonce l) db1)))"

section \<open>Ending sessions and attempts\<close>

definition end_attempt_where :: "(realtime_attempt \<Rightarrow> bool) \<Rightarrow> moment \<Rightarrow> fleet_db \<Rightarrow> fleet_db" where
  "end_attempt_where P now = db_attempts_update (upd_where (\<lambda>a. P a \<and> active_attempt a) (ended_attempt now))"

text \<open>The result names the connection \<open>realtime.close_fenced_worker\<close> is then called for.\<close>

definition end_realtime_session ::
    "clock \<Rightarrow> uuid \<Rightarrow> int \<Rightarrow> uuid \<Rightarrow> fleet_db \<Rightarrow> (bool \<times> (string \<times> uuid) option) tx" where
  "end_realtime_session clk session_id generation browser_owner_id db =
     (let hit = (\<lambda>s. rs_id s = session_id \<and> rs_control_generation s = generation
                   \<and> rs_browser_owner_id s = browser_owner_id \<and> rs_state s \<in> set OPEN_SESSION_STATES) in
      case session_of session_id db of
        None \<Rightarrow> Inr ((False, None), db)
      | Some s \<Rightarrow>
        (case rs_user_id s of
           None \<Rightarrow> Inr ((False, None), db)
         | Some user \<Rightarrow>
           if \<not> hit s then Inr ((False, None), db)
           else let attempt = such active_attempt (attempt_of session_id generation db) in
             bindR (erase_subject_commands clk user ''session'' session_id (Some generation) db) (\<lambda>(_, db1).
             let db2 = (case attempt of None \<Rightarrow> db1
                   | Some a \<Rightarrow> end_attempt_where (\<lambda>b. attempt_key b = (session_id, generation)
                        \<and> ra_worker_id b = ra_worker_id a \<and> ra_incarnation b = ra_incarnation a) (clk 2) db1);
                 db3 = db_sessions_update (upd_where hit
                         (\<lambda>s. s\<lparr>rs_state := Session_ended, rs_ended_at := Some (clk 3)\<rparr>)) db2
             in Inr ((True, map_option (\<lambda>a. (ra_worker_id a, ra_incarnation a)) attempt), db3))))"

definition abandon_realtime_attempt ::
    "clock \<Rightarrow> uuid \<Rightarrow> int \<Rightarrow> uuid \<Rightarrow> fleet_db \<Rightarrow> (bool \<times> (string \<times> uuid) option) tx" where
  "abandon_realtime_attempt clk session_id generation attempt_id db =
     (case session_of session_id db of
        None \<Rightarrow> Inr ((False, None), db)
      | Some s \<Rightarrow>
        (case (rs_user_id s, such (\<lambda>a. ra_attempt_id a = attempt_id \<and> active_attempt a)
                               (attempt_of session_id generation db)) of
           (Some user, Some a) \<Rightarrow>
             if rs_control_generation s \<noteq> generation then Inr ((False, None), db)
             else bindR (erase_subject_commands clk user ''session'' session_id (Some generation) db) (\<lambda>(_, db1).
               Inr ((True, Some (ra_worker_id a, ra_incarnation a)),
                 end_attempt_where (\<lambda>b. attempt_key b = (session_id, generation) \<and> ra_attempt_id b = attempt_id)
                   (clk 2) db1))
         | _ \<Rightarrow> Inr ((False, None), db)))"

definition ready_attempt_matches ::
    "string \<Rightarrow> uuid \<Rightarrow> int \<Rightarrow> uuid \<Rightarrow> realtime_session \<Rightarrow> realtime_attempt \<Rightarrow> bool" where
  "ready_attempt_matches worker_id incarnation generation attempt_id s a \<longleftrightarrow>
     rs_state s = Assigning \<and> rs_control_generation s = generation \<and> ra_worker_id a = worker_id
     \<and> ra_incarnation a = incarnation \<and> ra_attempt_id a = attempt_id \<and> ra_state a = Opening"

definition ready_authority ::
    "process_env \<Rightarrow> clock \<Rightarrow> string \<Rightarrow> uuid \<Rightarrow> realtime_attempt \<Rightarrow> fleet_db \<Rightarrow> worker_connection option" where
  "ready_authority env clk worker_id incarnation a db =
     (case (lease_of REGION db, own_open_conn env worker_id incarnation db) of
        (Some l, Some w) \<Rightarrow>
          if sl_owner_epoch l = wc_owner_epoch w \<and> sl_lease_id l = wc_lease_id w
             \<and> wc_owner_epoch w = ra_owner_epoch a \<and> wc_grant_ready w
             \<and> sl_expires_at l > clk 1 \<and> wc_grant_expires_at w > clk 2
          then Some w else None
      | _ \<Rightarrow> None)"

definition accept_session_ready ::
    "process_env \<Rightarrow> clock \<Rightarrow> string \<Rightarrow> uuid \<Rightarrow> dict \<Rightarrow> fleet_db \<Rightarrow> bool tx" where
  "accept_session_ready env clk worker_id incarnation message db =
     bindR (field_uuid message ''session_id'') (\<lambda>session_id.
     bindR (field_bigint message ''control_generation'') (\<lambda>generation.
     case (session_of session_id db, attempt_of session_id generation db) of
       (Some s, Some a) \<Rightarrow>
         if rs_user_id s = None then Inr (False, db)
         else bindR (field_uuid message ''attempt_id'') (\<lambda>attempt_id.
           if \<not> ready_attempt_matches worker_id incarnation generation attempt_id s a
              \<or> (case ra_range_id a of None \<Rightarrow> True
                 | Some r \<Rightarrow> such (\<lambda>p. pr_worker_id p = worker_id \<and> pr_incarnation p = incarnation
                      \<and> pr_state p = Outstanding) (range_of r db) = None)
           then Inr (False, db)
           else case ready_authority env clk worker_id incarnation a db of
             None \<Rightarrow> Inr (False, db)
           | Some w \<Rightarrow>
               Inr (True,
                 db_sessions_update (upd_where (\<lambda>s. rs_id s = session_id)
                   (\<lambda>s. s\<lparr>rs_state := Live, rs_owner_epoch := Some (wc_owner_epoch w), rs_started_at := Some (clk 4)\<rparr>))
                (db_attempts_update (upd_where (\<lambda>a. attempt_key a = (session_id, generation))
                   (\<lambda>a. a\<lparr>ra_state := Running, ra_started_at := Some (clk 3)\<rparr>)) db)))
     | _ \<Rightarrow> Inr (False, db)))"

section \<open>Worker reports\<close>

text \<open>The values \<open>commit_worker_report\<close> reads of a validated report.\<close>

record report_facts =
  rf_is_session :: bool
  rf_subject_id :: uuid
  rf_generation :: "json option"
  rf_attempt_id :: "uuid option"
  rf_dispatch :: "json option"
  rf_range_id :: uuid
  rf_sequence :: int
  rf_hash :: string
  rf_gpu_ms :: int
  rf_frames :: int
  rf_duration_ms :: int
  rf_complete :: bool
  rf_type :: string

definition parse_report :: "dict \<Rightarrow> fleet_exn + report_facts" where
  "parse_report report =
     (let is_session = has_key report ''session_id'' in
      bindR (field_uuid report (if is_session then ''session_id'' else ''job_id'')) (\<lambda>subject_id.
      bindR (if is_session then bindR (field_uuid report ''attempt_id'') (\<lambda>a. Inr (Some a)) else Inr None) (\<lambda>attempt_id.
      bindR (field_uuid report ''range_id'') (\<lambda>range_id.
      bindR (field_bigint report ''report_sequence'') (\<lambda>sequence.
      bindR (field report ''report_hash'') (\<lambda>report_hash.
      bindR (field_bigint report ''gpu_ms'') (\<lambda>gpu_ms.
      bindR (field_bigint report ''duration_ms'') (\<lambda>duration_ms.
        Inr \<lparr>rf_is_session = is_session, rf_subject_id = subject_id, rf_generation = dget report ''control_generation'',
             rf_attempt_id = attempt_id, rf_dispatch = dget report ''dispatch_sequence'', rf_range_id = range_id,
             rf_sequence = sequence, rf_hash = the_str (Some report_hash), rf_gpu_ms = gpu_ms,
             rf_frames = the_int (case dget report ''frames'' of Some v \<Rightarrow> Some v | None \<Rightarrow> dget report ''images''),
             rf_duration_ms = duration_ms, rf_complete = (dget report ''physical_complete'' = Some (JBool True)),
             rf_type = the_str (dget report ''type'')\<rparr>))))))))"

definition terminal_job :: "report_facts \<Rightarrow> bool" where
  "terminal_job f \<longleftrightarrow> \<not> rf_is_session f \<and> rf_type f \<in> set TERMINAL_JOB_REPORTS"

text \<open>The control generation of a session report, the dispatch sequence of a job report.\<close>

definition rf_identity :: "report_facts \<Rightarrow> int" where
  "rf_identity f = the_int (if rf_is_session f then rf_generation f else rf_dispatch f)"

definition int_option :: "json option \<Rightarrow> int option" where
  "int_option v = (case v of Some (JInt i) \<Rightarrow> Some i | _ \<Rightarrow> None)"

definition range_matches_report :: "report_facts \<Rightarrow> physical_range \<Rightarrow> bool" where
  "range_matches_report f p \<longleftrightarrow>
     pr_kind p = (if rf_is_session f then Session_range else Job_range) \<and> pr_subject_id p = rf_subject_id f
     \<and> pr_attempt_id p = rf_attempt_id f \<and> pr_control_generation p = int_option (rf_generation f)
     \<and> pr_dispatch_sequence p = int_option (rf_dispatch f)"

definition report_user :: "report_facts \<Rightarrow> fleet_db \<Rightarrow> uuid option" where
  "report_user f db =
     (if rf_is_session f then (case session_of (rf_subject_id f) db of None \<Rightarrow> None | Some s \<Rightarrow> rs_user_id s)
      else map_option jb_user_id (job_of (rf_subject_id f) db))"

definition report_authority ::
    "process_env \<Rightarrow> moment \<Rightarrow> string \<Rightarrow> uuid \<Rightarrow> json \<Rightarrow> fleet_db \<Rightarrow> fleet_exn + unit" where
  "report_authority env now worker_id incarnation region db =
     (case (lease_of (the_str (Some region)) db, own_open_conn env worker_id incarnation db) of
        (Some l, Some w) \<Rightarrow>
          raise_if (sl_owner_epoch l \<noteq> wc_owner_epoch w \<or> sl_lease_id l \<noteq> wc_lease_id w \<or> JStr (wc_region w) \<noteq> region)
            (AuthorityUnavailable ''worker report authority is stale'')
           (raise_if (\<not> sl_expires_at l > now) (AuthorityUnavailable ''worker report authority has expired'') (Inr ()))
      | _ \<Rightarrow> Inl (AuthorityUnavailable ''worker report authority is stale''))"

record maxima =
  mx_gpu_ms :: int
  mx_frames :: int
  mx_duration_ms :: int

definition report_maxima :: "report_facts \<Rightarrow> physical_range \<Rightarrow> maxima" where
  "report_maxima f p = \<lparr>mx_gpu_ms = max (pr_gpu_ms p) (rf_gpu_ms f), mx_frames = max (pr_frames p) (rf_frames f),
     mx_duration_ms = max (pr_duration_ms p) (rf_duration_ms f)\<rparr>"

text \<open>The acknowledgement with measures put in: \<open>frames\<close> for a session, \<open>images\<close> for a job.\<close>

definition measured_ack :: "dict \<Rightarrow> report_facts \<Rightarrow> (string \<times> json) list \<Rightarrow> int \<Rightarrow> dict" where
  "measured_ack ack f changes frames =
     dset (if rf_is_session f then ''frames'' else ''images'') (JInt frames) (dupdate ack changes)"

definition stale_ack :: "dict \<Rightarrow> report_facts \<Rightarrow> physical_range \<Rightarrow> dict" where
  "stale_ack ack f p = measured_ack ack f [(''status'', JStr ''refused''), (''code'', JStr ''stale_report''),
     (''gpu_ms'', JInt (pr_gpu_ms p)), (''duration_ms'', JInt (pr_duration_ms p))] (pr_frames p)"

definition accepted_ack :: "dict \<Rightarrow> report_facts \<Rightarrow> maxima \<Rightarrow> dict" where
  "accepted_ack ack f m = measured_ack ack f [(''gpu_ms'', JInt (mx_gpu_ms m)),
     (''duration_ms'', JInt (mx_duration_ms m))] (mx_frames m)"

definition record_range :: "report_facts \<Rightarrow> maxima \<Rightarrow> fleet_db \<Rightarrow> fleet_db" where
  "record_range f m =
     db_ranges_update (upd_where (\<lambda>p. pr_range_id p = rf_range_id f)
       (\<lambda>p. p\<lparr>pr_report_sequence := rf_sequence f, pr_report_hash := Some (rf_hash f), pr_gpu_ms := mx_gpu_ms m,
              pr_frames := mx_frames m, pr_duration_ms := mx_duration_ms m\<rparr>))"

definition record_session_attempt :: "moment \<Rightarrow> report_facts \<Rightarrow> maxima \<Rightarrow> fleet_db \<Rightarrow> fleet_db" where
  "record_session_attempt now f m =
     db_attempts_update (upd_where (\<lambda>a. attempt_key a = (rf_subject_id f, rf_identity f))
       (\<lambda>a. a\<lparr>ra_report_sequence := rf_sequence f, ra_gpu_ms := mx_gpu_ms m, ra_frames := mx_frames m,
              ra_duration_ms := mx_duration_ms m,
              ra_state := (if rf_complete f then Attempt_ended else ra_state a),
              ra_ended_at := (if rf_complete f then Some now else ra_ended_at a)\<rparr>))"

definition terminal_state :: "string \<Rightarrow> string option" where
  "terminal_state kind = map_of [(''job_done'', ''completed''), (''job_failed'', ''failed''),
     (''job_cancelled'', ''cancelled'')] kind"

definition reported_job_attempt ::
    "moment \<Rightarrow> dict \<Rightarrow> report_facts \<Rightarrow> bool \<Rightarrow> maxima \<Rightarrow> job_attempt \<Rightarrow> job_attempt" where
  "reported_job_attempt now report f is_current m a =
     (let done = (rf_complete f \<and> rf_type f = ''job_done'' \<and> is_current);
          failed = (rf_complete f \<and> rf_type f = ''job_failed'' \<and> is_current);
          timed = (\<lambda>k old. if done \<and> has_key report k then dget report k else old) in
      a\<lparr>ja_report_sequence := rf_sequence f, ja_gpu_ms := mx_gpu_ms m, ja_frames := mx_frames m,
        ja_duration_ms := mx_duration_ms m,
        ja_state := (case terminal_state (rf_type f) of None \<Rightarrow> ja_state a
                     | Some s \<Rightarrow> if rf_complete f then s else ja_state a),
        ja_terminal_at := (if rf_complete f then Some now else ja_terminal_at a),
        ja_input_fetch_ms := timed ''input_fetch_ms'' (ja_input_fetch_ms a),
        ja_load_ms := timed ''load_ms'' (ja_load_ms a),
        ja_postprocess_ms := timed ''postprocess_ms'' (ja_postprocess_ms a),
        ja_terminal_category := (if done then dget report ''category'' else ja_terminal_category a),
        ja_terminal_category_score := (if done then dget report ''category_score'' else ja_terminal_category_score a),
        ja_terminal_has_thumbnail := (if done then
            (case dget report ''has_thumbnail'' of None \<Rightarrow> Some (JBool False) | Some v \<Rightarrow> Some v)
          else ja_terminal_has_thumbnail a),
        ja_terminal_failure_code := (if failed then dget report ''failure_code'' else ja_terminal_failure_code a)\<rparr>)"

definition record_job_attempt :: "moment \<Rightarrow> dict \<Rightarrow> report_facts \<Rightarrow> bool \<Rightarrow> maxima \<Rightarrow> fleet_db \<Rightarrow> fleet_db" where
  "record_job_attempt now report f is_current m =
     db_job_attempts_update (upd_where (\<lambda>a. job_attempt_key a = (rf_subject_id f, rf_identity f))
       (reported_job_attempt now report f is_current m))"

text \<open>A complete session report ends the row at its generation, unless an idle release keeps it.\<close>

definition end_reported_session :: "moment \<Rightarrow> report_facts \<Rightarrow> fleet_db \<Rightarrow> fleet_db" where
  "end_reported_session now f db =
     (if rf_is_session f \<and> rf_complete f then
        db_sessions_update (upd_where (\<lambda>s. rs_id s = rf_subject_id f \<and> rs_control_generation s = rf_identity f
            \<and> rs_state s \<noteq> Idle) (\<lambda>s. s\<lparr>rs_state := Session_ended, rs_ended_at := Some now\<rparr>)) db
      else db)"

definition report_receipt_row :: "moment \<Rightarrow> report_facts \<Rightarrow> maxima \<Rightarrow> string \<Rightarrow> report_receipt" where
  "report_receipt_row now f m body =
     \<lparr>rc_range_id = rf_range_id f, rc_report_sequence = rf_sequence f, rc_report_hash = rf_hash f,
      rc_gpu_ms = mx_gpu_ms m, rc_frames = mx_frames m, rc_duration_ms = mx_duration_ms m, rc_ack_body = body,
      rc_accepted_at = now\<rparr>"

definition insert_receipt :: "report_receipt \<Rightarrow> fleet_db \<Rightarrow> fleet_exn + fleet_db" where
  "insert_receipt r db =
     (if exists_row (\<lambda>q. receipt_key q = receipt_key r) (db_receipts db) then Inl (IntegrityError ''worker_report_receipts'')
      else Inr (db_receipts_update (\<lambda>rows. rows @ [r]) db))"

text \<open>\<open>ORDER BY report_sequence DESC OFFSET 256\<close> of one range.\<close>

definition RECEIPTS_KEPT :: nat where "RECEIPTS_KEPT = 256"

definition old_receipts :: "uuid \<Rightarrow> fleet_db \<Rightarrow> int list" where
  "old_receipts range_id db =
     drop RECEIPTS_KEPT (rev (sort (map rc_report_sequence (filter (\<lambda>r. rc_range_id r = range_id) (db_receipts db)))))"

definition evict_receipts :: "uuid \<Rightarrow> fleet_db \<Rightarrow> fleet_db" where
  "evict_receipts range_id db =
     (case old_receipts range_id db of
        [] \<Rightarrow> db
      | newest # older \<Rightarrow>
          db_ranges_update (upd_where (\<lambda>p. pr_range_id p = range_id)
            (\<lambda>p. p\<lparr>pr_report_floor := max (pr_report_floor p) newest\<rparr>))
         (db_receipts_update (del_where (\<lambda>r. rc_range_id r = range_id
            \<and> rc_report_sequence r \<in> set (newest # older))) db))"

definition erase_after_report ::
    "clock \<Rightarrow> uuid \<Rightarrow> string \<Rightarrow> uuid \<Rightarrow> report_facts \<Rightarrow> fleet_db \<Rightarrow> fleet_exn + fleet_db" where
  "erase_after_report clk user worker_id incarnation f db =
     (if \<not> (rf_is_session f \<and> rf_complete f \<or> terminal_job f) then Inr db
      else if rf_complete f then
        bindR (erase_reported_subject_command user (if rf_is_session f then ''close_session'' else ''dispatch_job'')
            (rf_subject_id f) (rf_identity f) worker_id incarnation (rf_range_id f)
            (if rf_is_session f then rf_attempt_id f else None) (rf_sequence f) (rf_hash f) db) (\<lambda>(_, db'). Inr db')
      else bindR (erase_subject_commands clk user (if rf_is_session f then ''session'' else ''job'')
            (rf_subject_id f) (Some (rf_identity f)) db) (\<lambda>(_, db'). Inr db'))"

text \<open>Everything after the stale test: the new maxima are written, the receipt kept, the command erased.\<close>

definition record_report ::
    "p6_prims \<Rightarrow> clock \<Rightarrow> uuid \<Rightarrow> string \<Rightarrow> uuid \<Rightarrow> dict \<Rightarrow> report_facts \<Rightarrow> bool \<Rightarrow> dict \<Rightarrow> physical_range \<Rightarrow> fleet_db \<Rightarrow>
     string tx"
where
  "record_report P clk user worker_id incarnation report f is_current ack p db =
     (let m = report_maxima f p in
      bindR (lift_py (preflight_worker_control P (accepted_ack ack f m) None None)) (\<lambda>body.
      let db1 = record_range f m db;
          db2 = (if rf_is_session f then record_session_attempt (clk 2) f m db1
                 else record_job_attempt (clk 2) report f is_current m db1);
          db3 = end_reported_session (clk 3) f db2 in
      bindR (insert_receipt (report_receipt_row (clk 0) f m body) db3) (\<lambda>db4.
      bindR (erase_after_report clk user worker_id incarnation f (evict_receipts (rf_range_id f) db4)) (\<lambda>db5.
        Inr (body, db5)))))"

definition report_is_current :: "report_facts \<Rightarrow> report_entity \<Rightarrow> bool" where
  "report_is_current f e =
     (case e of Session_entity _ \<Rightarrow> False
      | Job_entity j \<Rightarrow> Some (jb_current_dispatch_sequence j) = int_option (rf_dispatch f))"

definition commit_worker_report ::
    "p6_prims \<Rightarrow> process_env \<Rightarrow> clock \<Rightarrow> string \<Rightarrow> uuid \<Rightarrow> dict \<Rightarrow> fleet_db \<Rightarrow> string tx" where
  "commit_worker_report P env clk transport_worker_id transport_incarnation report db =
     bindR (field report ''worker_id'') (\<lambda>worker_id.
     bindR (field_uuid report ''incarnation'') (\<lambda>incarnation.
     raise_if (worker_id \<noteq> JStr transport_worker_id \<or> incarnation \<noteq> transport_incarnation)
       (AuthorityUnavailable ''worker report identity is not current'')
    (bindR (parse_report report) (\<lambda>f.
     bindR (report_ack report (rf_subject_id f) incarnation (rf_range_id f) (rf_attempt_id f)
         (opt_json (rf_generation f)) (opt_json (rf_dispatch f))) (\<lambda>ack.
     bindR (field report ''owner_epoch'') (\<lambda>owner_epoch.
     bindR (field report ''region'') (\<lambda>region.
     case report_user f db of
       None \<Rightarrow> Inl (AuthorityUnavailable ''worker report attempt is unknown'')
     | Some user \<Rightarrow>
       (case lock_report_subject P (rf_subject_id f) user (rf_is_session f) (the_int (rf_generation f))
              (the_int (rf_dispatch f)) transport_worker_id incarnation owner_epoch (rf_range_id f)
              (rf_attempt_id f) report db of
          None \<Rightarrow> Inl (AuthorityUnavailable ''worker report range identity is unknown'')
        | Some entity \<Rightarrow>
          (case such (\<lambda>p. pr_worker_id p = transport_worker_id \<and> pr_incarnation p = incarnation)
                 (range_of (rf_range_id f) db) of
             None \<Rightarrow> Inl (AuthorityUnavailable ''worker report range does not match'')
           | Some p \<Rightarrow>
             raise_if (\<not> range_matches_report f p) (AuthorityUnavailable ''worker report range does not match'')
            (bindR (if \<not> rf_complete f \<and> terminal_job f
                 then bindR (subject_erasure_selection user ''job'' (rf_subject_id f) (Some (rf_identity f)) db) (\<lambda>_. Inr ())
                 else Inr ()) (\<lambda>_.
             bindR (report_authority env (clk 1) transport_worker_id transport_incarnation region db) (\<lambda>_.
             case receipt_of (rf_range_id f) (rf_sequence f) db of
               Some receipt \<Rightarrow>
                 raise_if (rc_report_hash receipt \<noteq> rf_hash f) (AuthorityUnavailable ''worker report sequence changed bytes'')
                   (Inr (rc_ack_body receipt, db))
             | None \<Rightarrow>
                 if rf_sequence f \<le> pr_report_floor p
                 then bindR (lift_py (preflight_worker_control P (stale_ack ack f p) None None)) (\<lambda>body. Inr (body, db))
                 else record_report P clk user transport_worker_id incarnation report f
                        (report_is_current f entity) ack p db))))))))))))"

end
