(* ===== verification/Journal.thy ===== *)
theory Journal
  imports Authority "HOL-Library.Multiset"
begin

text \<open>
  The invariant of the command journal and its preservation by every operation that writes the
  fleet tables: sequence numbers without gaps between the acknowledged floor and the next
  number, the bounds on retained rows and pending bytes, and the state contract of migration
  0034 on every row.
\<close>

section \<open>The contract of a command row\<close>

text \<open>\<open>worker_commands_identity\<close> and \<open>worker_commands_identity_hash\<close>.\<close>

definition identity_check :: "worker_command \<Rightarrow> bool" where
  "identity_check c \<longleftrightarrow>
     (let subject = (cmd_subject_id c \<noteq> None
            \<and> (case cmd_subject_sequence c of None \<Rightarrow> False | Some n \<Rightarrow> 1 \<le> n \<and> n \<le> 9223372036854775807)
            \<and> cmd_ack_identity_hash c \<noteq> None) in
      (cmd_state c = Pending \<and> cmd_account_user_id c \<noteq> None \<and> subject
       \<or> cmd_state c = Acknowledged \<and> subject \<or> cmd_state c = Erased)
      \<and> (case cmd_ack_identity_hash c of None \<Rightarrow> True | Some h \<Rightarrow> length h = 64 \<and> list_all hex_char h))"

text \<open>
  What the rows in fact satisfy: an erased row that still has its identity hash has its subject
  too, so an acknowledgement may still settle it.
\<close>

definition identity_contract :: "worker_command \<Rightarrow> bool" where
  "identity_contract c \<longleftrightarrow>
     (cmd_state c \<noteq> Erased \<longrightarrow> cmd_ack_identity_hash c \<noteq> None) \<and>
     (cmd_state c = Pending \<longrightarrow> cmd_account_user_id c \<noteq> None) \<and>
     (case cmd_ack_identity_hash c of
        None \<Rightarrow> True
      | Some h \<Rightarrow> length h = 64 \<and> list_all hex_char h \<and> cmd_subject_id c \<noteq> None \<and>
          (case cmd_subject_sequence c of None \<Rightarrow> False | Some n \<Rightarrow> 1 \<le> n \<and> n \<le> MAX_SEQUENCE))"

definition kind_limit :: "string \<Rightarrow> int" where
  "kind_limit kind = (if kind \<in> {''dispatch_job'', ''open_session'', ''update_session''} then 1048576 else 16384)"

text \<open>\<open>worker_commands_state_contract\<close> and \<open>worker_commands_kind\<close>.\<close>

definition state_contract :: "worker_command \<Rightarrow> bool" where
  "state_contract c \<longleftrightarrow> cmd_kind c \<in> fst ` set SUBJECT_FIELDS \<and>
     (case cmd_state c of
        Pending \<Rightarrow> cmd_encrypted_body c \<noteq> None \<and> (case cmd_key_version c of None \<Rightarrow> False | Some v \<Rightarrow> v > 0)
          \<and> 1 \<le> cmd_complete_bytes c \<and> cmd_complete_bytes c \<le> kind_limit (cmd_kind c)
          \<and> cmd_ack_status c = None \<and> cmd_ack_code c = None \<and> cmd_expected_sequence c = None
          \<and> cmd_ack_body c = None \<and> cmd_acknowledged_at c = None
      | Acknowledged \<Rightarrow> cmd_encrypted_body c = None \<and> cmd_key_version c = None \<and> cmd_complete_bytes c = 0
          \<and> cmd_acknowledged_at c \<noteq> None \<and> cmd_expected_sequence c = None
          \<and> (case cmd_ack_body c of None \<Rightarrow> False | Some b \<Rightarrow> 1 \<le> length b \<and> length b \<le> 16384)
          \<and> (cmd_ack_status c = Some ''accepted'' \<and> cmd_ack_code c = None
             \<or> cmd_ack_status c = Some ''refused'' \<and> cmd_ack_code c \<in> Some ` set CONSUMING_REFUSALS)
      | Erased \<Rightarrow> cmd_encrypted_body c = None \<and> cmd_key_version c = None \<and> cmd_complete_bytes c = 0
          \<and> cmd_ack_status c = None \<and> cmd_ack_code c = None \<and> cmd_expected_sequence c = None
          \<and> cmd_ack_body c = None \<and> cmd_acknowledged_at c = None)"

definition row_contract :: "worker_command \<Rightarrow> bool" where
  "row_contract c \<longleftrightarrow> identity_contract c \<and> state_contract c"

definition table_checks :: "worker_command \<Rightarrow> bool" where
  "table_checks c \<longleftrightarrow> identity_check c \<and> state_contract c"

lemma row_contract_checks: "row_contract c \<Longrightarrow> table_checks c"
  by (cases "cmd_state c")
    (auto simp: row_contract_def table_checks_def identity_contract_def identity_check_def MAX_SEQUENCE_def
      split: option.splits)

section \<open>The invariant\<close>

definition rows_of :: "string \<times> uuid \<Rightarrow> fleet_db \<Rightarrow> worker_command list" where
  "rows_of k db = filter (\<lambda>c. cmd_conn c = k) (db_commands db)"

definition pending_bytes :: "worker_command list \<Rightarrow> int" where
  "pending_bytes rows = sum_list (map cmd_complete_bytes (filter (\<lambda>c. cmd_state c = Pending) rows))"

definition within_bounds :: "worker_command list \<Rightarrow> bool" where
  "within_bounds rows \<longleftrightarrow> length rows \<le> MAX_RETAINED_COMMANDS \<and> pending_bytes rows \<le> MAX_PENDING_BYTES"

text \<open>The rows of a connection are numbered from its floor, exclusive, to its next number, exclusive.\<close>

definition contiguous :: "fleet_db \<Rightarrow> worker_connection \<Rightarrow> bool" where
  "contiguous db w \<longleftrightarrow> 0 \<le> wc_acknowledged_floor w \<and> wc_acknowledged_floor w < wc_next_command_sequence w
     \<and> cmd_sequence ` set (rows_of (conn_key w) db) = {wc_acknowledged_floor w + 1 ..< wc_next_command_sequence w}"

definition journal_inv :: "fleet_db \<Rightarrow> bool" where
  "journal_inv db \<longleftrightarrow> conns.keyed db \<and> cmds.keyed db \<and> list_all (contiguous db) (db_connections db)
     \<and> list_all (\<lambda>c. row_contract c \<and> cmd_conn c \<in> conn_key ` set (db_connections db)) (db_commands db)
     \<and> (\<forall>k. within_bounds (rows_of k db))"

lemma journal_invD:
  assumes "journal_inv db"
  shows "conns.keyed db" "cmds.keyed db" "w \<in> set (db_connections db) \<Longrightarrow> contiguous db w"
    "c \<in> set (db_commands db) \<Longrightarrow> row_contract c"
    "c \<in> set (db_commands db) \<Longrightarrow> cmd_conn c \<in> conn_key ` set (db_connections db)"
    "within_bounds (rows_of k db)"
  using assms by (cases k; simp add: journal_inv_def list_all_iff)+

section \<open>Effects of the operations on the two tables\<close>

text \<open>
  The view of the connections the invariant depends on. An operation that keeps it and changes
  commands only row by row keeps the numbering.
\<close>

definition conn_view :: "fleet_db \<Rightarrow> ((string \<times> uuid) \<times> int \<times> int) list" where
  "conn_view db = map (\<lambda>w. (conn_key w, wc_acknowledged_floor w, wc_next_command_sequence w)) (db_connections db)"

lemma map_fst_conn_view: "map fst (conn_view db) = map conn_key (db_connections db)"
  by (simp add: conn_view_def)

lemma conn_view_keys: "conn_view db = conn_view db' \<Longrightarrow> map conn_key (db_connections db) = map conn_key (db_connections db')"
  by (simp flip: map_fst_conn_view)

lemma conn_view_upd [simp]:
  "(\<And>w. conn_key (f w) = conn_key w) \<Longrightarrow> (\<And>w. wc_acknowledged_floor (f w) = wc_acknowledged_floor w) \<Longrightarrow>
   (\<And>w. wc_next_command_sequence (f w) = wc_next_command_sequence w) \<Longrightarrow>
   conn_view (db_connections_update (upd_where P f) db) = conn_view db"
  unfolding conn_view_def by (simp add: map_upd_where)

lemma conn_view_cong: "db_connections db' = db_connections db \<Longrightarrow> conn_view db' = conn_view db"
  by (simp add: conn_view_def)

lemma conn_view_frames [simp]:
  "conn_view (db_commands_update f db) = conn_view db" "conn_view (db_sessions_update g db) = conn_view db"
  "conn_view (db_attempts_update h db) = conn_view db" "conn_view (db_jobs_update j db) = conn_view db"
  "conn_view (db_job_attempts_update k db) = conn_view db" "conn_view (db_ranges_update r db) = conn_view db"
  "conn_view (db_receipts_update q db) = conn_view db" "conn_view (db_leases_update l db) = conn_view db"
  by (simp_all add: conn_view_def)

lemma rows_of_cong: "db_commands db' = db_commands db \<Longrightarrow> rows_of k db' = rows_of k db"
  by (simp add: rows_of_def)

text \<open>A change of rows in place that keeps keys, contracts, and never grows the pending bytes.\<close>

definition tame :: "(worker_command \<Rightarrow> worker_command) \<Rightarrow> worker_command \<Rightarrow> bool" where
  "tame f c \<longleftrightarrow> cmd_key (f c) = cmd_key c \<and> row_contract (f c) \<and>
     (cmd_state (f c) = Pending \<longrightarrow> cmd_state c = Pending \<and> cmd_complete_bytes (f c) = cmd_complete_bytes c)"

lemma cmd_conn_of_key: "cmd_key a = cmd_key b \<Longrightarrow> cmd_conn a = cmd_conn b"
  by (simp add: cmd_key_def cmd_conn_def)

lemma pending_bytes_tame:
  assumes "\<And>c. c \<in> set rows \<Longrightarrow> P c \<Longrightarrow> tame f c" "\<And>c. c \<in> set rows \<Longrightarrow> row_contract c"
  shows "pending_bytes (upd_where P f rows) \<le> pending_bytes rows"
  using assms
proof (induction rows)
  case Nil
  then show ?case by simp
next
  case (Cons c rows)
  have "0 \<le> cmd_complete_bytes c" if "cmd_state c = Pending"
    using Cons.prems(2)[of c] that by (auto simp: row_contract_def state_contract_def)
  with Cons show ?case by (auto simp: pending_bytes_def tame_def)
qed

lemma filter_conn_upd:
  assumes "\<And>c. c \<in> set rows \<Longrightarrow> P c \<Longrightarrow> cmd_conn (f c) = cmd_conn c"
  shows "filter (\<lambda>c. cmd_conn c = k) (upd_where P f rows) = upd_where P f (filter (\<lambda>c. cmd_conn c = k) rows)"
  using assms by (induction rows) auto

lemma map_upd_where_on:
  assumes "\<And>r. r \<in> set rows \<Longrightarrow> P r \<Longrightarrow> k (f r) = k r"
  shows "map k (upd_where P f rows) = map k rows"
  using assms by (induction rows) auto

lemma image_upd_where:
  assumes "\<And>r. r \<in> set rows \<Longrightarrow> P r \<Longrightarrow> k (f r) = k r"
  shows "k ` set (upd_where P f rows) = k ` set rows"
  using map_upd_where_on[of rows P k f, OF assms] by (metis set_map)

lemma journal_inv_tame:
  assumes inv: "journal_inv db" and view: "conn_view db' = conn_view db"
    and cmds: "db_commands db' = upd_where P f (db_commands db)"
    and tame: "\<And>c. c \<in> set (db_commands db) \<Longrightarrow> P c \<Longrightarrow> tame f c"
  shows "journal_inv db'"
proof -
  have keys: "map conn_key (db_connections db') = map conn_key (db_connections db)"
    using conn_view_keys[OF view] by simp
  have conn: "cmd_conn (f c) = cmd_conn c" if "c \<in> set (db_commands db)" "P c" for c
    using tame[OF that] by (intro cmd_conn_of_key) (simp add: tame_def)
  have rows: "rows_of k db' = upd_where P f (rows_of k db)" for k
    unfolding rows_of_def cmds using conn by (rule filter_conn_upd)
  have seq: "cmd_sequence (f c) = cmd_sequence c" if "c \<in> set (db_commands db)" "P c" for c
    using tame[OF that] by (simp add: tame_def cmd_key_def)
  have seqs: "cmd_sequence ` set (rows_of k db') = cmd_sequence ` set (rows_of k db)" for k
    unfolding rows using seq by (intro image_upd_where) (auto simp: rows_of_def)
  have contiguous': "contiguous db' w" if w: "w \<in> set (db_connections db')" for w
  proof -
    have "(conn_key w, wc_acknowledged_floor w, wc_next_command_sequence w) \<in> set (conn_view db)"
      using w unfolding view[symmetric] by (auto simp: conn_view_def)
    then obtain v where v: "v \<in> set (db_connections db)" "conn_key v = conn_key w"
        "wc_acknowledged_floor v = wc_acknowledged_floor w" "wc_next_command_sequence v = wc_next_command_sequence w"
      by (auto simp: conn_view_def)
    have "contiguous db v" using v(1) by (rule journal_invD[OF inv])
    then show ?thesis by (simp add: contiguous_def seqs v)
  qed
  have contract: "row_contract c" if "c \<in> set (db_commands db)" for c
    using that by (rule journal_invD[OF inv])
  have bounds: "within_bounds (rows_of k db')" for k
  proof -
    have "pending_bytes (upd_where P f (rows_of k db)) \<le> pending_bytes (rows_of k db)"
      by (rule pending_bytes_tame) (auto simp: rows_of_def intro: tame contract)
    moreover have "within_bounds (rows_of k db)" by (rule journal_invD[OF inv])
    ultimately show ?thesis by (simp add: rows within_bounds_def)
  qed
  have "map cmd_key (db_commands db') = map cmd_key (db_commands db)"
    unfolding cmds using tame by (intro map_upd_where_on) (auto simp: tame_def)
  then have keyed: "cmds.keyed db'" using inv by (simp add: journal_inv_def cmds.keyed_def)
  have "set (map conn_key (db_connections db')) = set (map conn_key (db_connections db))" by (simp only: keys)
  then have "row_contract c \<and> cmd_conn c \<in> conn_key ` set (db_connections db')" if "c \<in> set (db_commands db')" for c
    using that inv conn tame by (auto simp: cmds set_upd_where journal_inv_def list_all_iff tame_def)
  with contiguous' bounds keyed keys inv show ?thesis
    by (simp add: journal_inv_def list_all_iff conns.keyed_def)
qed

lemma journal_inv_cong:
  assumes "journal_inv db" "conn_view db' = conn_view db" "db_commands db' = db_commands db"
  shows "journal_inv db'"
  by (rule journal_inv_tame[where P = "\<lambda>_. False" and f = id, OF assms(1,2)]) (simp_all add: assms)

section \<open>Erasure keeps the journal\<close>

lemma tame_erased: "row_contract c \<Longrightarrow> tame erased_command c"
  by (auto simp: tame_def row_contract_def identity_contract_def state_contract_def erased_command_def cmd_key_def
      split: option.splits command_state.splits)

lemma fence_conn_frame [simp]:
  "conn_view (fence_conn k t db) = conn_view db" "db_commands (fence_conn k t db) = db_commands db"
  by (simp_all add: fence_conn_def conn_key_def)

lemma fence_conns_frame [simp]:
  "conn_view (fence_conns clk ws db) = conn_view db" "db_commands (fence_conns clk ws db) = db_commands db"
proof -
  have "conn_view (fold (\<lambda>(i, k). fence_conn k (clk i)) xs d) = conn_view d \<and>
        db_commands (fold (\<lambda>(i, k). fence_conn k (clk i)) xs d) = db_commands d" for xs and d :: fleet_db
    by (induction xs arbitrary: d) auto
  then show "conn_view (fence_conns clk ws db) = conn_view db" "db_commands (fence_conns clk ws db) = db_commands db"
    by (simp_all add: fence_conns_def)
qed

lemma erase_pending_rows_shape:
  "erase_pending_rows clk sel db = (n, db') \<Longrightarrow>
     db' = db \<or> (\<exists>ws. db' = fence_conns clk ws
       (db_commands_update (upd_where (\<lambda>c. fst sel c \<and> cmd_state c = Pending) erased_command) db))"
  by (auto simp only: erase_pending_rows_def Let_def prod.inject split: if_splits)

lemma erase_pending_rows_inv [inv_intros]:
  assumes "journal_inv db" "erase_pending_rows clk sel db = (n, db')"
  shows "journal_inv db'"
  using erase_pending_rows_shape[OF assms(2)]
proof (elim disjE exE)
  assume "db' = db"
  then show ?thesis using assms(1) by simp
next
  fix ws
  assume "db' = fence_conns clk ws
    (db_commands_update (upd_where (\<lambda>c. fst sel c \<and> cmd_state c = Pending) erased_command) db)"
  then show ?thesis
    by (intro journal_inv_tame[where P = "\<lambda>c. fst sel c \<and> cmd_state c = Pending" and f = erased_command, OF assms(1)])
      (auto intro: tame_erased journal_invD(4)[OF assms(1)])
qed

lemma erase_subject_commands_inv [inv_intros]:
  "journal_inv db \<Longrightarrow> erase_subject_commands clk a k s n db = Inr (v, db') \<Longrightarrow> journal_inv db'"
  by (auto simp: erase_subject_commands_def bindR_Inr_iff intro: erase_pending_rows_inv)

lemma erase_account_commands_inv [inv_intros]:
  "journal_inv db \<Longrightarrow> erase_account_commands clk accounts db = (n, db') \<Longrightarrow> journal_inv db'"
  unfolding erase_account_commands_def by (rule erase_pending_rows_inv)

lemma erase_realtime_commands_inv [inv_intros]:
  "journal_inv db \<Longrightarrow> erase_realtime_commands clk a ids keep db = (n, db') \<Longrightarrow> journal_inv db'"
  by (auto simp: erase_realtime_commands_def split: option.splits intro: erase_pending_rows_inv)

lemma erase_reported_inv [inv_intros]:
  assumes "journal_inv db"
    "erase_reported_subject_command a k s n w i r att rs rh db = Inr (v, db')"
  shows "journal_inv db'"
proof -
  obtain rows where rows: "lock_reported_command a k s n w i r att rs rh db = Inr rows"
    using assms(2) by (auto simp: erase_reported_subject_command_def bindR_Inr_iff)
  have "db' = db \<or> (\<exists>q. db' = db_commands_update (upd_where
     (\<lambda>c. cmd_key c = (w, i, q) \<and> cmd_state c = Pending) erased_command) db)"
    using assms(2) unfolding erase_reported_subject_command_def rows
    by (cases rows; cases "tl rows") (auto split: option.splits)
  then show ?thesis
  proof (elim disjE exE)
    assume "db' = db"
    then show ?thesis using assms(1) by simp
  next
    fix q
    assume "db' = db_commands_update (upd_where
      (\<lambda>c. cmd_key c = (w, i, q) \<and> cmd_state c = Pending) erased_command) db"
    then show ?thesis
      by (intro journal_inv_tame[where P = "\<lambda>c. cmd_key c = (w, i, q) \<and> cmd_state c = Pending"
            and f = erased_command, OF assms(1)])
        (auto intro: tame_erased journal_invD(4)[OF assms(1)])
  qed
qed

section \<open>Operations of the authority keep the journal\<close>

lemma set_conn_frame:
  assumes "\<And>w. conn_key (f w) = conn_key w" "\<And>w. wc_acknowledged_floor (f w) = wc_acknowledged_floor w"
    "\<And>w. wc_next_command_sequence (f w) = wc_next_command_sequence w"
  shows "conn_view (set_conn k f db) = conn_view db" "db_commands (set_conn k f db) = db_commands db"
  using assms by (simp_all add: set_conn_def)

lemma lease_frames [simp]:
  "conn_view (refresh_conn_leases l db) = conn_view db" "db_commands (refresh_conn_leases l db) = db_commands db"
  "conn_view (put_lease l db) = conn_view db" "db_commands (put_lease l db) = db_commands db"
  by (simp_all add: refresh_conn_leases_def put_lease_def conn_key_def)

lemma acquire_inv [inv_intros]:
  "journal_inv db \<Longrightarrow> acquire_scheduler_lease env clk fresh region db = Inr (l, db') \<Longrightarrow> journal_inv db'"
  by (auto simp: acquire_scheduler_lease_def Let_def split: option.splits if_splits elim!: journal_inv_cong)

lemma renew_inv [inv_intros]:
  "journal_inv db \<Longrightarrow> renew_scheduler_lease env clk held db = Inr (l, db') \<Longrightarrow> journal_inv db'"
  by (auto simp: renew_scheduler_lease_def Let_def split: option.splits if_splits elim!: journal_inv_cong)

lemma activate_inv [inv_intros]:
  "journal_inv db \<Longrightarrow> activate_initial_worker env now w i db = (b, db') \<Longrightarrow> journal_inv db'"
  by (auto simp: activate_initial_worker_def set_conn_frame conn_key_def
      split: option.splits if_splits elim!: journal_inv_cong)

lemma touch_inv [inv_intros]:
  "journal_inv db \<Longrightarrow> touch_worker env clk w i p db = Inr (u, db') \<Longrightarrow> journal_inv db'"
  by (auto simp: touch_worker_def set_conn_frame conn_key_def split: option.splits elim!: journal_inv_cong)

lemma grant_inv [inv_intros]:
  assumes "journal_inv db" "renew_worker_grant env clk w i n db = (r, db')"
  shows "journal_inv db'"
proof -
  obtain b db1 where act: "activate_initial_worker env (clk 1) w i db = (b, db1)" by (meson surj_pair)
  have "journal_inv db1" using assms(1) act by (rule activate_inv)
  with assms(2) act show ?thesis
    by (auto simp: renew_worker_grant_def Let_def set_conn_frame conn_key_def granted_conn_def
        split: option.splits elim!: journal_inv_cong)
qed

lemma activate_snd_inv: "journal_inv db \<Longrightarrow> journal_inv (snd (activate_initial_worker env now w i db))"
  by (meson activate_inv surjective_pairing)

lemma update_models_inv [inv_intros]:
  assumes "journal_inv db" "update_worker_models env clk w i ms db = Inr (u, db')"
  shows "journal_inv db'"
proof -
  have "\<exists>f. db' = snd (activate_initial_worker env (clk 2) w i (set_conn (w, i) f db))
      \<and> conn_view (set_conn (w, i) f db) = conn_view db"
    using assms(2) unfolding update_worker_models_def Let_def
    by (auto split: option.splits prod.splits intro!: exI conjI set_conn_frame simp: conn_key_def)
  then obtain f where f: "db' = snd (activate_initial_worker env (clk 2) w i (set_conn (w, i) f db))"
      "conn_view (set_conn (w, i) f db) = conn_view db" by blast
  have "journal_inv (set_conn (w, i) f db)"
    by (rule journal_inv_cong[OF assms(1) f(2)]) (simp add: set_conn_def)
  then show ?thesis unfolding f(1) by (rule activate_snd_inv)
qed

lemma erase_attempts_inv [inv_intros]:
  "journal_inv db \<Longrightarrow> erase_attempts clk sas db = Inr db' \<Longrightarrow> journal_inv db'"
proof (induction clk sas db rule: erase_attempts.induct)
  case (2 clk s a rest db)
  then show ?case
    by (auto simp: bindR_Inr_iff split: option.splits intro: erase_subject_commands_inv)
qed simp

lemma fold_session_frames:
  "conn_view (fold (end_ending_session t) xs db) = conn_view db \<and>
   db_commands (fold (end_ending_session t) xs db) = db_commands db"
  by (induction xs arbitrary: db) (auto simp: end_ending_session_def)

lemma close_worker_inv [inv_intros]:
  assumes "journal_inv db" "close_worker env clk w i db = Inr (u, db')"
  shows "journal_inv db'"
proof -
  obtain db1 where db1: "erase_attempts clk (conn_attempts w i db) db = Inr db1"
    using assms(2) by (auto simp: close_worker_def Let_def bindR_Inr_iff)
  have "journal_inv db1" using assms(1) db1 by (rule erase_attempts_inv)
  with assms(2) db1 show ?thesis
    by (auto simp: close_worker_def Let_def fold_session_frames conn_key_def elim!: journal_inv_cong)
qed

lemma end_session_inv [inv_intros]:
  assumes "journal_inv db" "end_realtime_session clk s g b db = Inr (r, db')"
  shows "journal_inv db'"
proof -
  have "db' = db \<or> (\<exists>u v db1. erase_subject_commands clk u ''session'' s (Some g) db = Inr (v, db1)
      \<and> conn_view db' = conn_view db1 \<and> db_commands db' = db_commands db1)"
    using assms(2)
    by (fastforce simp: end_realtime_session_def Let_def bindR_Inr_iff end_attempt_where_def
        split: option.splits if_splits)
  then show ?thesis using assms(1) by (auto intro: journal_inv_cong erase_subject_commands_inv)
qed

lemma abandon_inv [inv_intros]:
  assumes "journal_inv db" "abandon_realtime_attempt clk s g a db = Inr (r, db')"
  shows "journal_inv db'"
proof -
  have "db' = db \<or> (\<exists>u v db1. erase_subject_commands clk u ''session'' s (Some g) db = Inr (v, db1)
      \<and> conn_view db' = conn_view db1 \<and> db_commands db' = db_commands db1)"
    using assms(2)
    by (fastforce simp: abandon_realtime_attempt_def bindR_Inr_iff end_attempt_where_def
        split: option.splits if_splits)
  then show ?thesis using assms(1) by (auto intro: journal_inv_cong erase_subject_commands_inv)
qed

lemma session_ready_inv [inv_intros]:
  assumes "journal_inv db" "accept_session_ready env clk w i m db = Inr (r, db')"
  shows "journal_inv db'"
proof -
  have "conn_view db' = conn_view db \<and> db_commands db' = db_commands db"
    using assms(2) unfolding accept_session_ready_def
    by (auto elim!: bindR_InrE split: option.splits if_splits)
  then show ?thesis using assms(1) by (auto intro: journal_inv_cong)
qed

lemma record_frames [simp]:
  "conn_view (record_range f m db) = conn_view db" "db_commands (record_range f m db) = db_commands db"
  "conn_view (record_session_attempt t f m db) = conn_view db"
  "db_commands (record_session_attempt t f m db) = db_commands db"
  "conn_view (record_job_attempt t rep f c m db) = conn_view db"
  "db_commands (record_job_attempt t rep f c m db) = db_commands db"
  "conn_view (end_reported_session t f db) = conn_view db"
  "db_commands (end_reported_session t f db) = db_commands db"
  "conn_view (evict_receipts r db) = conn_view db" "db_commands (evict_receipts r db) = db_commands db"
  by (simp_all add: record_range_def record_session_attempt_def record_job_attempt_def end_reported_session_def
      evict_receipts_def split: list.split)

lemma insert_receipt_frame:
  "insert_receipt r db = Inr db' \<Longrightarrow> conn_view db' = conn_view db \<and> db_commands db' = db_commands db"
  by (auto simp: insert_receipt_def split: if_splits)

lemma erase_after_report_inv [inv_intros]:
  "journal_inv db \<Longrightarrow> erase_after_report clk u w i f db = Inr db' \<Longrightarrow> journal_inv db'"
  by (auto simp: erase_after_report_def bindR_Inr_iff split: if_splits
      intro: erase_subject_commands_inv erase_reported_inv)

lemma record_report_inv [inv_intros]:
  assumes "journal_inv db" "record_report P clk u w i rep f cur ack p db = Inr (body, db')"
  shows "journal_inv db'"
proof -
  let ?m = "report_maxima f p"
  let ?db2 = "if rf_is_session f then record_session_attempt (clk 2) f ?m (record_range f ?m db)
              else record_job_attempt (clk 2) rep f cur ?m (record_range f ?m db)"
  obtain b db4 where db4: "insert_receipt (report_receipt_row (clk 0) f ?m b) (end_reported_session (clk 3) f ?db2) = Inr db4"
      "erase_after_report clk u w i f (evict_receipts (rf_range_id f) db4) = Inr db'"
    using assms(2) by (auto simp: record_report_def Let_def bindR_Inr_iff)
  have "journal_inv (evict_receipts (rf_range_id f) db4)"
    using insert_receipt_frame[OF db4(1)] by (intro journal_inv_cong[OF assms(1)]) auto
  then show ?thesis using db4(2) by (rule erase_after_report_inv)
qed

text \<open>
  How \<open>commit_worker_report\<close> returns: the stored acknowledgement of a known report, a refusal of a
  report at or below the floor, or a recorded report.
\<close>

lemma commit_worker_report_returns:
  assumes "commit_worker_report P env clk w i rep db = Inr (body, db')"
  obtains f ack user entity p region where
    "parse_report rep = Inr f"
    "report_ack rep (rf_subject_id f) i (rf_range_id f) (rf_attempt_id f)
       (opt_json (rf_generation f)) (opt_json (rf_dispatch f)) = Inr ack"
    "report_user f db = Some user" "field rep ''region'' = Inr region"
    "range_of (rf_range_id f) db = Some p" "pr_worker_id p = w" "pr_incarnation p = i" "range_matches_report f p"
    "report_authority env (clk 1) w i region db = Inr ()"
    "case receipt_of (rf_range_id f) (rf_sequence f) db of
       Some receipt \<Rightarrow> rc_report_hash receipt = rf_hash f \<and> body = rc_ack_body receipt \<and> db' = db
     | None \<Rightarrow> if rf_sequence f \<le> pr_report_floor p
         then lift_py (preflight_worker_control P (stale_ack ack f p) None None) = Inr body \<and> db' = db
         else record_report P clk user w i rep f (report_is_current f entity) ack p db = Inr (body, db')"
proof -
  from assms show ?thesis
    unfolding commit_worker_report_def inr_iffs raise_if_Inr
    by (elim exE conjE) (rule that; auto simp: inr_iffs split: option.splits if_splits)
qed

lemma commit_worker_report_inv [inv_intros]:
  assumes "journal_inv db" "commit_worker_report P env clk w i rep db = Inr (body, db')"
  shows "journal_inv db'"
  using assms(2) by (rule commit_worker_report_returns)
    (use assms(1) in \<open>auto split: option.splits if_splits intro: record_report_inv\<close>)

section \<open>Registration\<close>

lemma journal_inv_new_conn:
  assumes inv: "journal_inv db" and fresh: "conn_key w \<notin> conn_key ` set (db_connections db)"
    and start: "wc_acknowledged_floor w = 0" "wc_next_command_sequence w = 1"
  shows "journal_inv (db_connections_update (\<lambda>rows. rows @ [w]) db)" (is "journal_inv ?db")
proof -
  have rows: "rows_of k ?db = rows_of k db" for k by (simp add: rows_of_def)
  have "rows_of (conn_key w) db = []"
    using fresh journal_invD(5)[OF inv] unfolding rows_of_def filter_empty_conv by metis
  then have "contiguous ?db w" by (simp add: contiguous_def rows start)
  moreover have "contiguous ?db v" if "v \<in> set (db_connections db)" for v
    using journal_invD(3)[OF inv that] by (simp add: contiguous_def rows)
  ultimately show ?thesis
    using inv fresh by (auto simp: journal_inv_def list_all_iff conns.keyed_def cmds.keyed_def rows)
qed

lemma register_worker_inv [inv_intros]:
  assumes "journal_inv db" "register_worker env clk h db = Inr (l, db')"
  shows "journal_inv db'"
proof -
  let ?close = "\<lambda>w. w\<lparr>wc_lifecycle := Ended, wc_closed_at := Some (clk 2)\<rparr>"
  let ?db1 = "db_connections_update (upd_where (abandoned_conn env l (hf_worker_id h)) ?close) db"
  have unused: "\<forall>w \<in> set (db_connections db). wc_incarnation w \<noteq> hf_incarnation h"
    and db': "db' = db_connections_update (\<lambda>rows. rows @ [new_connection env clk l h]) ?db1"
    using assms(2) by (auto simp: register_worker_def Let_def split: option.splits)
  have view: "conn_view ?db1 = conn_view db" by (simp add: conn_key_def)
  have "journal_inv ?db1" using assms(1) view by (rule journal_inv_cong) simp
  moreover have "conn_key (new_connection env clk l h) \<notin> conn_key ` set (db_connections ?db1)"
  proof -
    have "set (map conn_key (db_connections ?db1)) = set (map conn_key (db_connections db))"
      by (simp only: conn_view_keys[OF view])
    then show ?thesis
      using unused by (auto simp: conn_key_def new_connection_def Let_def split: prod.splits)
  qed
  ultimately show ?thesis
    unfolding db' by (rule journal_inv_new_conn) (simp_all add: new_connection_def split: prod.splits)
qed

section \<open>Claims leave the journal alone\<close>

lemma prepare_frame:
  assumes "prepare_command_subject P env clk k fs a cx jc w i owner db = Inr (prep, db')"
  shows "db_connections db' = db_connections db" "db_commands db' = db_commands db"
proof -
  have "db_connections db' = db_connections db \<and> db_commands db' = db_commands db"
    using assms unfolding prepare_command_subject_def prepare_open_session_def prepare_update_session_def
      prepare_close_session_def prepare_dispatch_job_def prepare_cancel_job_def Let_def
    by (auto elim!: bindR_InrE split: if_split_asm option.split_asm json.split_asm)
  then show "db_connections db' = db_connections db" "db_commands db' = db_commands db" by auto
qed

lemma apply_claim_frame:
  assumes "apply_command_claim P clk c w i a cid worker db = Inr db'"
  shows "db_connections db' = db_connections db" "db_commands db' = db_commands db"
proof -
  have "db_connections db' = db_connections db \<and> db_commands db' = db_commands db"
    using assms unfolding apply_command_claim_def apply_session_claim_def apply_job_claim_def Let_def
      insert_or_reopen_session_def insert_attempt_def insert_range_def insert_job_attempt_def
    by (auto elim!: bindR_InrE split: if_split_asm option.split_asm claim.split_asm)
  then show "db_connections db' = db_connections db" "db_commands db' = db_commands db" by auto
qed

section \<open>The floor\<close>

lemma advance_floor_spec:
  "flr < next \<Longrightarrow> flr \<le> advance_floor settled next flr \<and> advance_floor settled next flr < next \<and>
     (\<forall>n. flr < n \<and> n \<le> advance_floor settled next flr \<longrightarrow> settled n)"
proof (induction settled "next" flr rule: advance_floor.induct)
  case (1 settled "next" flr)
  show ?case
  proof (cases "flr + 1 < next \<and> settled (flr + 1)")
    case True
    with 1 have IH: "flr + 1 \<le> advance_floor settled next (flr + 1)" "advance_floor settled next (flr + 1) < next"
      "\<forall>n. flr + 1 < n \<and> n \<le> advance_floor settled next (flr + 1) \<longrightarrow> settled n"
      by auto
    have "settled n" if "flr < n" "n \<le> advance_floor settled next (flr + 1)" for n
      using IH(3) True that by (cases "n = flr + 1") auto
    moreover have "advance_floor settled next flr = advance_floor settled next (flr + 1)"
      using True by (subst advance_floor.simps) simp
    ultimately show ?thesis using IH by auto
  next
    case False
    then have "advance_floor settled next flr = flr" by (subst advance_floor.simps) auto
    with 1 show ?thesis by auto
  qed
qed

lemma advance_floor_maximal:
  "advance_floor settled next flr + 1 < next \<Longrightarrow> \<not> settled (advance_floor settled next flr + 1)"
proof (induction settled "next" flr rule: advance_floor.induct)
  case (1 settled "next" flr)
  then show ?case by (metis advance_floor.simps)
qed

text \<open>Moving the floor over rows that are all acknowledged keeps the invariant.\<close>

lemma settle_floor_inv:
  assumes inv: "journal_inv db" and w: "w \<in> set (db_connections db)" "conn_key w = k"
    and flr: "wc_acknowledged_floor w \<le> flr" "flr < wc_next_command_sequence w"
    and acked: "\<And>c. c \<in> set (rows_of k db) \<Longrightarrow> cmd_sequence c \<le> flr \<Longrightarrow> cmd_state c = Acknowledged"
  shows "journal_inv (settle_floor (fst k) (snd k) (wc_acknowledged_floor w) flr db)"
proof (cases "flr > wc_acknowledged_floor w")
  case False
  then show ?thesis using inv by (simp add: settle_floor_def)
next
  case True
  let ?del = "\<lambda>c. cmd_conn c = k \<and> cmd_sequence c \<le> flr \<and> cmd_state c = Acknowledged"
  let ?up = "\<lambda>w. w\<lparr>wc_acknowledged_floor := flr\<rparr>"
  let ?db = "settle_floor (fst k) (snd k) (wc_acknowledged_floor w) flr db"
  have db: "db_commands ?db = del_where ?del (db_commands db)"
    "db_connections ?db = upd_where (\<lambda>w. conn_key w = k) ?up (db_connections db)"
    using True by (simp_all add: settle_floor_def)
  have keyed: "conns.keyed ?db" "cmds.keyed ?db"
    using journal_invD(1,2)[OF inv]
    by (simp_all add: conns.keyed_def cmds.keyed_def db map_upd_where conn_key_def distinct_map_filter_del)
  have keys: "conn_key ` set (db_connections ?db) = conn_key ` set (db_connections db)"
    unfolding db(2) by (rule image_upd_where) (simp add: conn_key_def)
  have rows: "rows_of j ?db = del_where ?del (rows_of j db)" for j
    unfolding rows_of_def db del_where_def filter_filter by (rule filter_cong) auto
  have cont: "contiguous ?db v" if v: "v \<in> set (db_connections ?db)" for v
  proof -
    obtain u where u: "u \<in> set (db_connections db)" "v = (if conn_key u = k then ?up u else u)"
      using v unfolding db set_upd_where by blast
    have cu: "contiguous db u" using u(1) by (rule journal_invD(3)[OF inv])
    show ?thesis
    proof (cases "conn_key u = k")
      case True
      then have "u = w" using u(1) w journal_invD(1)[OF inv]
        by (auto simp: conns.keyed_def intro: distinct_key_unique)
      have "set (rows_of k ?db) = {c \<in> set (rows_of k db). flr < cmd_sequence c}"
        unfolding rows set_del_where using acked by (auto simp: rows_of_def) (metis linorder_not_le)
      then have "cmd_sequence ` set (rows_of k ?db) = {n \<in> cmd_sequence ` set (rows_of k db). flr < n}"
        by (simp only:) blast
      then show ?thesis
        using cu u(2) True \<open>u = w\<close> flr w(2) by (auto simp: contiguous_def conn_key_def)
    next
      case False
      then have "rows_of (conn_key u) ?db = rows_of (conn_key u) db"
        unfolding rows del_where_def by (intro filter_True) (auto simp: rows_of_def)
      with cu u(2) False show ?thesis by (simp add: contiguous_def)
    qed
  qed
  have pending: "filter (\<lambda>c. cmd_state c = Pending) (del_where ?del xs) = filter (\<lambda>c. cmd_state c = Pending) xs" for xs
    by (induction xs) (auto simp: del_where_def)
  have shorter: "length (del_where ?del xs) \<le> length xs" for xs by (simp add: del_where_def)
  have bounds: "within_bounds (rows_of j ?db)" for j
    using journal_invD(6)[OF inv, of j] shorter[of "rows_of j db"]
    by (simp add: within_bounds_def rows pending_bytes_def pending)
  show ?thesis
    using keyed cont bounds keys journal_invD(4,5)[OF inv]
    by (auto simp: journal_inv_def list_all_iff db del_where_def)
qed

section \<open>Acknowledgement\<close>

lemma distinct_conn_sequences:
  "distinct (map cmd_key rows) \<Longrightarrow> distinct (map cmd_sequence (filter (\<lambda>c. cmd_conn c = k) rows))"
  by (induction rows) (auto simp: cmd_key_def cmd_conn_def image_iff)

lemma row_at_sequence_conn:
  assumes "cmds.keyed db"
  shows "row_at_sequence n (conn_commands w i db) = Some c \<longleftrightarrow>
     c \<in> set (db_commands db) \<and> cmd_key c = (w, i, n)"
proof -
  have "distinct (map cmd_sequence (filter (\<lambda>c. cmd_conn c = (w, i)) (db_commands db)))"
    using assms unfolding cmds.keyed_def by (rule distinct_conn_sequences)
  then have "distinct (map cmd_sequence (conn_commands w i db))"
    by (simp add: conn_commands_def distinct_map)
  then have "row_at_sequence n (conn_commands w i db) = Some c \<longleftrightarrow>
      c \<in> set (conn_commands w i db) \<and> cmd_sequence c = n"
    unfolding row_at_sequence_def by (auto dest: find_SomeD intro: find_Some_if_distinct)
  then show ?thesis by (auto simp: conn_commands_def cmd_key_def cmd_conn_def)
qed

text \<open>The facts about an accepted acknowledgement the journal relies on.\<close>

definition settled_ack :: "dict \<Rightarrow> string \<Rightarrow> bool" where
  "settled_ack ack body \<longleftrightarrow> 1 \<le> length body \<and> length body \<le> 16384 \<and>
     (dget ack ''status'' = Some (JStr ''accepted'') \<and> dget ack ''code'' = None
      \<or> dget ack ''status'' = Some (JStr ''refused'') \<and> (\<exists>c \<in> set CONSUMING_REFUSALS. dget ack ''code'' = Some (JStr c)))"

lemma canonical_object_nonempty: "canonical_bytes fr (JObj d) = Inr body \<Longrightarrow> 1 \<le> length body"
  by (auto simp: canonical_bytes_def bindR_Inr_iff split: if_splits)

lemma validate_children_field:
  "validate_children d = Inr () \<Longrightarrow> (k, v) \<in> set d \<Longrightarrow> validate_field k v = Inr ()"
proof (induction d)
  case (Cons p d)
  then show ?case by (cases "snd p"; cases p) (auto simp: bindR_Inr_iff)
qed simp

lemma validate_types_field:
  assumes "validate_types (JObj d) [] = Inr ()" "dget d k = Some v"
  shows "validate_field k v = Inr ()"
  using assms by (auto simp: bindR_Inr_iff NESTED_KEYS_def dget_def intro: validate_children_field dest: map_of_SomeD)

lemma validate_field_string:
  "validate_field k v = Inr () \<Longrightarrow> k \<in> set STRING_FIELDS \<Longrightarrow> \<exists>s. v = JStr s"
  by (cases v) (auto simp: validate_field_def all_ok_iff)

lemma accept_ack_settled:
  assumes "accept_ack P message w i = Inr (ack, body)" "consuming ack"
  shows "settled_ack ack body" "message = JObj ack"
proof -
  have ok: "message = JObj ack" "validate_message P (JObj ack) (Some w) (Some i) = Inr ()"
      "dget ack ''type'' = Some (JStr ''command_ack'')" "canonical_bytes (p_float_repr P) (JObj ack) = Inr body"
      "length body \<le> 16384"
    using assms(1) by (auto simp: accept_ack_def split: sum.splits json.splits)
  have stage: "validate_command_ack ''command_ack'' ack = Inr ()" "validate_types (JObj ack) [] = Inr ()"
    by (rule validate_message_stages[OF ok(2)], use ok(3) in simp)+
  have code: "\<exists>s. v = JStr s" if "dget ack ''code'' = Some v" for v
    using validate_field_string[OF validate_types_field[OF stage(2) that]] by (simp add: STRING_FIELDS_def)
  from stage(1) assms(2) code have
    "dget ack ''status'' = Some (JStr ''accepted'') \<and> dget ack ''code'' = None
      \<or> dget ack ''status'' = Some (JStr ''refused'') \<and> (\<exists>c \<in> set CONSUMING_REFUSALS. dget ack ''code'' = Some (JStr c))"
    by (auto simp: validate_command_ack_def Let_def bindR_Inr_iff all_ok_iff consuming_def opt_json_def
        split: option.splits json.splits elim!: in_string_set.elims)
  then show "settled_ack ack body" "message = JObj ack"
    using ok canonical_object_nonempty[OF ok(4)] by (auto simp: settled_ack_def)
qed

lemma tame_acknowledged:
  assumes "settled_ack ack body" "row_contract c" "cmd_ack_identity_hash c \<noteq> None"
  shows "tame (acknowledged_command t ack body) c" "cmd_state (acknowledged_command t ack body c) = Acknowledged"
  using assms
  by (auto simp: tame_def settled_ack_def row_contract_def identity_contract_def state_contract_def
      acknowledged_command_def cmd_key_def)

lemma tame_acknowledged_erased:
  assumes "settled_ack ack body" "row_contract c" "cmd_ack_identity_hash c \<noteq> None" "cmd_state c = Erased"
  shows "tame (acknowledged_erased t ack body) c" "cmd_state (acknowledged_erased t ack body c) = Acknowledged"
  using assms
  by (auto simp: tame_def settled_ack_def row_contract_def identity_contract_def state_contract_def
      acknowledged_erased_def cmd_key_def)

lemma end_conn_frame [simp]:
  "conn_view (end_conn k t db) = conn_view db" "db_commands (end_conn k t db) = db_commands db"
  by (simp_all add: end_conn_def conn_key_def)

lemma tame_id: "row_contract c \<Longrightarrow> tame id c"
  by (simp add: tame_def)

lemma upd_where_id [simp]: "upd_where P id rows = rows"
  by (induction rows) auto

text \<open>Whatever the state of the row was, after its branch it is acknowledged, and only it changed.\<close>

lemma ack_row_effect:
  assumes "ack_row P env clk w i owner ack body row subject db = Inr (Some (publication, db1))"
    and row: "row_contract row" "cmd_ack_identity_hash row \<noteq> None" "settled_ack ack body"
  obtains f where "conn_view db1 = conn_view db"
    "db_commands db1 = upd_where (\<lambda>c. cmd_key c = (w, i, cmd_sequence row)) f (db_commands db)"
    "tame f row" "cmd_state (f row) = Acknowledged"
proof (cases "cmd_state row")
  case Acknowledged
  with assms(1) have "db1 = db" by (auto simp: ack_row_def split: if_splits)
  with Acknowledged row show ?thesis by (intro that[of id]) (simp_all add: tame_id)
next
  case Erased
  with assms(1) have "db1 = update_command_row w i (cmd_sequence row) (acknowledged_erased (clk 3) ack body) db"
    by (simp add: ack_row_def)
  with Erased row tame_acknowledged_erased[of ack body row] show ?thesis
    by (intro that[of "acknowledged_erased (clk 3) ack body"]) (simp_all add: update_command_row_def)
next
  case Pending
  let ?f = "acknowledged_command (clk 3) ack body"
  have "conn_view db1 = conn_view db \<and>
      db_commands db1 = upd_where (\<lambda>c. cmd_key c = (w, i, cmd_sequence row)) ?f (db_commands db)"
    using assms(1) Pending
    by (auto simp: ack_row_def ack_pending_row_def update_command_row_def apply_update_def Let_def
        elim!: bindR_InrE split: option.splits if_splits prod.splits)
  with row tame_acknowledged[of ack body row] show ?thesis by (intro that[of ?f]) auto
qed

lemma conn_view_same_conn:
  assumes "conn_view db1 = conn_view db" "w \<in> set (db_connections db)"
  obtains w' where "w' \<in> set (db_connections db1)" "conn_key w' = conn_key w"
    "wc_acknowledged_floor w' = wc_acknowledged_floor w" "wc_next_command_sequence w' = wc_next_command_sequence w"
proof -
  have "(conn_key w, wc_acknowledged_floor w, wc_next_command_sequence w) \<in> set (conn_view db1)"
    using assms by (auto simp: conn_view_def)
  then show ?thesis using that by (auto simp: conn_view_def)
qed

lemma conn_of_key: "conn_of w i db = Some c \<Longrightarrow> c \<in> set (db_connections db) \<and> conn_key c = (w, i)"
  unfolding conn_of_def by (auto dest: find_SomeD)

text \<open>After a change of rows in place, every row the floor may pass is acknowledged.\<close>

lemma floor_rows_acknowledged:
  assumes inv: "journal_inv db" and w: "conn_of wid inc db = Some w"
    and cmds: "db_commands db1 = upd_where P f (db_commands db)"
    and keys: "\<And>c. c \<in> set (db_commands db) \<Longrightarrow> P c \<Longrightarrow> cmd_key (f c) = cmd_key c"
    and settled: "\<And>n c. settled n \<Longrightarrow> c \<in> set (db_commands db) \<Longrightarrow> cmd_key c = (wid, inc, n) \<Longrightarrow>
       cmd_state (if P c then f c else c) = Acknowledged"
    and flr: "flr = advance_floor settled (wc_next_command_sequence w) (wc_acknowledged_floor w)"
  shows "wc_acknowledged_floor w \<le> flr" "flr < wc_next_command_sequence w"
    "c \<in> set (rows_of (wid, inc) db1) \<Longrightarrow> cmd_sequence c \<le> flr \<Longrightarrow> cmd_state c = Acknowledged"
proof -
  have wk: "w \<in> set (db_connections db)" "conn_key w = (wid, inc)" using conn_of_key[OF w] by auto
  have cont: "contiguous db w" using wk(1) by (rule journal_invD(3)[OF inv])
  then have flr: "wc_acknowledged_floor w \<le> flr" "flr < wc_next_command_sequence w"
      "\<And>n. wc_acknowledged_floor w < n \<Longrightarrow> n \<le> flr \<Longrightarrow> settled n"
    using advance_floor_spec[of "wc_acknowledged_floor w" "wc_next_command_sequence w" settled]
    by (auto simp: contiguous_def flr)
  then show "wc_acknowledged_floor w \<le> flr" "flr < wc_next_command_sequence w" by auto
  assume c: "c \<in> set (rows_of (wid, inc) db1)" "cmd_sequence c \<le> flr"
  obtain b where b: "b \<in> set (db_commands db)" "c = (if P b then f b else b)"
    using c(1) unfolding rows_of_def cmds set_filter set_upd_where by blast
  have key: "cmd_key c = cmd_key b" using b keys by auto
  then have bk: "cmd_key b = (wid, inc, cmd_sequence c)"
    using c(1) by (auto simp: rows_of_def cmd_key_def cmd_conn_def)
  then have "cmd_sequence c \<in> cmd_sequence ` set (rows_of (conn_key w) db)"
    using b(1) wk(2) by (auto simp: rows_of_def cmd_key_def cmd_conn_def image_iff intro!: bexI[of _ b])
  with cont have "wc_acknowledged_floor w < cmd_sequence c" by (auto simp: contiguous_def)
  then have "settled (cmd_sequence c)" using flr(3) c(2) by blast
  from settled[OF this b(1) bk] b(2) show "cmd_state c = Acknowledged" by simp
qed

text \<open>Settling the floor after such a change keeps the invariant.\<close>

lemma settle_after_update_inv:
  assumes inv: "journal_inv db" "journal_inv db1" and view: "conn_view db1 = conn_view db"
    and w: "conn_of wid inc db = Some w"
    and cmds: "db_commands db1 = upd_where P f (db_commands db)"
    and keys: "\<And>c. c \<in> set (db_commands db) \<Longrightarrow> P c \<Longrightarrow> cmd_key (f c) = cmd_key c"
    and settled: "\<And>n c. settled n \<Longrightarrow> c \<in> set (db_commands db) \<Longrightarrow> cmd_key c = (wid, inc, n) \<Longrightarrow>
       cmd_state (if P c then f c else c) = Acknowledged"
  shows "journal_inv (settle_floor wid inc (wc_acknowledged_floor w)
    (advance_floor settled (wc_next_command_sequence w) (wc_acknowledged_floor w)) db1)"
proof -
  let ?flr = "advance_floor settled (wc_next_command_sequence w) (wc_acknowledged_floor w)"
  have wk: "w \<in> set (db_connections db)" "conn_key w = (wid, inc)" using conn_of_key[OF w] by auto
  obtain w' where w': "w' \<in> set (db_connections db1)" "conn_key w' = (wid, inc)"
      "wc_acknowledged_floor w' = wc_acknowledged_floor w" "wc_next_command_sequence w' = wc_next_command_sequence w"
    using conn_view_same_conn[OF view wk(1)] wk(2) by metis
  note flr = floor_rows_acknowledged[OF inv(1) w cmds keys settled refl]
  have "journal_inv (settle_floor (fst (wid, inc)) (snd (wid, inc)) (wc_acknowledged_floor w') ?flr db1)"
    by (rule settle_floor_inv[OF inv(2) w'(1,2)]) (use flr w' in auto)
  then show ?thesis by (simp add: w')
qed

lemma known_acknowledged_state: "known_acknowledged P row \<Longrightarrow> cmd_state row = Acknowledged"
  by (simp add: known_acknowledged_def)

text \<open>How \<open>acknowledge\<close> returns: unrecorded with the database as it was, or recorded.\<close>

lemma acknowledge_returns:
  assumes "acknowledge P env clk message wid inc owner hdb db = Inr (res, db')"
  obtains (unrecorded) "\<not> ar_recorded res" "db' = db"
  | (recorded) ack body row w subject publication db1 where
      "accept_ack (fp_p6 P) message wid inc = Inr (ack, body)" "consuming ack"
      "res = \<lparr>ar_recorded = True, ar_obsolete = False, ar_publication = publication\<rparr>"
      "conn_of wid inc db = Some w" "wc_transport_owner_id w = owner"
      "row_at_sequence (the_int (dget ack ''command_sequence'')) (conn_commands wid inc db) = Some row"
      "ack_names_row (fp_p6 P) ack (command_of wid inc (the_int (dget ack ''command_sequence'')) hdb) row"
      "ack_row P env clk wid inc owner ack body row subject db = Inr (Some (publication, db1))"
      "db' = settle_floor wid inc (wc_acknowledged_floor w)
         (advance_floor (ack_settled P ack (the_int (dget ack ''command_sequence'')) (conn_commands wid inc db))
            (wc_next_command_sequence w) (wc_acknowledged_floor w)) db1"
proof -
  obtain ack body where ack: "accept_ack (fp_p6 P) message wid inc = Inr (ack, body)"
    using assms unfolding acknowledge_def by (auto elim!: bindR_InrE)
  let ?n = "the_int (dget ack ''command_sequence'')"
  let ?hint = "command_of wid inc ?n hdb"
  note run = assms[unfolded acknowledge_def ack bindR_simps prod.case Let_def]
  show ?thesis
  proof (cases "consuming ack")
    case False
    with run show ?thesis by (intro unrecorded) (auto simp: not_recorded_def)
  next
    case consuming: True
    show ?thesis
    proof (cases "conn_of wid inc db")
      case None
      with run consuming show ?thesis by (intro unrecorded) (auto simp: not_recorded_def)
    next
      case w: (Some w)
      show ?thesis
      proof (cases "row_at_sequence ?n (conn_commands wid inc db)")
        case None
        with run consuming w show ?thesis
          by (intro unrecorded) (auto simp: not_recorded_def obsolete_ack_def split: if_splits)
      next
        case row: (Some row)
        show ?thesis
        proof (cases "ack_names_row (fp_p6 P) ack ?hint row")
          case False
          with run consuming w row show ?thesis by (intro unrecorded) (auto simp: not_recorded_def)
        next
          case names: True
          obtain step where step: "ack_row P env clk wid inc owner ack body row (lock_update_ack_subject ?hint db) db = Inr step"
            using run consuming w row names by (auto elim!: bindR_InrE)
          show ?thesis
          proof (cases step)
            case None
            with run consuming w row names step show ?thesis by (intro unrecorded) (auto simp: not_recorded_def)
          next
            case (Some r)
            with run consuming w row names step show ?thesis
              by (cases r) (intro recorded[OF ack consuming _ w _ row names], auto)
          qed
        qed
      qed
    qed
  qed
qed

lemma acknowledge_inv [inv_intros]:
  assumes inv: "journal_inv db" and run: "acknowledge P env clk message wid inc owner hdb db = Inr (res, db')"
  shows "journal_inv db'"
  using run
proof (cases rule: acknowledge_returns)
  case unrecorded
  then show ?thesis using inv by simp
next
  case (recorded ack body row w subject publication db1)
  let ?n = "the_int (dget ack ''command_sequence'')"
  let ?P = "\<lambda>c. cmd_key c = (wid, inc, cmd_sequence row)"
  have keyed: "cmds.keyed db" by (rule journal_invD[OF inv])
  have row: "row \<in> set (db_commands db)" "cmd_key row = (wid, inc, ?n)"
    using recorded(6) unfolding row_at_sequence_conn[OF keyed] by auto
  have seq: "cmd_sequence row = ?n" using row(2) by (simp add: cmd_key_def)
  have contract: "row_contract row" using row(1) by (rule journal_invD(4)[OF inv])
  have hash: "cmd_ack_identity_hash row \<noteq> None"
    using recorded(7) by (auto simp: ack_names_row_def split: option.splits)
  obtain f where f: "conn_view db1 = conn_view db" "db_commands db1 = upd_where ?P f (db_commands db)"
      "tame f row" "cmd_state (f row) = Acknowledged"
    using ack_row_effect[OF recorded(8) contract hash accept_ack_settled(1)[OF recorded(1,2)]] by blast
  have only: "c = row" if "c \<in> set (db_commands db)" "?P c" for c
    using that row keyed seq by (auto simp: cmds.keyed_def intro: distinct_key_unique)
  have inv1: "journal_inv db1"
    by (rule journal_inv_tame[OF inv f(1,2)]) (use only f(3) in auto)
  show ?thesis unfolding recorded(9)
  proof (rule settle_after_update_inv[OF inv inv1 f(1) recorded(4) f(2)])
    show "cmd_key (f c) = cmd_key c" if "c \<in> set (db_commands db)" "?P c" for c
      using only[OF that] f(3) by (simp add: tame_def)
    show "cmd_state (if ?P c then f c else c) = Acknowledged"
      if "ack_settled P ack ?n (conn_commands wid inc db) n" "c \<in> set (db_commands db)" "cmd_key c = (wid, inc, n)" for n c
    proof (cases "?P c")
      case True
      then show ?thesis using only[OF that(2)] f(4) by simp
    next
      case False
      have "row_at_sequence n (conn_commands wid inc db) = Some c"
        using that(2,3) by (simp add: row_at_sequence_conn[OF keyed])
      with that(1,3) False seq have "known_acknowledged P c" by (auto simp: ack_settled_def)
      with False show ?thesis by (simp add: known_acknowledged_state)
    qed
  qed
qed

section \<open>Committing a command\<close>

text \<open>
  What the store relies on of the libraries: \<open>hexdigest\<close> gives 64 lowercase hexadecimal digits,
  AES-GCM appends its tag, a configured ring came out of its constructor, and a nonce has its size.
\<close>

definition sound_prims :: "fleet_prims \<Rightarrow> bool" where
  "sound_prims P \<longleftrightarrow>
     (\<forall>x. length (p_sha256 (fp_p6 P) x) = 64 \<and> list_all hex_char (p_sha256 (fp_p6 P) x))
     \<and> aead_tagged (fp_crypto P) \<and> (\<forall>ring. fp_ring P = Inr ring \<longrightarrow> ring_ok ring)"

lemma conn_commands_rows: "conn_commands w i db = sort_key cmd_sequence (rows_of (w, i) db)"
  by (simp add: conn_commands_def rows_of_def)

lemma length_filter_sort_key [simp]: "length (filter Q (sort_key f xs)) = length (filter Q xs)"
  by (metis filter_sort length_sort)

lemma pending_bytes_sort_key: "pending_bytes (sort_key f xs) = pending_bytes xs"
proof -
  have "mset (map cmd_complete_bytes (filter (\<lambda>c. cmd_state c = Pending) (sort_key f xs))) =
        mset (map cmd_complete_bytes (filter (\<lambda>c. cmd_state c = Pending) xs))"
    by simp
  then show ?thesis unfolding pending_bytes_def by (metis sum_mset_sum_list)
qed

lemma distinct_append_key: "distinct (map k xs) \<Longrightarrow> k x \<notin> k ` set xs \<Longrightarrow> distinct (map k (xs @ [x]))"
  by auto

text \<open>Appending the next command and advancing the sequence number.\<close>

lemma journal_inv_append:
  assumes inv: "journal_inv db" and w: "w \<in> set (db_connections db)" "conn_key w = (wid, inc)"
    and c: "cmd_conn c = (wid, inc)" "cmd_sequence c = wc_next_command_sequence w" "row_contract c" "cmd_state c = Pending"
    and room: "length (rows_of (wid, inc) db) < MAX_RETAINED_COMMANDS"
      "pending_bytes (rows_of (wid, inc) db) + cmd_complete_bytes c \<le> MAX_PENDING_BYTES"
    and ins: "insert_command c db = Inr db1"
  shows "journal_inv (bump_sequence wid inc db1)"
proof -
  let ?db = "bump_sequence wid inc db1"
  let ?up = "\<lambda>w. w\<lparr>wc_next_command_sequence := wc_next_command_sequence w + 1\<rparr>"
  have db: "db_commands ?db = db_commands db @ [c]"
      "db_connections ?db = upd_where (\<lambda>w. conn_key w = (wid, inc)) ?up (db_connections db)"
    and fresh: "cmd_key c \<notin> cmd_key ` set (db_commands db)"
    using ins by (auto simp: insert_command_def bump_sequence_def split: if_splits)
  have keyed: "conns.keyed ?db" "cmds.keyed ?db"
    using journal_invD(1,2)[OF inv] fresh
    by (simp_all add: conns.keyed_def cmds.keyed_def db map_upd_where conn_key_def)
  have rows: "rows_of j ?db = rows_of j db @ (if j = (wid, inc) then [c] else [])" for j
    using c(1) by (auto simp: rows_of_def db)
  have keys: "conn_key ` set (db_connections ?db) = conn_key ` set (db_connections db)"
    unfolding db(2) by (rule image_upd_where) (simp add: conn_key_def)
  have cont: "contiguous ?db v" if v: "v \<in> set (db_connections ?db)" for v
  proof -
    obtain u where u: "u \<in> set (db_connections db)" "v = (if conn_key u = (wid, inc) then ?up u else u)"
      using v unfolding db set_upd_where by blast
    have cu: "contiguous db u" using u(1) by (rule journal_invD(3)[OF inv])
    show ?thesis
    proof (cases "conn_key u = (wid, inc)")
      case True
      then have "u = w" using u(1) w journal_invD(1)[OF inv]
        by (auto simp: conns.keyed_def intro: distinct_key_unique)
      then have v: "v = ?up w" using u(2) True by simp
      have cw: "cmd_sequence ` set (rows_of (wid, inc) db) = {wc_acknowledged_floor w + 1 ..< wc_next_command_sequence w}"
        "0 \<le> wc_acknowledged_floor w" "wc_acknowledged_floor w < wc_next_command_sequence w"
        using cu \<open>u = w\<close> w(2) by (auto simp: contiguous_def)
      have "cmd_sequence ` set (rows_of (wid, inc) ?db) =
          insert (wc_next_command_sequence w) {wc_acknowledged_floor w + 1 ..< wc_next_command_sequence w}"
        by (simp add: rows cw(1) c(2))
      also have "\<dots> = {wc_acknowledged_floor w + 1 ..< wc_next_command_sequence w + 1}" using cw(3) by auto
      finally show ?thesis using cw(2,3) w(2) v by (auto simp: contiguous_def conn_key_def)
    next
      case False
      with cu u(2) show ?thesis by (simp add: contiguous_def rows)
    qed
  qed
  have bounds: "within_bounds (rows_of j ?db)" for j
  proof (cases "j = (wid, inc)")
    case True
    then show ?thesis using room c(4) by (simp add: within_bounds_def rows pending_bytes_def)
  next
    case False
    then show ?thesis using journal_invD(6)[OF inv, of j] by (simp add: rows)
  qed
  have "(wid, inc) \<in> conn_key ` set (db_connections db)" using w by (metis image_eqI)
  then show ?thesis
    using keyed cont bounds keys journal_invD(4,5)[OF inv] c(1,3)
    by (auto simp: journal_inv_def list_all_iff db(1))
qed

lemma seal_message_facts:
  assumes "seal_message P kind wid inc message = Inr m"
  shows "1 \<le> length (sm_body m)" "int (length (sm_body m)) \<le> kind_limit kind"
    "1 \<le> sm_subject_sequence m" "sm_subject_sequence m \<le> MAX_SEQUENCE" "kind \<in> fst ` set SUBJECT_FIELDS"
    "\<exists>x. sm_ack_identity_hash m = p_sha256 P x" "\<exists>x. sm_body_hash m = p_sha256 P x"
proof -
  obtain sealed sid sseq idh bh body where
    steps: "command_identity kind sealed = Inr (sid, sseq)" "ack_identity_hash P kind sealed = Inr idh"
      "preflight_worker_control P sealed (Some wid) (Some inc) = Inr body"
      "length body \<le> command_size_limit kind MAX_PARAMETER_COMMAND_BYTES MAX_SMALL_COMMAND_BYTES"
      "sha256_json P (JObj message) = Inr bh"
    and m: "m = \<lparr>sm_body = body, sm_body_hash = bh, sm_subject_id = sid, sm_subject_sequence = sseq,
      sm_ack_identity_hash = idh\<rparr>"
    using assms unfolding seal_message_def Let_def
    by (auto elim!: bindR_InrE split: prod.splits)
  show "1 \<le> length (sm_body m)"
    using steps(3) by (auto simp: m preflight_worker_control_def bindR_Inr_iff split: if_splits
        dest: canonical_object_nonempty)
  show "int (length (sm_body m)) \<le> kind_limit kind"
    using steps(4) by (auto simp: m command_size_limit_def kind_limit_def MAX_PARAMETER_COMMAND_BYTES_def
        MAX_SMALL_COMMAND_BYTES_def split: if_splits)
  have "subject_sequence_of (opt_json (dget sealed (if ends_with kind ''session'' then ''control_generation''
      else ''dispatch_sequence''))) = Some sseq"
    using steps(1) by (auto simp: command_identity_def Let_def split: sum.splits option.splits fleet_exn.splits py_exn.splits)
  then show "1 \<le> sm_subject_sequence m" "sm_subject_sequence m \<le> MAX_SEQUENCE"
    by (auto simp: m elim!: subject_sequence_of.elims split: if_splits)
  show "kind \<in> fst ` set SUBJECT_FIELDS"
    using steps(2) by (auto simp: ack_identity_hash_def ack_identity_projection_def bindR_Inr_iff
        split: option.splits dest!: map_of_SomeD intro: image_eqI[rotated])
  show "\<exists>x. sm_ack_identity_hash m = p_sha256 P x" "\<exists>x. sm_body_hash m = p_sha256 P x"
    using steps(2,5) by (auto simp: m ack_identity_hash_def sha256_json_def bindR_Inr_iff)
qed

lemma encrypt_command_version:
  assumes "sound_prims P" "length nonce = NONCE_BYTES" "encrypt_command P nonce wid inc n cid m = Inr (blob, v)"
  shows "v > 0"
proof -
  obtain ring blob' aad where r: "fp_ring P = Inr ring"
      "encrypt (fp_crypto P) ring nonce ''worker-command'' (sm_body m) aad = Inr blob'" "version_of blob' = Inr v"
    using assms(3) by (auto simp: encrypt_command_def Let_def bindR_Inr_iff)
  have "ring_ok ring" using assms(1) r(1) by (simp add: sound_prims_def)
  with encrypt_version[OF this _ assms(2) r(2)] assms(1) r(3) have "v = kr_active ring"
    by (simp add: sound_prims_def)
  with \<open>ring_ok ring\<close> show ?thesis by (auto simp: ring_ok_def ring_versions_def)
qed

lemma journal_command_inv:
  assumes inv: "journal_inv db" and P: "sound_prims P" "length nonce = NONCE_BYTES"
    and w: "conn_of wid inc db = Some worker"
    and m: "seal_message (fp_p6 P) kind wid inc message = Inr m"
    and run: "journal_command P clk nonce cid wid inc kind account claim_opt worker m db = Inr (stored, db')"
  shows "journal_inv db'"
proof -
  let ?n = "wc_next_command_sequence worker"
  let ?old = "wc_acknowledged_floor worker"
  let ?locked = "conn_commands wid inc db"
  let ?settled = "\<lambda>n. case row_at_sequence n ?locked of None \<Rightarrow> False | Some row \<Rightarrow> known_acknowledged P row"
  let ?flr = "advance_floor ?settled ?n ?old"
  let ?db1 = "settle_floor wid inc ?old ?flr db"
  let ?row = "\<lambda>blob v. pending_command wid inc ?n cid kind account m blob v (clk 0)"
  obtain blob v db2 db3 where steps: "\<not> journal_full ?locked ?old ?flr (length (sm_body m))"
      "encrypt_command P nonce wid inc ?n cid m = Inr (blob, v)"
      "apply_command_claim (fp_p6 P) clk claim_opt wid inc account cid worker ?db1 = Inr db2"
      "insert_command (?row blob v) db2 = Inr db3" "db' = bump_sequence wid inc db3"
    using run unfolding journal_command_def Let_def by (auto elim!: bindR_InrE)
  have keyed: "cmds.keyed db" by (rule journal_invD[OF inv])
  have inv1: "journal_inv ?db1"
  proof (rule settle_after_update_inv[OF inv inv refl w, where P = "\<lambda>_. False" and f = id])
    show "cmd_state (if False then id c else c) = Acknowledged"
      if "?settled n" "c \<in> set (db_commands db)" "cmd_key c = (wid, inc, n)" for n c
    proof -
      have "row_at_sequence n ?locked = Some c" using that(2,3) by (simp add: row_at_sequence_conn[OF keyed])
      with that(1) show ?thesis by (simp add: known_acknowledged_state)
    qed
  qed simp_all
  have inv2: "journal_inv db2"
    by (rule journal_inv_cong[OF inv1]) (simp_all add: apply_claim_frame[OF steps(3)] conn_view_def)
  have wk: "worker \<in> set (db_connections db)" "conn_key worker = (wid, inc)" using conn_of_key[OF w] by auto
  define w' where "w' = (if ?flr > ?old then worker\<lparr>wc_acknowledged_floor := ?flr\<rparr> else worker)"
  have w': "w' \<in> set (db_connections db2)" "conn_key w' = (wid, inc)" "wc_next_command_sequence w' = ?n"
    using wk by (auto simp: apply_claim_frame[OF steps(3)] settle_floor_def set_upd_where w'_def conn_key_def)
  have rows2: "rows_of (wid, inc) db2 = filter (\<lambda>c. \<not> (?flr > ?old \<and> cmd_sequence c \<le> ?flr \<and> cmd_state c = Acknowledged))
      (rows_of (wid, inc) db)"
    by (auto simp: rows_of_def apply_claim_frame[OF steps(3)] settle_floor_def del_where_def intro!: filter_cong)
  have room: "length (rows_of (wid, inc) db2) < MAX_RETAINED_COMMANDS"
    using steps(1) by (simp add: journal_full_def rows2 conn_commands_rows)
  have "pending_bytes (rows_of (wid, inc) db2) = pending_bytes (rows_of (wid, inc) db)"
    unfolding rows2 pending_bytes_def filter_filter by (rule arg_cong[where f = "\<lambda>xs. sum_list (map _ xs)"], rule filter_cong) auto
  then have bytes: "pending_bytes (rows_of (wid, inc) db2) + int (length (sm_body m)) \<le> MAX_PENDING_BYTES"
    using steps(1) pending_bytes_sort_key[of cmd_sequence "rows_of (wid, inc) db"]
    by (simp add: journal_full_def conn_commands_rows pending_bytes_def)
  have contract: "row_contract (?row blob v)"
    using seal_message_facts[OF m] encrypt_command_version[OF P steps(2)] P(1)
    by (auto simp: row_contract_def identity_contract_def state_contract_def pending_command_def sound_prims_def)
  have "journal_inv (bump_sequence wid inc db3)"
    by (rule journal_inv_append[OF inv2 w'(1,2) _ _ contract _ room _ steps(4)])
      (use bytes w'(3) in \<open>simp_all add: pending_command_def cmd_conn_def\<close>)
  then show ?thesis by (simp add: steps(5))
qed

text \<open>How \<open>commit_command\<close> succeeds: every guard held and the journal took the sealed message.\<close>

lemma commit_command_returns:
  assumes "commit_command P env clk cid nonce r hdb db = Inr (out, db')"
  obtains fs prep db1 hint worker m stored account owner where
    "validate_command_identity (rq_command_type r) (rq_account_user_id r) (rq_fields r) = Inr fs"
    "rq_account_user_id r = Some account"
    "owner = (case rq_transport_owner_id r of None \<Rightarrow> pe_transport_owner env | Some u \<Rightarrow> u)"
    "prepare_command_subject (fp_p6 P) env clk (rq_command_type r) fs account (rq_session_context r)
       (rq_job_context r) (rq_worker_id r) (rq_incarnation r) owner db = Inr (prep, db1)"
    "ready_conn (rq_worker_id r) (rq_incarnation r) hdb = Some hint"
    "commit_authority env clk hint owner (rq_grant_nonce r) (rq_worker_id r) (rq_incarnation r)
       (pp_cancel_attempt prep) db1 = Inr worker"
    "seal_message (fp_p6 P) (rq_command_type r) (rq_worker_id r) (rq_incarnation r)
       (command_message (pp_message_fields prep) (rq_command_type r) (rq_worker_id r) (rq_incarnation r) worker
          (rq_grant_nonce r) cid) = Inr m"
    "journal_command P clk nonce cid (rq_worker_id r) (rq_incarnation r) (rq_command_type r) account
       (pp_claim prep) worker m db1 = Inr (stored, db')"
    "out = (stored, if rq_desired_callback r then pp_committed_desired prep else None)"
proof -
  obtain account where account: "rq_account_user_id r = Some account"
    using assms by (auto simp: commit_command_def validate_command_identity_def split: if_splits elim!: bindR_InrE)
  from assms show ?thesis
    unfolding commit_command_def Let_def inr_iffs raise_if_Inr split_paired_Ex prod.case account option.sel
    by (elim exE conjE) (rule that[OF _ account refl]; (assumption | (auto simp: account)[1]))
qed

lemma commit_authority_conn:
  assumes "commit_authority env clk hint owner nonce wid inc ca db = Inr worker"
  shows "conn_of wid inc db = Some worker" "open_conn worker" "wc_lifecycle worker = Ready" "wc_grant_ready worker"
    "wc_transport_owner_id worker = owner" "wc_grant_nonce worker = nonce"
    "wc_grant_expires_at worker > clk 6" "wc_next_command_sequence worker < MAX_SEQUENCE"
    "\<exists>l. lease_of (wc_region worker) db = Some l \<and> sl_owner_id l = pe_scheduler_owner env
       \<and> sl_owner_epoch l = wc_owner_epoch worker \<and> sl_lease_id l = wc_lease_id worker \<and> sl_expires_at l > clk 5"
    "wc_next_command_sequence worker = wc_next_command_sequence hint"
    "wc_acknowledged_floor worker = wc_acknowledged_floor hint"
  using assms by (auto simp: commit_authority_def ready_conn_def split: option.splits)

lemma commit_command_inv [inv_intros]:
  assumes inv: "journal_inv db" and P: "sound_prims P" "length nonce = NONCE_BYTES"
    and run: "commit_command P env clk cid nonce r hdb db = Inr (out, db')"
  shows "journal_inv db'"
  using run
proof (rule commit_command_returns)
  fix fs prep db1 hint worker m stored account owner
  assume prep: "prepare_command_subject (fp_p6 P) env clk (rq_command_type r) fs account (rq_session_context r)
       (rq_job_context r) (rq_worker_id r) (rq_incarnation r) owner db = Inr (prep, db1)"
    and auth: "commit_authority env clk hint owner (rq_grant_nonce r) (rq_worker_id r) (rq_incarnation r)
       (pp_cancel_attempt prep) db1 = Inr worker"
    and seal: "seal_message (fp_p6 P) (rq_command_type r) (rq_worker_id r) (rq_incarnation r)
       (command_message (pp_message_fields prep) (rq_command_type r) (rq_worker_id r) (rq_incarnation r) worker
          (rq_grant_nonce r) cid) = Inr m"
    and journal: "journal_command P clk nonce cid (rq_worker_id r) (rq_incarnation r) (rq_command_type r) account
       (pp_claim prep) worker m db1 = Inr (stored, db')"
  have "journal_inv db1"
    by (rule journal_inv_cong[OF inv]) (simp_all add: prepare_frame[OF prep] conn_view_def)
  then show ?thesis
    using P commit_authority_conn(1)[OF auth] seal journal by (rule journal_command_inv)
qed

end
