(* ===== verification/Fleet.thy ===== *)
theory Fleet
  imports Journal
begin

text \<open>
  The fleet as a state machine: one step for every transaction of
  \<open>src/backend/app/worker_authority.py\<close> and \<open>src/backend/app/command_store.py\<close> that writes the
  fleet tables, and one for the writes of other modules to the tables those only read. What holds
  in every reachable state: the journal invariant, one open connection for a worker id, one lease
  row for a region; and what a run never takes back: the identity of a connection, its sequence
  numbers, its acknowledged floor, its closing.
\<close>

section \<open>The life of a connection row\<close>

definition evolves :: "worker_connection \<Rightarrow> worker_connection \<Rightarrow> bool" where
  "evolves w w' \<longleftrightarrow> conn_key w' = conn_key w \<and> wc_transport_owner_id w' = wc_transport_owner_id w
     \<and> wc_region w' = wc_region w \<and> wc_owner_epoch w' = wc_owner_epoch w \<and> wc_lease_id w' = wc_lease_id w
     \<and> (open_conn w' \<longrightarrow> open_conn w) \<and> (wc_lifecycle w = Ended \<longrightarrow> wc_lifecycle w' = Ended)
     \<and> wc_acknowledged_floor w \<le> wc_acknowledged_floor w'
     \<and> wc_next_command_sequence w \<le> wc_next_command_sequence w'"

lemma evolves_refl [simp]: "evolves w w"
  by (simp add: evolves_def)

lemma evolves_trans: "evolves u v \<Longrightarrow> evolves v w \<Longrightarrow> evolves u w"
  by (auto simp: evolves_def)

text \<open>A transaction that changes connection rows only in place, and no lease.\<close>

definition calm :: "fleet_db \<Rightarrow> fleet_db \<Rightarrow> bool" where
  "calm db db' \<longleftrightarrow> list_all2 evolves (db_connections db) (db_connections db') \<and> db_leases db' = db_leases db"

lemma calm_refl [simp]: "calm db db"
  by (simp add: calm_def list.rel_refl)

lemma calm_trans: "calm a b \<Longrightarrow> calm b c \<Longrightarrow> calm a c"
  unfolding calm_def using list_all2_trans[of evolves evolves evolves] evolves_trans by metis

lemma calm_cong: "db_connections db' = db_connections db \<Longrightarrow> db_leases db' = db_leases db \<Longrightarrow> calm db db'"
  by (simp add: calm_def list.rel_refl)

lemma evolves_keys: "list_all2 evolves ws ws' \<Longrightarrow> map conn_key ws' = map conn_key ws"
  by (induction rule: list_all2_induct) (auto simp: evolves_def)

lemma calm_keyed: "calm db db' \<Longrightarrow> conns.keyed db' = conns.keyed db"
  unfolding calm_def conns.keyed_def by (auto dest!: evolves_keys)

lemma list_all2_upd_where:
  "(\<And>r. r \<in> set rows \<Longrightarrow> P r \<Longrightarrow> evolves r (f r)) \<Longrightarrow> list_all2 evolves rows (upd_where P f rows)"
  by (induction rows) auto

lemma calm_upd:
  assumes "\<And>w. w \<in> set (db_connections db) \<Longrightarrow> P w \<Longrightarrow> evolves w (f w)"
    and "db_connections db' = upd_where P f (db_connections db)" "db_leases db' = db_leases db"
  shows "calm db db'"
  using assms by (simp add: calm_def list_all2_upd_where)

text \<open>A change of the one row a key names.\<close>

lemma calm_at:
  assumes "conns.keyed db" "conn_of w i db = Some c" "evolves c (f c)"
    and "db_connections db' = upd_where (\<lambda>x. conn_key x = (w, i)) f (db_connections db)" "db_leases db' = db_leases db"
  shows "calm db db'"
proof (rule calm_upd[OF _ assms(4,5)])
  fix x assume "x \<in> set (db_connections db)" "conn_key x = (w, i)"
  then have "x = c"
    using conn_of_key[OF assms(2)] assms(1) distinct_key_unique[of conn_key "db_connections db" x c]
    by (simp add: conns.keyed_def)
  then show "evolves x (f x)" using assms(3) by simp
qed


section \<open>Transactions that are calm\<close>

lemma calm_erase_rows: "erase_pending_rows clk sel db = (n, db') \<Longrightarrow> calm db db'"
proof -
  have fence: "calm d (fence_conn k t d)" for k t and d :: fleet_db
    by (rule calm_upd[where P = "\<lambda>w. conn_key w = k"])
      (auto simp: fence_conn_def evolves_def conn_key_def open_conn_def split: option.splits)
  have "calm d (fold (\<lambda>(i, k). fence_conn k (clk i)) xs d)" for xs and d :: fleet_db
    by (induction xs arbitrary: d) (auto intro: calm_trans fence)
  then have "calm d (fence_conns clk ws d)" for ws d by (simp add: fence_conns_def)
  moreover have "calm db (db_commands_update g db)" for g by (rule calm_cong) simp_all
  ultimately show "erase_pending_rows clk sel db = (n, db') \<Longrightarrow> calm db db'"
    by (drule_tac erase_pending_rows_shape) (auto intro: calm_trans)
qed

lemma calm_erase_subject: "erase_subject_commands clk a k s n db = Inr (v, db') \<Longrightarrow> calm db db'"
  by (auto simp: erase_subject_commands_def bindR_Inr_iff intro: calm_erase_rows)

lemma calm_erase_account: "erase_account_commands clk accounts db = (n, db') \<Longrightarrow> calm db db'"
  unfolding erase_account_commands_def by (rule calm_erase_rows)

lemma calm_erase_realtime: "erase_realtime_commands clk a ids keep db = (n, db') \<Longrightarrow> calm db db'"
  by (auto simp: erase_realtime_commands_def split: option.splits intro: calm_erase_rows)

lemma calm_erase_reported:
  assumes "erase_reported_subject_command a k s n w i r att rs rh db = Inr (v, db')"
  shows "calm db db'"
proof -
  have "db_connections db' = db_connections db \<and> db_leases db' = db_leases db"
    using assms unfolding erase_reported_subject_command_def
    by (auto elim!: bindR_InrE split: list.splits option.splits)
  then show ?thesis by (auto intro: calm_cong)
qed

lemma calm_erase_attempts: "erase_attempts clk sas db = Inr db' \<Longrightarrow> calm db db'"
proof (induction clk sas db rule: erase_attempts.induct)
  case (2 clk s a rest db)
  then show ?case
    by (auto simp: bindR_Inr_iff split: option.splits intro: calm_trans[OF calm_erase_subject])
qed simp

lemma calm_activate:
  assumes "conns.keyed db" "activate_initial_worker env now w i db = (b, db')"
  shows "calm db db'"
proof (cases "db' = db")
  case False
  then obtain c where c: "own_open_conn env w i db = Some c" "wc_lifecycle c = Connecting"
      "db' = set_conn (w, i) (\<lambda>w. w\<lparr>wc_lifecycle := Ready\<rparr>) db"
    using assms(2) by (auto simp: activate_initial_worker_def split: option.splits if_splits)
  then have "conn_of w i db = Some c" by (simp add: own_open_conn_def)
  then show ?thesis
    by (rule calm_at[OF assms(1), where f = "\<lambda>w. w\<lparr>wc_lifecycle := Ready\<rparr>"])
      (auto simp: c(2,3) set_conn_def evolves_def conn_key_def open_conn_def)
qed simp

lemma calm_set_conn:
  assumes "\<And>c. evolves c (f c)"
  shows "calm db (set_conn k f db)"
  by (rule calm_upd[OF assms]) (simp_all add: set_conn_def)

lemma calm_touch: "touch_worker env clk w i p db = Inr (u, db') \<Longrightarrow> calm db db'"
  by (auto simp: touch_worker_def evolves_def conn_key_def open_conn_def split: option.splits intro!: calm_set_conn)

lemma calm_grant:
  assumes "conns.keyed db" "renew_worker_grant env clk w i n db = (r, db')"
  shows "calm db db'"
proof -
  obtain b db1 where act: "activate_initial_worker env (clk 1) w i db = (b, db1)" by (meson surj_pair)
  have "calm db1 (set_conn (w, i) (granted_conn clk n l) db1)" for l
    by (rule calm_set_conn) (simp add: granted_conn_def evolves_def conn_key_def open_conn_def)
  with calm_activate[OF assms(1) act] assms(2) act show ?thesis
    by (auto simp: renew_worker_grant_def Let_def split: option.splits intro: calm_trans)
qed

lemma calm_update_models:
  assumes "conns.keyed db" "update_worker_models env clk w i ms db = Inr (u, db')"
  shows "calm db db'"
proof -
  have "\<exists>f. db' = snd (activate_initial_worker env (clk 2) w i (set_conn (w, i) f db))
      \<and> calm db (set_conn (w, i) f db)"
    using assms(2) unfolding update_worker_models_def Let_def
    by (auto split: option.splits prod.splits intro!: exI conjI calm_set_conn
        simp: evolves_def conn_key_def open_conn_def)
  then obtain f where f: "db' = snd (activate_initial_worker env (clk 2) w i (set_conn (w, i) f db))"
      "calm db (set_conn (w, i) f db)" by blast
  have "conns.keyed (set_conn (w, i) f db)" using f(2) assms(1) by (simp add: calm_keyed)
  then have "calm (set_conn (w, i) f db) db'" unfolding f(1) by (rule calm_activate[OF _ surjective_pairing])
  with f(2) show ?thesis by (rule calm_trans)
qed

lemma fold_session_conns:
  "db_connections (fold (end_ending_session t) sas db) = db_connections db"
  "db_leases (fold (end_ending_session t) sas db) = db_leases db"
  by (induction sas arbitrary: db) (auto simp: end_ending_session_def)

lemma calm_close_worker:
  assumes "close_worker env clk w i db = Inr (u, db')"
  shows "calm db db'"
proof -
  obtain db1 where db1: "erase_attempts clk (conn_attempts w i db) db = Inr db1"
    using assms by (auto simp: close_worker_def Let_def bindR_Inr_iff)
  have "calm db1 db'"
    by (rule calm_upd[where P = "\<lambda>x. conn_key x = (w, i) \<and> wc_transport_owner_id x = pe_transport_owner env"
          and f = "\<lambda>x. x\<lparr>wc_lifecycle := Ended,
             wc_closed_at := (case wc_closed_at x of None \<Rightarrow> Some (clk 1) | Some t \<Rightarrow> Some t)\<rparr>"])
      (use assms db1 in \<open>auto simp: close_worker_def Let_def fold_session_conns evolves_def conn_key_def open_conn_def
         split: option.splits\<close>)
  with calm_erase_attempts[OF db1] show ?thesis by (rule calm_trans)
qed

lemma calm_end_session:
  assumes "end_realtime_session clk s g b db = Inr (r, db')"
  shows "calm db db'"
proof -
  have "db' = db \<or> (\<exists>u v db1. erase_subject_commands clk u ''session'' s (Some g) db = Inr (v, db1)
      \<and> db_connections db' = db_connections db1 \<and> db_leases db' = db_leases db1)"
    using assms by (fastforce simp: end_realtime_session_def Let_def bindR_Inr_iff end_attempt_where_def
        split: option.splits if_splits)
  then show ?thesis by (auto intro: calm_trans[OF calm_erase_subject] calm_cong)
qed

lemma calm_abandon:
  assumes "abandon_realtime_attempt clk s g a db = Inr (r, db')"
  shows "calm db db'"
proof -
  have "db' = db \<or> (\<exists>u v db1. erase_subject_commands clk u ''session'' s (Some g) db = Inr (v, db1)
      \<and> db_connections db' = db_connections db1 \<and> db_leases db' = db_leases db1)"
    using assms by (fastforce simp: abandon_realtime_attempt_def bindR_Inr_iff end_attempt_where_def
        split: option.splits if_splits)
  then show ?thesis by (auto intro: calm_trans[OF calm_erase_subject] calm_cong)
qed

lemma calm_session_ready:
  assumes "accept_session_ready env clk w i m db = Inr (r, db')"
  shows "calm db db'"
proof -
  have "db_connections db' = db_connections db \<and> db_leases db' = db_leases db"
    using assms unfolding accept_session_ready_def by (auto elim!: bindR_InrE split: option.splits if_splits)
  then show ?thesis by (auto intro: calm_cong)
qed


lemma calm_settle_floor:
  assumes "\<And>x. x \<in> set (db_connections db) \<Longrightarrow> conn_key x = (w, i) \<Longrightarrow> wc_acknowledged_floor x = old"
  shows "calm db (settle_floor w i old flr db)"
proof (cases "flr > old")
  case True
  show ?thesis
    by (rule calm_upd[where f = "\<lambda>x. x\<lparr>wc_acknowledged_floor := flr\<rparr>" and P = "\<lambda>x. conn_key x = (w, i)"])
      (use True assms in \<open>auto simp: settle_floor_def evolves_def conn_key_def open_conn_def\<close>)
qed (simp add: settle_floor_def)

lemma calm_record_report:
  assumes "record_report P clk u w i rep f cur ack p db = Inr (body, db')"
  shows "calm db db'"
proof -
  let ?m = "report_maxima f p"
  let ?db2 = "if rf_is_session f then record_session_attempt (clk 2) f ?m (record_range f ?m db)
              else record_job_attempt (clk 2) rep f cur ?m (record_range f ?m db)"
  obtain b db4 where db4: "insert_receipt (report_receipt_row (clk 0) f ?m b) (end_reported_session (clk 3) f ?db2) = Inr db4"
      "erase_after_report clk u w i f (evict_receipts (rf_range_id f) db4) = Inr db'"
    using assms unfolding record_report_def Let_def by (auto elim!: bindR_InrE)
  have frame: "db_connections db4 = db_connections db \<and> db_leases db4 = db_leases db"
    using db4(1) by (auto simp: insert_receipt_def end_reported_session_def record_session_attempt_def
        record_job_attempt_def record_range_def split: if_splits)
  have "calm db (evict_receipts (rf_range_id f) db4)"
    by (rule calm_cong) (simp_all add: evict_receipts_def frame split: list.splits)
  moreover have "calm (evict_receipts (rf_range_id f) db4) db'"
    using db4(2) by (auto simp: erase_after_report_def bindR_Inr_iff split: if_splits
        intro: calm_erase_subject calm_erase_reported)
  ultimately show ?thesis by (rule calm_trans)
qed

lemma calm_report:
  assumes "commit_worker_report P env clk w i rep db = Inr (body, db')"
  shows "calm db db'"
  using assms by (rule commit_worker_report_returns)
    (auto split: option.splits if_splits intro: calm_record_report)

lemma ack_row_frame:
  assumes "ack_row P env clk w i owner ack body row subject db = Inr (Some (publication, db'))"
  shows "calm db db'" "conn_view db' = conn_view db"
proof -
  define good where "good d \<longleftrightarrow> calm db d \<and> conn_view d = conn_view db" for d
  have closes: "good (end_conn k t d)" if "good d" for k t d
  proof -
    have "calm d (end_conn k t d)"
      by (rule calm_upd[where P = "\<lambda>x. conn_key x = k"])
        (auto simp: end_conn_def evolves_def conn_key_def open_conn_def split: option.splits)
    with that show ?thesis by (auto simp: good_def end_conn_def conn_key_def intro: calm_trans)
  qed
  have same: "good (db_sessions_update g d)" "good (update_command_row w i n h d)" if "good d" for g n h d
    using that by (auto simp: good_def calm_def update_command_row_def)
  have "good db" by (simp add: good_def)
  with assms have "good db'"
    unfolding ack_row_def ack_pending_row_def apply_update_def Let_def
    by (auto split: command_state.splits if_splits option.splits prod.splits elim!: bindR_InrE
        intro!: closes same)
  then show "calm db db'" "conn_view db' = conn_view db" by (auto simp: good_def)
qed

lemma conn_of_floor:
  assumes "conns.keyed db" "conn_of w i db = Some c" "conn_view db1 = conn_view db"
    and x: "x \<in> set (db_connections db1)" "conn_key x = (w, i)"
  shows "wc_acknowledged_floor x = wc_acknowledged_floor c"
proof -
  have "(conn_key x, wc_acknowledged_floor x, wc_next_command_sequence x) \<in> set (conn_view db)"
    unfolding assms(3)[symmetric] using x(1) by (force simp: conn_view_def)
  then obtain y where y: "y \<in> set (db_connections db)" "conn_key y = (w, i)"
      "wc_acknowledged_floor y = wc_acknowledged_floor x"
    using x(2) by (auto simp: conn_view_def)
  have "y = c"
    using conn_of_key[OF assms(2)] assms(1) y(1,2) distinct_key_unique[of conn_key "db_connections db" y c]
    by (simp add: conns.keyed_def)
  with y(3) show ?thesis by simp
qed

lemma calm_acknowledge:
  assumes "conns.keyed db" "acknowledge P env clk message wid inc owner hdb db = Inr (res, db')"
  shows "calm db db'"
  using assms(2)
proof (cases rule: acknowledge_returns)
  case (recorded ack body row w subject publication db1)
  show ?thesis
    unfolding recorded(9)
    by (rule calm_trans[OF ack_row_frame(1)[OF recorded(8)]], rule calm_settle_floor,
        rule conn_of_floor[OF assms(1) recorded(4) ack_row_frame(2)[OF recorded(8)]])
qed simp

lemma apply_claim_leases:
  assumes "apply_command_claim P clk c w i a cid worker db = Inr db'"
  shows "db_leases db' = db_leases db"
  using assms unfolding apply_command_claim_def apply_session_claim_def apply_job_claim_def Let_def
    insert_or_reopen_session_def insert_attempt_def insert_range_def insert_job_attempt_def
  by (auto elim!: bindR_InrE split: if_split_asm option.split_asm claim.split_asm)

lemma prepare_leases:
  assumes "prepare_command_subject P env clk k fs a cx jc w i owner db = Inr (prep, db')"
  shows "db_leases db' = db_leases db"
  using assms unfolding prepare_command_subject_def prepare_open_session_def prepare_update_session_def
    prepare_close_session_def prepare_dispatch_job_def prepare_cancel_job_def Let_def
  by (auto elim!: bindR_InrE split: if_split_asm option.split_asm json.split_asm)

lemma calm_journal_command:
  assumes "conns.keyed db" "conn_of wid inc db = Some worker"
    and "journal_command P clk nonce cid wid inc kind account claim_opt worker m db = Inr (stored, db')"
  shows "calm db db'"
proof -
  obtain flr db2 db3 c where steps:
      "apply_command_claim (fp_p6 P) clk claim_opt wid inc account cid worker
         (settle_floor wid inc (wc_acknowledged_floor worker) flr db) = Inr db2"
      "insert_command c db2 = Inr db3" "db' = bump_sequence wid inc db3"
    using assms(3) unfolding journal_command_def Let_def by (auto elim!: bindR_InrE)
  have "calm db (settle_floor wid inc (wc_acknowledged_floor worker) flr db)"
    by (rule calm_settle_floor, rule conn_of_floor[OF assms(1,2) refl])
  moreover have "calm (settle_floor wid inc (wc_acknowledged_floor worker) flr db) db2"
    by (rule calm_cong) (simp_all add: apply_claim_frame[OF steps(1)] apply_claim_leases[OF steps(1)])
  moreover have "calm db2 db3"
    using steps(2) by (auto simp: insert_command_def split: if_splits intro: calm_cong)
  moreover have "calm db3 db'"
    unfolding steps(3)
    by (rule calm_upd[where P = "\<lambda>x. conn_key x = (wid, inc)"])
      (auto simp: bump_sequence_def evolves_def conn_key_def open_conn_def)
  ultimately show ?thesis by (blast intro: calm_trans)
qed

lemma calm_commit:
  assumes "conns.keyed db" "commit_command P env clk cid nonce r hdb db = Inr (out, db')"
  shows "calm db db'"
  using assms(2)
proof (rule commit_command_returns)
  fix fs prep db1 hint worker m stored account owner
  assume prep: "prepare_command_subject (fp_p6 P) env clk (rq_command_type r) fs account (rq_session_context r)
       (rq_job_context r) (rq_worker_id r) (rq_incarnation r) owner db = Inr (prep, db1)"
    and auth: "commit_authority env clk hint owner (rq_grant_nonce r) (rq_worker_id r) (rq_incarnation r)
       (pp_cancel_attempt prep) db1 = Inr worker"
    and journal: "journal_command P clk nonce cid (rq_worker_id r) (rq_incarnation r) (rq_command_type r) account
       (pp_claim prep) worker m db1 = Inr (stored, db')"
  have c: "calm db db1" by (rule calm_cong) (simp_all add: prepare_frame[OF prep] prepare_leases[OF prep])
  moreover have "calm db1 db'"
    by (rule calm_journal_command[OF _ commit_authority_conn(1)[OF auth] journal]) (simp add: calm_keyed[OF c] assms(1))
  ultimately show ?thesis by (rule calm_trans)
qed


section \<open>Leases\<close>

definition lease_evolves :: "scheduler_lease \<Rightarrow> scheduler_lease \<Rightarrow> bool" where
  "lease_evolves l l' \<longleftrightarrow> sl_region l' = sl_region l \<and> sl_owner_epoch l \<le> sl_owner_epoch l'
     \<and> (sl_owner_id l' \<noteq> sl_owner_id l \<longrightarrow> sl_owner_epoch l < sl_owner_epoch l')"

lemma lease_evolves_refl [simp]: "lease_evolves l l"
  by (simp add: lease_evolves_def)

lemma lease_evolves_trans: "lease_evolves a b \<Longrightarrow> lease_evolves b c \<Longrightarrow> lease_evolves a c"
  unfolding lease_evolves_def by (metis order_less_le_trans order_trans order_le_less_trans)

text \<open>Rows a run keeps, in order, with new rows behind them.\<close>

definition grows :: "('r \<Rightarrow> 'r \<Rightarrow> bool) \<Rightarrow> 'r list \<Rightarrow> 'r list \<Rightarrow> bool" where
  "grows R xs ys \<longleftrightarrow> list_all2 R xs (take (length xs) ys)"

lemma grows_list_all2: "list_all2 R xs ys \<Longrightarrow> grows R xs ys"
  unfolding grows_def using list_all2_lengthD by fastforce

lemma grows_append: "list_all2 R xs ys \<Longrightarrow> grows R xs (ys @ zs)"
  unfolding grows_def using list_all2_lengthD by fastforce

lemma grows_length: "grows R xs ys \<Longrightarrow> length xs \<le> length ys"
  unfolding grows_def using list_all2_lengthD by fastforce

lemma grows_nth: "grows R xs ys \<Longrightarrow> n < length xs \<Longrightarrow> R (xs ! n) (ys ! n)"
  unfolding grows_def by (auto dest: list_all2_nthD)

lemma grows_trans:
  assumes "\<And>a b c. R a b \<Longrightarrow> R b c \<Longrightarrow> R a c" "grows R xs ys" "grows R ys zs"
  shows "grows R xs zs"
proof -
  have "length xs \<le> length ys" "length ys \<le> length zs" using assms(2,3) by (auto dest: grows_length)
  moreover have "R (xs ! n) (zs ! n)" if "n < length xs" for n
    using assms(1) grows_nth[OF assms(2) that] grows_nth[OF assms(3)] that calculation(1)
    by (meson order_less_le_trans)
  ultimately show ?thesis by (simp add: grows_def list_all2_conv_all_nth)
qed

lemma grows_mem: "grows R xs ys \<Longrightarrow> x \<in> set xs \<Longrightarrow> \<exists>y \<in> set ys. R x y"
  by (metis grows_length grows_nth in_set_conv_nth nth_mem order_less_le_trans)

definition advances :: "fleet_db \<Rightarrow> fleet_db \<Rightarrow> bool" where
  "advances db db' \<longleftrightarrow> grows evolves (db_connections db) (db_connections db')
     \<and> grows lease_evolves (db_leases db) (db_leases db')"

lemma advances_trans: "advances a b \<Longrightarrow> advances b c \<Longrightarrow> advances a c"
  unfolding advances_def using grows_trans[of evolves] grows_trans[of lease_evolves]
    evolves_trans lease_evolves_trans by metis

lemma calm_advances: "calm db db' \<Longrightarrow> advances db db'"
  by (simp add: calm_def advances_def grows_list_all2 list.rel_refl)

section \<open>What holds in every reachable state\<close>

text \<open>
  \<open>worker_connections_one_current\<close> of migration 0029, the refusal of a used incarnation, and the
  primary key of \<open>scheduler_leases\<close>.
\<close>

definition one_current :: "worker_connection list \<Rightarrow> bool" where
  "one_current ws \<longleftrightarrow> distinct (map wc_worker_id (filter open_conn ws))"

definition fleet_inv :: "fleet_db \<Rightarrow> bool" where
  "fleet_inv db \<longleftrightarrow> journal_inv db \<and> one_current (db_connections db)
     \<and> distinct (map wc_incarnation (db_connections db)) \<and> leases.keyed db"

lemma evolves_one_current:
  assumes "list_all2 evolves ws ws'"
  shows "wc_worker_id ` set (filter open_conn ws') \<subseteq> wc_worker_id ` set (filter open_conn ws)
     \<and> (one_current ws \<longrightarrow> one_current ws')"
  using assms
proof (induction rule: list_all2_induct)
  case Nil
  then show ?case by simp
next
  case (Cons w ws w' ws')
  have "open_conn w' \<longrightarrow> open_conn w" "wc_worker_id w' = wc_worker_id w"
    using Cons(1) by (auto simp: evolves_def conn_key_def)
  with Cons.IH show ?case by (auto simp: one_current_def)
qed

lemma evolves_incarnations: "list_all2 evolves ws ws' \<Longrightarrow> map wc_incarnation ws' = map wc_incarnation ws"
  by (induction rule: list_all2_induct) (auto simp: evolves_def conn_key_def)

lemma calm_fleet_inv:
  assumes "fleet_inv db" "calm db db'" "journal_inv db'"
  shows "fleet_inv db'"
  using assms evolves_one_current[of "db_connections db" "db_connections db'"]
    evolves_incarnations[of "db_connections db" "db_connections db'"]
  by (simp add: fleet_inv_def calm_def leases.keyed_def)

lemma refresh_evolves:
  assumes "db_connections db1 = db_connections db"
  shows "list_all2 evolves (db_connections db) (db_connections (refresh_conn_leases l db1))"
  by (simp add: refresh_conn_leases_def assms)
    (rule list_all2_upd_where, simp add: evolves_def conn_key_def open_conn_def)

lemma lease_of_key: "lease_of r db = Some l \<Longrightarrow> l \<in> set (db_leases db) \<and> sl_region l = r"
  unfolding lease_of_def by (auto dest: find_SomeD)

text \<open>Replacing the lease of a region by one it may become.\<close>

lemma put_lease_evolves:
  assumes "leases.keyed db" "lease_of r db = Some l" "lease_evolves l l'"
  shows "grows lease_evolves (db_leases db) (db_leases (put_lease l' db))" "leases.keyed (put_lease l' db)"
proof -
  have r: "sl_region l' = sl_region l" using assms(3) by (simp add: lease_evolves_def)
  have "list_all2 lease_evolves rows (upd_where (\<lambda>x. sl_region x = sl_region l') (\<lambda>_. l') rows)"
    if "set rows \<subseteq> set (db_leases db)" for rows
    using that
  proof (induction rows)
    case (Cons x rows)
    have "x = l" if "sl_region x = sl_region l'"
      using Cons.prems that assms(1) lease_of_key[OF assms(2)] r
        distinct_key_unique[of sl_region "db_leases db" x l]
      by (simp add: leases.keyed_def)
    with Cons assms(3) show ?case by auto
  qed simp
  then show "grows lease_evolves (db_leases db) (db_leases (put_lease l' db))"
    by (simp add: put_lease_def grows_list_all2)
  show "leases.keyed (put_lease l' db)"
    using assms(1) unfolding put_lease_def by (rule leases.keyed_update) simp
qed

lemma takeover_evolves: "lease_evolves l (lease_takeover clk owner fresh l)"
  by (auto simp: lease_takeover_def lease_evolves_def)

lemma acquire_fleet:
  assumes "fleet_inv db" "acquire_scheduler_lease env clk fresh region db = Inr (l, db')"
  shows "fleet_inv db'" "advances db db'"
proof -
  have keyed: "leases.keyed db" using assms(1) by (simp add: fleet_inv_def)
  have conns: "list_all2 evolves (db_connections db) (db_connections db')"
    using assms(2)
    by (auto simp: acquire_scheduler_lease_def Let_def put_lease_def split: option.splits if_splits
        intro!: refresh_evolves)
  have leases: "grows lease_evolves (db_leases db) (db_leases db') \<and> leases.keyed db'"
  proof (cases "lease_of region db")
    case None
    then have "db_leases db' = db_leases db @ [l]" "sl_region l = region"
      using assms(2) by (auto simp: acquire_scheduler_lease_def Let_def refresh_conn_leases_def)
    moreover have "region \<notin> sl_region ` set (db_leases db)"
      using None by (auto simp: lease_of_def find_None_iff)
    ultimately show ?thesis using keyed by (simp add: leases.keyed_def grows_append list.rel_refl)
  next
    case (Some k)
    have "db_leases db' = db_leases (put_lease (lease_takeover clk (pe_scheduler_owner env) fresh k) db)"
      using assms(2) Some
      by (auto simp: acquire_scheduler_lease_def Let_def refresh_conn_leases_def split: if_splits)
    with put_lease_evolves[OF keyed Some takeover_evolves] show ?thesis by (simp add: leases.keyed_def)
  qed
  show "advances db db'" using conns leases by (simp add: advances_def grows_list_all2)
  have "journal_inv db'" using assms by (auto simp: fleet_inv_def intro: inv_intros)
  with assms(1) conns leases show "fleet_inv db'"
    using evolves_one_current[OF conns] evolves_incarnations[OF conns] by (simp add: fleet_inv_def)
qed

lemma renew_fleet:
  assumes "fleet_inv db" "renew_scheduler_lease env clk held db = Inr (l, db')"
  shows "fleet_inv db'" "advances db db'"
proof -
  have keyed: "leases.keyed db" using assms(1) by (simp add: fleet_inv_def)
  obtain r k t where r: "lease_of r db = Some k" "db' = refresh_conn_leases (k\<lparr>sl_expires_at := t\<rparr>) (put_lease (k\<lparr>sl_expires_at := t\<rparr>) db)"
    using assms(2) by (auto simp: renew_scheduler_lease_def Let_def split: option.splits)
  have conns: "list_all2 evolves (db_connections db) (db_connections db')"
    unfolding r(2) by (rule refresh_evolves) (simp add: put_lease_def)
  have "lease_evolves k (k\<lparr>sl_expires_at := t\<rparr>)" by (simp add: lease_evolves_def)
  from put_lease_evolves[OF keyed r(1) this]
  have leases: "grows lease_evolves (db_leases db) (db_leases db')" "leases.keyed db'"
    by (simp_all add: r(2) refresh_conn_leases_def leases.keyed_def)
  show "advances db db'" using conns leases by (simp add: advances_def grows_list_all2)
  have "journal_inv db'" using assms by (auto simp: fleet_inv_def intro: inv_intros)
  with assms(1) conns leases show "fleet_inv db'"
    using evolves_one_current[OF conns] evolves_incarnations[OF conns] by (simp add: fleet_inv_def)
qed

lemma register_fleet:
  assumes "fleet_inv db" "register_worker env clk h db = Inr (l, db')"
  shows "fleet_inv db'" "advances db db'"
proof -
  let ?close = "\<lambda>w. w\<lparr>wc_lifecycle := Ended, wc_closed_at := Some (clk 2)\<rparr>"
  let ?ws = "upd_where (abandoned_conn env l (hf_worker_id h)) ?close (db_connections db)"
  let ?row = "new_connection env clk l h"
  have reg: "db_connections db' = ?ws @ [?row]" "db_leases db' = db_leases db"
      "\<forall>w \<in> set (db_connections db). wc_incarnation w \<noteq> hf_incarnation h"
      "\<forall>w \<in> set ?ws. \<not> (wc_worker_id w = hf_worker_id h \<and> open_conn w)"
    using assms(2) by (auto simp: register_worker_def Let_def split: option.splits)
  have ws: "list_all2 evolves (db_connections db) ?ws"
    by (rule list_all2_upd_where) (simp add: evolves_def conn_key_def open_conn_def)
  have row: "wc_worker_id ?row = hf_worker_id h" "wc_incarnation ?row = hf_incarnation h" "open_conn ?row"
    by (simp_all add: new_connection_def open_conn_def split: prod.splits)
  show "advances db db'" using ws by (simp add: advances_def reg grows_append grows_list_all2 list.rel_refl)
  have "wc_incarnation ` set ?ws = wc_incarnation ` set (db_connections db)"
    using evolves_incarnations[OF ws] by (metis set_map)
  with reg(3) row(2) have "wc_incarnation ?row \<notin> wc_incarnation ` set ?ws" by auto
  moreover have "one_current (?ws @ [?row])"
    using evolves_one_current[OF ws] assms(1) reg(4) row by (auto simp: one_current_def fleet_inv_def)
  moreover have "journal_inv db'" using assms by (auto simp: fleet_inv_def intro: inv_intros)
  moreover have "distinct (map wc_incarnation ?ws)"
    using assms(1) evolves_incarnations[OF ws] by (simp add: fleet_inv_def)
  ultimately show "fleet_inv db'" using assms(1) by (simp add: fleet_inv_def reg(1,2) leases.keyed_def)
qed


section \<open>The steps\<close>

text \<open>
  Every transaction that writes the fleet tables, each by any process (\<open>env\<close>) at any time
  (\<open>clk\<close>); a transaction that raises changes nothing and is no step. \<open>elsewhere\<close> is a write of
  the other modules, which write neither leases nor connections nor the journal nor the physical
  ranges and the receipts of their reports.
\<close>

inductive fleet_step :: "fleet_prims \<Rightarrow> fleet_db \<Rightarrow> fleet_db \<Rightarrow> bool" for P where
  commit: "commit_command P env clk cid nonce r hdb db = Inr (out, db') \<Longrightarrow> length nonce = NONCE_BYTES \<Longrightarrow>
    fleet_step P db db'"
| acknowledge: "acknowledge P env clk message wid inc owner hdb db = Inr (res, db') \<Longrightarrow> fleet_step P db db'"
| erase_account: "erase_account_commands clk accounts db = (n, db') \<Longrightarrow> fleet_step P db db'"
| erase_realtime: "erase_realtime_commands clk account ids keep db = (n, db') \<Longrightarrow> fleet_step P db db'"
| erase_subject: "erase_subject_commands clk account kind subject sequence db = Inr (n, db') \<Longrightarrow> fleet_step P db db'"
| acquire: "acquire_scheduler_lease env clk fresh region db = Inr (l, db') \<Longrightarrow> fleet_step P db db'"
| renew: "renew_scheduler_lease env clk held db = Inr (l, db') \<Longrightarrow> fleet_step P db db'"
| register: "register_worker env clk h db = Inr (l, db') \<Longrightarrow> fleet_step P db db'"
| activate: "activate_initial_worker env now wid inc db = (b, db') \<Longrightarrow> fleet_step P db db'"
| update_models: "update_worker_models env clk wid inc ms db = Inr (u, db') \<Longrightarrow> fleet_step P db db'"
| close: "close_worker env clk wid inc db = Inr (u, db') \<Longrightarrow> fleet_step P db db'"
| touch: "touch_worker env clk wid inc p95 db = Inr (u, db') \<Longrightarrow> fleet_step P db db'"
| grant: "renew_worker_grant env clk wid inc n db = (g, db') \<Longrightarrow> fleet_step P db db'"
| end_session: "end_realtime_session clk s gen b db = Inr (e, db') \<Longrightarrow> fleet_step P db db'"
| abandon: "abandon_realtime_attempt clk s gen a db = Inr (e, db') \<Longrightarrow> fleet_step P db db'"
| session_ready: "accept_session_ready env clk wid inc m db = Inr (b, db') \<Longrightarrow> fleet_step P db db'"
| report: "commit_worker_report p6 env clk wid inc rep db = Inr (body, db') \<Longrightarrow> fleet_step P db db'"
| elsewhere: "db_connections db' = db_connections db \<Longrightarrow> db_commands db' = db_commands db \<Longrightarrow>
    db_leases db' = db_leases db \<Longrightarrow> db_ranges db' = db_ranges db \<Longrightarrow> db_receipts db' = db_receipts db \<Longrightarrow>
    fleet_step P db db'"

inductive_cases fleet_stepE: "fleet_step P db db'"

lemma fleet_step_journal:
  assumes "fleet_step P db db'" "sound_prims P" "journal_inv db"
  shows "journal_inv db'"
  using assms by (cases rule: fleet_step.cases) (auto intro: inv_intros journal_inv_cong conn_view_cong)

text \<open>Every step but the three that write leases or add a connection is calm.\<close>

lemma fleet_step_calm:
  assumes "fleet_step P db db'" "conns.keyed db"
  shows "calm db db' \<or> (\<exists>env clk fresh region l. acquire_scheduler_lease env clk fresh region db = Inr (l, db'))
     \<or> (\<exists>env clk held l. renew_scheduler_lease env clk held db = Inr (l, db'))
     \<or> (\<exists>env clk h l. register_worker env clk h db = Inr (l, db'))"
  using assms
  by (cases rule: fleet_step.cases)
    (auto intro: calm_commit calm_acknowledge calm_erase_account calm_erase_realtime calm_erase_subject
      calm_activate calm_update_models calm_close_worker calm_touch calm_grant calm_end_session calm_abandon
      calm_session_ready calm_report calm_cong)

lemma fleet_step_inv:
  assumes "fleet_step P db db'" "sound_prims P" "fleet_inv db"
  shows "fleet_inv db'" "advances db db'"
proof -
  have inv: "journal_inv db" and keyed: "conns.keyed db"
    using assms(3) by (auto simp: fleet_inv_def dest: journal_invD(1))
  have "journal_inv db'" using assms(1,2) inv by (rule fleet_step_journal)
  with fleet_step_calm[OF assms(1) keyed] assms(3) have "fleet_inv db' \<and> advances db db'"
    by (blast intro: calm_fleet_inv calm_advances acquire_fleet renew_fleet register_fleet)
  then show "fleet_inv db'" "advances db db'" by auto
qed

interpretation fleet: guarded_steps "fleet_step P" "\<lambda>db. sound_prims P \<longrightarrow> fleet_inv db" for P
  by unfold_locales (auto intro: fleet_step_inv)

lemma run_inv: "(fleet_step P)\<^sup>*\<^sup>* db db' \<Longrightarrow> sound_prims P \<Longrightarrow> fleet_inv db \<Longrightarrow> fleet_inv db'"
  using fleet.run_good by blast

lemma run_advances:
  assumes "(fleet_step P)\<^sup>*\<^sup>* db db'" "sound_prims P" "fleet_inv db"
  shows "advances db db'"
  using assms(1)
proof (induction rule: rtranclp_induct)
  case base
  then show ?case by (simp add: calm_advances)
next
  case (step mid last)
  have "fleet_inv mid" using step(1) assms(2,3) by (rule run_inv)
  with step(2,3) assms(2) show ?case by (blast intro: advances_trans fleet_step_inv)
qed

text \<open>An installation before its first worker: no lease, no connection, an empty journal.\<close>

definition fresh_fleet :: "fleet_db \<Rightarrow> bool" where
  "fresh_fleet db \<longleftrightarrow> db_leases db = [] \<and> db_connections db = [] \<and> db_commands db = []"

lemma fresh_fleet_inv: "fresh_fleet db \<Longrightarrow> fleet_inv db"
  by (simp add: fresh_fleet_def fleet_inv_def journal_inv_def conns.keyed_def cmds.keyed_def leases.keyed_def
      one_current_def rows_of_def within_bounds_def pending_bytes_def MAX_PENDING_BYTES_def)

definition reachable :: "fleet_prims \<Rightarrow> fleet_db \<Rightarrow> bool" where
  "reachable P db \<longleftrightarrow> sound_prims P \<and> (\<exists>start. fresh_fleet start \<and> (fleet_step P)\<^sup>*\<^sup>* start db)"

lemma reachable_inv: "reachable P db \<Longrightarrow> fleet_inv db"
  unfolding reachable_def using run_inv fresh_fleet_inv by blast

lemma reachable_journal: "reachable P db \<Longrightarrow> journal_inv db"
  using reachable_inv by (auto simp: fleet_inv_def)

lemma reachable_run: "reachable P db \<Longrightarrow> (fleet_step P)\<^sup>*\<^sup>* db db' \<Longrightarrow> reachable P db'"
  unfolding reachable_def by (meson rtranclp_trans)

end
