(* ===== verification/Demo_Fleet.thy ===== *)
theory Demo_Fleet
  imports Fleet
begin

text \<open>
  A concrete installation for the witnesses: one process, one local user with a queued job, one
  worker. The libraries are replaced by concrete functions (a constant digest, the transparent
  cipher of the key ring's witnesses, a decoder that knows the texts it is given).
\<close>

definition uid :: "char \<Rightarrow> uuid" where
  "uid c = replicate 8 c @ ''-'' @ replicate 4 c @ ''-'' @ replicate 4 c @ ''-'' @ replicate 4 c @ ''-'' @ replicate 12 c"

definition demo_p6 :: p6_prims where
  "demo_p6 = \<lparr>p_sha256 = (\<lambda>_. replicate 64 CHR ''0''), p_float_repr = (\<lambda>_. ''0.5'')\<rparr>"

definition demo_env :: process_env where
  "demo_env = \<lparr>pe_scheduler_owner = uid CHR ''a'', pe_transport_owner = uid CHR ''b'', pe_auth_mode = ''none'',
     pe_local_user = Some (uid CHR ''c'')\<rparr>"

definition second :: int where "second = 1000000"

definition demo_job :: job_row where
  "demo_job = \<lparr>jb_id = uid CHR ''d'', jb_user_id = uid CHR ''c'', jb_model_id = ''sd'', jb_params = JObj [],
     jb_state = ''queued'', jb_current_dispatch_sequence = 0, jb_source_asset_id = None, jb_dispatched_at = None\<rparr>"

definition demo_start :: fleet_db where
  "demo_start = \<lparr>db_leases = [], db_connections = [], db_commands = [], db_sessions = [], db_attempts = [],
     db_jobs = [demo_job], db_job_attempts = [], db_ranges = [], db_receipts = [],
     db_users = [\<lparr>us_id = uid CHR ''c'', us_role = ''user'', us_state = ''active''\<rparr>],
     db_auth_sessions = [], db_assets = []\<rparr>"

definition demo_hello :: hello_facts where
  "demo_hello = \<lparr>hf_worker_id = ''w1'', hf_incarnation = uid CHR ''1'', hf_protocol_version = 6,
     hf_grant_nonce = uid CHR ''2'', hf_capabilities = [''batch''], hf_manifests = [JObj [(''id'', JStr ''sd'')]],
     hf_device = Some ''cuda'', hf_memory_mode = Some ''full'', hf_realtime_slots = 1, hf_realtime_p95_ms = None,
     hf_realtime_batch_ms = None\<rparr>"

definition demo_lease :: scheduler_lease where
  "demo_lease = \<lparr>sl_region = ''local'', sl_owner_id = uid CHR ''a'', sl_owner_epoch = 1, sl_lease_id = uid CHR ''3'',
     sl_expires_at = 10 * second\<rparr>"

definition demo_conn :: worker_connection where
  "demo_conn = \<lparr>wc_worker_id = ''w1'', wc_incarnation = uid CHR ''1'', wc_transport_owner_id = uid CHR ''b'',
     wc_region = ''local'', wc_owner_epoch = 1, wc_lease_id = uid CHR ''3'', wc_lease_expires_at = 10 * second,
     wc_grant_nonce = uid CHR ''4'', wc_grant_expires_at = 10 * second, wc_grant_ready = True, wc_realtime_slots = 1,
     wc_protocol_version = 6, wc_capabilities = JArr [JStr ''batch''], wc_manifests = JArr [JObj [(''id'', JStr ''sd'')]],
     wc_device = Some ''cuda'', wc_memory_mode = Some ''full'', wc_envelope_revision = 1,
     wc_execution_envelope = [(''device'', JStr ''cuda''), (''memory_mode'', JStr ''full''),
       (''models'', JArr [JObj [(''id'', JStr ''sd'')]]), (''realtime_p95_ms'', JObj []), (''realtime_batch_ms'', JObj [])],
     wc_observations = [], wc_lifecycle = Ready, wc_last_seen_at = second, wc_expires_at = 91 * second,
     wc_closed_at = None, wc_created_at = second, wc_next_command_sequence = 1, wc_acknowledged_floor = 0\<rparr>"

definition demo_granted :: fleet_db where
  "demo_granted = demo_start\<lparr>db_leases := [demo_lease], db_connections := [demo_conn]\<rparr>"

definition demo_hello_conn :: worker_connection where
  "demo_hello_conn = demo_conn\<lparr>wc_grant_nonce := uid CHR ''2'', wc_grant_ready := False, wc_lifecycle := Connecting\<rparr>"

lemma demo_acquire:
  "acquire_scheduler_lease demo_env (\<lambda>_. 0) (uid CHR ''3'') REGION demo_start
     = Inr (demo_lease, demo_start\<lparr>db_leases := [demo_lease]\<rparr>)"
  by code_simp

lemma demo_register:
  "register_worker demo_env (\<lambda>_. second) demo_hello (demo_start\<lparr>db_leases := [demo_lease]\<rparr>)
     = Inr (demo_lease, demo_start\<lparr>db_leases := [demo_lease], db_connections := [demo_hello_conn]\<rparr>)"
  by code_simp

definition demo_grant :: work_grant where
  "demo_grant = \<lparr>wg_worker_id = ''w1'', wg_incarnation = uid CHR ''1'', wg_region = ''local'', wg_owner_epoch = 1,
     wg_lease_id = uid CHR ''3'', wg_lease_expires_at = 10 * second, wg_grant_nonce = uid CHR ''4'', wg_ready = True,
     wg_remaining_ms = 8000\<rparr>"

lemma demo_renew_grant:
  "renew_worker_grant demo_env (\<lambda>_. 2 * second) ''w1'' (uid CHR ''1'') (uid CHR ''4'')
       (demo_start\<lparr>db_leases := [demo_lease], db_connections := [demo_hello_conn]\<rparr>)
     = (Inr demo_grant, demo_granted)"
  by code_simp

section \<open>A dispatched job\<close>

definition demo_fields :: dict where
  "demo_fields = [(''job_id'', JStr (uid CHR ''d'')), (''dispatch_token'', JStr ''t''), (''model_id'', JStr ''sd''),
     (''params'', JObj []), (''upload'', JObj []), (''work_budget'', JObj [(''range_id'', JStr (uid CHR ''e''))])]"

definition demo_message :: dict where
  "demo_message = demo_fields @ [(''dispatch_sequence'', JInt 1), (''type'', JStr ''dispatch_job''),
     (''worker_id'', JStr ''w1''), (''incarnation'', JStr (uid CHR ''1'')), (''region'', JStr ''local''),
     (''owner_epoch'', JInt 1), (''lease_id'', JStr (uid CHR ''3'')),
     (''lease_expires_at'', JStr ''1970-01-01T00:00:10Z''), (''grant_nonce'', JStr (uid CHR ''4'')),
     (''command_sequence'', JInt 1), (''command_id'', JStr (uid CHR ''5''))]"

definition demo_hash :: string where "demo_hash = replicate 64 CHR ''0''"

definition demo_command :: dict where
  "demo_command = demo_message @ [(''body_hash'', JStr demo_hash)]"

definition demo_body :: string where
  "demo_body = dumps (\<lambda>_. ''0.5'') (JObj demo_command)"

definition demo_claim :: job_claim where
  "demo_claim = \<lparr>jc_subject_id = uid CHR ''d'', jc_previous_dispatch_sequence = 0, jc_dispatch_sequence = 1,
     jc_range_id = uid CHR ''e'', jc_dispatch_token = JStr ''t''\<rparr>"

definition demo_prepared :: prepared where
  "demo_prepared = \<lparr>pp_claim = Some (Job_claim demo_claim), pp_cancel_attempt = None,
     pp_message_fields = demo_fields @ [(''dispatch_sequence'', JInt 1)], pp_committed_desired = None\<rparr>"

lemma demo_prepare:
  "prepare_command_subject demo_p6 demo_env clk ''dispatch_job'' demo_fields (uid CHR ''c'') None None ''w1''
     (uid CHR ''1'') (uid CHR ''b'') demo_granted = Inr (demo_prepared, demo_granted)"
  by code_simp

lemma demo_authority:
  "commit_authority demo_env (\<lambda>_. 3 * second) demo_conn (uid CHR ''b'') (uid CHR ''4'') ''w1'' (uid CHR ''1'') None demo_granted
     = Inr demo_conn"
  by code_simp

lemma demo_message_eq:
  "command_message (demo_fields @ [(''dispatch_sequence'', JInt 1)]) ''dispatch_job'' ''w1'' (uid CHR ''1'') demo_conn
     (uid CHR ''4'') (uid CHR ''5'') = demo_message"
  by code_simp

lemma demo_canonical:
  "check_json 0 (JObj demo_message) = Inr ()" "ints_printable (JObj demo_message)"
  "check_json 0 (JObj demo_command) = Inr ()" "ints_printable (JObj demo_command)"
  by code_simp+

lemma demo_body_len: "int (length demo_body) < 1000" by code_simp

lemma demo_digest: "sha256_json demo_p6 v = (case canonical_bytes (\<lambda>_. ''0.5'') v of Inl e \<Rightarrow> Inl e | Inr _ \<Rightarrow> Inr demo_hash)"
  by (simp add: sha256_json_def demo_p6_def demo_hash_def bindR_def split: sum.splits)

lemma demo_canonical_message:
  "canonical_bytes (\<lambda>_. ''0.5'') (JObj demo_message) = Inr (dumps (\<lambda>_. ''0.5'') (JObj demo_message))"
  "canonical_bytes (\<lambda>_. ''0.5'') (JObj demo_command) = Inr demo_body"
  using demo_canonical by (simp_all add: canonical_bytes_def demo_body_def)

lemma demo_identity:
  "command_identity ''dispatch_job'' demo_command = Inr (uid CHR ''d'', 1)"
  "ack_identity_hash demo_p6 ''dispatch_job'' demo_command = Inr demo_hash"
  by code_simp+

lemma demo_validate: "validate_message demo_p6 (JObj demo_command) (Some ''w1'') (Some (uid CHR ''1'')) = Inr ()"
  by code_simp

definition demo_request :: commit_request where
  "demo_request = \<lparr>rq_worker_id = ''w1'', rq_incarnation = uid CHR ''1'', rq_command_type = ''dispatch_job'',
     rq_fields = JObj demo_fields,
     rq_grant_nonce = uid CHR ''4'', rq_transport_owner_id = None, rq_account_user_id = Some (uid CHR ''c''),
     rq_session_context = None, rq_job_context = None, rq_desired_callback = False\<rparr>"

definition demo_sealed :: sealed_message where
  "demo_sealed = \<lparr>sm_body = demo_body, sm_body_hash = demo_hash, sm_subject_id = uid CHR ''d'',
     sm_subject_sequence = 1, sm_ack_identity_hash = demo_hash\<rparr>"

text \<open>A decoder that knows one text.\<close>

definition demo_loads :: json_loads where
  "demo_loads pairs constant text = (if text = demo_body then Inr (JObj demo_command) else Inl None)"

definition demo_prims :: fleet_prims where
  "demo_prims = \<lparr>fp_p6 = demo_p6, fp_loads = demo_loads, fp_crypto = clear_crypto, fp_ring = Inr demo_ring\<rparr>"

lemma demo_p6_simps [simp]: "fp_p6 demo_prims = demo_p6" "p_float_repr demo_p6 = (\<lambda>_. ''0.5'')"
  "fp_crypto demo_prims = clear_crypto" "fp_ring demo_prims = Inr demo_ring" "fp_loads demo_prims = demo_loads"
  by (simp_all add: demo_prims_def demo_p6_def)

lemma demo_sound: "sound_prims demo_prims"
proof -
  have "ring_ok demo_ring" by code_simp
  then show ?thesis
    by (simp add: sound_prims_def clear_crypto_laws demo_p6_def list_all_iff hex_char_def)
qed

lemma demo_limit: "message_limit demo_command = Inr MAX_PARAMETER_CONTROL_BYTES"
  by (simp add: message_limit_def demo_command_def demo_message_def demo_fields_def dget_def bindR_def)

lemma demo_short: "length demo_body < 1000"
  using demo_body_len by linarith

lemma demo_preflight:
  "preflight_worker_control demo_p6 demo_command (Some ''w1'') (Some (uid CHR ''1'')) = Inr demo_body"
  using demo_short
  by (simp add: preflight_worker_control_def demo_validate demo_canonical_message demo_limit MAX_PARAMETER_CONTROL_BYTES_def)

lemma demo_dset: "dset ''body_hash'' (JStr demo_hash) demo_message = demo_command"
  by (simp add: demo_command_def demo_message_def demo_fields_def dset_def)

lemma demo_seal: "seal_message demo_p6 ''dispatch_job'' ''w1'' (uid CHR ''1'') demo_message = Inr demo_sealed"
  using demo_short
  by (simp add: seal_message_def demo_digest demo_canonical_message lift_py_def demo_dset demo_identity demo_preflight
      value_error_as_def raise_if_def command_size_limit_def MAX_PARAMETER_COMMAND_BYTES_def demo_sealed_def Let_def)

definition demo_nonce :: string where "demo_nonce = replicate 12 CHR ''n''"

definition demo_blob :: string where
  "demo_blob = pack_u16 1 @ demo_nonce @ demo_body @ replicate 16 CHR ''t''"

definition demo_row :: worker_command where
  "demo_row = pending_command ''w1'' (uid CHR ''1'') 1 (uid CHR ''5'') ''dispatch_job'' (uid CHR ''c'') demo_sealed
     demo_blob 1 (3 * second)"

lemma demo_aad: "\<exists>aad. command_aad demo_p6 ''w1'' (uid CHR ''1'') 1 (uid CHR ''5'') demo_hash = Inr aad"
proof -
  have "isl (command_aad demo_p6 ''w1'' (uid CHR ''1'') 1 (uid CHR ''5'') demo_hash) = False" by code_simp
  then show ?thesis by (cases "command_aad demo_p6 ''w1'' (uid CHR ''1'') 1 (uid CHR ''5'') demo_hash") auto
qed

lemma demo_encrypt:
  "encrypt_command demo_prims demo_nonce ''w1'' (uid CHR ''1'') 1 (uid CHR ''5'') demo_sealed = Inr (demo_blob, 1)"
proof -
  have ring: "ring_ok demo_ring" by code_simp
  obtain aad where aad: "command_aad demo_p6 ''w1'' (uid CHR ''1'') 1 (uid CHR ''5'') demo_hash = Inr aad"
    using demo_aad by blast
  have blob: "encrypt clear_crypto demo_ring demo_nonce ''worker-command'' demo_body aad = Inr demo_blob"
    by (simp add: encrypt_def derive_def root_of_def demo_ring_def clear_crypto_def demo_blob_def)
  have "version_of demo_blob = Inr 1"
    using encrypt_version[OF ring clear_crypto_laws(2) _ blob]
    by (simp add: demo_nonce_def NONCE_BYTES_def demo_ring_def)
  with aad blob show ?thesis
    by (simp add: encrypt_command_def ring_refused_def lift_py_def demo_sealed_def Let_def)
qed

definition demo_running_job :: job_row where
  "demo_running_job = demo_job\<lparr>jb_state := ''running'', jb_current_dispatch_sequence := 1, jb_dispatched_at := Some (3 * second)\<rparr>"

definition demo_attempt :: job_attempt where
  "demo_attempt = dispatching_attempt demo_p6 demo_claim ''w1'' (uid CHR ''1'') (uid CHR ''5'') demo_conn (3 * second)"

definition demo_range :: physical_range where
  "demo_range = fresh_range (uid CHR ''e'') ''w1'' (uid CHR ''1'') demo_conn (uid CHR ''c'') Job_range (uid CHR ''d'')
     None None (Some 1) (3 * second)"

definition demo_committed :: fleet_db where
  "demo_committed = demo_granted\<lparr>db_connections := [demo_conn\<lparr>wc_next_command_sequence := 2\<rparr>],
     db_commands := [demo_row], db_jobs := [demo_running_job], db_job_attempts := [demo_attempt],
     db_ranges := [demo_range]\<rparr>"

definition demo_stored :: stored_command where
  "demo_stored = \<lparr>st_worker_id = ''w1'', st_incarnation = uid CHR ''1'', st_sequence = 1, st_command_id = uid CHR ''5'',
     st_body_hash = demo_hash, st_body = [], st_created_at = 3 * second, st_account_user_id = Some (uid CHR ''c''),
     st_subject_id = Some (uid CHR ''d''), st_subject_sequence = Some 1, st_ack_identity_hash = Some demo_hash\<rparr>"

lemma demo_apply_claim:
  "apply_command_claim demo_p6 (\<lambda>_. 3 * second) (Some (Job_claim demo_claim)) ''w1'' (uid CHR ''1'') (uid CHR ''c'')
       (uid CHR ''5'') demo_conn demo_granted
     = Inr (demo_granted\<lparr>db_jobs := [demo_running_job], db_job_attempts := [demo_attempt], db_ranges := [demo_range]\<rparr>)"
  by code_simp

lemma demo_journal:
  "journal_command demo_prims (\<lambda>_. 3 * second) demo_nonce (uid CHR ''5'') ''w1'' (uid CHR ''1'') ''dispatch_job''
       (uid CHR ''c'') (Some (Job_claim demo_claim)) demo_conn demo_sealed demo_granted = Inr (demo_stored, demo_committed)"
proof -
  have conn: "wc_next_command_sequence demo_conn = 1" "wc_acknowledged_floor demo_conn = 0"
    "conn_key demo_conn = (''w1'', uid CHR ''1'')"
    by (simp_all add: demo_conn_def conn_key_def)
  have rows: "conn_commands ''w1'' (uid CHR ''1'') demo_granted = []" "db_commands demo_granted = []"
    by (simp_all add: conn_commands_def demo_granted_def demo_start_def)
  have floor: "advance_floor s 1 0 = 0" for s by (subst advance_floor.simps) simp
  have "journal_command demo_prims (\<lambda>_. 3 * second) demo_nonce (uid CHR ''5'') ''w1'' (uid CHR ''1'') ''dispatch_job''
       (uid CHR ''c'') (Some (Job_claim demo_claim)) demo_conn demo_sealed demo_granted
     = Inr (demo_stored, bump_sequence ''w1'' (uid CHR ''1'') (db_commands_update (\<lambda>rows. rows @ [demo_row])
         (demo_granted\<lparr>db_jobs := [demo_running_job], db_job_attempts := [demo_attempt], db_ranges := [demo_range]\<rparr>)))"
    using demo_short
    by (simp add: journal_command_def conn rows floor settle_floor_def journal_full_def Let_def
        MAX_RETAINED_COMMANDS_def MAX_PENDING_BYTES_def raise_if_def demo_apply_claim
        demo_encrypt insert_command_def demo_row_def[symmetric] demo_stored_def)
      (simp add: demo_sealed_def)
  moreover have "bump_sequence ''w1'' (uid CHR ''1'') (db_commands_update (\<lambda>rows. rows @ [demo_row])
         (demo_granted\<lparr>db_jobs := [demo_running_job], db_job_attempts := [demo_attempt], db_ranges := [demo_range]\<rparr>)) = demo_committed"
    by (simp add: bump_sequence_def demo_committed_def demo_granted_def demo_start_def conn)
  ultimately show ?thesis by simp
qed

lemma demo_commit:
  "commit_command demo_prims demo_env (\<lambda>_. 3 * second) (uid CHR ''5'') demo_nonce demo_request demo_granted demo_granted
     = Inr ((demo_stored, None), demo_committed)"
proof -
  have hint: "ready_conn ''w1'' (uid CHR ''1'') demo_granted = Some demo_conn"
    "conn_of ''w1'' (uid CHR ''1'') demo_granted = Some demo_conn"
    by (simp_all add: ready_conn_def conn_of_def demo_granted_def demo_start_def demo_conn_def conn_key_def open_conn_def)
  have id: "validate_command_identity ''dispatch_job'' (Some (uid CHR ''c'')) (JObj demo_fields) = Inr demo_fields"
    by code_simp
  have env: "pe_transport_owner demo_env = uid CHR ''b''" "wc_next_command_sequence demo_conn = 1"
    by (simp_all add: demo_env_def demo_conn_def)
  show ?thesis
    by (simp add: commit_command_def demo_request_def id hint raise_if_def demo_prepare demo_authority demo_message_eq
        demo_seal demo_journal demo_prepared_def MAX_SEQUENCE_def env Let_def)
qed

section \<open>The installation is reachable\<close>

lemma demo_granted_run: "(fleet_step demo_prims)\<^sup>*\<^sup>* demo_start demo_granted"
proof -
  let ?leased = "demo_start\<lparr>db_leases := [demo_lease]\<rparr>"
  let ?registered = "demo_start\<lparr>db_leases := [demo_lease], db_connections := [demo_hello_conn]\<rparr>"
  have "fleet_step demo_prims demo_start ?leased" by (rule fleet_step.acquire[OF demo_acquire])
  moreover have "fleet_step demo_prims ?leased ?registered" by (rule fleet_step.register[OF demo_register])
  moreover have "fleet_step demo_prims ?registered demo_granted" by (rule fleet_step.grant[OF demo_renew_grant])
  ultimately show ?thesis by (meson converse_rtranclp_into_rtranclp rtranclp.rtrancl_refl)
qed

lemma demo_granted_reachable: "reachable demo_prims demo_granted"
proof -
  have "fresh_fleet demo_start" by (simp add: fresh_fleet_def demo_start_def)
  with demo_sound demo_granted_run show ?thesis unfolding reachable_def by blast
qed

lemma demo_commit_step: "fleet_step demo_prims demo_granted demo_committed"
  by (rule fleet_step.commit[OF demo_commit]) (simp add: demo_nonce_def NONCE_BYTES_def)

lemma demo_committed_reachable: "reachable demo_prims demo_committed"
  by (rule reachable_run[OF demo_granted_reachable]) (rule r_into_rtranclp[of "fleet_step demo_prims", OF demo_commit_step])


end
