(* ===== verification/Fleet_Effects.thy ===== *)
theory Fleet_Effects
  imports Fleet
begin

text \<open>
  What single transactions do to the rows they are about: a committed command, a settled
  acknowledgement, an erasure, an accepted report. The properties of the fleet rest on these.
\<close>

section \<open>Lookups in keyed tables\<close>

lemma command_of_iff:
  "cmds.keyed db \<Longrightarrow> command_of w i s db = Some c \<longleftrightarrow> c \<in> set (db_commands db) \<and> cmd_key c = (w, i, s)"
  using cmds.row_at_Some_iff[of db "(w, i, s)" c] by (simp add: cmds.row_at_def command_of_def)

lemma conn_of_iff:
  "conns.keyed db \<Longrightarrow> conn_of w i db = Some c \<longleftrightarrow> c \<in> set (db_connections db) \<and> conn_key c = (w, i)"
  using conns.row_at_Some_iff[of db "(w, i)" c] by (simp add: conns.row_at_def conn_of_def)

lemma conn_of_upd:
  assumes "\<And>w. conn_key (f w) = conn_key w"
  shows "conn_of w i (db_connections_update (upd_where P f) db)
    = map_option (\<lambda>c. if P c then f c else c) (conn_of w i db)"
  by (simp add: conn_of_def find_upd_where assms)

section \<open>A committed command\<close>

lemma settle_floor_commands:
  "set (db_commands (settle_floor w i old flr db)) \<subseteq> set (db_commands db)"
  "c \<in> set (db_commands db) \<Longrightarrow> c \<notin> set (db_commands (settle_floor w i old flr db)) \<Longrightarrow>
     cmd_conn c = (w, i) \<and> cmd_state c = Acknowledged \<and> cmd_sequence c \<le> flr"
  by (auto simp: settle_floor_def del_where_def split: if_splits)

lemma conn_of_settle_floor:
  "map_option wc_next_command_sequence (conn_of w i (settle_floor v j old flr db))
     = map_option wc_next_command_sequence (conn_of w i db)"
proof (cases "flr > old")
  case True
  have "conn_of w i (db_commands_update g d) = conn_of w i d" for g d by (simp add: conn_of_def)
  with True show ?thesis
    by (simp add: settle_floor_def conn_of_upd conn_key_def option.map_comp o_def if_distrib cong: if_cong)
qed (simp add: settle_floor_def)

lemma journal_command_effect:
  assumes "journal_command P clk nonce cid wid inc kind account claim_opt worker m db = Inr (stored, db')"
    and "conn_of wid inc db = Some worker"
  obtains blob v where
    "set (db_commands db') \<subseteq> insert (pending_command wid inc (wc_next_command_sequence worker) cid kind account m blob v (clk 0))
        (set (db_commands db))"
    "pending_command wid inc (wc_next_command_sequence worker) cid kind account m blob v (clk 0) \<in> set (db_commands db')"
    "\<And>c. c \<in> set (db_commands db) \<Longrightarrow> c \<notin> set (db_commands db') \<Longrightarrow> cmd_conn c = (wid, inc) \<and> cmd_state c = Acknowledged"
    "map_option wc_next_command_sequence (conn_of wid inc db') = Some (wc_next_command_sequence worker + 1)"
    "encrypt_command P nonce wid inc (wc_next_command_sequence worker) cid m = Inr (blob, v)"
    "st_sequence stored = wc_next_command_sequence worker" "st_command_id stored = cid"
    "st_body_hash stored = sm_body_hash m"
proof -
  let ?row = "\<lambda>blob v. pending_command wid inc (wc_next_command_sequence worker) cid kind account m blob v (clk 0)"
  let ?settled = "\<lambda>flr. settle_floor wid inc (wc_acknowledged_floor worker) flr db"
  obtain flr blob v db2 db3 where steps:
      "encrypt_command P nonce wid inc (wc_next_command_sequence worker) cid m = Inr (blob, v)"
      "apply_command_claim (fp_p6 P) clk claim_opt wid inc account cid worker (?settled flr) = Inr db2"
      "insert_command (?row blob v) db2 = Inr db3" "db' = bump_sequence wid inc db3"
      "st_sequence stored = wc_next_command_sequence worker" "st_command_id stored = cid"
      "st_body_hash stored = sm_body_hash m"
    using assms(1) unfolding journal_command_def Let_def by (auto elim!: bindR_InrE)
  have db2: "db_commands db2 = db_commands (?settled flr)" "db_connections db2 = db_connections (?settled flr)"
    using apply_claim_frame[OF steps(2)] by auto
  have db3: "db_commands db3 = db_commands db2 @ [?row blob v]" "db_connections db3 = db_connections db2"
    using steps(3) by (auto simp: insert_command_def split: if_splits)
  have cmds: "db_commands db' = db_commands (?settled flr) @ [?row blob v]"
    by (simp add: steps(4) bump_sequence_def db3 db2)
  have "conn_of wid inc db3 = conn_of wid inc (?settled flr)" by (simp add: conn_of_def db2 db3)
  moreover have "map_option wc_next_command_sequence (conn_of wid inc (?settled flr)) = Some (wc_next_command_sequence worker)"
    by (simp add: conn_of_settle_floor assms(2))
  ultimately obtain z where z: "conn_of wid inc db3 = Some z" "wc_next_command_sequence z = wc_next_command_sequence worker"
    by auto
  have "conn_key z = (wid, inc)" using z(1) conn_of_key by blast
  with z have "map_option wc_next_command_sequence (conn_of wid inc db') = Some (wc_next_command_sequence worker + 1)"
    by (simp add: steps(4) bump_sequence_def conn_of_upd conn_key_def)
  note seq = this
  show ?thesis
  proof (rule that)
    show "set (db_commands db') \<subseteq> insert (?row blob v) (set (db_commands db))" "?row blob v \<in> set (db_commands db')"
      using settle_floor_commands(1)[of wid inc "wc_acknowledged_floor worker" flr db] by (auto simp: cmds)
    fix c assume "c \<in> set (db_commands db)" "c \<notin> set (db_commands db')"
    then show "cmd_conn c = (wid, inc) \<and> cmd_state c = Acknowledged"
      using settle_floor_commands(2)[of c db wid inc "wc_acknowledged_floor worker" flr] by (auto simp: cmds)
  qed (fact seq steps)+
qed

section \<open>A settled acknowledgement\<close>

text \<open>The floor loop stops where it stopped before when what it may pass has not grown.\<close>

lemma advance_floor_stop: "\<not> settled (flr + 1) \<or> next \<le> flr + 1 \<Longrightarrow> advance_floor settled next flr = flr"
  by (subst advance_floor.simps) auto


lemma calm_conn_of:
  assumes "conns.keyed db" "calm db db'" "conn_of w i db = Some c"
  obtains c' where "conn_of w i db' = Some c'" "evolves c c'"
proof -
  obtain c' where c': "c' \<in> set (db_connections db')" "evolves c c'"
    using assms(2,3) conn_of_key by (metis calm_def grows_list_all2 grows_mem)
  moreover have "conns.keyed db'" using assms(1,2) by (simp add: calm_keyed)
  ultimately show ?thesis using that assms(3) conn_of_key[OF assms(3)] by (auto simp: conn_of_iff evolves_def)
qed

text \<open>The view of the connections determines the numbers of one.\<close>

lemma conn_view_numbers:
  assumes "conns.keyed db" "conn_view db' = conn_view db" "conn_of w i db = Some c" "conn_of w i db' = Some c'"
  shows "wc_acknowledged_floor c' = wc_acknowledged_floor c" "wc_next_command_sequence c' = wc_next_command_sequence c"
proof -
  obtain b where b: "b \<in> set (db_connections db')" "conn_key b = conn_key c"
      "wc_acknowledged_floor b = wc_acknowledged_floor c" "wc_next_command_sequence b = wc_next_command_sequence c"
    using conn_view_same_conn[OF assms(2)] conn_of_key[OF assms(3)] by metis
  have "conns.keyed db'" using assms(1,2) conn_view_keys[of db' db] by (simp add: conns.keyed_def)
  then have "b = c'"
    using b(1,2) conn_of_key[OF assms(3)] conn_of_key[OF assms(4)] distinct_key_unique[of conn_key "db_connections db'" b c']
    by (simp add: conns.keyed_def)
  with b show "wc_acknowledged_floor c' = wc_acknowledged_floor c" "wc_next_command_sequence c' = wc_next_command_sequence c"
    by auto
qed

lemma settle_floor_conn:
  assumes "conn_of w i db = Some c" "wc_acknowledged_floor c = old" "old \<le> flr"
  obtains c' where "conn_of w i (settle_floor w i old flr db) = Some c'" "wc_acknowledged_floor c' = flr"
    "wc_next_command_sequence c' = wc_next_command_sequence c" "wc_transport_owner_id c' = wc_transport_owner_id c"
proof (cases "flr > old")
  case True
  have "conn_key (x\<lparr>wc_acknowledged_floor := flr\<rparr>) = conn_key x" for x by (simp add: conn_key_def)
  moreover have "conn_of w i (db_commands_update g d) = conn_of w i d" for g and d :: fleet_db by (simp add: conn_of_def)
  ultimately have "conn_of w i (settle_floor w i old flr db) = Some (c\<lparr>wc_acknowledged_floor := flr\<rparr>)"
    using True assms(1) conn_of_key[OF assms(1)] by (simp add: settle_floor_def conn_of_upd)
  then show ?thesis by (rule that) simp_all
next
  case False
  with assms that show ?thesis by (auto simp: settle_floor_def)
qed

text \<open>
  A recorded acknowledgement: the row it names is acknowledged, and the floor moved over every
  settled command behind it, dropping their rows.
\<close>

lemma acknowledge_effect:
  assumes inv: "journal_inv db" and run: "acknowledge P env clk message wid inc owner hdb db = Inr (res, db')"
    and rec: "ar_recorded res"
  obtains ack body row w f flr w' where
    "accept_ack (fp_p6 P) message wid inc = Inr (ack, body)" "consuming ack" "conn_of wid inc db = Some w"
    "wc_transport_owner_id w = owner" "row \<in> set (db_commands db)"
    "cmd_key row = (wid, inc, the_int (dget ack ''command_sequence''))"
    "ack_names_row (fp_p6 P) ack (command_of wid inc (the_int (dget ack ''command_sequence'')) hdb) row"
    "tame f row" "cmd_state (f row) = Acknowledged"
    "flr = advance_floor (ack_settled P ack (the_int (dget ack ''command_sequence'')) (conn_commands wid inc db))
       (wc_next_command_sequence w) (wc_acknowledged_floor w)"
    "set (db_commands db') = {c. c \<in> (\<lambda>c. if c = row then f c else c) ` set (db_commands db)
       \<and> \<not> (flr > wc_acknowledged_floor w \<and> cmd_conn c = (wid, inc) \<and> cmd_sequence c \<le> flr \<and> cmd_state c = Acknowledged)}"
    "conn_of wid inc db' = Some w'" "wc_acknowledged_floor w' = flr"
    "wc_next_command_sequence w' = wc_next_command_sequence w" "wc_transport_owner_id w' = owner"
  using run
proof (cases rule: acknowledge_returns)
  case unrecorded
  with rec show ?thesis by simp
next
  case (recorded ack body row w subject publication db1)
  let ?n = "the_int (dget ack ''command_sequence'')"
  let ?P = "\<lambda>c. cmd_key c = (wid, inc, cmd_sequence row)"
  let ?flr = "advance_floor (ack_settled P ack ?n (conn_commands wid inc db)) (wc_next_command_sequence w) (wc_acknowledged_floor w)"
  have keyed: "cmds.keyed db" "conns.keyed db" by (rule journal_invD[OF inv])+
  have row: "row \<in> set (db_commands db)" "cmd_key row = (wid, inc, ?n)"
    using recorded(6) unfolding row_at_sequence_conn[OF keyed(1)] by auto
  have seq: "cmd_sequence row = ?n" using row(2) by (simp add: cmd_key_def)
  have hash: "cmd_ack_identity_hash row \<noteq> None"
    using recorded(7) by (auto simp: ack_names_row_def split: option.splits)
  obtain f where f: "conn_view db1 = conn_view db" "db_commands db1 = upd_where ?P f (db_commands db)"
      "tame f row" "cmd_state (f row) = Acknowledged"
    using ack_row_effect[OF recorded(8) journal_invD(4)[OF inv row(1)] hash accept_ack_settled(1)[OF recorded(1,2)]] by blast
  have only: "?P c \<longleftrightarrow> c = row" if "c \<in> set (db_commands db)" for c
    using that row keyed(1) seq by (auto simp: cmds.keyed_def intro: distinct_key_unique)
  have cmds: "set (db_commands db1) = (\<lambda>c. if c = row then f c else c) ` set (db_commands db)"
    unfolding f(2) set_upd_where by (rule image_cong) (auto simp: only)
  have mem: "w \<in> set (db_connections db)" using conn_of_key[OF recorded(4)] by simp
  have "wc_acknowledged_floor w < wc_next_command_sequence w" using journal_invD(3)[OF inv mem] by (simp add: contiguous_def)
  then have le: "wc_acknowledged_floor w \<le> ?flr" using advance_floor_spec by blast
  obtain w1 where w1: "conn_of wid inc db1 = Some w1" "evolves w w1"
    using keyed(2) ack_row_frame(1)[OF recorded(8)] recorded(4) by (rule calm_conn_of)
  note numbers = conn_view_numbers[OF keyed(2) f(1) recorded(4) w1(1)]
  obtain w' where w': "conn_of wid inc db' = Some w'" "wc_acknowledged_floor w' = ?flr"
      "wc_next_command_sequence w' = wc_next_command_sequence w1" "wc_transport_owner_id w' = wc_transport_owner_id w1"
    unfolding recorded(9) by (rule settle_floor_conn[OF w1(1) numbers(1) le])
  have "set (db_commands db') = {c. c \<in> (\<lambda>c. if c = row then f c else c) ` set (db_commands db)
       \<and> \<not> (?flr > wc_acknowledged_floor w \<and> cmd_conn c = (wid, inc) \<and> cmd_sequence c \<le> ?flr \<and> cmd_state c = Acknowledged)}"
    unfolding recorded(9) cmds[symmetric] by (auto simp: settle_floor_def set_del_where)
  then show ?thesis
    using w' numbers(2) w1(2) recorded(5) that[OF recorded(1,2,4,5) row recorded(7) f(3,4) refl]
    by (simp add: evolves_def)
qed

section \<open>The authority of a commit\<close>

text \<open>A commit can only succeed under the lease of the connection.\<close>

lemma commit_command_authority:
  assumes "commit_command P env clk cid nonce r hdb db = Inr (out, db')"
  obtains w l where "conn_of (rq_worker_id r) (rq_incarnation r) db = Some w" "open_conn w" "wc_lifecycle w = Ready"
    "wc_grant_ready w" "wc_grant_nonce w = rq_grant_nonce r" "wc_grant_expires_at w > clk 6"
    "wc_transport_owner_id w = (case rq_transport_owner_id r of None \<Rightarrow> pe_transport_owner env | Some u \<Rightarrow> u)"
    "lease_of (wc_region w) db = Some l" "sl_owner_id l = pe_scheduler_owner env"
    "sl_owner_epoch l = wc_owner_epoch w" "sl_lease_id l = wc_lease_id w" "sl_expires_at l > clk 5"
  using assms
proof (rule commit_command_returns)
  fix fs prep db1 hint worker m stored account owner
  assume prep: "prepare_command_subject (fp_p6 P) env clk (rq_command_type r) fs account (rq_session_context r)
       (rq_job_context r) (rq_worker_id r) (rq_incarnation r) owner db = Inr (prep, db1)"
    and owner: "owner = (case rq_transport_owner_id r of None \<Rightarrow> pe_transport_owner env | Some u \<Rightarrow> u)"
    and auth: "commit_authority env clk hint owner (rq_grant_nonce r) (rq_worker_id r) (rq_incarnation r)
       (pp_cancel_attempt prep) db1 = Inr worker"
  have same: "conn_of w i db1 = conn_of w i db" "lease_of s db1 = lease_of s db" for w i s
    by (simp_all add: conn_of_def lease_of_def prepare_frame[OF prep] prepare_leases[OF prep])
  note facts = commit_authority_conn[OF auth, unfolded same]
  obtain l where l: "lease_of (wc_region worker) db = Some l" "sl_owner_id l = pe_scheduler_owner env"
      "sl_owner_epoch l = wc_owner_epoch worker" "sl_lease_id l = wc_lease_id worker" "sl_expires_at l > clk 5"
    using facts(9) by blast
  show thesis by (rule that[OF facts(1-4,6,7) _ l]) (use facts(5) owner in simp)
qed

end
