(* ===== verification/Lease_Contract.thy ===== *)
theory Lease_Contract
  imports Demo_Fleet Fleet_Effects
begin

text \<open>
  What the regional lease promises: it changes hands only after it ran out, its epoch is a fencing
  token, a connection lives under the lease it was registered under and under no other, and a work
  grant never outlives the lease. The properties are about every reachable state of the fleet.
\<close>

section \<open>Rows along a run\<close>

lemma run_conn:
  assumes "reachable P db" "(fleet_step P)\<^sup>*\<^sup>* db db'" "conn_of wid inc db = Some w"
  obtains w' where "conn_of wid inc db' = Some w'" "evolves w w'"
proof -
  have "advances db db'"
    using assms(1,2) run_advances reachable_inv by (auto simp: reachable_def)
  then obtain w' where w': "w' \<in> set (db_connections db')" "evolves w w'"
    using assms(3) conn_of_key grows_mem unfolding advances_def by metis
  have "conn_key w' = (wid, inc)" using w'(2) assms(3) conn_of_key[of wid inc db w] by (auto simp: evolves_def)
  moreover have "conns.keyed db'" using reachable_journal[OF reachable_run[OF assms(1,2)]] by (rule journal_invD(1))
  ultimately have "conn_of wid inc db' = Some w'" using w'(1) by (simp add: conn_of_iff)
  with w'(2) that show ?thesis by blast
qed

lemma lease_of_iff:
  "leases.keyed db \<Longrightarrow> lease_of r db = Some l \<longleftrightarrow> l \<in> set (db_leases db) \<and> sl_region l = r"
  using leases.row_at_Some_iff[of db r l] by (simp add: leases.row_at_def lease_of_def)

lemma run_lease:
  assumes "reachable P db" "(fleet_step P)\<^sup>*\<^sup>* db db'" "lease_of r db = Some l"
  obtains l' where "lease_of r db' = Some l'" "lease_evolves l l'"
proof -
  have "advances db db'"
    using assms(1,2) run_advances reachable_inv by (auto simp: reachable_def)
  then obtain l' where l': "l' \<in> set (db_leases db')" "lease_evolves l l'"
    using assms(3) lease_of_key grows_mem unfolding advances_def by metis
  have "sl_region l' = r" using l'(2) assms(3) lease_of_key[of r db l] by (auto simp: lease_evolves_def)
  moreover have "leases.keyed db'"
    using reachable_inv[OF reachable_run[OF assms(1,2)]] by (simp add: fleet_inv_def)
  ultimately have "lease_of r db' = Some l'" using l'(1) by (simp add: lease_of_iff)
  with l'(2) that show ?thesis by blast
qed

lemma lease_of_put: "lease_of r db = Some k \<Longrightarrow> sl_region k' = r \<Longrightarrow> lease_of r (put_lease k' db) = Some k'"
proof -
  have "find (\<lambda>l. sl_region l = r) rows = Some k \<Longrightarrow> sl_region k' = r \<Longrightarrow>
      find (\<lambda>l. sl_region l = r) (upd_where (\<lambda>l. sl_region l = r) (\<lambda>_. k') rows) = Some k'" for rows
    by (induction rows) (auto split: if_splits)
  then show "lease_of r db = Some k \<Longrightarrow> sl_region k' = r \<Longrightarrow> lease_of r (put_lease k' db) = Some k'"
    by (simp add: lease_of_def put_lease_def)
qed

lemma lease_of_refresh [simp]: "lease_of r (refresh_conn_leases l db) = lease_of r db"
  by (simp add: lease_of_def refresh_conn_leases_def)

section \<open>The lease\<close>

text \<open>
  The lease row of a region is never lost and its epoch never falls; when
  another process has become its owner, the epoch has grown.
\<close>

theorem lease_epoch_is_a_fencing_token:
  assumes "reachable P db" "(fleet_step P)\<^sup>*\<^sup>* db db'" "lease_of region db = Some l"
  shows "\<exists>l'. lease_of region db' = Some l' \<and> sl_owner_epoch l \<le> sl_owner_epoch l'
     \<and> (sl_owner_id l' \<noteq> sl_owner_id l \<longrightarrow> sl_owner_epoch l < sl_owner_epoch l')"
  using assms by (rule run_lease) (auto simp: lease_evolves_def)

theorem lease_epoch_is_a_fencing_token_witness: "lease_of ''local'' demo_committed \<noteq> None"
proof -
  have "lease_of ''local'' demo_granted = Some demo_lease"
    by (simp add: lease_of_def demo_granted_def demo_lease_def)
  then show ?thesis
    using lease_epoch_is_a_fencing_token[OF demo_granted_reachable r_into_rtranclp[of "fleet_step demo_prims", OF demo_commit_step]]
    by blast
qed

text \<open>
  A process acquires a lease another one owns exactly when it has run out,
  and then under the next epoch and a fresh lease id; while it is live the attempt raises and
  nothing is written.
\<close>

theorem lease_changes_hands_only_expired:
  assumes "lease_of region db = Some k" "sl_owner_id k \<noteq> pe_scheduler_owner env"
  shows "(case acquire_scheduler_lease env clk fresh region db of
       Inl e \<Rightarrow> sl_expires_at k > clk 1 \<and> e = AuthorityUnavailable ''regional scheduler lease is held''
     | Inr (l, db') \<Rightarrow> sl_expires_at k \<le> clk 1 \<and> lease_of region db' = Some l
         \<and> sl_owner_id l = pe_scheduler_owner env \<and> sl_owner_epoch l = sl_owner_epoch k + 1 \<and> sl_lease_id l = fresh
         \<and> sl_expires_at l = clk 4 + 10 * 1000000 \<and> db_commands db' = db_commands db)"
  using assms lease_of_put[OF assms(1), of "lease_takeover clk (pe_scheduler_owner env) fresh k"] lease_of_key[OF assms(1)]
  by (auto simp: acquire_scheduler_lease_def Let_def lease_takeover_def LEASE_SECONDS_def)

definition demo_rival :: process_env where
  "demo_rival = demo_env\<lparr>pe_scheduler_owner := uid CHR ''f'', pe_transport_owner := uid CHR ''9''\<rparr>"

theorem lease_changes_hands_only_expired_witness:
  "\<not> isl (acquire_scheduler_lease demo_rival (\<lambda>_. 11 * second) (uid CHR ''8'') ''local'' demo_granted)"
proof -
  have "lease_of ''local'' demo_granted = Some demo_lease"
    by (simp add: lease_of_def demo_granted_def demo_lease_def)
  moreover have "sl_owner_id demo_lease \<noteq> pe_scheduler_owner demo_rival"
    by (simp add: demo_lease_def demo_rival_def demo_env_def uid_def)
  ultimately show ?thesis
    using lease_changes_hands_only_expired[of "''local''" demo_granted demo_lease demo_rival "\<lambda>_. 11 * second" "uid CHR ''8''"]
    by (auto simp: demo_lease_def second_def split: sum.splits)
qed


section \<open>Connections\<close>

text \<open>
  Whatever happens, a registered connection keeps its transport owner, its
  region, and the lease it was registered under; once closed it stays closed, once ended it stays
  ended; its acknowledged floor and its next sequence number never fall.
\<close>

theorem connection_history:
  assumes "reachable P db" "(fleet_step P)\<^sup>*\<^sup>* db db'" "conn_of wid inc db = Some w"
  shows "\<exists>w'. conn_of wid inc db' = Some w' \<and> wc_transport_owner_id w' = wc_transport_owner_id w
     \<and> wc_region w' = wc_region w \<and> wc_owner_epoch w' = wc_owner_epoch w \<and> wc_lease_id w' = wc_lease_id w
     \<and> (wc_closed_at w \<noteq> None \<longrightarrow> wc_closed_at w' \<noteq> None) \<and> (wc_lifecycle w = Ended \<longrightarrow> wc_lifecycle w' = Ended)
     \<and> wc_acknowledged_floor w \<le> wc_acknowledged_floor w'
     \<and> wc_next_command_sequence w \<le> wc_next_command_sequence w'"
  using assms by (rule run_conn) (auto simp: evolves_def open_conn_def)

lemma demo_granted_conn: "conn_of ''w1'' (uid CHR ''1'') demo_granted = Some demo_conn"
  "lease_of ''local'' demo_granted = Some demo_lease"
  by (simp_all add: conn_of_def lease_of_def demo_granted_def demo_conn_def demo_lease_def conn_key_def)

lemmas demo_one_step = r_into_rtranclp[of "fleet_step demo_prims", OF demo_commit_step]

theorem connection_history_witness:
  "\<exists>w'. conn_of ''w1'' (uid CHR ''1'') demo_committed = Some w' \<and> wc_owner_epoch w' = 1"
proof -
  have "wc_owner_epoch demo_conn = 1" by (simp add: demo_conn_def)
  with connection_history[OF demo_granted_reachable demo_one_step demo_granted_conn(1)] show ?thesis by auto
qed

text \<open>
  Property C23 (invariant). A worker id has at most one open connection, and an incarnation names
  one connection for ever: two rows that agree on it are the same row.
\<close>

theorem worker_has_one_open_connection:
  assumes "reachable P db" "v \<in> set (db_connections db)" "w \<in> set (db_connections db)"
    and "wc_worker_id v = wc_worker_id w \<and> wc_closed_at v = None \<and> wc_closed_at w = None
       \<or> wc_incarnation v = wc_incarnation w"
  shows "v = w"
proof -
  have "distinct (map wc_worker_id (filter open_conn (db_connections db)))"
    "distinct (map wc_incarnation (db_connections db))"
    using reachable_inv[OF assms(1)] by (simp_all add: fleet_inv_def one_current_def)
  with assms(2-) show ?thesis
    using distinct_key_unique[of wc_worker_id "filter open_conn (db_connections db)" v w]
      distinct_key_unique[of wc_incarnation "db_connections db" v w]
    by (auto simp: open_conn_def)
qed

theorem worker_has_one_open_connection_witness:
  "find (\<lambda>v. wc_incarnation v = uid CHR ''1'') (db_connections demo_granted) = Some demo_conn"
proof -
  have demo: "demo_conn \<in> set (db_connections demo_granted)" "wc_incarnation demo_conn = uid CHR ''1''"
    by (simp_all add: demo_granted_def demo_conn_def)
  then obtain v where v: "find (\<lambda>v. wc_incarnation v = uid CHR ''1'') (db_connections demo_granted) = Some v"
    by (cases "find (\<lambda>v. wc_incarnation v = uid CHR ''1'') (db_connections demo_granted)") (auto simp: find_None_iff)
  then have "v \<in> set (db_connections demo_granted)" "wc_incarnation v = wc_incarnation demo_conn"
    using demo(2) by (auto dest: find_SomeD)
  with worker_has_one_open_connection[OF demo_granted_reachable this(1) demo(1)] v show ?thesis by simp
qed

section \<open>Fencing\<close>

lemma activate_snd_frame:
  "db_leases (snd (activate_initial_worker env now w i db)) = db_leases db"
  "db_commands (snd (activate_initial_worker env now w i db)) = db_commands db"
  by (auto simp: activate_initial_worker_def set_conn_def split: option.splits)

lemma activate_snd_conn:
  assumes "conn_of w i (snd (activate_initial_worker env now v j db)) = Some c"
  obtains b where "conn_of w i db = Some b" "c = b \<or> c = b\<lparr>wc_lifecycle := Ready\<rparr>"
proof -
  have "conn_key (x\<lparr>wc_lifecycle := Ready\<rparr>) = conn_key x" for x by (simp add: conn_key_def)
  moreover have "snd (activate_initial_worker env now v j db) = db
      \<or> snd (activate_initial_worker env now v j db) = set_conn (v, j) (\<lambda>w. w\<lparr>wc_lifecycle := Ready\<rparr>) db"
    by (auto simp: activate_initial_worker_def split: option.splits)
  ultimately have "conn_of w i db = Some c \<or> (\<exists>b. conn_of w i db = Some b \<and> (c = b \<or> c = b\<lparr>wc_lifecycle := Ready\<rparr>))"
    using assms by (elim disjE) (auto simp: set_conn_def conn_of_upd split: if_splits)
  with that show ?thesis by blast
qed

text \<open>How a grant is renewed.\<close>

lemma renew_grant_returns:
  assumes "renew_worker_grant env clk wid inc nonce db = (Inr g, db')"
  obtains db1 c k where "db1 = snd (activate_initial_worker env (clk 1) wid inc db)"
    "own_open_conn env wid inc db1 = Some c" "wc_grant_nonce c \<noteq> nonce" "lease_of (wc_region c) db1 = Some k"
    "g = grant_of (clk 5) (granted_conn clk nonce k c)" "db' = set_conn (wid, inc) (granted_conn clk nonce k) db1"
proof -
  let ?db1 = "snd (activate_initial_worker env (clk 1) wid inc db)"
  obtain c where c: "such (\<lambda>w. wc_grant_nonce w \<noteq> nonce) (own_open_conn env wid inc ?db1) = Some c"
    using assms by (cases "such (\<lambda>w. wc_grant_nonce w \<noteq> nonce) (own_open_conn env wid inc ?db1)")
      (simp_all add: renew_worker_grant_def Let_def)
  obtain k where "lease_of (wc_region c) ?db1 = Some k"
    using assms c by (cases "lease_of (wc_region c) ?db1") (simp_all add: renew_worker_grant_def Let_def)
  with assms c show ?thesis by (intro that[OF refl]) (auto simp: renew_worker_grant_def Let_def)
qed

lemma stale_grant_not_ready:
  assumes "fst (renew_worker_grant env clk wid inc nonce db) = Inr g" "conn_of wid inc db = Some w"
    and "lease_of (wc_region w) db = Some l" "sl_owner_epoch l > wc_owner_epoch w"
  shows "\<not> wg_ready g"
proof
  assume ready: "wg_ready g"
  let ?db1 = "snd (activate_initial_worker env (clk 1) wid inc db)"
  have "renew_worker_grant env clk wid inc nonce db = (Inr g, snd (renew_worker_grant env clk wid inc nonce db))"
    using assms(1) by (simp add: prod_eq_iff)
  then obtain c k where c: "own_open_conn env wid inc ?db1 = Some c" "lease_of (wc_region c) ?db1 = Some k"
      "g = grant_of (clk 5) (granted_conn clk nonce k c)"
    by (rule renew_grant_returns) blast
  have "conn_of wid inc ?db1 = Some c" using c(1) by (simp add: own_open_conn_def)
  then have "wc_region c = wc_region w" "wc_owner_epoch c = wc_owner_epoch w"
    by (rule activate_snd_conn; use assms(2) in auto)+
  moreover have "lease_of s ?db1 = lease_of s db" for s by (simp add: lease_of_def activate_snd_frame)
  ultimately show False
    using c(2,3) assms(3,4) ready by (auto simp: grant_of_def granted_conn_def grantable_def)
qed

text \<open>A transaction of these that must pass a step which fails fails.\<close>

lemma isl_bindR: "(\<And>x. r = Inr x \<Longrightarrow> isl (f x)) \<Longrightarrow> isl (bindR r f)"
  by (cases r) simp_all

lemma isl_raise_if: "(\<not> b \<Longrightarrow> isl r) \<Longrightarrow> isl (raise_if b e r)"
  by (simp add: raise_if_def)

lemma isl_case_option: "isl e \<Longrightarrow> (\<And>x. v = Some x \<Longrightarrow> isl (f x)) \<Longrightarrow> isl (case v of None \<Rightarrow> e | Some x \<Rightarrow> f x)"
  by (cases v) simp_all

lemmas refused_intros = isl_bindR isl_raise_if isl_case_option

lemma report_needs_authority:
  assumes "\<And>region. isl (report_authority env (clk 1) wid inc region db)"
  shows "isl (commit_worker_report P env clk wid inc rep db)"
proof -
  have "report_authority env (clk 1) wid inc region db \<noteq> Inr x" for region x using assms[of region] by auto
  then show ?thesis unfolding commit_worker_report_def by (intro refused_intros) simp_all
qed

lemma delivery_needs_lease:
  assumes "conn_of wid inc db = Some w" "\<And>l. lease_of (wc_region w) db = Some l \<Longrightarrow> \<not> delivery_lease_current env owner l w"
  shows "isl (register_delivery P env clk c wid inc owner out db)"
  unfolding register_delivery_def assms(1) option.case by (intro refused_intros) (simp_all add: assms(2))

text \<open>
  Property C6 (safety). Once the lease of a region has moved past the epoch a connection was
  registered under, nothing later in the run revives the connection: no command can be committed
  for it, the reader of its journal hands out no command of it, no delivery to it is registered, no work
  grant of it is ready, its heartbeats are refused and no report of it is accepted.
\<close>

theorem stale_connection_is_fenced:
  assumes "reachable P db" "(fleet_step P)\<^sup>*\<^sup>* db db'" "conn_of wid inc db = Some w"
    and "lease_of (wc_region w) db = Some l" "sl_owner_epoch l > wc_owner_epoch w"
  shows "(rq_worker_id r = wid \<and> rq_incarnation r = inc \<longrightarrow> isl (commit_command P env clk cid nonce r hdb db'))
     \<and> (\<forall>c. read_exact_pending P env now wid inc reader db' \<noteq> Inr (Some c))
     \<and> isl (register_delivery P env clk command wid inc owner out db')
     \<and> (\<forall>g. fst (renew_worker_grant env clk wid inc nonce db') = Inr g \<longrightarrow> \<not> wg_ready g)
     \<and> isl (touch_worker env clk wid inc p95 db')
     \<and> isl (commit_worker_report Q env clk wid inc rep db')"
proof -
  obtain w' where w': "conn_of wid inc db' = Some w'" "evolves w w'" using assms(1-3) by (rule run_conn)
  obtain l' where "lease_of (wc_region w) db' = Some l'" "lease_evolves l l'" using assms(1,2,4) by (rule run_lease)
  with w'(2) assms(5) have l': "lease_of (wc_region w') db' = Some l'" "sl_owner_epoch l' > wc_owner_epoch w'"
    by (simp_all add: lease_evolves_def evolves_def)
  have "isl (commit_command P env clk cid nonce r hdb db')" if "rq_worker_id r = wid" "rq_incarnation r = inc"
  proof (rule ccontr)
    assume "\<not> isl (commit_command P env clk cid nonce r hdb db')"
    then obtain out db2 where "commit_command P env clk cid nonce r hdb db' = Inr (out, db2)"
      by (cases "commit_command P env clk cid nonce r hdb db'") auto
    then show False by (rule commit_command_authority) (use that w' l' in auto)
  qed
  moreover have "\<not> wg_ready g" if "fst (renew_worker_grant env clk wid inc nonce db') = Inr g" for g
    using that w'(1) l' by (rule stale_grant_not_ready)
  moreover have "delivery_authority now wid inc o' db' = None" for o'
    using w' l' by (auto simp: delivery_authority_def such_def split: option.splits)
  then have "read_exact_pending P env now wid inc reader db' \<noteq> Inr (Some c)" for c
    by (auto simp: read_exact_pending_def read_fenced_def Let_def split: option.splits)
  moreover have "isl (touch_worker env clk wid inc p95 db')"
    using w' l' by (auto simp: touch_worker_def own_open_conn_def conn_lease_live_def such_def split: option.splits)
  moreover have "isl (commit_worker_report Q env clk wid inc rep db')"
    by (rule report_needs_authority)
      (use w' l' in \<open>auto simp: report_authority_def own_open_conn_def such_def raise_if_def split: option.splits\<close>)
  moreover have "isl (register_delivery P env clk command wid inc owner out db')"
    by (rule delivery_needs_lease[OF w'(1)]) (use l' in \<open>auto simp: delivery_lease_current_def\<close>)
  ultimately show ?thesis by blast
qed

text \<open>The rival of the demo installation takes its lease over.\<close>

definition demo_rival_lease :: scheduler_lease where
  "demo_rival_lease = \<lparr>sl_region = ''local'', sl_owner_id = uid CHR ''f'', sl_owner_epoch = 2,
     sl_lease_id = uid CHR ''8'', sl_expires_at = 21 * second\<rparr>"

lemma demo_takeover:
  "acquire_scheduler_lease demo_rival (\<lambda>_. 11 * second) (uid CHR ''8'') ''local'' demo_granted
     = Inr (demo_rival_lease, demo_granted\<lparr>db_leases := [demo_rival_lease]\<rparr>)"
  by code_simp

theorem stale_connection_is_fenced_witness:
  "isl (commit_command demo_prims demo_env (\<lambda>_. 3 * second) (uid CHR ''5'') demo_nonce demo_request demo_granted
     (demo_granted\<lparr>db_leases := [demo_rival_lease]\<rparr>))"
proof -
  let ?db = "demo_granted\<lparr>db_leases := [demo_rival_lease]\<rparr>"
  have "reachable demo_prims ?db"
    by (rule reachable_run[OF demo_granted_reachable], rule r_into_rtranclp[of "fleet_step demo_prims"])
      (rule fleet_step.acquire[OF demo_takeover])
  moreover have "conn_of ''w1'' (uid CHR ''1'') ?db = Some demo_conn" "lease_of (wc_region demo_conn) ?db = Some demo_rival_lease"
    "sl_owner_epoch demo_rival_lease > wc_owner_epoch demo_conn"
    using demo_granted_conn(1) by (simp_all add: conn_of_def lease_of_def demo_conn_def demo_rival_lease_def)
  ultimately show ?thesis
    using stale_connection_is_fenced[of demo_prims ?db ?db "''w1''" "uid CHR ''1''" demo_conn demo_rival_lease demo_request]
    by (simp add: demo_request_def)
qed

section \<open>Work grants\<close>

text \<open>
  A ready work grant never outlives the lease it rests on nor ten seconds:
  when a renewal returns one, the lease of the region was live and is the connection's own, the
  stored grant expires no later than that lease and no later than ten seconds after the clock
  reading it was computed from, and (with a clock that does not run backwards) at most 10000 ms
  remain. The nonce is spent: a second renewal with it is refused.
\<close>

theorem grant_is_bounded:
  assumes "renew_worker_grant env clk wid inc nonce db = (Inr g, db')" "wg_ready g" "clk 3 \<le> clk 5"
  shows "wg_remaining_ms g \<le> 10000 \<and> wg_grant_nonce g = nonce
     \<and> (\<exists>w l. conn_of wid inc db' = Some w \<and> lease_of (wc_region w) db' = Some l \<and> wc_grant_ready w
          \<and> wc_grant_nonce w = nonce \<and> sl_owner_epoch l = wc_owner_epoch w \<and> sl_lease_id l = wc_lease_id w
          \<and> sl_expires_at l > clk 4 \<and> wc_grant_expires_at w \<le> max (clk 3) (sl_expires_at l)
          \<and> wc_grant_expires_at w \<le> clk 3 + 10 * 1000000)
     \<and> isl (fst (renew_worker_grant env' clk' wid inc nonce db'))"
  using assms(1)
proof (rule renew_grant_returns)
  fix db1 c k
  assume db1: "db1 = snd (activate_initial_worker env (clk 1) wid inc db)"
    and c: "own_open_conn env wid inc db1 = Some c" "lease_of (wc_region c) db1 = Some k"
    and g: "g = grant_of (clk 5) (granted_conn clk nonce k c)"
    and db': "db' = set_conn (wid, inc) (granted_conn clk nonce k) db1"
  let ?w = "granted_conn clk nonce k c"
  have keyed: "conn_key (granted_conn clk nonce k x) = conn_key x" for x by (simp add: granted_conn_def conn_key_def)
  have conn: "conn_of wid inc db1 = Some c" "conn_key c = (wid, inc)" using c(1) conn_of_key by (auto simp: own_open_conn_def)
  then have w: "conn_of wid inc db' = Some ?w" by (simp add: db' set_conn_def conn_of_upd keyed)
  moreover have "lease_of r db' = lease_of r db1" for r by (simp add: db' set_conn_def lease_of_def)
  moreover have ready: "grantable (clk 4) k c" using assms(2) by (simp add: g grant_of_def granted_conn_def)
  moreover have "wc_grant_expires_at ?w \<le> max (clk 3) (sl_expires_at k)" "wc_grant_expires_at ?w \<le> clk 3 + 10 * 1000000"
    by (auto simp: granted_conn_def)
  moreover have "(wc_grant_expires_at ?w - clk 5) div 1000 \<le> 10000"
    using assms(3) zdiv_mono1[of "wc_grant_expires_at ?w - clk 5" "10000000" 1000] by (auto simp: granted_conn_def)
  moreover have "isl (fst (renew_worker_grant env' clk' wid inc nonce db'))"
  proof (rule ccontr)
    assume "\<not> isl (fst (renew_worker_grant env' clk' wid inc nonce db'))"
    then obtain g' where "renew_worker_grant env' clk' wid inc nonce db' = (Inr g', snd (renew_worker_grant env' clk' wid inc nonce db'))"
      by (metis sum.collapse(2) prod.collapse)
    then show False
    proof (rule renew_grant_returns)
      fix db2 x assume "db2 = snd (activate_initial_worker env' (clk' 1) wid inc db')"
        "own_open_conn env' wid inc db2 = Some x" and fresh: "wc_grant_nonce x \<noteq> nonce"
      then have "conn_of wid inc (snd (activate_initial_worker env' (clk' 1) wid inc db')) = Some x"
        by (simp add: own_open_conn_def)
      then show False by (rule activate_snd_conn) (use w fresh in \<open>auto simp: granted_conn_def\<close>)
    qed
  qed
  ultimately show ?thesis using c(2) by (auto simp: g grant_of_def granted_conn_def grantable_def)
qed

theorem grant_is_bounded_witness: "wg_remaining_ms demo_grant \<le> 10000"
  using grant_is_bounded[OF demo_renew_grant] by (simp add: demo_grant_def)


section \<open>Keeping the lease\<close>

lemma acquire_free_lease:
  assumes "\<And>l. lease_of region db = Some l \<Longrightarrow> sl_owner_id l = pe_scheduler_owner env \<or> sl_expires_at l \<le> clk 1"
  obtains l db' where "acquire_scheduler_lease env clk fresh region db = Inr (l, db')"
    "lease_of region db' = Some l" "sl_owner_id l = pe_scheduler_owner env"
proof (cases "lease_of region db")
  case None
  then have new: "lease_of region (db_leases_update (\<lambda>rows. rows @ [l]) db) = (if sl_region l = region then Some l else None)" for l
    by (simp add: lease_of_def find_append)
  let ?l = "\<lparr>sl_region = region, sl_owner_id = pe_scheduler_owner env, sl_owner_epoch = 1, sl_lease_id = fresh,
      sl_expires_at = clk 1 + LEASE_SECONDS\<rparr>"
  have "acquire_scheduler_lease env clk fresh region db
      = Inr (?l, refresh_conn_leases ?l (db_leases_update (\<lambda>rows. rows @ [?l]) db))"
    by (simp add: acquire_scheduler_lease_def None Let_def)
  then show ?thesis by (rule that) (simp_all add: new)
next
  case (Some k)
  let ?l = "lease_takeover clk (pe_scheduler_owner env) fresh k"
  have eq: "acquire_scheduler_lease env clk fresh region db = Inr (?l, refresh_conn_leases ?l (put_lease ?l db))"
    using assms[OF Some] by (simp add: acquire_scheduler_lease_def Some Let_def)
  have own: "sl_region ?l = region" "sl_owner_id ?l = pe_scheduler_owner env"
    using lease_of_key[OF Some] by (simp_all add: lease_takeover_def)
  show ?thesis by (rule that[OF eq]) (simp_all add: own lease_of_put[OF Some own(1)])
qed

text \<open>
  Property C22 (liveness). A process whose region is free for it (no lease, its own, or one that has
  run out) holds the lease after one or two iterations of \<open>maintain_scheduler_lease\<close>, whatever it
  believed to hold before: a belief that is wrong costs the first iteration, and nothing is written
  by an iteration that fails.
\<close>

theorem scheduler_recovers_the_lease:
  assumes free: "\<And>l. lease_of REGION db = Some l \<Longrightarrow> sl_owner_id l = pe_scheduler_owner env \<or> sl_expires_at l \<le> t"
    and clocks: "t \<le> clk 1" "t \<le> clk' 1"
    and held: "\<And>l. held = Some l \<Longrightarrow> sl_region l = REGION"
  shows "\<exists>st \<in> {maintain_step env clk fresh (held, db), maintain_step env clk' fresh' (maintain_step env clk fresh (held, db))}.
     \<exists>l. fst st = Some l \<and> lease_of REGION (snd st) = Some l \<and> sl_owner_id l = pe_scheduler_owner env"
proof -
  have acquired: "\<exists>l. fst (maintain_step env c f (None, db)) = Some l
      \<and> lease_of REGION (snd (maintain_step env c f (None, db))) = Some l \<and> sl_owner_id l = pe_scheduler_owner env"
    if "t \<le> c 1" for c f
  proof -
    have "sl_owner_id l = pe_scheduler_owner env \<or> sl_expires_at l \<le> c 1" if "lease_of REGION db = Some l" for l
      using free[OF that] \<open>t \<le> c 1\<close> by auto
    then obtain l db' where "acquire_scheduler_lease env c f REGION db = Inr (l, db')"
        "lease_of REGION db' = Some l" "sl_owner_id l = pe_scheduler_owner env"
      using acquire_free_lease[of REGION db env c f] by blast
    then show ?thesis by (auto simp: maintain_step_def)
  qed
  show ?thesis
  proof (cases held)
    case None
    with acquired[of clk fresh, OF clocks(1)] show ?thesis by auto
  next
    case (Some k)
    show ?thesis
    proof (cases "renew_scheduler_lease env clk (Some k) db")
      case (Inl e)
      then have "maintain_step env clk fresh (held, db) = (None, db)" by (simp add: maintain_step_def Some)
      with acquired[of clk' fresh', OF clocks(2)] show ?thesis by auto
    next
      case (Inr r)
      obtain q where q: "lease_of (sl_region k) db = Some q" "same_lease k env q"
          "r = (q\<lparr>sl_expires_at := clk 2 + LEASE_SECONDS\<rparr>,
                refresh_conn_leases (q\<lparr>sl_expires_at := clk 2 + LEASE_SECONDS\<rparr>)
                  (put_lease (q\<lparr>sl_expires_at := clk 2 + LEASE_SECONDS\<rparr>) db))"
        using Inr by (auto simp: renew_scheduler_lease_def Let_def split: option.splits)
      have "maintain_step env clk fresh (held, db) = (Some (fst r), snd r)"
        using Inr by (simp add: maintain_step_def Some split: prod.splits)
      moreover have "lease_of REGION (snd r) = Some (fst r)"
        using held[OF Some] lease_of_key[OF q(1)] q(1) by (simp add: q(3) lease_of_put)
      moreover have "sl_owner_id (fst r) = pe_scheduler_owner env" using q(2,3) by (simp add: same_lease_def)
      ultimately show ?thesis by auto
    qed
  qed
qed

theorem scheduler_recovers_the_lease_witness:
  "\<exists>st. fst st \<noteq> (None :: scheduler_lease option) \<and> lease_of REGION (snd st :: fleet_db) \<noteq> None"
proof -
  have "sl_owner_id l = pe_scheduler_owner demo_rival \<or> sl_expires_at l \<le> 11 * second"
    if "lease_of REGION demo_granted = Some l" for l
    using that demo_granted_conn(2) by (auto simp: REGION_def demo_lease_def second_def)
  from scheduler_recovers_the_lease[where db = demo_granted and env = demo_rival and t = "11 * second" and held = None
      and clk = "\<lambda>_. 11 * second" and clk' = "\<lambda>_. 12 * second", OF this]
  show ?thesis by (fastforce simp: second_def)
qed

section \<open>Registration\<close>

text \<open>
  A registration succeeds only under a live lease of this process and for
  an incarnation never used before. It then closes every open connection of the same worker id,
  leaves every other row alone, and adds a connecting, ungranted row under the lease with an empty
  journal.
\<close>

theorem registration_replaces_the_worker:
  assumes "register_worker env clk h db = Inr (l, db')"
  shows "lease_of ''local'' db = Some l \<and> sl_expires_at l > clk 1 \<and> sl_owner_id l = pe_scheduler_owner env
     \<and> hf_incarnation h \<notin> wc_incarnation ` set (db_connections db)
     \<and> (\<exists>w. db_connections db' = map (\<lambda>v. if wc_worker_id v = hf_worker_id h \<and> wc_closed_at v = None
              then v\<lparr>wc_lifecycle := Ended, wc_closed_at := Some (clk 2)\<rparr> else v) (db_connections db) @ [w]
          \<and> conn_key w = (hf_worker_id h, hf_incarnation h) \<and> wc_closed_at w = None \<and> wc_lifecycle w = Connecting
          \<and> \<not> wc_grant_ready w \<and> wc_owner_epoch w = sl_owner_epoch l \<and> wc_lease_id w = sl_lease_id l
          \<and> wc_acknowledged_floor w = 0 \<and> wc_next_command_sequence w = 1)"
proof -
  let ?close = "\<lambda>v. v\<lparr>wc_lifecycle := Ended, wc_closed_at := Some (clk 2)\<rparr>"
  let ?ws = "upd_where (abandoned_conn env l (hf_worker_id h)) ?close (db_connections db)"
  have l: "lease_of ''local'' db = Some l" "sl_expires_at l > clk 1" "sl_owner_id l = pe_scheduler_owner env"
      "hf_incarnation h \<notin> wc_incarnation ` set (db_connections db)"
      "db_connections db' = ?ws @ [new_connection env clk l h]"
      "\<forall>w \<in> set ?ws. \<not> (wc_worker_id w = hf_worker_id h \<and> open_conn w)"
    using assms by (auto simp: register_worker_def live_lease_def REGION_def Let_def split: option.splits)
  have "abandoned_conn env l (hf_worker_id h) v \<longleftrightarrow> wc_worker_id v = hf_worker_id h \<and> wc_closed_at v = None"
    if "v \<in> set (db_connections db)" for v
    using l(6) that by (auto simp: set_upd_where abandoned_conn_def open_conn_def split: if_splits)
  then have "?ws = map (\<lambda>v. if wc_worker_id v = hf_worker_id h \<and> wc_closed_at v = None then ?close v else v) (db_connections db)"
    by (simp add: upd_where_def)
  with l show ?thesis by (simp add: new_connection_def conn_key_def split: prod.splits)
qed

theorem registration_replaces_the_worker_witness:
  "hf_incarnation demo_hello \<notin> wc_incarnation ` set (db_connections (demo_start\<lparr>db_leases := [demo_lease]\<rparr>))"
  using registration_replaces_the_worker[OF demo_register] by blast

end
