(* ===== verification/Demo_Journal.thy ===== *)
theory Demo_Journal
  imports Demo_Fleet Fleet_Effects
begin

text \<open>
  The demo installation after its dispatched job was acknowledged, for the witnesses of the
  properties of the journal.
\<close>

definition demo_ack :: dict where
  "demo_ack = [(''type'', JStr ''command_ack''), (''status'', JStr ''accepted''), (''worker_id'', JStr ''w1''),
     (''incarnation'', JStr (uid CHR ''1'')), (''region'', JStr ''local''), (''owner_epoch'', JInt 1),
     (''lease_id'', JStr (uid CHR ''3'')), (''lease_expires_at'', JStr ''1970-01-01T00:00:10Z''),
     (''grant_nonce'', JStr (uid CHR ''4'')), (''command_sequence'', JInt 1), (''command_id'', JStr (uid CHR ''5'')),
     (''body_hash'', JStr demo_hash), (''job_id'', JStr (uid CHR ''d'')), (''dispatch_sequence'', JInt 1)]"

definition demo_ack_body :: string where
  "demo_ack_body = dumps (\<lambda>_. ''0.5'') (JObj demo_ack)"

lemma demo_ack_valid: "validate_message demo_p6 (JObj demo_ack) (Some ''w1'') (Some (uid CHR ''1'')) = Inr ()"
  by code_simp

lemma demo_ack_json: "check_json 0 (JObj demo_ack) = Inr ()" "ints_printable (JObj demo_ack)"
  "int (length demo_ack_body) < 1000"
  by code_simp+

lemma demo_ack_type: "dget demo_ack ''type'' = Some (JStr ''command_ack'')"
  "dget demo_ack ''command_sequence'' = Some (JInt 1)" "consuming demo_ack"
  by code_simp+

lemma demo_accept: "accept_ack demo_p6 (JObj demo_ack) ''w1'' (uid CHR ''1'') = Inr (demo_ack, demo_ack_body)"
  using demo_ack_json
  by (simp add: accept_ack_def demo_ack_valid demo_ack_type canonical_bytes_def demo_ack_body_def raise_if_def)

lemma demo_row_fields: "cmd_command_id demo_row = uid CHR ''5''" "cmd_body_hash demo_row = demo_hash"
  "cmd_kind demo_row = ''dispatch_job''" "cmd_ack_identity_hash demo_row = Some demo_hash" "cmd_sequence demo_row = 1"
  "cmd_state demo_row = Pending" "cmd_account_user_id demo_row = Some (uid CHR ''c'')" "cmd_key_version demo_row = Some 1"
  "cmd_encrypted_body demo_row = Some demo_blob" "cmd_key demo_row = (''w1'', uid CHR ''1'', 1)"
  "cmd_conn demo_row = (''w1'', uid CHR ''1'')"
  by (simp_all add: demo_row_def pending_command_def demo_sealed_def cmd_key_def cmd_conn_def)

lemma demo_ack_names:
  "ack_identity_hash demo_p6 ''dispatch_job'' demo_ack = Inr demo_hash"
  "dget demo_ack ''command_id'' = Some (JStr (uid CHR ''5''))" "dget demo_ack ''body_hash'' = Some (JStr demo_hash)"
  by code_simp+

lemma demo_names_row: "ack_names_row demo_p6 demo_ack (Some demo_row) demo_row"
  by (simp add: ack_names_row_def demo_row_fields demo_ack_names)

lemma demo_utf8: "utf8_bytes (map of_char demo_body)"
  by code_simp

lemma demo_pending_body: "pending_body demo_prims ''w1'' (uid CHR ''1'') 1 demo_row = Inr (Some demo_command)"
proof -
  obtain aad where aad: "command_aad demo_p6 ''w1'' (uid CHR ''1'') 1 (uid CHR ''5'') demo_hash = Inr aad"
    using demo_aad by blast
  have ring: "ring_ok demo_ring" "ring_versions demo_ring = {1}" "kr_active demo_ring = 1"
    by (code_simp, simp_all add: ring_versions_def demo_ring_def)
  have blob: "encrypt clear_crypto demo_ring demo_nonce ''worker-command'' demo_body aad = Inr demo_blob"
    by (simp add: encrypt_def derive_def root_of_def demo_ring_def clear_crypto_def demo_blob_def)
  have plain: "decrypt clear_crypto demo_ring ''worker-command'' demo_blob aad = Inr demo_body"
    by (rule decrypt_encrypt[OF ring(1) keeps_write_key_refl clear_crypto_laws _ blob])
      (simp add: demo_nonce_def NONCE_BYTES_def)
  have size: "demo_body \<noteq> []" "length demo_body < 1000" using demo_short by (auto simp: demo_body_def)
  have loads: "decode_control demo_loads (Raw_bytes demo_body) = Inr demo_command"
    using size demo_utf8 by (simp add: decode_control_def raw_data_def demo_loads_def loaded_def demo_canonical demo_limit MAX_HELLO_BYTES_def
        MAX_PARAMETER_CONTROL_BYTES_def)
  show ?thesis
    by (simp add: pending_body_def demo_row_fields ring aad plain loads ring_refused_def value_error_as_def)
qed

lemma demo_matches: "ack_matches demo_command demo_ack"
  by code_simp

definition demo_acked_row :: worker_command where
  "demo_acked_row = acknowledged_command (4 * second) demo_ack demo_ack_body demo_row"

definition demo_acked :: fleet_db where
  "demo_acked = demo_committed\<lparr>db_commands := [],
     db_connections := [demo_conn\<lparr>wc_next_command_sequence := 2, wc_acknowledged_floor := 1\<rparr>]\<rparr>"

definition demo_recorded :: ack_result where
  "demo_recorded = \<lparr>ar_recorded = True, ar_obsolete = False, ar_publication = None\<rparr>"

lemma demo_acknowledge:
  "acknowledge demo_prims demo_env (\<lambda>_. 4 * second) (JObj demo_ack) ''w1'' (uid CHR ''1'') (uid CHR ''b'') demo_committed
     demo_committed = Inr (demo_recorded, demo_acked)"
proof -
  let ?w = "demo_conn\<lparr>wc_next_command_sequence := 2\<rparr>"
  have conn: "conn_of ''w1'' (uid CHR ''1'') demo_committed = Some ?w" "conn_key ?w = (''w1'', uid CHR ''1'')"
    by (simp_all add: conn_of_def demo_committed_def conn_key_def demo_conn_def)
  have rows: "conn_commands ''w1'' (uid CHR ''1'') demo_committed = [demo_row]"
    "command_of ''w1'' (uid CHR ''1'') 1 demo_committed = Some demo_row" "db_commands demo_committed = [demo_row]"
    by (simp_all add: conn_commands_def command_of_def demo_committed_def demo_row_fields)
  have subject: "lock_update_ack_subject (Some demo_row) demo_committed = (None, None, None)"
    by (simp add: lock_update_ack_subject_def demo_row_fields)
  have floor: "advance_floor (ack_settled demo_prims demo_ack 1 [demo_row]) 2 0 = 1"
  proof -
    have "ack_settled demo_prims demo_ack 1 [demo_row] 1"
      by (simp add: ack_settled_def row_at_sequence_def demo_row_fields demo_ack_type(3))
    then show ?thesis by (subst advance_floor.simps, simp, subst advance_floor.simps, simp)
  qed
  have "acknowledge demo_prims demo_env (\<lambda>_. 4 * second) (JObj demo_ack) ''w1'' (uid CHR ''1'') (uid CHR ''b'')
     demo_committed demo_committed = Inr (demo_recorded, settle_floor ''w1'' (uid CHR ''1'') 0 1
       (update_command_row ''w1'' (uid CHR ''1'') 1 (acknowledged_command (4 * second) demo_ack demo_ack_body) demo_committed))"
    using demo_matches
    by (simp add: acknowledge_def demo_accept demo_ack_type conn rows subject row_at_sequence_def demo_row_fields
        demo_names_row ack_row_def ack_pending_row_def demo_pending_body demo_recorded_def Let_def raise_if_def)
      (simp add: demo_conn_def floor)
  also have "\<dots> = Inr (demo_recorded, demo_acked)"
    by (simp add: settle_floor_def update_command_row_def rows demo_acked_def demo_row_fields demo_committed_def
        del_where_def conn_key_def acknowledged_command_def demo_granted_def demo_start_def cmd_conn_def)
      (simp add: demo_conn_def demo_row_def pending_command_def)
  finally show ?thesis .
qed

lemma demo_acked_reachable: "reachable demo_prims demo_acked"
  by (rule reachable_run[OF demo_committed_reachable], rule r_into_rtranclp[of "fleet_step demo_prims"])
    (rule fleet_step.acknowledge[OF demo_acknowledge])

end
