(* ===== verification/Command_Contract.thy ===== *)
theory Command_Contract
  imports Demo_Journal
begin

text \<open>
  What the command journal promises to its callers: a commit adds one command under live authority,
  an acknowledgement settles exactly the command it proves and may be repeated, an erasure leaves
  no body of what it erased and fences the workers that may hold one.
\<close>

section \<open>Acknowledging\<close>

text \<open>The floor does not move again: what stopped it is unchanged, and the named row is behind it or settled.\<close>

lemma ack_floor_settled:
  assumes inv: "journal_inv db" "journal_inv db'" and row: "row \<in> set (db_commands db)" "cmd_key row = (wid, inc, n)"
    and ack: "consuming ack" "cmd_ack_identity_hash row \<noteq> None"
    and flr: "flr = advance_floor (ack_settled P ack n (conn_commands wid inc db)) next old"
    and cmds: "set (db_commands db') \<subseteq> (\<lambda>c. if c = row then f c else c) ` set (db_commands db)" "cmd_key (f row) = cmd_key row"
  shows "advance_floor (ack_settled P ack n (conn_commands wid inc db')) next flr = flr"
proof (rule advance_floor_stop, rule ccontr)
  assume "\<not> (\<not> ack_settled P ack n (conn_commands wid inc db') (flr + 1) \<or> next \<le> flr + 1)"
  then have more: "ack_settled P ack n (conn_commands wid inc db') (flr + 1)" "flr + 1 < next" by auto
  note keyed = journal_invD(2)[OF inv(1)] journal_invD(2)[OF inv(2)]
  have stopped: "\<not> ack_settled P ack n (conn_commands wid inc db) (flr + 1)"
    using more(2) flr advance_floor_maximal by blast
  obtain c where c: "row_at_sequence (flr + 1) (conn_commands wid inc db') = Some c"
      "flr + 1 = n \<or> known_acknowledged P c \<and> cmd_ack_identity_hash c \<noteq> None"
    using more(1) by (auto simp: ack_settled_def split: option.splits)
  have c': "c \<in> set (db_commands db')" "cmd_key c = (wid, inc, flr + 1)"
    using c(1) by (simp_all add: row_at_sequence_conn[OF keyed(2)])
  have "ack_settled P ack n (conn_commands wid inc db) (flr + 1)"
  proof (cases "flr + 1 = n")
    case True
    then have "row_at_sequence (flr + 1) (conn_commands wid inc db) = Some row"
      using row by (simp add: row_at_sequence_conn[OF keyed(1)])
    with True ack show ?thesis by (simp add: ack_settled_def)
  next
    case False
    obtain b where "b \<in> set (db_commands db)" "c = (if b = row then f b else b)" using cmds(1) c'(1) by auto
    moreover have "b \<noteq> row" using calculation(2) cmds(2) row(2) c'(2) False by auto
    ultimately have "row_at_sequence (flr + 1) (conn_commands wid inc db) = Some c"
      using c'(2) by (simp add: row_at_sequence_conn[OF keyed(1)])
    with False c(2) show ?thesis by (simp add: ack_settled_def)
  qed
  with stopped show False by blast
qed

text \<open>
  An acknowledgement that was recorded may be sent again, at any time
  after, with any hint: the repetition returns, publishes nothing and leaves the database as it is.
\<close>

theorem acknowledgement_is_idempotent:
  assumes "reachable P db" "acknowledge P env clk message wid inc owner hdb db = Inr (res, db')" "ar_recorded res"
  shows "\<exists>res'. acknowledge P env' clk' message wid inc owner hdb' db' = Inr (res', db') \<and> ar_publication res' = None"
proof -
  have inv: "journal_inv db" "journal_inv db'"
    using reachable_journal[OF assms(1)] acknowledge_inv[OF _ assms(2)] by auto
  note keyed' = journal_invD(2)[OF inv(2)]
  show ?thesis using inv(1) assms(2,3)
  proof (rule acknowledge_effect)
    fix ack body row w f flr w'
    let ?n = "the_int (dget ack ''command_sequence'')"
    let ?rows = "\<lambda>d. conn_commands wid inc d"
    assume ack: "accept_ack (fp_p6 P) message wid inc = Inr (ack, body)" "consuming ack"
      and row: "row \<in> set (db_commands db)" "cmd_key row = (wid, inc, ?n)"
        "ack_names_row (fp_p6 P) ack (command_of wid inc ?n hdb) row" "tame f row" "cmd_state (f row) = Acknowledged"
      and flr: "flr = advance_floor (ack_settled P ack ?n (?rows db)) (wc_next_command_sequence w) (wc_acknowledged_floor w)"
      and cmds: "set (db_commands db') = {c. c \<in> (\<lambda>c. if c = row then f c else c) ` set (db_commands db)
         \<and> \<not> (flr > wc_acknowledged_floor w \<and> cmd_conn c = (wid, inc) \<and> cmd_sequence c \<le> flr \<and> cmd_state c = Acknowledged)}"
      and w': "conn_of wid inc db' = Some w'" "wc_acknowledged_floor w' = flr"
        "wc_next_command_sequence w' = wc_next_command_sequence w" "wc_transport_owner_id w' = owner"
    have key: "cmd_key (f row) = cmd_key row" using row(4) by (simp add: tame_def)
    have hash: "cmd_ack_identity_hash row \<noteq> None" using row(3) by (auto simp: ack_names_row_def split: option.splits)
    have still: "advance_floor (ack_settled P ack ?n (?rows db')) (wc_next_command_sequence w') (wc_acknowledged_floor w') = flr"
      unfolding w' by (rule ack_floor_settled[where f = f, OF inv row(1,2) ack(2) hash flr _ key]) (use cmds in blast)
    have fixed: "settle_floor wid inc flr flr db' = db'" by (simp add: settle_floor_def)
    have state: "cmd_state c = Acknowledged" if c: "row_at_sequence ?n (?rows db') = Some c" for c
    proof -
      have c': "c \<in> set (db_commands db')" "cmd_key c = (wid, inc, ?n)"
        using c by (simp_all add: row_at_sequence_conn[OF keyed'])
      then obtain b where b: "b \<in> set (db_commands db)" "c = (if b = row then f b else b)" using cmds by auto
      have "cmd_key b = cmd_key row" using b(2) c'(2) row(2) by (simp split: if_splits)
      then have "b = row"
        by (rule distinct_key_unique[OF journal_invD(2)[OF inv(1), unfolded cmds.keyed_def] b(1) row(1)])
      with b row(5) show ?thesis by simp
    qed
    show ?thesis
      using state still fixed
      by (auto simp: acknowledge_def ack w' Let_def ack_row_def not_recorded_def obsolete_ack_def split: option.splits)
  qed
qed


theorem acknowledgement_is_idempotent_witness:
  "\<exists>res. acknowledge demo_prims demo_env (\<lambda>_. 5 * second) (JObj demo_ack) ''w1'' (uid CHR ''1'') (uid CHR ''b'')
     demo_acked demo_acked = Inr (res, demo_acked) \<and> ar_publication res = None"
  by (rule acknowledgement_is_idempotent[OF demo_committed_reachable demo_acknowledge]) (simp add: demo_recorded_def)

text \<open>The sequence number an accepted acknowledgement of a known kind names is an integer.\<close>

lemma accepted_ack_sequence:
  assumes "accept_ack P message w i = Inr (ack, body)" "ack_identity_hash P kind ack = Inr h"
  shows "\<exists>n. dget ack ''command_sequence'' = Some (JInt n)"
proof -
  have ok: "message = JObj ack" "validate_message P (JObj ack) (Some w) (Some i) = Inr ()"
      "dget ack ''type'' = Some (JStr ''command_ack'')"
    using assms(1) by (auto simp: accept_ack_def split: sum.splits json.splits)
  have types: "validate_types (JObj ack) [] = Inr ()"
    by (rule validate_message_stages[OF ok(2)]) simp
  obtain v where v: "dget ack ''command_sequence'' = Some v"
    using assms(2) by (auto simp: ack_identity_hash_def ack_identity_projection_def bindR_Inr_iff Let_def ACK_COMMON_def
        has_key_def split: option.splits)
  have "validate_field ''command_sequence'' v = Inr ()" using types v by (rule validate_types_field)
  then have "integer_value True v" by (simp add: validate_field_def all_ok_iff POSITIVE_def)
  with v show ?thesis by (cases v) auto
qed

text \<open>A settled row that is found no more has been passed by the floor.\<close>

lemma settled_row_passed:
  assumes "row \<in> set rows" "cmd_key row = (wid, inc, n)" "cmd_key (f row) = cmd_key row"
    and "set (db_commands db') = {c. c \<in> (\<lambda>c. if c = row then f c else c) ` set rows
         \<and> \<not> (flr > old \<and> cmd_conn c = (wid, inc) \<and> cmd_sequence c \<le> flr \<and> cmd_state c = Acknowledged)}"
    and "command_of wid inc n db' = None"
  shows "cmd_sequence row \<le> flr"
proof -
  have "f row \<notin> set (db_commands db')" using assms(2,3,5) by (auto simp: command_of_def find_None_iff)
  moreover have "f row \<in> (\<lambda>c. if c = row then f c else c) ` set rows" using assms(1) by (intro image_eqI[of _ _ row]) simp_all
  ultimately have "cmd_sequence (f row) \<le> flr" unfolding assms(4) by blast
  with assms(3) show ?thesis by (simp add: cmd_key_def)
qed

lemma recorded_ack_effect:
  assumes "reachable P db" "acknowledge P env clk message wid inc owner hdb db = Inr (res, db')" "ar_recorded res"
  shows "\<exists>ack row w w'. message = JObj ack \<and> consuming ack \<and> conn_of wid inc db = Some w \<and> wc_transport_owner_id w = owner
     \<and> dget ack ''command_sequence'' = Some (JInt (cmd_sequence row))
     \<and> command_of wid inc (cmd_sequence row) db = Some row
     \<and> dget ack ''command_id'' = Some (JStr (cmd_command_id row)) \<and> dget ack ''body_hash'' = Some (JStr (cmd_body_hash row))
     \<and> (\<exists>h. cmd_ack_identity_hash row = Some h \<and> ack_identity_hash (fp_p6 P) (cmd_kind row) ack = Inr h)
     \<and> conn_of wid inc db' = Some w'
     \<and> (\<forall>c \<in> set (db_commands db'). if cmd_key c = cmd_key row then cmd_state c = Acknowledged else c \<in> set (db_commands db))
     \<and> (\<forall>c \<in> set (db_commands db). c \<in> set (db_commands db') \<or> c = row
          \<or> cmd_conn c = (wid, inc) \<and> cmd_state c = Acknowledged \<and> cmd_sequence c \<le> wc_acknowledged_floor w')
     \<and> (command_of wid inc (cmd_sequence row) db' = None \<longrightarrow> cmd_sequence row \<le> wc_acknowledged_floor w')"
proof -
  have inv: "journal_inv db" "journal_inv db'"
    using reachable_journal[OF assms(1)] acknowledge_inv[OF _ assms(2)] by auto
  show ?thesis using inv(1) assms(2,3)
  proof (rule acknowledge_effect)
    fix ack body row w f flr w'
    let ?n = "the_int (dget ack ''command_sequence'')"
    assume ack: "accept_ack (fp_p6 P) message wid inc = Inr (ack, body)" "consuming ack"
      and w: "conn_of wid inc db = Some w" "wc_transport_owner_id w = owner"
      and row: "row \<in> set (db_commands db)" "cmd_key row = (wid, inc, ?n)"
        "ack_names_row (fp_p6 P) ack (command_of wid inc ?n hdb) row" "tame f row" "cmd_state (f row) = Acknowledged"
      and cmds: "set (db_commands db') = {c. c \<in> (\<lambda>c. if c = row then f c else c) ` set (db_commands db)
         \<and> \<not> (flr > wc_acknowledged_floor w \<and> cmd_conn c = (wid, inc) \<and> cmd_sequence c \<le> flr \<and> cmd_state c = Acknowledged)}"
      and w': "conn_of wid inc db' = Some w'" "wc_acknowledged_floor w' = flr"
    have seq: "cmd_sequence row = ?n" using row(2) by (simp add: cmd_key_def)
    obtain h where h: "cmd_ack_identity_hash row = Some h" "ack_identity_hash (fp_p6 P) (cmd_kind row) ack = Inr h"
      using row(3) by (auto simp: ack_names_row_def split: option.splits sum.splits)
    have num: "dget ack ''command_sequence'' = Some (JInt (cmd_sequence row))"
      using accepted_ack_sequence[OF ack(1) h(2)] seq by auto
    have found: "command_of wid inc (cmd_sequence row) db = Some row"
      using row(1,2) seq journal_invD(2)[OF inv(1)] by (simp add: command_of_iff)
    have key: "cmd_key (f row) = cmd_key row" using row(4) by (simp add: tame_def)
    have only: "c = row" if "c \<in> set (db_commands db)" "cmd_key c = cmd_key row" for c
      by (rule distinct_key_unique[OF journal_invD(2)[OF inv(1), unfolded cmds.keyed_def] that(1) row(1) that(2)])
    have after: "\<forall>c \<in> set (db_commands db'). if cmd_key c = cmd_key row then cmd_state c = Acknowledged else c \<in> set (db_commands db)"
      using cmds key row(5) only by auto
    have kept: "\<forall>c \<in> set (db_commands db). c \<in> set (db_commands db') \<or> c = row
          \<or> cmd_conn c = (wid, inc) \<and> cmd_state c = Acknowledged \<and> cmd_sequence c \<le> wc_acknowledged_floor w'"
      unfolding cmds w' by auto
    have gone: "cmd_sequence row \<le> flr" if none: "command_of wid inc (cmd_sequence row) db' = None"
      using row(2) seq by (intro settled_row_passed[OF row(1) _ key cmds none]) simp
    have names: "dget ack ''command_id'' = Some (JStr (cmd_command_id row))"
      "dget ack ''body_hash'' = Some (JStr (cmd_body_hash row))"
      using row(3) by (simp_all add: ack_names_row_def)
    show ?thesis
      by (intro exI[of _ ack] exI[of _ row] exI[of _ w] exI[of _ w'] conjI impI; (fact accept_ack_settled(2)[OF ack] | fact ack
          | fact w | fact num | fact found | fact names | fact w' | fact after | fact kept | use h gone w' in auto))
  qed
qed

text \<open>
  Property C7 (safety). Only proof settles a command: when an acknowledgement is recorded, the
  connection exists and belongs to the transport it came over, a retained command of that connection
  has exactly the number, the id, the body hash and the identity hash the acknowledgement names, and
  the acknowledgement is an acceptance or one of the consuming refusals. Afterwards that command is
  acknowledged or has been passed by the floor, every other command is as it was, and the only rows
  that left the journal were acknowledged and are behind the floor of this connection.
\<close>

theorem only_proof_settles_a_command:
  assumes "reachable P db" "acknowledge P env clk message wid inc owner hdb db = Inr (res, db')" "ar_recorded res"
  shows "\<exists>ack row w w'. message = JObj ack \<and> consuming ack \<and> conn_of wid inc db = Some w \<and> wc_transport_owner_id w = owner
     \<and> dget ack ''command_sequence'' = Some (JInt (cmd_sequence row))
     \<and> command_of wid inc (cmd_sequence row) db = Some row
     \<and> dget ack ''command_id'' = Some (JStr (cmd_command_id row)) \<and> dget ack ''body_hash'' = Some (JStr (cmd_body_hash row))
     \<and> (\<exists>h. cmd_ack_identity_hash row = Some h \<and> ack_identity_hash (fp_p6 P) (cmd_kind row) ack = Inr h)
     \<and> conn_of wid inc db' = Some w'
     \<and> (\<forall>c \<in> set (db_commands db'). if cmd_key c = cmd_key row then cmd_state c = Acknowledged else c \<in> set (db_commands db))
     \<and> (\<forall>c \<in> set (db_commands db). c \<in> set (db_commands db') \<or> c = row
          \<or> cmd_conn c = (wid, inc) \<and> cmd_state c = Acknowledged \<and> cmd_sequence c \<le> wc_acknowledged_floor w')
     \<and> (command_of wid inc (cmd_sequence row) db' = None \<longrightarrow> cmd_sequence row \<le> wc_acknowledged_floor w')"
  using assms by (rule recorded_ack_effect)

theorem only_proof_settles_a_command_witness:
  "\<exists>row. command_of ''w1'' (uid CHR ''1'') 1 demo_committed = Some row \<and> cmd_command_id row = uid CHR ''5''"
proof -
  have "ar_recorded demo_recorded" by (simp add: demo_recorded_def)
  from only_proof_settles_a_command[OF demo_committed_reachable demo_acknowledge this]
  obtain ack row where "JObj demo_ack = JObj ack" "dget ack ''command_sequence'' = Some (JInt (cmd_sequence row))"
      "command_of ''w1'' (uid CHR ''1'') (cmd_sequence row) demo_committed = Some row"
      "dget ack ''command_id'' = Some (JStr (cmd_command_id row))"
    by blast
  then show ?thesis by (auto simp: demo_ack_type demo_ack_names)
qed


section \<open>Committing\<close>

text \<open>
  A command is only ever committed under live authority: the connection is
  open and ready, its work grant is ready, carries the nonce the caller named and has not run out,
  and the regional lease is this process's own, the one the connection was registered under, and
  has not run out. Otherwise the call raises and nothing is written.
\<close>

theorem commit_needs_live_authority:
  assumes "commit_command P env clk cid nonce r hdb db = Inr (out, db')"
  shows "\<exists>w l. conn_of (rq_worker_id r) (rq_incarnation r) db = Some w \<and> wc_closed_at w = None \<and> wc_lifecycle w = Ready
     \<and> wc_grant_ready w \<and> wc_grant_nonce w = rq_grant_nonce r \<and> wc_grant_expires_at w > clk 6
     \<and> lease_of (wc_region w) db = Some l \<and> sl_owner_id l = pe_scheduler_owner env
     \<and> sl_owner_epoch l = wc_owner_epoch w \<and> sl_lease_id l = wc_lease_id w \<and> sl_expires_at l > clk 5"
  using assms by (rule commit_command_authority) (auto simp: open_conn_def)

theorem commit_needs_live_authority_witness:
  "\<exists>w. conn_of ''w1'' (uid CHR ''1'') demo_granted = Some w \<and> wc_grant_nonce w = uid CHR ''4''"
  using commit_needs_live_authority[OF demo_commit] by (auto simp: demo_request_def)

text \<open>
  A commit adds exactly one command to the journal: pending, under the
  next number of its connection, with the id and the body hash it returns and a body under the ring;
  that number is then taken. Every other command is as it was, except that acknowledged commands of
  the same connection may have been passed by the floor.
\<close>

theorem commit_appends_one_command:
  assumes "reachable P db" "commit_command P env clk cid nonce r hdb db = Inr ((stored, desired), db')"
  shows "\<exists>w w' c. conn_of (rq_worker_id r) (rq_incarnation r) db = Some w
     \<and> conn_of (rq_worker_id r) (rq_incarnation r) db' = Some w'
     \<and> wc_next_command_sequence w' = wc_next_command_sequence w + 1
     \<and> cmd_key c = (rq_worker_id r, rq_incarnation r, wc_next_command_sequence w) \<and> cmd_state c = Pending
     \<and> cmd_kind c = rq_command_type r \<and> cmd_account_user_id c = rq_account_user_id r \<and> cmd_encrypted_body c \<noteq> None
     \<and> cmd_command_id c = cid \<and> st_command_id stored = cid \<and> st_body_hash stored = cmd_body_hash c
     \<and> st_sequence stored = cmd_sequence c \<and> c \<notin> set (db_commands db)
     \<and> (\<forall>b \<in> set (db_commands db'). b = c \<or> b \<in> set (db_commands db)) \<and> c \<in> set (db_commands db')
     \<and> (\<forall>b \<in> set (db_commands db). b \<in> set (db_commands db')
          \<or> cmd_conn b = (rq_worker_id r, rq_incarnation r) \<and> cmd_state b = Acknowledged)"
  using assms(2)
proof (rule commit_command_returns)
  fix fs prep db1 hint worker m st account owner
  let ?wid = "rq_worker_id r" and ?inc = "rq_incarnation r"
  assume account: "rq_account_user_id r = Some account"
    and prep: "prepare_command_subject (fp_p6 P) env clk (rq_command_type r) fs account (rq_session_context r)
       (rq_job_context r) ?wid ?inc owner db = Inr (prep, db1)"
    and auth: "commit_authority env clk hint owner (rq_grant_nonce r) ?wid ?inc (pp_cancel_attempt prep) db1 = Inr worker"
    and journal: "journal_command P clk nonce cid ?wid ?inc (rq_command_type r) account (pp_claim prep) worker m db1 = Inr (st, db')"
    and out: "(stored, desired) = (st, if rq_desired_callback r then pp_committed_desired prep else None)"
  have same: "conn_of ?wid ?inc db = Some worker" "db_commands db1 = db_commands db"
    using commit_authority_conn(1)[OF auth] by (simp_all add: conn_of_def prepare_frame[OF prep])
  show ?thesis using journal commit_authority_conn(1)[OF auth]
  proof (rule journal_command_effect)
    fix blob v
    let ?c = "pending_command ?wid ?inc (wc_next_command_sequence worker) cid (rq_command_type r) account m blob v (clk 0)"
    assume eff: "set (db_commands db') \<subseteq> insert ?c (set (db_commands db1))" "?c \<in> set (db_commands db')"
      "\<And>c. c \<in> set (db_commands db1) \<Longrightarrow> c \<notin> set (db_commands db') \<Longrightarrow> cmd_conn c = (?wid, ?inc) \<and> cmd_state c = Acknowledged"
      "map_option wc_next_command_sequence (conn_of ?wid ?inc db') = Some (wc_next_command_sequence worker + 1)"
      "st_sequence st = wc_next_command_sequence worker" "st_command_id st = cid" "st_body_hash st = sm_body_hash m"
    obtain w' where w': "conn_of ?wid ?inc db' = Some w'" "wc_next_command_sequence w' = wc_next_command_sequence worker + 1"
      using eff(4) by auto
    have "cmd_sequence c < wc_next_command_sequence worker" if "c \<in> set (db_commands db)" "cmd_conn c = (?wid, ?inc)" for c
    proof -
      have w: "worker \<in> set (db_connections db)" "conn_key worker = (?wid, ?inc)" using conn_of_key[OF same(1)] by auto
      have "contiguous db worker" by (rule journal_invD(3)[OF reachable_journal[OF assms(1)] w(1)])
      then have "cmd_sequence ` set (rows_of (?wid, ?inc) db) = {wc_acknowledged_floor worker + 1 ..< wc_next_command_sequence worker}"
        using w(2) by (simp add: contiguous_def)
      moreover have "cmd_sequence c \<in> cmd_sequence ` set (rows_of (?wid, ?inc) db)" using that by (auto simp: rows_of_def)
      ultimately show ?thesis by simp
    qed
    then have "?c \<notin> set (db_commands db)" by (force simp: pending_command_def cmd_conn_def)
    then show ?thesis
      using eff(1,2,3,5-7) w' same account out
      by (intro exI[of _ worker] exI[of _ w'] exI[of _ ?c]) (auto simp: pending_command_def cmd_key_def)
  qed
qed

theorem commit_appends_one_command_witness:
  "\<exists>c. c \<in> set (db_commands demo_committed) \<and> cmd_command_id c = uid CHR ''5'' \<and> c \<notin> set (db_commands demo_granted)"
  using commit_appends_one_command[OF demo_granted_reachable demo_commit] by blast

section \<open>Erasing\<close>

lemma fence_closes:
  assumes "w \<in> set (db_connections (fence_conns clk ws db))"
  shows "\<exists>v \<in> set (db_connections db). conn_key v = conn_key w \<and> (wc_closed_at v \<noteq> None \<longrightarrow> wc_closed_at w \<noteq> None)
     \<and> (conn_key w \<in> set ws \<longrightarrow> wc_closed_at w \<noteq> None)"
proof -
  have "\<exists>v \<in> set (db_connections d). conn_key v = conn_key w \<and> (wc_closed_at v \<noteq> None \<longrightarrow> wc_closed_at w \<noteq> None)
      \<and> (conn_key w \<in> snd ` set xs \<longrightarrow> wc_closed_at w \<noteq> None)"
    if "w \<in> set (db_connections (fold (\<lambda>(i, k). fence_conn k (clk i)) xs d))" for xs and d :: fleet_db
    using that
  proof (induction xs arbitrary: d)
    case Nil
    then show ?case by auto
  next
    case (Cons x xs)
    obtain i k where x: "x = (i, k)" by (cases x)
    have "w \<in> set (db_connections (fold (\<lambda>(i, k). fence_conn k (clk i)) xs (fence_conn k (clk i) d)))"
      using Cons.prems by (simp add: x)
    from Cons.IH[OF this] obtain u where u: "u \<in> set (db_connections (fence_conn k (clk i) d))" "conn_key u = conn_key w"
        "wc_closed_at u \<noteq> None \<longrightarrow> wc_closed_at w \<noteq> None" "conn_key w \<in> snd ` set xs \<longrightarrow> wc_closed_at w \<noteq> None"
      by blast
    obtain v where v: "v \<in> set (db_connections d)"
        "u = (if conn_key v = k then v\<lparr>wc_closed_at := (case wc_closed_at v of None \<Rightarrow> Some (clk i) | Some t \<Rightarrow> Some t)\<rparr> else v)"
      using u(1) by (auto simp: fence_conn_def set_upd_where)
    have "conn_key v = conn_key u" "wc_closed_at v \<noteq> None \<longrightarrow> wc_closed_at u \<noteq> None"
      "conn_key v = k \<longrightarrow> wc_closed_at u \<noteq> None"
      using v(2) by (auto simp: conn_key_def split: option.splits)
    with u v(1) show ?case by (intro bexI[of _ v]) (auto simp: x)
  qed
  note closes = this[OF assms[unfolded fence_conns_def]]
  have "snd ` set (enumerate 1 (sort ws)) = set ws" by (metis map_snd_enumerate set_map set_sort)
  with closes show ?thesis by (simp only:)
qed

lemma erase_pending_rows_effect:
  assumes "erase_pending_rows clk sel db = (n, db')"
  shows "n = length (filter (\<lambda>c. fst sel c \<and> cmd_state c = Pending) (db_commands db))"
    "db_commands db' = map (\<lambda>c. if fst sel c \<and> cmd_state c = Pending then erased_command c else c) (db_commands db)"
    "w \<in> set (db_connections db') \<Longrightarrow>
       conn_key w \<in> set (snd sel) \<or> (\<exists>c \<in> set (db_commands db). fst sel c \<and> cmd_state c = Pending \<and> cmd_conn c = conn_key w) \<Longrightarrow>
       wc_closed_at w \<noteq> None"
proof -
  let ?hit = "\<lambda>c. fst sel c \<and> cmd_state c = Pending"
  let ?ws = "remdups (map cmd_conn (filter ?hit (db_commands db)) @ snd sel)"
  have "n = length (filter ?hit (db_commands db)) \<and> db_commands db' = map (\<lambda>c. if ?hit c then erased_command c else c) (db_commands db)
     \<and> (w \<in> set (db_connections db') \<longrightarrow> conn_key w \<in> set ?ws \<longrightarrow> wc_closed_at w \<noteq> None)"
  proof (cases "?ws = []")
    case True
    then have "filter ?hit (db_commands db) = []" "snd sel = []" by auto
    then have none: "\<And>c. c \<in> set (db_commands db) \<Longrightarrow> \<not> ?hit c" by (auto simp: filter_empty_conv)
    have "n = 0" "db' = db" using assms True by (auto simp: erase_pending_rows_def Let_def)
    moreover have "map (\<lambda>c. if ?hit c then erased_command c else c) (db_commands db) = db_commands db"
      by (rule map_idI) (simp add: none)
    ultimately show ?thesis using \<open>filter ?hit (db_commands db) = []\<close> \<open>snd sel = []\<close> by simp
  next
    case False
    then have "n = length (filter ?hit (db_commands db))"
      "db' = fence_conns clk ?ws (db_commands_update (upd_where ?hit erased_command) db)"
      using assms by (simp_all only: erase_pending_rows_def Let_def if_False prod.inject)
    then show ?thesis using fence_closes by (fastforce simp: upd_where_def)
  qed
  then show "n = length (filter ?hit (db_commands db))"
    "db_commands db' = map (\<lambda>c. if ?hit c then erased_command c else c) (db_commands db)"
    "w \<in> set (db_connections db') \<Longrightarrow> conn_key w \<in> set (snd sel)
       \<or> (\<exists>c \<in> set (db_commands db). fst sel c \<and> cmd_state c = Pending \<and> cmd_conn c = conn_key w) \<Longrightarrow>
       wc_closed_at w \<noteq> None"
    by (auto simp: image_iff)
qed


text \<open>
  Property C8 (safety). Erasing accounts leaves nothing of theirs to deliver: afterwards no command
  of theirs is pending and none holds a body, every command of anyone else is untouched, the number
  returned is the number of commands erased, and every connection that still held one of them, or
  that runs an attempt of theirs, is closed.
\<close>

theorem account_erasure_is_complete:
  assumes "reachable P db" "erase_account_commands clk accounts db = (n, db')"
  shows "(\<forall>c \<in> set (db_commands db'). cmd_account_user_id c \<in> Some ` set accounts \<longrightarrow>
        cmd_state c \<noteq> Pending \<and> cmd_encrypted_body c = None)
     \<and> n = length (filter (\<lambda>c. cmd_account_user_id c \<in> Some ` set accounts \<and> cmd_state c = Pending) (db_commands db))
     \<and> filter (\<lambda>c. cmd_account_user_id c \<notin> Some ` set accounts) (db_commands db')
         = filter (\<lambda>c. cmd_account_user_id c \<notin> Some ` set accounts) (db_commands db)
     \<and> (\<forall>w \<in> set (db_connections db').
          (\<exists>c \<in> set (db_commands db). cmd_account_user_id c \<in> Some ` set accounts \<and> cmd_state c = Pending \<and> cmd_conn c = conn_key w)
          \<or> conn_key w \<in> set (snd (account_erasure_selection accounts db)) \<longrightarrow> wc_closed_at w \<noteq> None)"
proof -
  let ?sel = "account_erasure_selection accounts db"
  have run: "erase_pending_rows clk ?sel db = (n, db')" using assms(2) by (simp add: erase_account_commands_def)
  have sel: "fst ?sel = (\<lambda>c. cmd_account_user_id c \<in> Some ` set accounts)" by (simp add: account_erasure_selection_def)
  note eff = erase_pending_rows_effect[OF run, unfolded sel]
  have contract: "row_contract c" if "c \<in> set (db_commands db')" for c
    using erase_account_commands_inv[OF reachable_journal[OF assms(1)] assms(2)] that by (rule journal_invD(4))
  have gone: "cmd_state c \<noteq> Pending" if "c \<in> set (db_commands db')" "cmd_account_user_id c \<in> Some ` set accounts" for c
    using that unfolding eff(2) by (auto simp: erased_command_def split: if_splits)
  have "cmd_encrypted_body c = None" if "c \<in> set (db_commands db')" "cmd_account_user_id c \<in> Some ` set accounts" for c
    using contract[OF that(1)] gone[OF that] by (auto simp: row_contract_def state_contract_def split: command_state.splits)
  moreover have "filter (\<lambda>c. cmd_account_user_id c \<notin> Some ` set accounts) (db_commands db')
      = filter (\<lambda>c. cmd_account_user_id c \<notin> Some ` set accounts) (db_commands db)"
  proof -
    have "filter Q (map (\<lambda>c. if \<not> Q c \<and> R c then g c else c) xs) = filter Q xs"
      if "\<And>c. Q (g c) = Q c" for Q R g and xs :: "worker_command list"
      by (induction xs) (auto simp: that)
    from this[of "\<lambda>c. cmd_account_user_id c \<notin> Some ` set accounts" erased_command "\<lambda>c. cmd_state c = Pending"]
    show ?thesis unfolding eff(2) by (simp add: erased_command_def)
  qed
  ultimately show ?thesis using gone eff(1,3) by blast
qed

theorem account_erasure_is_complete_witness:
  "list_all (\<lambda>c. cmd_encrypted_body c = None)
     (db_commands (snd (erase_account_commands (\<lambda>_. 5 * second) [uid CHR ''c''] demo_committed)))"
proof -
  let ?run = "erase_account_commands (\<lambda>_. 5 * second) [uid CHR ''c''] demo_committed"
  have run: "?run = (fst ?run, snd ?run)" by simp
  have "cmd_account_user_id c = Some (uid CHR ''c'')" if "c \<in> set (db_commands (snd ?run))" for c
    using that erase_pending_rows_effect(2)[OF run[unfolded erase_account_commands_def]]
    by (auto simp: demo_committed_def demo_row_fields erased_command_def erase_account_commands_def split: if_splits)
  with account_erasure_is_complete[OF demo_committed_reachable run] show ?thesis by (auto simp: list_all_iff)
qed

end
