(* ===== verification/Journal_Refinement.thy ===== *)
theory Journal_Refinement
  imports Demo_Journal
begin

text \<open>
  The abstract journal and the proof that the fleet implements it. The abstract journal knows, per
  connection, two numbers (the acknowledged floor and the next sequence number), and per retained
  command its identity and its state. It moves by five rules; every transaction of the fleet is a
  sequence of them.
\<close>

section \<open>The abstract journal\<close>

type_synonym conn_id = "string \<times> uuid"
type_synonym command_view = "uuid \<times> string \<times> command_state"

record journal =
  jn_mark :: "conn_id \<Rightarrow> (int \<times> int) option"
  jn_cmd :: "conn_id \<times> int \<Rightarrow> command_view option"

definition set_mark :: "conn_id \<Rightarrow> int \<times> int \<Rightarrow> journal \<Rightarrow> journal" where
  "set_mark k m = jn_mark_update (\<lambda>f. f(k \<mapsto> m))"

definition set_cmd :: "conn_id \<times> int \<Rightarrow> command_view option \<Rightarrow> journal \<Rightarrow> journal" where
  "set_cmd q v = jn_cmd_update (\<lambda>f. f(q := v))"

inductive journal_step :: "journal \<Rightarrow> journal \<Rightarrow> bool" where
  connect: "jn_mark J k = None \<Longrightarrow> journal_step J (set_mark k (0, 1) J)"
| append: "jn_mark J k = Some (flr, nxt) \<Longrightarrow>
    journal_step J (set_mark k (flr, nxt + 1) (set_cmd (k, nxt) (Some (cid, h, Pending)) J))"
| erase: "jn_cmd J q = Some (cid, h, Pending) \<Longrightarrow> journal_step J (set_cmd q (Some (cid, h, Erased)) J)"
| settle: "jn_cmd J q = Some (cid, h, s) \<Longrightarrow> journal_step J (set_cmd q (Some (cid, h, Acknowledged)) J)"
| pass: "jn_mark J k = Some (flr, nxt) \<Longrightarrow> flr + 1 < nxt \<Longrightarrow> jn_cmd J (k, flr + 1) = Some (cid, h, Acknowledged) \<Longrightarrow>
    journal_step J (set_mark k (flr + 1, nxt) (set_cmd (k, flr + 1) None J))"

inductive_cases journal_stepE: "journal_step J J'"

text \<open>The abstract journal is well formed: commands lie between the marks of their connection.\<close>

definition journal_ok :: "journal \<Rightarrow> bool" where
  "journal_ok J \<longleftrightarrow> (\<forall>k n v. jn_cmd J (k, n) = Some v \<longrightarrow>
     (\<exists>flr nxt. jn_mark J k = Some (flr, nxt) \<and> flr < n \<and> n < nxt))
   \<and> (\<forall>k flr nxt. jn_mark J k = Some (flr, nxt) \<longrightarrow> 0 \<le> flr \<and> flr < nxt)"

lemma journal_okD:
  assumes "journal_ok J"
  shows "jn_mark J k = Some (flr, nxt) \<Longrightarrow> 0 \<le> flr \<and> flr < nxt"
    "jn_cmd J (k, n) = Some v \<Longrightarrow> \<exists>flr nxt. jn_mark J k = Some (flr, nxt) \<and> flr < n \<and> n < nxt"
  using assms unfolding journal_ok_def by blast+

lemma journal_step_ok: "journal_step J J' \<Longrightarrow> journal_ok J \<Longrightarrow> journal_ok J'"
  by (induction rule: journal_step.induct)
    (fastforce simp: journal_ok_def set_mark_def set_cmd_def split: if_splits)+

interpretation abstract_journal: guarded_steps journal_step journal_ok
  by unfold_locales (rule journal_step_ok)

text \<open>What may become of a command: erased, acknowledged, and out of the journal below the floor.\<close>

fun later_state :: "command_state \<Rightarrow> command_state \<Rightarrow> bool" where
  "later_state Pending s \<longleftrightarrow> True"
| "later_state Erased s \<longleftrightarrow> s \<noteq> Pending"
| "later_state Acknowledged s \<longleftrightarrow> s = Acknowledged"

lemma later_state_refl [simp]: "later_state s s" by (cases s) auto

lemma later_state_Acknowledged [simp]: "later_state s Acknowledged" by (cases s) auto

lemma later_state_trans: "later_state a b \<Longrightarrow> later_state b c \<Longrightarrow> later_state a c"
  by (cases a; cases b; cases c) auto

definition command_fate :: "conn_id \<times> int \<Rightarrow> command_view \<Rightarrow> journal \<Rightarrow> bool" where
  "command_fate q v J \<longleftrightarrow>
     (case jn_cmd J q of
        Some (cid, h, s) \<Rightarrow> cid = fst v \<and> h = fst (snd v) \<and> later_state (snd (snd v)) s
      | None \<Rightarrow> (\<exists>flr nxt. jn_mark J (fst q) = Some (flr, nxt) \<and> snd q \<le> flr))"

lemma fate_step:
  assumes "journal_step J J'" "journal_ok J" "command_fate q v J"
  shows "command_fate q v J'"
  using assms
proof (cases rule: journal_step.cases)
  case (append k flr nxt cid h)
  have "q \<noteq> (k, nxt)"
  proof
    assume q: "q = (k, nxt)"
    show False
    proof (cases "jn_cmd J q")
      case None
      with assms(3) append(2) q have "nxt \<le> flr" by (auto simp: command_fate_def)
      with journal_okD(1)[OF assms(2) append(2)] show False by simp
    next
      case (Some w)
      with journal_okD(2)[OF assms(2), of k nxt w] append(2) q show False by auto
    qed
  qed
  with append assms(3) show ?thesis
    by (auto simp: command_fate_def set_mark_def set_cmd_def split: option.splits if_splits)
next
  case (pass k flr nxt cid h)
  with assms(2,3) show ?thesis
    by (fastforce simp: command_fate_def set_mark_def set_cmd_def split: option.splits if_splits)
qed (auto simp: command_fate_def set_mark_def set_cmd_def split: option.splits if_splits dest: later_state_trans)

lemma fate_run: "journal_step\<^sup>*\<^sup>* J J' \<Longrightarrow> journal_ok J \<Longrightarrow> command_fate q v J \<Longrightarrow> command_fate q v J'"
proof (induction rule: rtranclp_induct)
  case (step K L)
  then show ?case by (meson abstract_journal.run_good fate_step)
qed


section \<open>The journal of a database\<close>

definition command_view :: "worker_command \<Rightarrow> command_view" where
  "command_view c = (cmd_command_id c, cmd_body_hash c, cmd_state c)"

definition marks :: "worker_connection \<Rightarrow> int \<times> int" where
  "marks w = (wc_acknowledged_floor w, wc_next_command_sequence w)"

definition journal_of :: "fleet_db \<Rightarrow> journal" where
  "journal_of db = \<lparr>jn_mark = (\<lambda>k. map_option marks (conn_of (fst k) (snd k) db)),
     jn_cmd = (\<lambda>q. map_option command_view (command_of (fst (fst q)) (snd (fst q)) (snd q) db))\<rparr>"

lemma option_eqI: "(\<And>x. a = Some x \<longleftrightarrow> b = Some x) \<Longrightarrow> a = b"
  by (cases a; cases b) auto

lemma find_image: "find P (map f xs) = map_option f (find (\<lambda>x. P (f x)) xs)"
  by (induction xs) auto

lemma mark_of_view: "jn_mark (journal_of db) k = map_option snd (find (\<lambda>e. fst e = k) (conn_view db))"
proof -
  have view: "conn_view db = map (\<lambda>w. (conn_key w, marks w)) (db_connections db)" by (simp add: conn_view_def marks_def)
  show ?thesis
    by (cases k) (simp add: journal_of_def conn_of_def view find_image option.map_comp o_def)
qed

lemma mark_cong: "conn_view db' = conn_view db \<Longrightarrow> jn_mark (journal_of db') = jn_mark (journal_of db)"
  by (rule ext) (simp add: mark_of_view)

lemma cmd_of_view:
  "jn_cmd (journal_of db) (k, n) = map_option command_view (command_of (fst k) (snd k) n db)"
  by (simp add: journal_of_def)

lemma cmd_at_Some:
  assumes "cmds.keyed db" "c \<in> set (db_commands db)"
  shows "jn_cmd (journal_of db) (cmd_conn c, cmd_sequence c) = Some (command_view c)"
  using assms by (auto simp: cmd_of_view command_of_iff cmd_key_def cmd_conn_def)

lemma cmd_at_SomeD:
  assumes "jn_cmd (journal_of db) (k, n) = Some v"
  obtains c where "c \<in> set (db_commands db)" "cmd_conn c = k" "cmd_sequence c = n" "v = command_view c"
proof -
  obtain c where "command_of (fst k) (snd k) n db = Some c" "v = command_view c"
    using assms by (auto simp: cmd_of_view)
  then show ?thesis
    using that[of c] by (auto simp: command_of_def cmd_key_def cmd_conn_def dest!: find_SomeD)
qed

lemma journal_of_ok:
  assumes "journal_inv db"
  shows "journal_ok (journal_of db)"
  unfolding journal_ok_def
proof (intro conjI allI impI)
  fix k n v assume "jn_cmd (journal_of db) (k, n) = Some v"
  then obtain c where c: "c \<in> set (db_commands db)" "cmd_conn c = k" "cmd_sequence c = n" by (rule cmd_at_SomeD)
  obtain w where w: "w \<in> set (db_connections db)" "conn_key w = k"
    using journal_invD(5)[OF assms c(1)] c(2) by auto
  have "n \<in> cmd_sequence ` set (rows_of (conn_key w) db)" using c w(2) by (auto simp: rows_of_def)
  then have "wc_acknowledged_floor w < n \<and> n < wc_next_command_sequence w"
    using journal_invD(3)[OF assms w(1)] by (auto simp: contiguous_def)
  moreover have "conn_of (fst k) (snd k) db = Some w"
    using w journal_invD(1)[OF assms] by (simp add: conn_of_iff)
  ultimately show "\<exists>flr nxt. jn_mark (journal_of db) k = Some (flr, nxt) \<and> flr < n \<and> n < nxt"
    by (auto simp: journal_of_def marks_def)
next
  fix k flr nxt assume "jn_mark (journal_of db) k = Some (flr, nxt)"
  then obtain w where w: "conn_of (fst k) (snd k) db = Some w" "(flr, nxt) = marks w" by (auto simp: journal_of_def)
  then have "contiguous db w" using conn_of_key journal_invD(3)[OF assms] by blast
  with w(2) show "0 \<le> flr" "flr < nxt" by (auto simp: contiguous_def marks_def)
qed

section \<open>Many rows at once\<close>

text \<open>A change of states alone, each one a rule of the abstract journal allows.\<close>

definition journal_moves :: "journal \<Rightarrow> journal \<Rightarrow> bool" where
  "journal_moves J J' \<longleftrightarrow> jn_mark J' = jn_mark J \<and>
     (\<forall>q. jn_cmd J' q = jn_cmd J q \<or> (\<exists>cid h s s'. jn_cmd J q = Some (cid, h, s) \<and> jn_cmd J' q = Some (cid, h, s')
        \<and> (s' = Acknowledged \<or> s = Pending \<and> s' = Erased)))"

lemma moves_run:
  assumes "journal_moves J J'" "finite {q. jn_cmd J' q \<noteq> jn_cmd J q}"
  shows "journal_step\<^sup>*\<^sup>* J J'"
  using assms
proof (induction "card {q. jn_cmd J' q \<noteq> jn_cmd J q}" arbitrary: J)
  case 0
  then have "jn_cmd J' = jn_cmd J" by auto
  with 0(2) have "J' = J" by (intro journal.equality) (simp_all add: journal_moves_def)
  then show ?case by simp
next
  case (Suc m)
  then obtain q where q: "jn_cmd J' q \<noteq> jn_cmd J q" by (metis (mono_tags, lifting) Collect_empty_eq card.empty nat.distinct(1))
  then obtain cid h s s' where change: "jn_cmd J q = Some (cid, h, s)" "jn_cmd J' q = Some (cid, h, s')"
      "s' = Acknowledged \<or> s = Pending \<and> s' = Erased"
    using Suc(3) unfolding journal_moves_def by metis
  let ?K = "set_cmd q (jn_cmd J' q) J"
  have "journal_step J ?K"
    using change journal_step.erase[of J q cid h] journal_step.settle[of J q cid h s] by auto
  moreover have D: "{p. jn_cmd J' p \<noteq> jn_cmd ?K p} = {p. jn_cmd J' p \<noteq> jn_cmd J p} - {q}"
    by (auto simp: set_cmd_def)
  have "journal_step\<^sup>*\<^sup>* ?K J'"
  proof (rule Suc(1))
    show "m = card {p. jn_cmd J' p \<noteq> jn_cmd ?K p}" using Suc(2,4) q unfolding D by simp
    show "journal_moves ?K J'" using Suc(3) by (auto simp: journal_moves_def set_cmd_def)
    show "finite {p. jn_cmd J' p \<noteq> jn_cmd ?K p}" using Suc(4) unfolding D by simp
  qed
  ultimately show ?case by (rule converse_rtranclp_into_rtranclp)
qed

text \<open>A change of rows in place refines such a change of states.\<close>

definition row_moves :: "worker_command \<Rightarrow> worker_command \<Rightarrow> bool" where
  "row_moves c c' \<longleftrightarrow> cmd_key c' = cmd_key c \<and> cmd_command_id c' = cmd_command_id c \<and> cmd_body_hash c' = cmd_body_hash c
     \<and> (cmd_state c' = cmd_state c \<or> cmd_state c' = Acknowledged \<or> cmd_state c = Pending \<and> cmd_state c' = Erased)"

lemma rows_run:
  assumes "conn_view db' = conn_view db" "db_commands db' = map f (db_commands db)"
    and "\<And>c. c \<in> set (db_commands db) \<Longrightarrow> row_moves c (f c)"
  shows "journal_step\<^sup>*\<^sup>* (journal_of db) (journal_of db')"
proof (rule moves_run)
  have look: "command_of w i n db' = map_option f (command_of w i n db)" for w i n
  proof -
    have "find (\<lambda>c. cmd_key (f c) = (w, i, n)) (db_commands db) = find (\<lambda>c. cmd_key c = (w, i, n)) (db_commands db)"
      using assms(3) by (intro find_cong) (auto simp: row_moves_def)
    then show ?thesis by (simp add: command_of_def assms(2) find_image)
  qed
  have mem: "c \<in> set (db_commands db)" if "command_of w i n db = Some c" for w i n c
    using that by (auto simp: command_of_def dest: find_SomeD)
  show "journal_moves (journal_of db) (journal_of db')"
    unfolding journal_moves_def
  proof (intro conjI allI)
    show "jn_mark (journal_of db') = jn_mark (journal_of db)" using assms(1) by (rule mark_cong)
    fix q :: "conn_id \<times> int"
    obtain w i n where q: "q = ((w, i), n)" by (metis surj_pair)
    show "jn_cmd (journal_of db') q = jn_cmd (journal_of db) q
        \<or> (\<exists>cid h s s'. jn_cmd (journal_of db) q = Some (cid, h, s) \<and> jn_cmd (journal_of db') q = Some (cid, h, s')
           \<and> (s' = Acknowledged \<or> s = Pending \<and> s' = Erased))"
    proof (cases "command_of w i n db")
      case None
      then show ?thesis by (simp add: q cmd_of_view look)
    next
      case (Some c)
      with assms(3)[OF mem[OF Some]] show ?thesis
        by (auto simp: q cmd_of_view look command_view_def row_moves_def)
    qed
  qed
  have "{q. jn_cmd (journal_of db') q \<noteq> jn_cmd (journal_of db) q} \<subseteq> (\<lambda>c. (cmd_conn c, cmd_sequence c)) ` set (db_commands db)"
  proof
    fix q assume "q \<in> {q. jn_cmd (journal_of db') q \<noteq> jn_cmd (journal_of db) q}"
    moreover obtain w i n where q: "q = ((w, i), n)" by (metis surj_pair)
    ultimately obtain c where "command_of w i n db = Some c"
      by (cases "command_of w i n db") (simp_all add: cmd_of_view look)
    then show "q \<in> (\<lambda>c. (cmd_conn c, cmd_sequence c)) ` set (db_commands db)"
      using q by (force simp: command_of_def cmd_key_def cmd_conn_def dest!: find_SomeD)
  qed
  then show "finite {q. jn_cmd (journal_of db') q \<noteq> jn_cmd (journal_of db) q}" by (rule finite_subset) simp
qed


section \<open>The floor, a new command, a new connection\<close>

definition passed :: "conn_id \<Rightarrow> int \<Rightarrow> int \<Rightarrow> int \<Rightarrow> journal \<Rightarrow> journal" where
  "passed k old flr nxt J = J\<lparr>jn_mark := (jn_mark J)(k \<mapsto> (flr, nxt)),
     jn_cmd := (\<lambda>q. if fst q = k \<and> old < snd q \<and> snd q \<le> flr then None else jn_cmd J q)\<rparr>"

lemma pass_run:
  assumes "jn_mark J k = Some (old, nxt)" "old \<le> flr" "flr < nxt"
    and "\<And>n. old < n \<Longrightarrow> n \<le> flr \<Longrightarrow> \<exists>cid h. jn_cmd J (k, n) = Some (cid, h, Acknowledged)"
  shows "journal_step\<^sup>*\<^sup>* J (passed k old flr nxt J)"
  using assms
proof (induction "nat (flr - old)" arbitrary: J old)
  case 0
  then have "passed k old flr nxt J = J" by (intro journal.equality) (auto simp: passed_def fun_eq_iff)
  then show ?case by simp
next
  case (Suc m)
  then have lt: "old < flr" by simp
  obtain cid h where head: "jn_cmd J (k, old + 1) = Some (cid, h, Acknowledged)"
    using Suc(6)[of "old + 1"] lt by auto
  let ?K = "set_mark k (old + 1, nxt) (set_cmd (k, old + 1) None J)"
  have "journal_step J ?K" by (rule journal_step.pass[OF Suc(3) _ head]) (use lt Suc(5) in simp)
  moreover have "journal_step\<^sup>*\<^sup>* ?K (passed k (old + 1) flr nxt ?K)"
  proof (rule Suc(1))
    show "m = nat (flr - (old + 1))" using Suc(2) by simp
    show "jn_mark ?K k = Some (old + 1, nxt)" by (simp add: set_mark_def)
    show "old + 1 \<le> flr" "flr < nxt" using lt Suc(5) by auto
    show "\<exists>cid h. jn_cmd ?K (k, n) = Some (cid, h, Acknowledged)" if "old + 1 < n" "n \<le> flr" for n
      using Suc(6)[of n] that by (simp add: set_mark_def set_cmd_def)
  qed
  moreover have "passed k (old + 1) flr nxt ?K = passed k old flr nxt J"
    using lt by (intro journal.equality ext) (auto simp: passed_def set_mark_def set_cmd_def)
  ultimately show ?case by (metis converse_rtranclp_into_rtranclp)
qed

lemma settle_floor_run:
  assumes inv: "journal_inv db" and w: "conn_of wid inc db = Some w" "wc_acknowledged_floor w = old"
    and flr: "old \<le> flr" "flr < wc_next_command_sequence w"
    and acked: "\<And>c. c \<in> set (db_commands db) \<Longrightarrow> cmd_conn c = (wid, inc) \<Longrightarrow> cmd_sequence c \<le> flr \<Longrightarrow> cmd_state c = Acknowledged"
  shows "journal_step\<^sup>*\<^sup>* (journal_of db) (journal_of (settle_floor wid inc old flr db))"
    "journal_inv (settle_floor wid inc old flr db)"
proof -
  let ?k = "(wid, inc)"
  let ?db = "settle_floor wid inc old flr db"
  have mem: "w \<in> set (db_connections db)" "conn_key w = ?k" using conn_of_key[OF w(1)] by auto
  have cont: "contiguous db w" using mem(1) by (rule journal_invD(3)[OF inv])
  have "journal_inv (settle_floor (fst ?k) (snd ?k) (wc_acknowledged_floor w) flr db)"
    by (rule settle_floor_inv[OF inv mem]) (use w(2) flr acked in \<open>auto simp: rows_of_def\<close>)
  then show inv': "journal_inv ?db" by (simp add: w(2))
  have at: "\<exists>c. c \<in> set (db_commands db) \<and> cmd_conn c = ?k \<and> cmd_sequence c = n" if "old < n" "n \<le> flr" for n
  proof -
    have "n \<in> cmd_sequence ` set (rows_of ?k db)" using cont that flr w(2) mem(2) by (auto simp: contiguous_def)
    then show ?thesis by (auto simp: rows_of_def)
  qed
  have above: "old < cmd_sequence c" if "c \<in> set (db_commands db)" "cmd_conn c = ?k" for c
  proof -
    have "cmd_sequence c \<in> cmd_sequence ` set (rows_of ?k db)" using that by (auto simp: rows_of_def)
    with cont w(2) mem(2) show ?thesis by (auto simp: contiguous_def)
  qed
  have mark: "jn_mark (journal_of db) ?k = Some (old, wc_next_command_sequence w)"
    by (simp add: journal_of_def w marks_def)
  have keyed: "cmds.keyed db" "cmds.keyed ?db" using journal_invD(2) inv inv' by auto
  have "journal_step\<^sup>*\<^sup>* (journal_of db) (passed ?k old flr (wc_next_command_sequence w) (journal_of db))"
  proof (rule pass_run[OF mark flr])
    fix n assume "old < n" "n \<le> flr"
    then obtain c where "c \<in> set (db_commands db)" "cmd_conn c = ?k" "cmd_sequence c = n" using at by blast
    with acked cmd_at_Some[OF keyed(1), of c] \<open>n \<le> flr\<close>
    show "\<exists>cid h. jn_cmd (journal_of db) (?k, n) = Some (cid, h, Acknowledged)" by (auto simp: command_view_def)
  qed
  moreover have "journal_of ?db = passed ?k old flr (wc_next_command_sequence w) (journal_of db)"
  proof (rule journal.equality)
    obtain w' where w': "conn_of wid inc ?db = Some w'" "wc_acknowledged_floor w' = flr"
        "wc_next_command_sequence w' = wc_next_command_sequence w"
      by (rule settle_floor_conn[OF w flr(1)]) blast
    have other: "conn_of v j ?db = conn_of v j db" if "(v, j) \<noteq> ?k" for v j
    proof -
      have "conn_key (x\<lparr>wc_acknowledged_floor := flr\<rparr>) = conn_key x" for x by (simp add: conn_key_def)
      with that show ?thesis
        unfolding settle_floor_def conn_of_def by (auto intro!: find_upd_where_other)
    qed
    show "jn_mark (journal_of ?db) = jn_mark (passed ?k old flr (wc_next_command_sequence w) (journal_of db))"
    proof
      fix k show "jn_mark (journal_of ?db) k = jn_mark (passed ?k old flr (wc_next_command_sequence w) (journal_of db)) k"
        using w' other by (cases "k = ?k"; cases k) (auto simp: journal_of_def passed_def marks_def)
    qed
    show "jn_cmd (journal_of ?db) = jn_cmd (passed ?k old flr (wc_next_command_sequence w) (journal_of db))"
    proof
      fix q :: "conn_id \<times> int"
      obtain v j n where q: "q = ((v, j), n)" by (metis surj_pair)
      have rows: "c \<in> set (db_commands ?db) \<longleftrightarrow> c \<in> set (db_commands db) \<and> \<not> (cmd_conn c = ?k \<and> cmd_sequence c \<le> flr)" for c
        using acked[of c] above[of c] flr(1) by (auto simp: settle_floor_def set_del_where)
      have "command_of v j n ?db = (if (v, j) = ?k \<and> n \<le> flr then None else command_of v j n db)"
      proof (rule option_eqI)
        fix c show "command_of v j n ?db = Some c \<longleftrightarrow> (if (v, j) = ?k \<and> n \<le> flr then None else command_of v j n db) = Some c"
          by (auto simp: command_of_iff keyed rows cmd_key_def cmd_conn_def)
      qed
      moreover have "command_of v j n db = None" if "(v, j) = ?k" "n \<le> old"
        using above that by (fastforce simp: command_of_def find_None_iff cmd_key_def cmd_conn_def)
      ultimately show "jn_cmd (journal_of ?db) q = jn_cmd (passed ?k old flr (wc_next_command_sequence w) (journal_of db)) q"
        by (auto simp: q cmd_of_view passed_def)
    qed
  qed (simp add: journal_of_def passed_def)
  ultimately show "journal_step\<^sup>*\<^sup>* (journal_of db) (journal_of ?db)" by simp
qed

lemma append_step:
  assumes inv: "journal_inv db" and w: "conn_of wid inc db = Some w"
    and c: "cmd_key c = (wid, inc, wc_next_command_sequence w)" "cmd_state c = Pending"
    and ins: "insert_command c db = Inr db1"
  shows "journal_step (journal_of db) (journal_of (bump_sequence wid inc db1))"
proof -
  let ?k = "(wid, inc)" and ?n = "wc_next_command_sequence w"
  let ?db = "bump_sequence wid inc db1"
  have db1: "db_commands ?db = db_commands db @ [c]" "db_connections db1 = db_connections db"
    using ins by (auto simp: insert_command_def bump_sequence_def split: if_splits)
  have fresh: "command_of wid inc ?n db = None"
    using ins c(1) by (auto simp: insert_command_def command_of_def find_None_iff split: if_splits)
  have cmd: "command_of v j n ?db = (if (v, j, n) = (wid, inc, ?n) then Some c else command_of v j n db)" for v j n
    using fresh c(1) by (auto simp: command_of_def db1 find_append split: option.splits)
  have key: "conn_key (x\<lparr>wc_next_command_sequence := wc_next_command_sequence x + 1\<rparr>) = conn_key x" for x
    by (simp add: conn_key_def)
  have conn: "conn_of v j ?db = map_option (\<lambda>x. if conn_key x = ?k then x\<lparr>wc_next_command_sequence := wc_next_command_sequence x + 1\<rparr> else x)
      (conn_of v j db)" for v j
    unfolding bump_sequence_def conn_of_upd[OF key] by (simp add: conn_of_def db1(2))
  have same: "map_option (\<lambda>x. if conn_key x = ?k then f x else x) (conn_of v j db) = conn_of v j db" if "(v, j) \<noteq> ?k" for v j f
    using that conn_of_key[of v j db] by (cases "conn_of v j db") auto
  have "journal_of ?db = set_mark ?k (wc_acknowledged_floor w, ?n + 1)
      (set_cmd (?k, ?n) (Some (cmd_command_id c, cmd_body_hash c, Pending)) (journal_of db))"
  proof (rule journal.equality)
    show "jn_mark (journal_of ?db) = jn_mark (set_mark ?k (wc_acknowledged_floor w, ?n + 1)
      (set_cmd (?k, ?n) (Some (cmd_command_id c, cmd_body_hash c, Pending)) (journal_of db)))"
    proof
      fix k show "jn_mark (journal_of ?db) k = jn_mark (set_mark ?k (wc_acknowledged_floor w, ?n + 1)
        (set_cmd (?k, ?n) (Some (cmd_command_id c, cmd_body_hash c, Pending)) (journal_of db))) k"
        using w conn_of_key[OF w] same
        by (cases "k = ?k"; cases k) (auto simp: journal_of_def set_mark_def set_cmd_def conn marks_def)
    qed
    show "jn_cmd (journal_of ?db) = jn_cmd (set_mark ?k (wc_acknowledged_floor w, ?n + 1)
      (set_cmd (?k, ?n) (Some (cmd_command_id c, cmd_body_hash c, Pending)) (journal_of db)))"
      by (rule ext) (auto simp: journal_of_def set_mark_def set_cmd_def cmd command_view_def c(2))
  qed (simp add: journal_of_def set_mark_def set_cmd_def)
  moreover have "jn_mark (journal_of db) ?k = Some (wc_acknowledged_floor w, ?n)"
    by (simp add: journal_of_def w marks_def)
  ultimately show ?thesis by (metis journal_step.append)
qed


section \<open>Transactions that only erase\<close>

text \<open>No number of a connection moves, and the only rows that change are pending ones that are erased.\<close>

definition erases :: "fleet_db \<Rightarrow> fleet_db \<Rightarrow> bool" where
  "erases db db' \<longleftrightarrow> conn_view db' = conn_view db \<and> (\<exists>P. db_commands db' =
     map (\<lambda>c. if P c \<and> cmd_state c = Pending then erased_command c else c) (db_commands db))"

lemma erases_cong: "conn_view db' = conn_view db \<Longrightarrow> db_commands db' = db_commands db \<Longrightarrow> erases db db'"
  unfolding erases_def by (intro conjI exI[of _ "\<lambda>_. False"]) simp_all

lemma erases_where:
  "conn_view db' = conn_view db \<Longrightarrow>
   db_commands db' = upd_where (\<lambda>c. P c \<and> cmd_state c = Pending) erased_command (db_commands db) \<Longrightarrow> erases db db'"
  by (auto simp: erases_def upd_where_def)

lemma erases_refl [simp]: "erases db db"
  by (rule erases_cong) simp_all

lemma erases_trans:
  assumes "erases a b" "erases b c"
  shows "erases a c"
proof -
  have erased: "cmd_state (erased_command x) = Erased" for x by (simp add: erased_command_def)
  obtain P Q where "db_commands b = map (\<lambda>c. if P c \<and> cmd_state c = Pending then erased_command c else c) (db_commands a)"
      "db_commands c = map (\<lambda>c. if Q c \<and> cmd_state c = Pending then erased_command c else c) (db_commands b)"
    using assms unfolding erases_def by blast
  then have "db_commands c = map (\<lambda>c. if (P c \<or> Q c) \<and> cmd_state c = Pending then erased_command c else c) (db_commands a)"
    by (auto simp: erased)
  then show ?thesis
    using assms unfolding erases_def by (intro conjI exI[of _ "\<lambda>c. P c \<or> Q c"]) simp_all
qed

lemma erases_run:
  assumes "erases db db'"
  shows "journal_step\<^sup>*\<^sup>* (journal_of db) (journal_of db')"
proof -
  obtain P where P: "conn_view db' = conn_view db"
      "db_commands db' = map (\<lambda>c. if P c \<and> cmd_state c = Pending then erased_command c else c) (db_commands db)"
    using assms by (auto simp: erases_def)
  show ?thesis by (rule rows_run[OF P]) (simp add: row_moves_def erased_command_def cmd_key_def)
qed

lemma erases_rows: "erase_pending_rows clk sel db = (n, db') \<Longrightarrow> erases db db'"
  using erase_pending_rows_shape[of clk sel db n db'] by (auto intro: erases_where[where P = "fst sel"])

lemma erases_subject: "erase_subject_commands clk a k s n db = Inr (v, db') \<Longrightarrow> erases db db'"
  by (auto simp: erase_subject_commands_def bindR_Inr_iff intro: erases_rows)

lemma erases_account: "erase_account_commands clk accounts db = (n, db') \<Longrightarrow> erases db db'"
  unfolding erase_account_commands_def by (rule erases_rows)

lemma erases_realtime: "erase_realtime_commands clk a ids keep db = (n, db') \<Longrightarrow> erases db db'"
  by (auto simp: erase_realtime_commands_def split: option.splits intro: erases_rows)

lemma erases_reported:
  assumes "erase_reported_subject_command a k s n w i r att rs rh db = Inr (v, db')"
  shows "erases db db'"
proof -
  obtain rows where rows: "lock_reported_command a k s n w i r att rs rh db = Inr rows"
    using assms by (auto simp: erase_reported_subject_command_def bindR_Inr_iff)
  have "db' = db \<or> (\<exists>q. db' = db_commands_update (upd_where
     (\<lambda>c. cmd_key c = (w, i, q) \<and> cmd_state c = Pending) erased_command) db)"
    using assms unfolding erase_reported_subject_command_def rows
    by (cases rows; cases "tl rows") (auto split: option.splits)
  then show ?thesis
  proof (elim disjE exE)
    fix q
    assume "db' = db_commands_update (upd_where (\<lambda>c. cmd_key c = (w, i, q) \<and> cmd_state c = Pending) erased_command) db"
    then show ?thesis by (intro erases_where[where P = "\<lambda>c. cmd_key c = (w, i, q)"]) simp_all
  qed simp
qed

lemma erases_attempts: "erase_attempts clk sas db = Inr db' \<Longrightarrow> erases db db'"
proof (induction clk sas db rule: erase_attempts.induct)
  case (2 clk s a rest db)
  then show ?case
    by (auto simp: bindR_Inr_iff split: option.splits intro: erases_trans[OF erases_subject])
qed simp

lemma erases_set_conn:
  assumes "\<And>w. conn_key (f w) = conn_key w" "\<And>w. wc_acknowledged_floor (f w) = wc_acknowledged_floor w"
    "\<And>w. wc_next_command_sequence (f w) = wc_next_command_sequence w"
  shows "erases db (set_conn k f db)"
  by (rule erases_cong) (simp_all add: set_conn_frame[OF assms])

lemma erases_activate: "erases db (snd (activate_initial_worker env now w i db))"
  by (auto simp: activate_initial_worker_def conn_key_def split: option.splits intro!: erases_set_conn)

lemma erases_touch: "touch_worker env clk w i p db = Inr (u, db') \<Longrightarrow> erases db db'"
  by (auto simp: touch_worker_def conn_key_def split: option.splits intro!: erases_set_conn)

lemma erases_grant:
  assumes "renew_worker_grant env clk w i n db = (r, db')"
  shows "erases db db'"
proof -
  have "erases d (set_conn (w, i) (granted_conn clk n l) d)" for l d
    by (rule erases_set_conn) (simp_all add: granted_conn_def conn_key_def)
  with assms show ?thesis
    by (auto simp: renew_worker_grant_def Let_def split: option.splits
        intro: erases_activate erases_trans[OF erases_activate])
qed

lemma erases_update_models:
  assumes "update_worker_models env clk w i ms db = Inr (u, db')"
  shows "erases db db'"
proof -
  have "\<exists>f. db' = snd (activate_initial_worker env (clk 2) w i (set_conn (w, i) f db)) \<and> erases db (set_conn (w, i) f db)"
    using assms unfolding update_worker_models_def Let_def
    by (auto split: option.splits prod.splits intro!: exI conjI erases_set_conn simp: conn_key_def)
  then show ?thesis by (metis erases_activate erases_trans)
qed

lemma erases_close_worker:
  assumes "close_worker env clk w i db = Inr (u, db')"
  shows "erases db db'"
proof -
  obtain db1 where db1: "erase_attempts clk (conn_attempts w i db) db = Inr db1"
    using assms by (auto simp: close_worker_def Let_def bindR_Inr_iff)
  have "erases db1 db'"
    by (rule erases_cong) (use assms db1 in \<open>auto simp: close_worker_def Let_def fold_session_frames conn_key_def\<close>)
  with erases_attempts[OF db1] show ?thesis by (rule erases_trans)
qed

lemma erases_end_session:
  assumes "end_realtime_session clk s g b db = Inr (r, db')"
  shows "erases db db'"
proof -
  have "db' = db \<or> (\<exists>u v db1. erase_subject_commands clk u ''session'' s (Some g) db = Inr (v, db1)
      \<and> conn_view db' = conn_view db1 \<and> db_commands db' = db_commands db1)"
    using assms by (fastforce simp: end_realtime_session_def Let_def bindR_Inr_iff end_attempt_where_def
        split: option.splits if_splits)
  then show ?thesis by (auto intro: erases_trans[OF erases_subject] erases_cong)
qed

lemma erases_abandon:
  assumes "abandon_realtime_attempt clk s g a db = Inr (r, db')"
  shows "erases db db'"
proof -
  have "db' = db \<or> (\<exists>u v db1. erase_subject_commands clk u ''session'' s (Some g) db = Inr (v, db1)
      \<and> conn_view db' = conn_view db1 \<and> db_commands db' = db_commands db1)"
    using assms by (fastforce simp: abandon_realtime_attempt_def bindR_Inr_iff end_attempt_where_def
        split: option.splits if_splits)
  then show ?thesis by (auto intro: erases_trans[OF erases_subject] erases_cong)
qed

lemma erases_session_ready:
  assumes "accept_session_ready env clk w i m db = Inr (r, db')"
  shows "erases db db'"
proof -
  have "conn_view db' = conn_view db \<and> db_commands db' = db_commands db"
    using assms unfolding accept_session_ready_def by (auto elim!: bindR_InrE split: option.splits if_splits)
  then show ?thesis by (auto intro: erases_cong)
qed

lemma erases_after_report: "erase_after_report clk u w i f db = Inr db' \<Longrightarrow> erases db db'"
  by (auto simp: erase_after_report_def bindR_Inr_iff split: if_splits intro: erases_subject erases_reported)

lemma erases_record_report:
  assumes "record_report P clk u w i rep f cur ack p db = Inr (body, db')"
  shows "erases db db'"
proof -
  let ?m = "report_maxima f p"
  let ?db2 = "if rf_is_session f then record_session_attempt (clk 2) f ?m (record_range f ?m db)
              else record_job_attempt (clk 2) rep f cur ?m (record_range f ?m db)"
  obtain b db4 where db4: "insert_receipt (report_receipt_row (clk 0) f ?m b) (end_reported_session (clk 3) f ?db2) = Inr db4"
      "erase_after_report clk u w i f (evict_receipts (rf_range_id f) db4) = Inr db'"
    using assms by (auto simp: record_report_def Let_def bindR_Inr_iff)
  have "erases db (evict_receipts (rf_range_id f) db4)"
    using insert_receipt_frame[OF db4(1)] by (intro erases_cong) auto
  then show ?thesis using erases_after_report[OF db4(2)] by (rule erases_trans)
qed

lemma erases_report:
  assumes "commit_worker_report P env clk w i rep db = Inr (body, db')"
  shows "erases db db'"
  using assms by (rule commit_worker_report_returns)
    (auto split: option.splits if_splits intro: erases_record_report)

section \<open>The three other transactions\<close>

lemma settle_run:
  assumes inv: "journal_inv db" "journal_inv db1" and view: "conn_view db1 = conn_view db"
    and w: "conn_of wid inc db = Some w"
    and cmds: "db_commands db1 = upd_where P f (db_commands db)"
    and keys: "\<And>c. c \<in> set (db_commands db) \<Longrightarrow> P c \<Longrightarrow> cmd_key (f c) = cmd_key c"
    and settled: "\<forall>n c. settled n \<and> c \<in> set (db_commands db) \<and> cmd_key c = (wid, inc, n) \<longrightarrow>
       cmd_state (if P c then f c else c) = Acknowledged"
    and flr: "flr = advance_floor settled (wc_next_command_sequence w) (wc_acknowledged_floor w)"
  shows "journal_step\<^sup>*\<^sup>* (journal_of db1) (journal_of (settle_floor wid inc (wc_acknowledged_floor w) flr db1))"
    "journal_inv (settle_floor wid inc (wc_acknowledged_floor w) flr db1)"
    "\<exists>w'. conn_of wid inc (settle_floor wid inc (wc_acknowledged_floor w) flr db1) = Some w'
       \<and> wc_next_command_sequence w' = wc_next_command_sequence w"
proof -
  have "cmd_state (if P c then f c else c) = Acknowledged"
    if "settled n" "c \<in> set (db_commands db)" "cmd_key c = (wid, inc, n)" for n c using settled that by blast
  note floor = floor_rows_acknowledged[OF inv(1) w cmds keys this flr]
  have wk: "w \<in> set (db_connections db)" "conn_key w = (wid, inc)" using conn_of_key[OF w] by auto
  have keyed: "conns.keyed db" "conns.keyed db1" using journal_invD(1) inv by auto
  obtain w1 where w1: "w1 \<in> set (db_connections db1)" "conn_key w1 = (wid, inc)"
    using conn_view_same_conn[OF view wk(1)] wk(2) by metis
  then have c1: "conn_of wid inc db1 = Some w1" using keyed(2) by (simp add: conn_of_iff)
  note numbers = conn_view_numbers[OF keyed(1) view w c1]
  have acked: "cmd_state c = Acknowledged"
    if "c \<in> set (db_commands db1)" "cmd_conn c = (wid, inc)" "cmd_sequence c \<le> flr" for c
    by (rule floor(3)) (use that in \<open>simp_all add: rows_of_def\<close>)
  have lt: "flr < wc_next_command_sequence w1" using floor(2) numbers(2) by simp
  show "journal_step\<^sup>*\<^sup>* (journal_of db1) (journal_of (settle_floor wid inc (wc_acknowledged_floor w) flr db1))"
    by (rule settle_floor_run(1)[OF inv(2) c1 numbers(1) floor(1) lt acked])
  show "journal_inv (settle_floor wid inc (wc_acknowledged_floor w) flr db1)"
    by (rule settle_floor_run(2)[OF inv(2) c1 numbers(1) floor(1) lt acked])
  show "\<exists>w'. conn_of wid inc (settle_floor wid inc (wc_acknowledged_floor w) flr db1) = Some w'
       \<and> wc_next_command_sequence w' = wc_next_command_sequence w"
    by (rule settle_floor_conn[OF c1 numbers(1) floor(1)]) (auto simp: numbers(2))
qed

lemma ack_row_moves:
  assumes "ack_row P env clk w i owner ack body row subject db = Inr (Some (publication, db1))"
  obtains f where "conn_view db1 = conn_view db"
    "db_commands db1 = upd_where (\<lambda>c. cmd_key c = (w, i, cmd_sequence row)) f (db_commands db)"
    "\<And>c. row_moves c (f c)" "cmd_state (f row) = Acknowledged"
proof (cases "cmd_state row")
  case Acknowledged
  with assms have "db1 = db" by (auto simp: ack_row_def split: if_splits)
  with Acknowledged show ?thesis by (intro that[of id]) (simp_all add: row_moves_def)
next
  case Erased
  with assms have "db1 = update_command_row w i (cmd_sequence row) (acknowledged_erased (clk 3) ack body) db"
    by (simp add: ack_row_def)
  then show ?thesis
    by (intro that[of "acknowledged_erased (clk 3) ack body"])
      (simp_all add: update_command_row_def row_moves_def acknowledged_erased_def cmd_key_def)
next
  case Pending
  let ?f = "acknowledged_command (clk 3) ack body"
  have "conn_view db1 = conn_view db \<and>
      db_commands db1 = upd_where (\<lambda>c. cmd_key c = (w, i, cmd_sequence row)) ?f (db_commands db)"
    using assms Pending
    by (auto simp: ack_row_def ack_pending_row_def update_command_row_def apply_update_def Let_def
        elim!: bindR_InrE split: option.splits if_splits prod.splits)
  then show ?thesis
    by (intro that[of ?f]) (simp_all add: row_moves_def acknowledged_command_def cmd_key_def)
qed

lemma refine_acknowledge:
  assumes inv: "journal_inv db" and run: "acknowledge P env clk message wid inc owner hdb db = Inr (res, db')"
  shows "journal_step\<^sup>*\<^sup>* (journal_of db) (journal_of db')"
  using run
proof (cases rule: acknowledge_returns)
  case unrecorded
  then show ?thesis by simp
next
  case (recorded ack body row w subject publication db1)
  let ?n = "the_int (dget ack ''command_sequence'')"
  let ?P = "\<lambda>c. cmd_key c = (wid, inc, cmd_sequence row)"
  have keyed: "cmds.keyed db" by (rule journal_invD[OF inv])
  have row: "row \<in> set (db_commands db)" "cmd_key row = (wid, inc, ?n)"
    using recorded(6) unfolding row_at_sequence_conn[OF keyed] by auto
  have seq: "cmd_sequence row = ?n" using row(2) by (simp add: cmd_key_def)
  have hash: "cmd_ack_identity_hash row \<noteq> None"
    using recorded(7) by (auto simp: ack_names_row_def split: option.splits)
  obtain f where f: "conn_view db1 = conn_view db" "db_commands db1 = upd_where ?P f (db_commands db)"
      "\<And>c. row_moves c (f c)" "cmd_state (f row) = Acknowledged"
    using recorded(8) by (rule ack_row_moves) blast
  obtain g where g: "db_commands db1 = upd_where ?P g (db_commands db)" "tame g row"
    using ack_row_effect[OF recorded(8) journal_invD(4)[OF inv row(1)] hash accept_ack_settled(1)[OF recorded(1,2)]] by blast
  have only: "c = row" if "c \<in> set (db_commands db)" "?P c" for c
    using that row keyed seq by (auto simp: cmds.keyed_def intro: distinct_key_unique)
  have inv1: "journal_inv db1"
    by (rule journal_inv_tame[OF inv f(1) g(1)]) (use only g(2) in auto)
  have "db_commands db1 = map (\<lambda>c. if ?P c then f c else c) (db_commands db)" by (simp add: f(2) upd_where_def)
  then have "journal_step\<^sup>*\<^sup>* (journal_of db) (journal_of db1)"
    by (rule rows_run[OF f(1)]) (use f(3) in \<open>simp add: row_moves_def\<close>)
  moreover have "journal_step\<^sup>*\<^sup>* (journal_of db1) (journal_of db')"
    unfolding recorded(9)
  proof (rule settle_run(1)[OF inv inv1 f(1) recorded(4) f(2) _ _ refl])
    show "cmd_key (f c) = cmd_key c" for c using f(3)[of c] by (simp add: row_moves_def)
    show "\<forall>n c. ack_settled P ack ?n (conn_commands wid inc db) n \<and> c \<in> set (db_commands db) \<and> cmd_key c = (wid, inc, n)
        \<longrightarrow> cmd_state (if ?P c then f c else c) = Acknowledged"
    proof (intro allI impI, elim conjE)
      fix n c
      assume n: "ack_settled P ack ?n (conn_commands wid inc db) n" and c: "c \<in> set (db_commands db)" "cmd_key c = (wid, inc, n)"
      show "cmd_state (if ?P c then f c else c) = Acknowledged"
      proof (cases "?P c")
        case True
        then show ?thesis using only[OF c(1)] f(4) by simp
      next
        case False
        have "row_at_sequence n (conn_commands wid inc db) = Some c"
          using c by (simp add: row_at_sequence_conn[OF keyed])
        with n c(2) False seq have "known_acknowledged P c" by (auto simp: ack_settled_def)
        with False show ?thesis by (simp add: known_acknowledged_state)
      qed
    qed
  qed
  ultimately show ?thesis by (rule rtranclp_trans)
qed

text \<open>A claim and a preparation write neither table.\<close>

lemma journal_of_cong: "db_connections db' = db_connections db \<Longrightarrow> db_commands db' = db_commands db \<Longrightarrow> journal_of db' = journal_of db"
  by (simp add: journal_of_def conn_of_def command_of_def)

lemma refine_journal_command:
  assumes inv: "journal_inv db" and w: "conn_of wid inc db = Some worker"
    and run: "journal_command P clk nonce cid wid inc kind account claim_opt worker m db = Inr (stored, db')"
  shows "journal_step\<^sup>*\<^sup>* (journal_of db) (journal_of db')"
proof -
  let ?n = "wc_next_command_sequence worker"
  let ?old = "wc_acknowledged_floor worker"
  let ?locked = "conn_commands wid inc db"
  define settled where "settled = (\<lambda>n. case row_at_sequence n ?locked of None \<Rightarrow> False | Some row \<Rightarrow> known_acknowledged P row)"
  let ?flr = "advance_floor settled ?n ?old"
  let ?db1 = "settle_floor wid inc ?old ?flr db"
  let ?row = "\<lambda>blob v. pending_command wid inc ?n cid kind account m blob v (clk 0)"
  obtain blob v db2 db3 where steps:
      "apply_command_claim (fp_p6 P) clk claim_opt wid inc account cid worker ?db1 = Inr db2"
      "insert_command (?row blob v) db2 = Inr db3" "db' = bump_sequence wid inc db3"
    using run unfolding journal_command_def Let_def settled_def by (auto elim!: bindR_InrE)
  have keyed: "cmds.keyed db" by (rule journal_invD[OF inv])
  have acked: "\<forall>n c. settled n \<and> c \<in> set (db_commands db) \<and> cmd_key c = (wid, inc, n) \<longrightarrow>
      cmd_state (if False then id c else c) = Acknowledged"
  proof (intro allI impI, elim conjE)
    fix n c
    assume n: "settled n" and c: "c \<in> set (db_commands db)" "cmd_key c = (wid, inc, n)"
    have "row_at_sequence n ?locked = Some c" using c by (simp add: row_at_sequence_conn[OF keyed])
    with n show "cmd_state (if False then id c else c) = Acknowledged"
      by (simp add: settled_def known_acknowledged_state)
  qed
  have none: "db_commands db = upd_where (\<lambda>_. False) id (db_commands db)" by simp
  note settle = settle_run[where settled = settled and P = "\<lambda>_. False" and f = id, OF inv inv refl w none _ acked refl]
  have inv2: "journal_inv db2"
    by (rule journal_inv_cong[OF settle(2)]) (simp_all add: apply_claim_frame[OF steps(1)] conn_view_def)
  obtain w2 where w2: "conn_of wid inc db2 = Some w2" "wc_next_command_sequence w2 = ?n"
    using settle(3) by (auto simp: conn_of_def apply_claim_frame[OF steps(1)])
  have "journal_step (journal_of db2) (journal_of db')"
    unfolding steps(3) by (rule append_step[OF inv2 w2(1) _ _ steps(2)]) (simp_all add: pending_command_def cmd_key_def w2(2))
  moreover have "journal_of db2 = journal_of ?db1" by (rule journal_of_cong) (simp_all add: apply_claim_frame[OF steps(1)])
  ultimately show ?thesis using settle(1) by (metis rtranclp.rtrancl_into_rtrancl)
qed

lemma refine_commit:
  assumes inv: "journal_inv db" and run: "commit_command P env clk cid nonce r hdb db = Inr (out, db')"
  shows "journal_step\<^sup>*\<^sup>* (journal_of db) (journal_of db')"
  using run
proof (rule commit_command_returns)
  fix fs prep db1 hint worker m stored account owner
  assume prep: "prepare_command_subject (fp_p6 P) env clk (rq_command_type r) fs account (rq_session_context r)
       (rq_job_context r) (rq_worker_id r) (rq_incarnation r) owner db = Inr (prep, db1)"
    and auth: "commit_authority env clk hint owner (rq_grant_nonce r) (rq_worker_id r) (rq_incarnation r)
       (pp_cancel_attempt prep) db1 = Inr worker"
    and journal: "journal_command P clk nonce cid (rq_worker_id r) (rq_incarnation r) (rq_command_type r) account
       (pp_claim prep) worker m db1 = Inr (stored, db')"
  have "journal_inv db1"
    by (rule journal_inv_cong[OF inv]) (simp_all add: prepare_frame[OF prep] conn_view_def)
  from refine_journal_command[OF this commit_authority_conn(1)[OF auth] journal]
  show ?thesis using journal_of_cong[OF prepare_frame[OF prep]] by simp
qed

lemma refine_register:
  assumes "journal_inv db" "register_worker env clk h db = Inr (l, db')"
  shows "journal_step (journal_of db) (journal_of db')"
proof -
  let ?row = "new_connection env clk l h" and ?k = "(hf_worker_id h, hf_incarnation h)"
  let ?db1 = "db_connections_update (upd_where (abandoned_conn env l (hf_worker_id h))
      (\<lambda>w. w\<lparr>wc_lifecycle := Ended, wc_closed_at := Some (clk 2)\<rparr>)) db"
  have reg: "db' = db_connections_update (\<lambda>rows. rows @ [?row]) ?db1"
      "\<forall>w \<in> set (db_connections db). wc_incarnation w \<noteq> hf_incarnation h"
    using assms(2) by (auto simp: register_worker_def Let_def split: option.splits)
  have row: "conn_key ?row = ?k" "wc_acknowledged_floor ?row = 0" "wc_next_command_sequence ?row = 1"
    by (simp_all add: new_connection_def conn_key_def split: prod.splits)
  have "conn_of (fst ?k) (snd ?k) db = None" using reg(2) by (auto simp: conn_of_def find_None_iff conn_key_def)
  then have free: "jn_mark (journal_of db) ?k = None" by (simp add: journal_of_def)
  have "conn_view ?db1 = conn_view db" by (simp add: conn_key_def)
  then have view: "conn_view db' = conn_view db @ [(?k, 0, 1)]" by (simp add: conn_view_def reg(1) row)
  have "jn_mark (journal_of db') k = (if k = ?k then Some (0, 1) else jn_mark (journal_of db) k)" for k
    using free unfolding mark_of_view view by (auto simp: find_append split: option.splits)
  moreover have "jn_cmd (journal_of db') = jn_cmd (journal_of db)" by (simp add: journal_of_def reg(1) command_of_def)
  ultimately have "journal_of db' = set_mark ?k (0, 1) (journal_of db)"
    by (intro journal.equality) (auto simp: set_mark_def fun_eq_iff journal_of_def)
  with journal_step.connect[OF free] show ?thesis by simp
qed


section \<open>The fleet implements the abstract journal\<close>

lemma step_refines:
  assumes inv: "journal_inv db" and step: "fleet_step P db db'"
  shows "journal_step\<^sup>*\<^sup>* (journal_of db) (journal_of db')"
proof -
  have leases: "journal_of db' = journal_of db"
    if "conn_view db' = conn_view db" "db_commands db' = db_commands db"
    using mark_cong[OF that(1)] that(2) by (intro journal.equality) (simp_all add: journal_of_def command_of_def)
  from step show ?thesis
  proof (cases rule: fleet_step.cases)
    case commit
    then show ?thesis using refine_commit[OF inv] by blast
  next
    case acknowledge
    then show ?thesis using refine_acknowledge[OF inv] by blast
  next
    case (register env clk h l)
    then show ?thesis using refine_register[OF inv] by blast
  next
    case (acquire env clk fresh region l)
    then have "journal_of db' = journal_of db"
      by (intro leases) (auto simp: acquire_scheduler_lease_def Let_def split: option.splits if_splits)
    then show ?thesis by simp
  next
    case (renew env clk held l)
    then have "journal_of db' = journal_of db"
      by (intro leases) (auto simp: renew_scheduler_lease_def Let_def split: option.splits)
    then show ?thesis by simp
  next
    case (activate env now wid inc b)
    then have "db' = snd (activate_initial_worker env now wid inc db)" by simp
    then show ?thesis using erases_run[OF erases_activate] by simp
  next
    case elsewhere
    then have "journal_of db' = journal_of db" by (intro journal_of_cong)
    then show ?thesis by simp
  qed (blast intro: erases_run erases_account erases_realtime erases_subject erases_update_models erases_close_worker
      erases_touch erases_grant erases_end_session erases_abandon erases_session_ready erases_report)+
qed

text \<open>
  Property C1 (refinement). Every transaction of the fleet, whoever runs it, is for the journal a
  sequence of the five abstract moves: a new connection starts at floor 0 and number 1; a command
  gets the next number; a pending command is erased; a command is settled; the floor passes a
  settled command, one at a time.
\<close>

theorem fleet_refines_journal:
  assumes "reachable P db" "fleet_step P db db'"
  shows "journal_step\<^sup>*\<^sup>* (journal_of db) (journal_of db')"
  using reachable_journal[OF assms(1)] assms(2) by (rule step_refines)

theorem fleet_refines_journal_witness:
  "journal_step\<^sup>*\<^sup>* (journal_of demo_granted) (journal_of demo_committed)"
  by (rule fleet_refines_journal[OF demo_granted_reachable demo_commit_step])

lemma refines_run:
  assumes "reachable P db" "(fleet_step P)\<^sup>*\<^sup>* db db'"
  shows "journal_step\<^sup>*\<^sup>* (journal_of db) (journal_of db')"
  using assms(2)
proof (induction rule: rtranclp_induct)
  case (step mid last)
  have "journal_inv mid" "reachable P mid" using reachable_run[OF assms(1) step(1)] reachable_journal by auto
  then have "journal_step\<^sup>*\<^sup>* (journal_of mid) (journal_of last)" using step(2) by (intro step_refines)
  with step(3) show ?case by (rule rtranclp_trans)
qed simp

text \<open>
  Property C2 (safety). The history of a command is a straight line: from the moment it is
  committed its number, its id and its body hash are its own in every later state; it may be erased
  and it may be acknowledged, an erased or acknowledged command is never pending again and has no
  body left, and it leaves the journal only when the floor of its connection has passed it.
\<close>

theorem command_history:
  assumes "reachable P db" "(fleet_step P)\<^sup>*\<^sup>* db db'" "command_of wid inc n db = Some c"
  shows "case command_of wid inc n db' of
      Some c' \<Rightarrow> cmd_command_id c' = cmd_command_id c \<and> cmd_body_hash c' = cmd_body_hash c
        \<and> later_state (cmd_state c) (cmd_state c') \<and> (cmd_state c' \<noteq> Pending \<longrightarrow> cmd_encrypted_body c' = None)
    | None \<Rightarrow> \<exists>w. conn_of wid inc db' = Some w \<and> n \<le> wc_acknowledged_floor w"
proof -
  let ?q = "((wid, inc), n)"
  have inv: "journal_inv db" "journal_inv db'"
    using reachable_journal assms(1) reachable_run[OF assms(1,2)] by auto
  have "command_fate ?q (command_view c) (journal_of db)"
    by (simp add: command_fate_def cmd_of_view assms(3) command_view_def)
  then have fate: "command_fate ?q (command_view c) (journal_of db')"
    by (rule fate_run[OF refines_run[OF assms(1,2)] journal_of_ok[OF inv(1)]])
  show ?thesis
  proof (cases "command_of wid inc n db'")
    case None
    with fate show ?thesis by (auto simp: command_fate_def cmd_of_view journal_of_def marks_def)
  next
    case (Some c')
    then have "row_contract c'" using journal_invD(4)[OF inv(2)] by (auto simp: command_of_def dest: find_SomeD)
    then have "cmd_state c' \<noteq> Pending \<longrightarrow> cmd_encrypted_body c' = None"
      by (auto simp: row_contract_def state_contract_def split: command_state.splits)
    with fate Some show ?thesis by (simp add: command_fate_def cmd_of_view command_view_def)
  qed
qed

theorem command_history_witness:
  "\<exists>w. conn_of ''w1'' (uid CHR ''1'') demo_acked = Some w \<and> 1 \<le> wc_acknowledged_floor w"
proof -
  have "command_of ''w1'' (uid CHR ''1'') 1 demo_committed = Some demo_row"
    by (simp add: command_of_def demo_committed_def demo_row_fields)
  moreover have "command_of ''w1'' (uid CHR ''1'') 1 demo_acked = None"
    by (simp add: command_of_def demo_acked_def)
  moreover have "(fleet_step demo_prims)\<^sup>*\<^sup>* demo_committed demo_acked"
    by (rule r_into_rtranclp[of "fleet_step demo_prims"]) (rule fleet_step.acknowledge[OF demo_acknowledge])
  ultimately show ?thesis using command_history[OF demo_committed_reachable, of demo_acked "''w1''" "uid CHR ''1''" 1 demo_row] by simp
qed

end
