(* ===== verification/Report_Contract.thy ===== *)
theory Report_Contract
  imports Demo_Journal
begin

text \<open>
  What the durable receipt of a worker report promises: a report is accounted once, its
  acknowledgement can be had again while it is among the last 256 of its range, and the measures of
  a range never fall.
\<close>

section \<open>The ledger\<close>

definition range_receipts :: "uuid \<Rightarrow> fleet_db \<Rightarrow> report_receipt list" where
  "range_receipts r db = filter (\<lambda>q. rc_range_id q = r) (db_receipts db)"

text \<open>The keys of both tables, at most 256 receipts of a range, each with its range and above its floor.\<close>

definition ledger_inv :: "fleet_db \<Rightarrow> bool" where
  "ledger_inv db \<longleftrightarrow> ranges.keyed db \<and> receipts.keyed db \<and> (\<forall>r. length (range_receipts r db) \<le> RECEIPTS_KEPT)
     \<and> (\<forall>q \<in> set (db_receipts db). \<exists>p \<in> set (db_ranges db). pr_range_id p = rc_range_id q \<and> pr_report_floor p < rc_report_sequence q)"

definition range_evolves :: "physical_range \<Rightarrow> physical_range \<Rightarrow> bool" where
  "range_evolves p p' \<longleftrightarrow> pr_range_id p' = pr_range_id p \<and> pr_worker_id p' = pr_worker_id p
     \<and> pr_incarnation p' = pr_incarnation p \<and> pr_subject_id p' = pr_subject_id p
     \<and> pr_report_floor p \<le> pr_report_floor p' \<and> pr_gpu_ms p \<le> pr_gpu_ms p' \<and> pr_frames p \<le> pr_frames p'
     \<and> pr_duration_ms p \<le> pr_duration_ms p'"

lemma range_evolves_refl [simp]: "range_evolves p p"
  by (simp add: range_evolves_def)

lemma range_evolves_trans: "range_evolves p q \<Longrightarrow> range_evolves q r \<Longrightarrow> range_evolves p r"
  by (auto simp: range_evolves_def)

text \<open>
  A report that was answered: its receipt is there (and \<open>B\<close> holds of it), or the floor of its range
  has passed it.
\<close>

definition accounted :: "(report_receipt \<Rightarrow> bool) \<Rightarrow> uuid \<Rightarrow> int \<Rightarrow> fleet_db \<Rightarrow> bool" where
  "accounted B r n db \<longleftrightarrow> (\<exists>q \<in> set (db_receipts db). receipt_key q = (r, n) \<and> B q)
     \<or> (\<exists>p \<in> set (db_ranges db). pr_range_id p = r \<and> n \<le> pr_report_floor p)"

text \<open>What a transaction may do to the two tables.\<close>

definition ledger_moves :: "fleet_db \<Rightarrow> fleet_db \<Rightarrow> bool" where
  "ledger_moves db db' \<longleftrightarrow> (ledger_inv db \<longrightarrow> ledger_inv db' \<and> grows range_evolves (db_ranges db) (db_ranges db')
     \<and> (\<forall>B r n. accounted B r n db \<longrightarrow> accounted B r n db'))"

lemma ledger_moves_trans: "ledger_moves a b \<Longrightarrow> ledger_moves b c \<Longrightarrow> ledger_moves a c"
  unfolding ledger_moves_def using grows_trans[of range_evolves] range_evolves_trans by metis

lemma ledger_moves_cong: "db_ranges db' = db_ranges db \<Longrightarrow> db_receipts db' = db_receipts db \<Longrightarrow> ledger_moves db db'"
  by (simp add: ledger_moves_def ledger_inv_def ranges.keyed_def receipts.keyed_def range_receipts_def accounted_def
      grows_list_all2 list.rel_refl)

lemma ledger_moves_refl [simp]: "ledger_moves db db"
  by (rule ledger_moves_cong) simp_all

section \<open>Transactions that leave the ledger alone\<close>

definition same_ledger :: "fleet_db \<Rightarrow> fleet_db \<Rightarrow> bool" where
  "same_ledger db db' \<longleftrightarrow> db_ranges db' = db_ranges db \<and> db_receipts db' = db_receipts db"

lemma same_ledger_refl [simp]: "same_ledger db db"
  by (simp add: same_ledger_def)

lemma same_ledger_trans: "same_ledger a b \<Longrightarrow> same_ledger b c \<Longrightarrow> same_ledger a c"
  by (simp add: same_ledger_def)

lemma same_ledger_moves: "same_ledger db db' \<Longrightarrow> ledger_moves db db'"
  by (simp add: same_ledger_def ledger_moves_cong)

lemma same_ledger_frames [simp]:
  "same_ledger db (db_connections_update f db)" "same_ledger db (db_commands_update g db)"
  "same_ledger db (db_sessions_update h db)" "same_ledger db (db_attempts_update k db)" "same_ledger db (set_conn q f' db)"
  "same_ledger db (refresh_conn_leases l db)" "same_ledger db (put_lease l db)" "same_ledger db (db_leases_update m db)"
  by (simp_all add: same_ledger_def set_conn_def refresh_conn_leases_def put_lease_def)

lemma same_fence: "same_ledger db (fence_conns clk ws db)"
proof -
  have "same_ledger d (fold (\<lambda>(i, k). fence_conn k (clk i)) xs d)" for xs and d :: fleet_db
    by (induction xs arbitrary: d) (auto simp: same_ledger_def fence_conn_def)
  then show ?thesis by (simp add: fence_conns_def)
qed

lemma same_erase_rows: "erase_pending_rows clk sel db = (n, db') \<Longrightarrow> same_ledger db db'"
  by (drule erase_pending_rows_shape) (auto intro: same_ledger_trans[OF _ same_fence])

lemma same_erase_subject: "erase_subject_commands clk a k s n db = Inr (v, db') \<Longrightarrow> same_ledger db db'"
  by (auto simp: erase_subject_commands_def bindR_Inr_iff intro: same_erase_rows)

lemma same_erase_account: "erase_account_commands clk accounts db = (n, db') \<Longrightarrow> same_ledger db db'"
  unfolding erase_account_commands_def by (rule same_erase_rows)

lemma same_erase_realtime: "erase_realtime_commands clk a ids keep db = (n, db') \<Longrightarrow> same_ledger db db'"
  by (auto simp: erase_realtime_commands_def split: option.splits intro: same_erase_rows)

lemma same_erase_reported:
  assumes "erase_reported_subject_command a k s n w i r att rs rh db = Inr (v, db')"
  shows "same_ledger db db'"
  using assms unfolding erase_reported_subject_command_def
  by (auto elim!: bindR_InrE split: list.splits option.splits)

lemma same_erase_attempts: "erase_attempts clk sas db = Inr db' \<Longrightarrow> same_ledger db db'"
proof (induction clk sas db rule: erase_attempts.induct)
  case (2 clk s a rest db)
  then show ?case
    by (auto simp: bindR_Inr_iff split: option.splits intro: same_ledger_trans[OF same_erase_subject])
qed simp

lemma same_activate: "same_ledger db (snd (activate_initial_worker env now w i db))"
  by (auto simp: activate_initial_worker_def split: option.splits)

lemma same_touch: "touch_worker env clk w i p db = Inr (u, db') \<Longrightarrow> same_ledger db db'"
  by (auto simp: touch_worker_def split: option.splits)

lemma same_grant: "renew_worker_grant env clk w i n db = (r, db') \<Longrightarrow> same_ledger db db'"
  using same_activate[of db env "clk 1" w i]
  by (auto simp: renew_worker_grant_def Let_def same_ledger_def set_conn_def split: option.splits)

lemma same_update_models:
  assumes "update_worker_models env clk w i ms db = Inr (u, db')"
  shows "same_ledger db db'"
proof -
  obtain f where "db' = snd (activate_initial_worker env (clk 2) w i (set_conn (w, i) f db))"
    using assms unfolding update_worker_models_def Let_def by (auto split: option.splits prod.splits)
  then show ?thesis using same_activate same_ledger_trans same_ledger_frames(5) by metis
qed

lemma fold_session_ledger: "same_ledger db (fold (end_ending_session t) sas db)"
  by (induction sas arbitrary: db) (auto simp: end_ending_session_def same_ledger_def)

lemma same_close_worker:
  assumes "close_worker env clk w i db = Inr (u, db')"
  shows "same_ledger db db'"
proof -
  obtain db1 where db1: "erase_attempts clk (conn_attempts w i db) db = Inr db1"
    using assms by (auto simp: close_worker_def Let_def bindR_Inr_iff)
  have "same_ledger db1 db'"
    using assms db1 fold_session_ledger by (auto simp: close_worker_def Let_def same_ledger_def)
  with same_erase_attempts[OF db1] show ?thesis by (rule same_ledger_trans)
qed

lemma same_end_session:
  assumes "end_realtime_session clk s g b db = Inr (r, db')"
  shows "same_ledger db db'"
proof -
  have "db' = db \<or> (\<exists>u v db1. erase_subject_commands clk u ''session'' s (Some g) db = Inr (v, db1) \<and> same_ledger db1 db')"
    using assms by (fastforce simp: end_realtime_session_def Let_def bindR_Inr_iff end_attempt_where_def same_ledger_def
        split: option.splits if_splits)
  then show ?thesis by (auto intro: same_ledger_trans[OF same_erase_subject])
qed

lemma same_abandon:
  assumes "abandon_realtime_attempt clk s g a db = Inr (r, db')"
  shows "same_ledger db db'"
proof -
  have "db' = db \<or> (\<exists>u v db1. erase_subject_commands clk u ''session'' s (Some g) db = Inr (v, db1) \<and> same_ledger db1 db')"
    using assms by (fastforce simp: abandon_realtime_attempt_def bindR_Inr_iff end_attempt_where_def same_ledger_def
        split: option.splits if_splits)
  then show ?thesis by (auto intro: same_ledger_trans[OF same_erase_subject])
qed

lemma same_session_ready: "accept_session_ready env clk w i m db = Inr (r, db') \<Longrightarrow> same_ledger db db'"
  unfolding accept_session_ready_def by (auto simp: same_ledger_def elim!: bindR_InrE split: option.splits if_splits)

lemma same_acknowledge:
  assumes "acknowledge P env clk message wid inc owner hdb db = Inr (res, db')"
  shows "same_ledger db db'"
  using assms
proof (cases rule: acknowledge_returns)
  case (recorded ack body row w subject publication db1)
  have "same_ledger db db1"
    using recorded(8) unfolding ack_row_def ack_pending_row_def apply_update_def Let_def
    by (auto simp: same_ledger_def update_command_row_def end_conn_def
        split: command_state.splits if_splits option.splits prod.splits elim!: bindR_InrE)
  then show ?thesis by (auto simp: recorded(9) same_ledger_def settle_floor_def)
qed simp


section \<open>Transactions that move the ledger\<close>

text \<open>A claim adds one range that was not there.\<close>

lemma insert_range_moves:
  assumes "insert_range p db = Inr db'"
  shows "ledger_moves db db'"
proof -
  have new: "pr_range_id p \<notin> pr_range_id ` set (db_ranges db)" "db' = db_ranges_update (\<lambda>rows. rows @ [p]) db"
    using assms by (auto simp: insert_range_def split: if_splits)
  show ?thesis
    using new(1) unfolding ledger_moves_def
    by (auto simp: new(2) ledger_inv_def ranges.keyed_def receipts.keyed_def range_receipts_def accounted_def
        grows_append list.rel_refl)
qed

lemma claim_moves:
  assumes "apply_command_claim P clk c w i a cid worker db = Inr db'"
  shows "ledger_moves db db'"
proof -
  have "db' = db \<or> (\<exists>p db1. same_ledger db db1 \<and> insert_range p db1 = Inr db')"
    using assms unfolding apply_command_claim_def apply_session_claim_def apply_job_claim_def Let_def
      insert_or_reopen_session_def insert_attempt_def insert_job_attempt_def
    by (fastforce simp: same_ledger_def elim!: bindR_InrE split: if_split_asm option.split_asm claim.split_asm)
  then show ?thesis
    by (auto intro: ledger_moves_trans[OF same_ledger_moves insert_range_moves])
qed

lemma prepare_ledger:
  assumes "prepare_command_subject P env clk k fs a cx jc w i owner db = Inr (prep, db')"
  shows "same_ledger db db'"
  using assms unfolding prepare_command_subject_def prepare_open_session_def prepare_update_session_def
    prepare_close_session_def prepare_dispatch_job_def prepare_cancel_job_def Let_def same_ledger_def
  by (auto elim!: bindR_InrE split: if_split_asm option.split_asm json.split_asm)

lemma commit_moves:
  assumes "commit_command P env clk cid nonce r hdb db = Inr (out, db')"
  shows "ledger_moves db db'"
  using assms
proof (rule commit_command_returns)
  fix fs prep db1 hint worker m stored account owner
  assume prep: "prepare_command_subject (fp_p6 P) env clk (rq_command_type r) fs account (rq_session_context r)
       (rq_job_context r) (rq_worker_id r) (rq_incarnation r) owner db = Inr (prep, db1)"
    and journal: "journal_command P clk nonce cid (rq_worker_id r) (rq_incarnation r) (rq_command_type r) account
       (pp_claim prep) worker m db1 = Inr (stored, db')"
  obtain flr db2 db3 c where steps:
      "apply_command_claim (fp_p6 P) clk (pp_claim prep) (rq_worker_id r) (rq_incarnation r) account cid worker
         (settle_floor (rq_worker_id r) (rq_incarnation r) (wc_acknowledged_floor worker) flr db1) = Inr db2"
      "insert_command c db2 = Inr db3" "db' = bump_sequence (rq_worker_id r) (rq_incarnation r) db3"
    using journal unfolding journal_command_def Let_def by (auto elim!: bindR_InrE)
  have "same_ledger db (settle_floor (rq_worker_id r) (rq_incarnation r) (wc_acknowledged_floor worker) flr db1)"
    using prepare_ledger[OF prep] by (simp add: same_ledger_def settle_floor_def)
  moreover have "same_ledger db2 db'"
    using steps(2) by (auto simp: steps(3) same_ledger_def bump_sequence_def insert_command_def split: if_splits)
  ultimately show ?thesis
    using claim_moves[OF steps(1)] by (blast intro: same_ledger_moves ledger_moves_trans)
qed

text \<open>The maxima are raised, the new receipt is stored, the oldest ones go and the floor covers them.\<close>

lemma grows_upd_where:
  assumes "\<And>r. r \<in> set rows \<Longrightarrow> P r \<Longrightarrow> range_evolves r (f r)"
  shows "grows range_evolves rows (upd_where P f rows)"
  by (rule grows_list_all2) (use assms in \<open>induction rows; auto\<close>)

text \<open>The receipts of a range fall into those kept and those dropped, every kept one above every dropped one.\<close>

lemma receipt_numbers_distinct:
  "distinct (map receipt_key rows) \<Longrightarrow> distinct (map rc_report_sequence (filter (\<lambda>q. rc_range_id q = r) rows))"
  by (induction rows) (auto simp: receipt_key_def image_iff)

lemma old_receipts_split:
  assumes "receipts.keyed db"
  obtains kept where "length kept \<le> RECEIPTS_KEPT"
    "set kept \<union> set (old_receipts r db) = rc_report_sequence ` set (range_receipts r db)"
    "set kept \<inter> set (old_receipts r db) = {}"
    "\<forall>k \<in> set kept. \<forall>n \<in> set (old_receipts r db). n < k"
    "\<forall>n \<in> set (old_receipts r db). n \<le> hd (old_receipts r db)"
proof -
  let ?ns = "map rc_report_sequence (range_receipts r db)"
  let ?desc = "rev (sort ?ns)"
  let ?kept = "take RECEIPTS_KEPT ?desc"
  have old: "old_receipts r db = drop RECEIPTS_KEPT ?desc" by (simp add: old_receipts_def range_receipts_def)
  have "distinct ?ns" using assms receipt_numbers_distinct unfolding receipts.keyed_def range_receipts_def by blast
  then have "sorted_wrt (<) (sort ?ns)" by (simp add: strict_sorted_iff)
  then have "sorted_wrt (>) ?desc" by (simp add: sorted_wrt_rev)
  then have desc: "sorted_wrt (>) (?kept @ old_receipts r db)" unfolding old by simp
  have all: "set ?kept \<union> set (old_receipts r db) = set ?ns"
    unfolding old by (metis set_append append_take_drop_id set_rev set_sort)
  show ?thesis
  proof (rule that[of ?kept])
    show "length ?kept \<le> RECEIPTS_KEPT" by simp
    show "set ?kept \<union> set (old_receipts r db) = rc_report_sequence ` set (range_receipts r db)" using all by simp
    show "\<forall>k \<in> set ?kept. \<forall>n \<in> set (old_receipts r db). n < k"
      using desc by (auto simp: sorted_wrt_append)
    then show "set ?kept \<inter> set (old_receipts r db) = {}" by force
    show "\<forall>n \<in> set (old_receipts r db). n \<le> hd (old_receipts r db)"
      using desc by (cases "old_receipts r db") (auto simp: sorted_wrt_append)
  qed
qed

lemma few_kept:
  assumes "receipts.keyed db" "set kept \<union> old = rc_report_sequence ` set (range_receipts r db)" "set kept \<inter> old = {}"
  shows "length (filter (\<lambda>q. rc_range_id q = r \<and> rc_report_sequence q \<notin> old) (db_receipts db)) \<le> length kept"
proof -
  let ?rows = "filter (\<lambda>q. rc_range_id q = r \<and> rc_report_sequence q \<notin> old) (db_receipts db)"
  have "distinct (map rc_report_sequence (range_receipts r db))"
    using assms(1) receipt_numbers_distinct unfolding receipts.keyed_def range_receipts_def by blast
  then have "distinct (map rc_report_sequence (filter (\<lambda>q. rc_report_sequence q \<notin> old) (range_receipts r db)))"
    by (simp add: distinct_map_filter)
  moreover have "filter (\<lambda>q. rc_report_sequence q \<notin> old) (range_receipts r db) = ?rows"
    unfolding range_receipts_def filter_filter by (rule filter_cong) auto
  ultimately have "distinct (map rc_report_sequence ?rows)" by simp
  from distinct_card[OF this] have "length ?rows = card (rc_report_sequence ` set ?rows)" by simp
  also have "rc_report_sequence ` set ?rows \<subseteq> set kept" using assms(2) by (auto simp: range_receipts_def)
  then have "card (rc_report_sequence ` set ?rows) \<le> card (set kept)" by (intro card_mono) auto
  also have "\<dots> \<le> length kept" by (rule card_length)
  finally show ?thesis .
qed

text \<open>Storing a receipt above the floor of its range and evicting the oldest ones.\<close>

lemma evict_tables:
  "db_ranges (evict_receipts r db) = (if old_receipts r db = [] then db_ranges db
     else upd_where (\<lambda>p. pr_range_id p = r) (\<lambda>p. p\<lparr>pr_report_floor := max (pr_report_floor p) (hd (old_receipts r db))\<rparr>) (db_ranges db))"
  "db_receipts (evict_receipts r db)
     = del_where (\<lambda>x. rc_range_id x = r \<and> rc_report_sequence x \<in> set (old_receipts r db)) (db_receipts db)"
  by (auto simp: evict_receipts_def del_where_def split: list.splits)

lemma evict_ranges: "grows range_evolves (db_ranges db) (db_ranges (evict_receipts r db))"
  unfolding evict_tables(1) by (auto simp: grows_list_all2 list.rel_refl range_evolves_def intro!: grows_upd_where)

lemma evict_keyed:
  "ranges.keyed db \<Longrightarrow> ranges.keyed (evict_receipts r db)" "receipts.keyed db \<Longrightarrow> receipts.keyed (evict_receipts r db)"
  by (auto simp: ranges.keyed_def receipts.keyed_def evict_tables map_upd_where distinct_map_filter_del)

text \<open>Evicting leaves the 256 newest receipts of the range, and the others as they were.\<close>

lemma evict_length:
  assumes "receipts.keyed db" "s \<noteq> r \<Longrightarrow> length (range_receipts s db) \<le> RECEIPTS_KEPT"
  shows "length (range_receipts s (evict_receipts r db)) \<le> RECEIPTS_KEPT"
proof (cases "s = r")
  case True
  obtain kept where kept: "length kept \<le> RECEIPTS_KEPT" "set kept \<union> set (old_receipts r db) = rc_report_sequence ` set (range_receipts r db)"
      "set kept \<inter> set (old_receipts r db) = {}"
    by (rule old_receipts_split[OF assms(1), of r]) (rule that; assumption)
  have "range_receipts s (evict_receipts r db)
      = filter (\<lambda>x. rc_range_id x = r \<and> rc_report_sequence x \<notin> set (old_receipts r db)) (db_receipts db)"
    unfolding range_receipts_def evict_tables(2) del_where_def filter_filter True by (rule filter_cong) auto
  with few_kept[OF assms(1) kept(2,3)] kept(1) show ?thesis by simp
next
  case False
  then have "range_receipts s (evict_receipts r db) = range_receipts s db"
    unfolding range_receipts_def evict_tables(2) del_where_def filter_filter by (auto intro!: filter_cong)
  with False assms(2) show ?thesis by simp
qed

text \<open>The floor rises to the newest receipt that was evicted: every kept receipt stays above it.\<close>

definition above_floor :: "report_receipt \<Rightarrow> fleet_db \<Rightarrow> bool" where
  "above_floor x db \<longleftrightarrow> (\<exists>p \<in> set (db_ranges db). pr_range_id p = rc_range_id x \<and> pr_report_floor p < rc_report_sequence x)"

lemma evict_above_floor:
  assumes keyed: "receipts.keyed db" and x: "x \<in> set (db_receipts (evict_receipts r db))" "above_floor x db"
  shows "above_floor x (evict_receipts r db)"
proof -
  let ?old = "old_receipts r db"
  obtain p where p: "p \<in> set (db_ranges db)" "pr_range_id p = rc_range_id x" "pr_report_floor p < rc_report_sequence x"
    using x(2) by (auto simp: above_floor_def)
  have x1: "x \<in> set (db_receipts db)" and notold: "rc_range_id x = r \<Longrightarrow> rc_report_sequence x \<notin> set ?old"
    using x(1) unfolding evict_tables(2) by (auto simp: set_del_where)
  show ?thesis
  proof (cases "?old = [] \<or> rc_range_id x \<noteq> r")
    case True
    then have "p \<in> set (db_ranges (evict_receipts r db))"
      unfolding evict_tables(1) using p by (auto simp: set_upd_where intro: image_eqI[of _ _ p])
    with p show ?thesis by (auto simp: above_floor_def)
  next
    case False
    obtain kept where "set kept \<union> set ?old = rc_report_sequence ` set (range_receipts r db)" "\<forall>k \<in> set kept. \<forall>n \<in> set ?old. n < k"
      by (rule old_receipts_split[OF keyed, of r]) (rule that; assumption)
    moreover from this have "rc_report_sequence x \<in> set kept" using notold False x1 by (auto simp: range_receipts_def)
    ultimately have "hd ?old < rc_report_sequence x" using False hd_in_set by blast
    moreover have "p\<lparr>pr_report_floor := max (pr_report_floor p) (hd ?old)\<rparr> \<in> set (db_ranges (evict_receipts r db))"
      unfolding evict_tables(1) using False p by (auto simp: set_upd_where intro: image_eqI[of _ _ p])
    ultimately show ?thesis unfolding above_floor_def using p by (intro bexI[of _ "p\<lparr>pr_report_floor := _\<rparr>"]) auto
  qed
qed

lemma evict_accounted:
  assumes keyed: "receipts.keyed db" and p: "p \<in> set (db_ranges db)" "pr_range_id p = s" and acc: "accounted B r n db"
  shows "accounted B r n (evict_receipts s db)"
proof (cases "\<exists>x \<in> set (db_receipts db). receipt_key x = (r, n) \<and> B x")
  case True
  then obtain x where x: "x \<in> set (db_receipts db)" "receipt_key x = (r, n)" "B x" by blast
  show ?thesis
  proof (cases "x \<in> set (db_receipts (evict_receipts s db))")
    case True
    with x show ?thesis by (auto simp: accounted_def)
  next
    case False
    then have gone: "rc_range_id x = s" "rc_report_sequence x \<in> set (old_receipts s db)"
      using x(1) unfolding evict_tables(2) by (auto simp: set_del_where)
    moreover have "\<forall>n \<in> set (old_receipts s db). n \<le> hd (old_receipts s db)"
      by (rule old_receipts_split[OF keyed, of s])
    ultimately have old: "old_receipts s db \<noteq> []" "n \<le> hd (old_receipts s db)" "r = s" using x(2) by (auto simp: receipt_key_def)
    then have "p\<lparr>pr_report_floor := max (pr_report_floor p) (hd (old_receipts s db))\<rparr> \<in> set (db_ranges (evict_receipts s db))"
      unfolding evict_tables(1) using p by (auto simp: set_upd_where intro: image_eqI[of _ _ p])
    with old p(2) show ?thesis unfolding accounted_def by (intro disjI2 bexI[of _ "p\<lparr>pr_report_floor := _\<rparr>"]) auto
  qed
next
  case False
  then obtain x where "x \<in> set (db_ranges db)" "pr_range_id x = r" "n \<le> pr_report_floor x" using acc by (auto simp: accounted_def)
  moreover obtain y where "y \<in> set (db_ranges (evict_receipts s db))" "range_evolves x y"
    using grows_mem[OF evict_ranges] calculation(1) by blast
  ultimately show ?thesis unfolding accounted_def by (intro disjI2 bexI[of _ y]) (auto simp: range_evolves_def)
qed

lemma store_receipt_moves:
  assumes inv: "ledger_inv db" and p: "p \<in> set (db_ranges db)" "pr_range_id p = rc_range_id q" "pr_report_floor p < rc_report_sequence q"
    and ins: "insert_receipt q db = Inr db1"
  shows "ledger_inv (evict_receipts (rc_range_id q) db1)"
    "grows range_evolves (db_ranges db) (db_ranges (evict_receipts (rc_range_id q) db1))"
    "accounted B r n db \<or> (r, n) = receipt_key q \<and> B q \<Longrightarrow> accounted B r n (evict_receipts (rc_range_id q) db1)"
proof -
  have db1: "db_receipts db1 = db_receipts db @ [q]" "db_ranges db1 = db_ranges db"
      "receipt_key q \<notin> receipt_key ` set (db_receipts db)"
    using ins by (auto simp: insert_receipt_def split: if_splits)
  have keyed: "ranges.keyed db1" "receipts.keyed db1"
    using inv db1(3) by (simp_all add: ledger_inv_def ranges.keyed_def receipts.keyed_def db1)
  show "grows range_evolves (db_ranges db) (db_ranges (evict_receipts (rc_range_id q) db1))"
    using evict_ranges[of db1] by (simp add: db1)
  have above: "above_floor x db1" if "x \<in> set (db_receipts db1)" for x
    using that inv p by (auto simp: db1 ledger_inv_def above_floor_def)
  have "\<exists>p \<in> set (db_ranges (evict_receipts (rc_range_id q) db1)). pr_range_id p = rc_range_id x \<and> pr_report_floor p < rc_report_sequence x"
    if "x \<in> set (db_receipts (evict_receipts (rc_range_id q) db1))" for x
    using evict_above_floor[OF keyed(2) that] above[of x] that by (auto simp: above_floor_def evict_tables(2) set_del_where)
  moreover have "length (range_receipts s (evict_receipts (rc_range_id q) db1)) \<le> RECEIPTS_KEPT" for s
    using inv by (intro evict_length[OF keyed(2)]) (auto simp: ledger_inv_def range_receipts_def db1)
  ultimately show "ledger_inv (evict_receipts (rc_range_id q) db1)"
    using evict_keyed(1)[OF keyed(1)] evict_keyed(2)[OF keyed(2)] by (simp add: ledger_inv_def)
  show "accounted B r n db \<or> (r, n) = receipt_key q \<and> B q \<Longrightarrow> accounted B r n (evict_receipts (rc_range_id q) db1)"
    by (rule evict_accounted[OF keyed(2)]) (use p in \<open>auto simp: db1 accounted_def\<close>)
qed


lemma erase_after_ledger: "erase_after_report clk u w i f db = Inr db' \<Longrightarrow> same_ledger db db'"
  by (auto simp: erase_after_report_def bindR_Inr_iff split: if_splits intro: same_erase_subject same_erase_reported)

lemma record_range_moves:
  assumes "ledger_inv db" "range_of (rf_range_id f) db = Some p"
  shows "ledger_inv (record_range f (report_maxima f p) db)"
    "grows range_evolves (db_ranges db) (db_ranges (record_range f (report_maxima f p) db))"
    "accounted B r n db \<Longrightarrow> accounted B r n (record_range f (report_maxima f p) db)"
proof -
  let ?db = "record_range f (report_maxima f p) db"
  have p: "p \<in> set (db_ranges db)" "pr_range_id p = rf_range_id f"
    using assms(2) by (auto simp: range_of_def dest: find_SomeD)
  have only: "x = p" if "x \<in> set (db_ranges db)" "pr_range_id x = rf_range_id f" for x
    using that p assms(1) by (auto simp: ledger_inv_def ranges.keyed_def intro: distinct_key_unique)
  show grows: "grows range_evolves (db_ranges db) (db_ranges ?db)"
    by (auto simp: record_range_def range_evolves_def report_maxima_def dest!: only intro!: grows_upd_where)
  have same: "db_receipts ?db = db_receipts db" by (simp add: record_range_def)
  have keep: "\<exists>y \<in> set (db_ranges ?db). pr_range_id y = pr_range_id x \<and> pr_report_floor y = pr_report_floor x"
    if "x \<in> set (db_ranges db)" for x
  proof -
    let ?g = "\<lambda>p'. p'\<lparr>pr_report_sequence := rf_sequence f, pr_report_hash := Some (rf_hash f),
      pr_gpu_ms := mx_gpu_ms (report_maxima f p), pr_frames := mx_frames (report_maxima f p),
      pr_duration_ms := mx_duration_ms (report_maxima f p)\<rparr>"
    have "(if pr_range_id x = rf_range_id f then ?g x else x) \<in> set (db_ranges ?db)"
      unfolding record_range_def using that by (simp add: set_upd_where)
    then show ?thesis by (rule rev_bexI) simp
  qed
  show "ledger_inv ?db"
    using assms(1) keep unfolding ledger_inv_def range_receipts_def same
    by (auto simp: ranges.keyed_def receipts.keyed_def same record_range_def[of f] map_upd_where) metis+
  show "accounted B r n db \<Longrightarrow> accounted B r n ?db"
    using keep unfolding accounted_def same by metis
qed

lemma record_report_moves:
  assumes inv: "ledger_inv db" and p: "range_of (rf_range_id f) db = Some p" "pr_report_floor p < rf_sequence f"
    and run: "record_report P clk u w i rep f cur ack p db = Inr (body, db')"
  shows "ledger_inv db'" "grows range_evolves (db_ranges db) (db_ranges db')"
    "accounted B r n db \<or> (r, n) = (rf_range_id f, rf_sequence f)
       \<and> (\<forall>q. rc_ack_body q = body \<and> rc_report_hash q = rf_hash f \<longrightarrow> B q) \<Longrightarrow> accounted B r n db'"
proof -
  let ?m = "report_maxima f p"
  let ?db1 = "record_range f ?m db"
  let ?db2 = "if rf_is_session f then record_session_attempt (clk 2) f ?m ?db1
              else record_job_attempt (clk 2) rep f cur ?m ?db1"
  let ?db3 = "end_reported_session (clk 3) f ?db2"
  obtain db4 where db4: "insert_receipt (report_receipt_row (clk 0) f ?m body) ?db3 = Inr db4"
      "erase_after_report clk u w i f (evict_receipts (rf_range_id f) db4) = Inr db'"
    using run by (auto simp: record_report_def Let_def bindR_Inr_iff)
  let ?q = "report_receipt_row (clk 0) f ?m body"
  have q: "rc_range_id ?q = rf_range_id f" "receipt_key ?q = (rf_range_id f, rf_sequence f)" "rc_report_sequence ?q = rf_sequence f"
      "rc_ack_body ?q = body" "rc_report_hash ?q = rf_hash f"
    by (simp_all add: report_receipt_row_def receipt_key_def)
  have same: "same_ledger ?db1 ?db3" "same_ledger (evict_receipts (rf_range_id f) db4) db'"
    using erase_after_ledger[OF db4(2)]
    by (auto simp: same_ledger_def end_reported_session_def record_session_attempt_def record_job_attempt_def)
  note one = record_range_moves[OF inv p(1)]
  have inv3: "ledger_inv ?db3" using one(1) same_ledger_moves[OF same(1)] by (simp add: ledger_moves_def)
  have mem: "p \<in> set (db_ranges db)" "pr_range_id p = rf_range_id f"
    using p(1) by (auto simp: range_of_def dest: find_SomeD)
  define p' where "p' = p\<lparr>pr_report_sequence := rf_sequence f, pr_report_hash := Some (rf_hash f),
      pr_gpu_ms := mx_gpu_ms ?m, pr_frames := mx_frames ?m, pr_duration_ms := mx_duration_ms ?m\<rparr>"
  have "p' \<in> set (db_ranges ?db1)" using mem by (auto simp: record_range_def set_upd_where p'_def intro: image_eqI[of _ _ p])
  then have p': "p' \<in> set (db_ranges ?db3)" "pr_range_id p' = rc_range_id ?q" "pr_report_floor p' < rc_report_sequence ?q"
    using same(1) mem p(2) by (simp_all add: same_ledger_def p'_def q)
  note two = store_receipt_moves[OF inv3 p' db4(1), unfolded q]
  have three: "db_ranges db' = db_ranges (evict_receipts (rf_range_id f) db4)"
      "db_receipts db' = db_receipts (evict_receipts (rf_range_id f) db4)"
    using same(2) by (simp_all add: same_ledger_def)
  have last: "ledger_moves (evict_receipts (rf_range_id f) db4) db'" using same(2) by (rule same_ledger_moves)
  with two(1) show "ledger_inv db'" by (simp add: ledger_moves_def)
  have "db_ranges ?db3 = db_ranges ?db1" using same(1) by (simp add: same_ledger_def)
  with two(2) have "grows range_evolves (db_ranges ?db1) (db_ranges db')" by (simp add: three)
  with one(2) show "grows range_evolves (db_ranges db) (db_ranges db')"
    using grows_trans[of range_evolves] range_evolves_trans by metis
  have acc3: "accounted B r n ?db3 = accounted B r n ?db1" using same(1) by (simp only: accounted_def same_ledger_def)
  assume "accounted B r n db \<or> (r, n) = (rf_range_id f, rf_sequence f)
       \<and> (\<forall>q. rc_ack_body q = body \<and> rc_report_hash q = rf_hash f \<longrightarrow> B q)"
  then have "accounted B r n ?db3 \<or> (r, n) = (rf_range_id f, rf_sequence f) \<and> B ?q"
    using one(3)[of B r n] q(4,5) acc3 by (elim disjE conjE) auto
  with two(3) last two(1) show "accounted B r n db'" by (auto simp: ledger_moves_def)
qed

lemma report_moves:
  assumes "commit_worker_report P env clk w i rep db = Inr (body, db')"
  shows "ledger_moves db db'"
proof -
  show ?thesis using assms
  proof (rule commit_worker_report_returns)
    fix f ack user entity p
    assume p: "range_of (rf_range_id f) db = Some p"
      and out: "case receipt_of (rf_range_id f) (rf_sequence f) db of
         Some receipt \<Rightarrow> rc_report_hash receipt = rf_hash f \<and> body = rc_ack_body receipt \<and> db' = db
       | None \<Rightarrow> if rf_sequence f \<le> pr_report_floor p
           then lift_py (preflight_worker_control P (stale_ack ack f p) None None) = Inr body \<and> db' = db
           else record_report P clk user w i rep f (report_is_current f entity) ack p db = Inr (body, db')"
    show ?thesis
    proof (cases "db' = db")
      case False
      with out have "record_report P clk user w i rep f (report_is_current f entity) ack p db = Inr (body, db')"
          "pr_report_floor p < rf_sequence f"
        by (auto split: option.splits if_splits)
      from record_report_moves[OF _ p this(2) this(1)] show ?thesis by (auto simp: ledger_moves_def)
    qed simp
  qed
qed

section \<open>Along a run\<close>

lemma fleet_step_ledger:
  assumes "fleet_step P db db'"
  shows "ledger_moves db db'"
  using assms
proof (cases rule: fleet_step.cases)
  case (acquire env clk fresh region l)
  then show ?thesis
    by (auto simp: acquire_scheduler_lease_def Let_def refresh_conn_leases_def put_lease_def
        split: option.splits if_splits intro!: ledger_moves_cong)
next
  case (renew env clk held l)
  then show ?thesis
    by (auto simp: renew_scheduler_lease_def Let_def refresh_conn_leases_def put_lease_def
        split: option.splits intro!: ledger_moves_cong)
next
  case (register env clk h l)
  then show ?thesis by (auto simp: register_worker_def Let_def split: option.splits intro!: ledger_moves_cong)
next
  case (activate env now wid inc b)
  then show ?thesis using same_ledger_moves[OF same_activate] by (metis snd_conv)
next
  case elsewhere
  then show ?thesis by (intro ledger_moves_cong)
qed (blast intro: same_ledger_moves same_erase_account same_erase_realtime same_erase_subject same_update_models
    same_close_worker same_touch same_grant same_end_session same_abandon same_session_ready same_acknowledge
    commit_moves report_moves)+

lemma run_ledger: "(fleet_step P)\<^sup>*\<^sup>* db db' \<Longrightarrow> ledger_moves db db'"
  by (induction rule: rtranclp_induct) (auto intro: ledger_moves_trans fleet_step_ledger)

text \<open>An installation starts with no range and no receipt.\<close>

definition ledgered :: "fleet_prims \<Rightarrow> fleet_db \<Rightarrow> bool" where
  "ledgered P db \<longleftrightarrow> (\<exists>start. db_ranges start = [] \<and> db_receipts start = [] \<and> (fleet_step P)\<^sup>*\<^sup>* start db)"

lemma ledgered_inv: "ledgered P db \<Longrightarrow> ledger_inv db"
proof -
  have "ledger_inv start" if "db_ranges start = []" "db_receipts start = []" for start
    using that by (simp add: ledger_inv_def ranges.keyed_def receipts.keyed_def range_receipts_def)
  then show "ledgered P db \<Longrightarrow> ledger_inv db"
    using run_ledger unfolding ledgered_def ledger_moves_def by blast
qed


section \<open>What a report may count on\<close>

lemma range_of_iff:
  "ranges.keyed db \<Longrightarrow> range_of r db = Some p \<longleftrightarrow> p \<in> set (db_ranges db) \<and> pr_range_id p = r"
  using ranges.row_at_Some_iff[of db r p] by (simp add: ranges.row_at_def range_of_def)

lemma receipt_of_iff:
  "receipts.keyed db \<Longrightarrow> receipt_of r n db = Some q \<longleftrightarrow> q \<in> set (db_receipts db) \<and> receipt_key q = (r, n)"
  using receipts.row_at_Some_iff[of db "(r, n)" q] by (simp add: receipts.row_at_def receipt_of_def)

text \<open>A receipt of an accounted report satisfies what was said of it: the floor has not passed it.\<close>

lemma accounted_receipt:
  assumes "ledger_inv db" "accounted B r n db" "receipt_of r n db = Some q"
  shows "B q"
proof -
  have keyed: "ranges.keyed db" "receipts.keyed db" using assms(1) by (auto simp: ledger_inv_def)
  have q: "q \<in> set (db_receipts db)" "receipt_key q = (r, n)" using assms(3) by (auto simp: receipt_of_iff[OF keyed(2)])
  from assms(2) show ?thesis unfolding accounted_def
  proof (elim disjE bexE conjE)
    fix x assume "x \<in> set (db_receipts db)" "receipt_key x = (r, n)" "B x"
    with q keyed(2) show ?thesis by (auto simp: receipts.keyed_def dest: distinct_key_unique)
  next
    fix p assume p: "p \<in> set (db_ranges db)" "pr_range_id p = r" "n \<le> pr_report_floor p"
    obtain y where y: "y \<in> set (db_ranges db)" "pr_range_id y = r" "pr_report_floor y < n"
      using assms(1) q by (auto simp: ledger_inv_def receipt_key_def)
    have "y = p" by (rule distinct_key_unique[of pr_range_id "db_ranges db"]) (use y p keyed(1) in \<open>simp_all add: ranges.keyed_def\<close>)
    with y p show ?thesis by simp
  qed
qed

lemma report_accounts:
  assumes inv: "ledger_inv db" and run: "commit_worker_report P env clk w i rep db = Inr (body, db')"
    and f: "parse_report rep = Inr f"
  shows "accounted (\<lambda>q. rc_ack_body q = body \<and> rc_report_hash q = rf_hash f) (rf_range_id f) (rf_sequence f) db'"
  using run
proof (rule commit_worker_report_returns)
  fix g ack user entity p
  assume "parse_report rep = Inr g"
  with f have g: "g = f" by simp
  assume p: "range_of (rf_range_id g) db = Some p"
    and out: "case receipt_of (rf_range_id g) (rf_sequence g) db of
       Some receipt \<Rightarrow> rc_report_hash receipt = rf_hash g \<and> body = rc_ack_body receipt \<and> db' = db
     | None \<Rightarrow> if rf_sequence g \<le> pr_report_floor p
         then lift_py (preflight_worker_control P (stale_ack ack g p) None None) = Inr body \<and> db' = db
         else record_report P clk user w i rep g (report_is_current g entity) ack p db = Inr (body, db')"
  show ?thesis
  proof (cases "receipt_of (rf_range_id f) (rf_sequence f) db")
    case (Some q)
    then have "q \<in> set (db_receipts db)" "receipt_key q = (rf_range_id f, rf_sequence f)"
      by (auto simp: receipt_of_def dest: find_SomeD)
    with out Some g show ?thesis by (auto simp: accounted_def)
  next
    case None
    show ?thesis
    proof (cases "rf_sequence f \<le> pr_report_floor p")
      case True
      with None out p g show ?thesis by (auto simp: accounted_def range_of_def dest!: find_SomeD)
    next
      case False
      then have "record_report P clk user w i rep f (report_is_current f entity) ack p db = Inr (body, db')"
        using None out g by simp
      with record_report_moves(3)[OF inv p[unfolded g], of P clk user w i rep] False show ?thesis by simp
    qed
  qed
qed

text \<open>
  Property C5 (safety). A report is accounted once. After it was answered (recorded, replayed or
  refused as stale), a report of the same range with the same number is, at any later time and by
  any process, either refused with an exception or answered without writing anything; while its
  receipt is kept the answer is the first one, byte for byte, and only for the same report hash.
\<close>

theorem report_is_accounted_once:
  assumes "ledgered P db" "commit_worker_report p6 env clk w i rep db = Inr (body, db1)" "parse_report rep = Inr f"
    and "(fleet_step P)\<^sup>*\<^sup>* db1 db2"
    and "commit_worker_report p6' env' clk' w' i' rep' db2 = Inr (body', db3)" "parse_report rep' = Inr f'"
    and "rf_range_id f' = rf_range_id f" "rf_sequence f' = rf_sequence f"
  shows "db3 = db2 \<and> (receipt_of (rf_range_id f) (rf_sequence f) db2 \<noteq> None \<longrightarrow> body' = body \<and> rf_hash f' = rf_hash f)"
proof -
  let ?B = "\<lambda>q. rc_ack_body q = body \<and> rc_report_hash q = rf_hash f"
  have inv: "ledger_inv db" using assms(1) by (rule ledgered_inv)
  have inv1: "ledger_inv db1" using report_moves[OF assms(2)] inv by (simp add: ledger_moves_def)
  then have inv2: "ledger_inv db2" using run_ledger[OF assms(4)] by (simp add: ledger_moves_def)
  have acc: "accounted ?B (rf_range_id f) (rf_sequence f) db2"
    using report_accounts[OF inv assms(2,3)] run_ledger[OF assms(4)] inv1 by (simp add: ledger_moves_def)
  show ?thesis using assms(5)
  proof (rule commit_worker_report_returns)
    fix g ack user entity p
    assume "parse_report rep' = Inr g"
    with assms(6) have g: "g = f'" by simp
    assume p: "range_of (rf_range_id g) db2 = Some p"
      and out: "case receipt_of (rf_range_id g) (rf_sequence g) db2 of
         Some receipt \<Rightarrow> rc_report_hash receipt = rf_hash g \<and> body' = rc_ack_body receipt \<and> db3 = db2
       | None \<Rightarrow> if rf_sequence g \<le> pr_report_floor p
           then lift_py (preflight_worker_control p6' (stale_ack ack g p) None None) = Inr body' \<and> db3 = db2
           else record_report p6' clk' user w' i' rep' g (report_is_current g entity) ack p db2 = Inr (body', db3)"
    show ?thesis
    proof (cases "receipt_of (rf_range_id f) (rf_sequence f) db2")
      case (Some q)
      with accounted_receipt[OF inv2 acc Some] out g assms(7,8) show ?thesis by simp
    next
      case None
      then have none: "\<And>q. q \<in> set (db_receipts db2) \<Longrightarrow> receipt_key q \<noteq> (rf_range_id f, rf_sequence f)"
        by (auto simp: receipt_of_def find_None_iff)
      obtain y where y: "y \<in> set (db_ranges db2)" "pr_range_id y = rf_range_id f" "rf_sequence f \<le> pr_report_floor y"
        using acc none by (auto simp: accounted_def)
      have "range_of (rf_range_id f) db2 = Some y" using y(1,2) inv2 by (simp add: range_of_iff ledger_inv_def)
      with p g assms(7) have "p = y" by simp
      with out None y(3) g assms(7,8) show ?thesis by simp
    qed
  qed
qed

text \<open>
  At most 256 receipts are kept of a range, and every one of them is above
  the floor of its range: a report the floor has passed is never replayed from a receipt.
\<close>

theorem receipts_are_bounded:
  assumes "ledgered P db"
  shows "length (filter (\<lambda>q. rc_range_id q = r) (db_receipts db)) \<le> 256
     \<and> (\<forall>q \<in> set (db_receipts db). \<exists>p. range_of (rc_range_id q) db = Some p \<and> pr_report_floor p < rc_report_sequence q)"
proof -
  have inv: "ledger_inv db" using assms by (rule ledgered_inv)
  then have "\<exists>p. range_of (rc_range_id q) db = Some p \<and> pr_report_floor p < rc_report_sequence q"
    if "q \<in> set (db_receipts db)" for q
    using that unfolding ledger_inv_def by (auto simp: range_of_iff)
  with inv show ?thesis by (auto simp: ledger_inv_def range_receipts_def RECEIPTS_KEPT_def)
qed

text \<open>
  A physical range is never lost and keeps its worker and its subject; its
  floor and the three measures accounted for it never fall, whatever reports arrive in whatever order.
\<close>

theorem measures_never_fall:
  assumes "ledgered P db" "(fleet_step P)\<^sup>*\<^sup>* db db'" "range_of r db = Some p"
  shows "\<exists>p'. range_of r db' = Some p' \<and> pr_worker_id p' = pr_worker_id p \<and> pr_incarnation p' = pr_incarnation p
     \<and> pr_subject_id p' = pr_subject_id p \<and> pr_report_floor p \<le> pr_report_floor p' \<and> pr_gpu_ms p \<le> pr_gpu_ms p'
     \<and> pr_frames p \<le> pr_frames p' \<and> pr_duration_ms p \<le> pr_duration_ms p'"
proof -
  have moves: "ledger_inv db'" "grows range_evolves (db_ranges db) (db_ranges db')"
    using run_ledger[OF assms(2)] ledgered_inv[OF assms(1)] by (auto simp: ledger_moves_def)
  obtain p' where "p' \<in> set (db_ranges db')" "range_evolves p p'"
    using grows_mem[OF moves(2)] assms(3) by (auto simp: range_of_def dest!: find_SomeD)
  moreover have "pr_range_id p = r" using assms(3) by (auto simp: range_of_def dest: find_SomeD)
  ultimately show ?thesis
    using moves(1) by (intro exI[of _ p']) (auto simp: range_of_iff ledger_inv_def range_evolves_def)
qed


section \<open>Witnesses\<close>

text \<open>A checkpoint of the demo installation's job, reported twice.\<close>

definition demo_report :: dict where
  "demo_report = [(''type'', JStr ''checkpoint''), (''worker_id'', JStr ''w1''), (''incarnation'', JStr (uid CHR ''1'')),
     (''region'', JStr ''local''), (''owner_epoch'', JInt 1), (''job_id'', JStr (uid CHR ''d'')), (''dispatch_sequence'', JInt 1),
     (''range_id'', JStr (uid CHR ''e'')), (''report_sequence'', JInt 1), (''report_hash'', JStr demo_hash),
     (''gpu_ms'', JInt 20), (''duration_ms'', JInt 30), (''images'', JInt 1)]"

definition demo_commit_report :: "fleet_db \<Rightarrow> string tx" where
  "demo_commit_report = commit_worker_report demo_p6 demo_env (\<lambda>_. 5 * second) ''w1'' (uid CHR ''1'') demo_report"

lemma demo_reports:
  "case demo_commit_report demo_committed of Inl _ \<Rightarrow> False
   | Inr (body, db) \<Rightarrow> map pr_gpu_ms (db_ranges db) = [20] \<and> map receipt_key (db_receipts db) = [(uid CHR ''e'', 1)]
       \<and> (case demo_commit_report db of Inl _ \<Rightarrow> False | Inr _ \<Rightarrow> True)"
  by code_simp

lemma demo_report_runs:
  obtains body db1 body' db2 where "demo_commit_report demo_committed = Inr (body, db1)" "demo_commit_report db1 = Inr (body', db2)"
    "map pr_gpu_ms (db_ranges db1) = [20]" "map receipt_key (db_receipts db1) = [(uid CHR ''e'', 1)]"
proof -
  obtain r1 where r1: "demo_commit_report demo_committed = Inr r1"
    using demo_reports by (cases "demo_commit_report demo_committed") simp_all
  obtain body db1 where first: "demo_commit_report demo_committed = Inr (body, db1)" using r1 by (cases r1) simp
  note facts = demo_reports[unfolded first sum.case prod.case]
  from facts obtain r2 where r2: "demo_commit_report db1 = Inr r2"
    by (cases "demo_commit_report db1") simp_all
  obtain body' db2 where second: "demo_commit_report db1 = Inr (body', db2)" using r2 by (cases r2) simp
  show thesis by (rule that[OF first second]) (simp_all add: facts)
qed

lemma demo_report_facts: "\<exists>f. parse_report demo_report = Inr f \<and> rf_range_id f = uid CHR ''e'' \<and> rf_sequence f = 1"
proof -
  have "case parse_report demo_report of Inl _ \<Rightarrow> False | Inr f \<Rightarrow> rf_range_id f = uid CHR ''e'' \<and> rf_sequence f = 1"
    by code_simp
  then show ?thesis by (auto split: sum.splits)
qed

lemma demo_ledgered: "ledgered demo_prims demo_committed"
proof -
  have "(fleet_step demo_prims)\<^sup>*\<^sup>* demo_start demo_committed"
    using demo_granted_run demo_commit_step by (rule rtranclp.rtrancl_into_rtrancl)
  then show ?thesis unfolding ledgered_def by (intro exI[of _ demo_start]) (simp add: demo_start_def)
qed

theorem report_is_accounted_once_witness:
  "\<exists>body db. demo_commit_report demo_committed = Inr (body, db) \<and> demo_commit_report db = Inr (body, db)"
proof -
  obtain body db1 body' db2 where run: "demo_commit_report demo_committed = Inr (body, db1)" "demo_commit_report db1 = Inr (body', db2)"
      and kept: "map receipt_key (db_receipts db1) = [(uid CHR ''e'', 1)]"
    by (rule demo_report_runs)
  obtain f where f: "parse_report demo_report = Inr f" "rf_range_id f = uid CHR ''e''" "rf_sequence f = 1"
    using demo_report_facts by blast
  have "receipt_of (rf_range_id f) (rf_sequence f) db1 \<noteq> None"
    using kept f by (auto simp: receipt_of_def find_None_iff)
  then have "db2 = db1 \<and> body' = body"
    using report_is_accounted_once[OF demo_ledgered run(1)[unfolded demo_commit_report_def] f(1) rtranclp.rtrancl_refl
        run(2)[unfolded demo_commit_report_def] f(1) refl refl] by blast
  with run show ?thesis by blast
qed

theorem receipts_are_bounded_witness: "length (filter (\<lambda>q. rc_range_id q = uid CHR ''e'') (db_receipts demo_committed)) \<le> 256"
  using receipts_are_bounded[OF demo_ledgered] by blast

theorem measures_never_fall_witness:
  "\<exists>body db p. demo_commit_report demo_committed = Inr (body, db) \<and> range_of (uid CHR ''e'') db = Some p \<and> 0 \<le> pr_gpu_ms p"
proof -
  obtain body db1 body' db2 where run: "demo_commit_report demo_committed = Inr (body, db1)" by (rule demo_report_runs)
  have "(fleet_step demo_prims)\<^sup>*\<^sup>* demo_committed db1"
    by (rule r_into_rtranclp[of "fleet_step demo_prims"], rule fleet_step.report[OF run[unfolded demo_commit_report_def]])
  moreover have "range_of (uid CHR ''e'') demo_committed = Some demo_range" "pr_gpu_ms demo_range = 0"
    by (simp_all add: range_of_def demo_committed_def demo_range_def fresh_range_def)
  ultimately show ?thesis using measures_never_fall[OF demo_ledgered] run by fastforce
qed

end
