(* ===== verification/Worker_Ledger.thy ===== *)
theory Worker_Ledger
  imports Protocol6
begin

text \<open>
  The worker's end of the command protocol (\<open>src/worker/worker/client.py\<close>): the values it
  normalises at its boundary, the reports it stamps, the acknowledgement of a command and the
  ledger that applies every command once (\<open>Protocol6CommandLedger\<close>).
\<close>

section \<open>Values at the boundary\<close>

text \<open>\<open>float.is_integer\<close>, with the integer it is.\<close>

fun float_int :: "pyfloat \<Rightarrow> int option" where
  "float_int (Finite s m e) =
     (let sign = (if s then -1 else 1) in
      if e \<ge> 0 then Some (sign * int m * 2 ^ nat e)
      else if int m mod 2 ^ nat (- e) = 0 then Some (sign * (int m div 2 ^ nat (- e))) else None)"
| "float_int _ = None"

fun normalise_seed :: "json \<Rightarrow> int option" where
  "normalise_seed (JBool _) = None"
| "normalise_seed (JInt i) = Some i"
| "normalise_seed (JFloat f) = float_int f"
| "normalise_seed _ = None"

text \<open>\<open>fresh\<close> is the value \<open>random.randrange(SEED_BOUND)\<close> drew.\<close>

definition ensure_seed :: "int \<Rightarrow> dict \<Rightarrow> dict" where
  "ensure_seed fresh params =
     (let raw = opt_json (dget params ''seed'');
          seed = (case normalise_seed raw of None \<Rightarrow> fresh | Some i \<Rightarrow> i) in
      case raw of JInt _ \<Rightarrow> params | _ \<Rightarrow> dset ''seed'' (JInt seed) params)"

fun generation_of :: "json \<Rightarrow> int option" where
  "generation_of (JInt raw) = (if raw < 1 then None else Some raw)"
| "generation_of _ = None"

definition control_generation :: "dict \<Rightarrow> int option" where
  "control_generation control = generation_of (opt_json (dget control ''control_generation''))"

text \<open>\<open>d[k]\<close>.\<close>

definition item :: "dict \<Rightarrow> string \<Rightarrow> py_exn + json" where
  "item d k = (case dget d k of None \<Rightarrow> Inl (KeyError k) | Some v \<Rightarrow> Inr v)"

lemma item_Inr [simp]: "item d k = Inr v \<longleftrightarrow> dget d k = Some v"
  by (simp add: item_def split: option.splits)

text \<open>\<open>{"dispatch_token": token} if isinstance(token, str) and token else {}\<close>.\<close>

fun token_stamp :: "json \<Rightarrow> dict" where
  "token_stamp (JStr t) = (if t = [] then [] else [(''dispatch_token'', JStr t)])"
| "token_stamp _ = []"

text \<open>
  The models are the ids of the live table; \<open>control.get("model_id") in by_id\<close> raises
  \<open>TypeError\<close> for a value that has no hash.
\<close>

definition unavailable_model_report :: "dict \<Rightarrow> string list \<Rightarrow> py_exn + dict option" where
  "unavailable_model_report control by_id =
     bindR (in_string_set (dget control ''model_id'') by_id) (\<lambda>known.
     if known then Inr None
     else bindR (item control ''type'') (\<lambda>kind.
       if kind = JStr ''dispatch_job'' then
         bindR (item control ''job_id'') (\<lambda>job_id.
           Inr (Some (dupdate [(''type'', JStr ''job_failed''), (''job_id'', job_id),
               (''reason'', JStr ''model_unavailable''), (''failure_code'', JStr ''model_unavailable'')]
             (token_stamp (opt_json (dget control ''dispatch_token''))))))
       else if kind = JStr ''open_session'' \<and> control_generation control \<noteq> None then
         bindR (item control ''session_id'') (\<lambda>session_id.
         bindR (item control ''control_generation'') (\<lambda>generation.
           Inr (Some [(''type'', JStr ''session_refused''), (''session_id'', session_id),
             (''control_generation'', generation), (''reason'', JStr ''not_resident'')])))
       else Inr None))"

section \<open>Reports stamped from the identity of their command\<close>

definition report_hash_of :: "p6_prims \<Rightarrow> dict \<Rightarrow> py_exn + string" where
  "report_hash_of P message = sha256_json P (JObj (dwithout ''report_hash'' message))"

text \<open>\<open>d.setdefault(k, v)\<close>: the dictionary afterwards, and \<open>{k: d[k] for k in ks if k in d}\<close>.\<close>

definition dsetdefault :: "string \<Rightarrow> json \<Rightarrow> dict \<Rightarrow> dict" where
  "dsetdefault k v d = (if has_key d k then d else dset k v d)"

definition dpick :: "string list \<Rightarrow> dict \<Rightarrow> dict" where
  "dpick ks d = concat (map (\<lambda>k. case dget d k of None \<Rightarrow> [] | Some v \<Rightarrow> [(k, v)]) ks)"

definition COMMON_IDENTITY :: "string list" where
  "COMMON_IDENTITY = [''worker_id'', ''incarnation'', ''region'', ''owner_epoch'', ''grant_nonce'', ''lease_id'',
     ''lease_expires_at'']"

definition SESSION_KINDS :: "string list" where
  "SESSION_KINDS = [''session_ready'', ''session_refused'', ''session_closed'']"

definition JOB_KINDS :: "string list" where
  "JOB_KINDS = [''job_progress'', ''job_done'', ''job_failed'', ''job_cancelled'']"

definition TERMINAL_JOB_KINDS :: "string list" where
  "TERMINAL_JOB_KINDS = [''job_done'', ''job_failed'', ''job_cancelled'']"

definition identity_fields :: "string \<Rightarrow> string list" where
  "identity_fields kind =
     (if kind \<in> set SESSION_KINDS then
        COMMON_IDENTITY @ [''session_id'', ''attempt_id'', ''control_generation'']
          @ (if kind = ''session_ready'' then [''params_revision''] else [])
      else if kind \<in> set JOB_KINDS then COMMON_IDENTITY @ [''job_id'', ''dispatch_sequence'', ''dispatch_token'']
      else COMMON_IDENTITY)"

fun refusal_code :: "json \<Rightarrow> py_exn + json" where
  "refusal_code (JStr reason) = Inr (JStr (if reason = ''invalid_params'' then ''invalid_params'' else ''model_unavailable''))"
| "refusal_code (JArr _) = Inl TypeError"
| "refusal_code (JObj _) = Inl TypeError"
| "refusal_code _ = Inr (JStr ''model_unavailable'')"

text \<open>
  \<open>_enrich_protocol6_message\<close>. The identity is shared and mutated: its report sequence is created
  on first use, so the enriched message comes with the identity afterwards.
\<close>

definition enrich_ready :: "string \<Rightarrow> dict \<Rightarrow> dict \<Rightarrow> dict" where
  "enrich_ready kind identity result =
     (if kind = ''session_ready''
      then dsetdefault ''params_revision'' (case dget identity ''params_revision'' of None \<Rightarrow> JInt 1 | Some v \<Rightarrow> v) result
      else result)"

definition enrich_refused :: "string \<Rightarrow> dict \<Rightarrow> py_exn + dict" where
  "enrich_refused kind result =
     (if kind = ''session_refused''
      then bindR (refusal_code (case dget result ''reason'' of None \<Rightarrow> JStr ''model_unavailable'' | Some r \<Rightarrow> r)) (\<lambda>code.
        Inr (dsetdefault ''code'' code (dwithout ''reason'' result)))
      else Inr result)"

definition enrich_closed :: "string \<Rightarrow> dict \<Rightarrow> dict \<Rightarrow> py_exn + (dict \<times> dict)" where
  "enrich_closed kind identity result =
     (if kind = ''session_closed''
      then bindR (item identity ''range_id'') (\<lambda>range_id.
        let identity' = dsetdefault ''session_report_sequence'' (JInt 1) identity in
        Inr (dupdate result [(''range_id'', range_id),
          (''report_sequence'', opt_json (dget identity' ''session_report_sequence'')),
          (''physical_complete'', JBool True)], identity'))
      else Inr (result, identity))"

definition enrich_dispatch :: "string \<Rightarrow> dict \<Rightarrow> dict \<Rightarrow> py_exn + dict" where
  "enrich_dispatch kind identity result =
     (if kind \<in> set JOB_KINDS
      then bindR (item identity ''dispatch_sequence'') (\<lambda>sequence.
           bindR (item identity ''dispatch_token'') (\<lambda>token.
             Inr (dsetdefault ''dispatch_token'' token (dsetdefault ''dispatch_sequence'' sequence result))))
      else Inr result)"

definition or_default :: "dict \<Rightarrow> string \<Rightarrow> json \<Rightarrow> json" where
  "or_default d k v = (case dget d k of None \<Rightarrow> v | Some x \<Rightarrow> x)"

definition enrich_terminal :: "string \<Rightarrow> dict \<Rightarrow> dict \<Rightarrow> py_exn + (dict \<times> dict)" where
  "enrich_terminal kind identity result =
     (if kind \<in> set TERMINAL_JOB_KINDS
      then bindR (item identity ''range_id'') (\<lambda>range_id.
        let identity' = dsetdefault ''job_report_sequence'' (JInt 1) identity in
        Inr (dupdate result [(''range_id'', range_id),
          (''report_sequence'', opt_json (dget identity' ''job_report_sequence'')),
          (''gpu_ms'', or_default result ''gpu_ms'' (JInt 0)),
          (''duration_ms'', or_default result ''duration_ms'' (JInt 0)),
          (''images'', or_default result ''images'' (JInt (if kind = ''job_done'' then 1 else 0))),
          (''physical_complete'', JBool True)], identity'))
      else Inr (result, identity))"

definition enrich_hash :: "p6_prims \<Rightarrow> string \<Rightarrow> dict \<Rightarrow> py_exn + dict" where
  "enrich_hash P kind result =
     (if kind = ''session_closed'' \<or> kind \<in> set TERMINAL_JOB_KINDS
      then bindR (report_hash_of P result) (\<lambda>h. Inr (dset ''report_hash'' (JStr h) result))
      else Inr result)"

definition enrich_protocol6_message :: "p6_prims \<Rightarrow> dict \<Rightarrow> dict \<Rightarrow> py_exn + (dict \<times> dict)" where
  "enrich_protocol6_message P message identity =
     (let kind = the_str (dget message ''type'');
          r0 = dupdate message (dpick (identity_fields kind) identity);
          r1 = enrich_ready kind identity r0 in
      bindR (enrich_refused kind r1) (\<lambda>r2.
      bindR (enrich_closed kind identity r2) (\<lambda>(r3, identity1).
      bindR (enrich_dispatch kind identity1 r3) (\<lambda>r4.
      let r5 = (if kind = ''job_failed'' then dsetdefault ''failure_code'' (JStr ''generation_failed'') r4 else r4) in
      bindR (enrich_terminal kind identity1 r5) (\<lambda>(r6, identity2).
      bindR (enrich_hash P kind r6) (\<lambda>r7. Inr (r7, identity2)))))))"

text \<open>What the socket sends: the enriched, validated message in canonical bytes.\<close>

definition send_control ::
    "p6_prims \<Rightarrow> string \<Rightarrow> uuid \<Rightarrow> dict option \<Rightarrow> dict \<Rightarrow> py_exn + (string \<times> dict option)" where
  "send_control P worker_id incarnation identity message =
     bindR (case identity of
         None \<Rightarrow> Inr (message, None)
       | Some i \<Rightarrow> bindR (enrich_protocol6_message P message i) (\<lambda>(m, i'). Inr (m, Some i'))) (\<lambda>(m, identity').
     bindR (validate_message P (JObj m) (Some worker_id) (Some incarnation)) (\<lambda>_.
     bindR (preflight_worker_control P m (Some worker_id) (Some incarnation)) (\<lambda>encoded.
       Inr (encoded, identity'))))"

section \<open>Acknowledging a command\<close>

definition COMMAND_IDENTITY :: "string list" where
  "COMMAND_IDENTITY = [''worker_id'', ''incarnation'', ''region'', ''lease_id'', ''owner_epoch'', ''grant_nonce'',
     ''lease_expires_at'', ''session_id'', ''attempt_id'', ''control_generation'', ''params_revision'', ''job_id'',
     ''dispatch_sequence'', ''dispatch_token'']"

definition command_identity_of :: "dict \<Rightarrow> py_exn + dict" where
  "command_identity_of command =
     (let identity = dpick COMMAND_IDENTITY command in
      case dget command ''work_budget'' of
        Some (JObj budget) \<Rightarrow> bindR (item budget ''range_id'') (\<lambda>r. Inr (dset ''range_id'' r identity))
      | _ \<Rightarrow> Inr identity)"

definition ACK_FIELDS :: "string list" where
  "ACK_FIELDS = [''worker_id'', ''incarnation'', ''region'', ''owner_epoch'', ''lease_id'', ''lease_expires_at'',
     ''grant_nonce'', ''command_sequence'', ''command_id'', ''body_hash'']"

definition ACK_SUBJECTS :: "(string \<times> string list) list" where
  "ACK_SUBJECTS = [
     (''open_session'', [''session_id'', ''attempt_id'', ''control_generation'']),
     (''update_session'', [''session_id'', ''attempt_id'', ''control_generation'']),
     (''close_session'', [''session_id'', ''attempt_id'', ''control_generation'']),
     (''dispatch_job'', [''job_id'', ''dispatch_sequence'']),
     (''cancel_job'', [''job_id'', ''dispatch_sequence''])]"

fun items :: "dict \<Rightarrow> string list \<Rightarrow> py_exn + dict" where
  "items d [] = Inr []"
| "items d (k # ks) = bindR (item d k) (\<lambda>v. bindR (items d ks) (\<lambda>rest. Inr ((k, v) # rest)))"

definition command_ack_fields :: "dict \<Rightarrow> py_exn + dict" where
  "command_ack_fields command =
     bindR (items command ACK_FIELDS) (\<lambda>common.
     bindR (item command ''type'') (\<lambda>kind.
     bindR (items command (case map_of ACK_SUBJECTS (the_str (Some kind)) of None \<Rightarrow> [] | Some fs \<Rightarrow> fs)) (\<lambda>subject.
       Inr ((''type'', JStr ''command_ack'') # common @ subject))))"

section \<open>The ledger of commands\<close>

definition MAX_RETAINED :: nat where "MAX_RETAINED = 256"
definition LEDGER_MAX_SEQUENCE :: int where "LEDGER_MAX_SEQUENCE = 2 ^ 63 - 1"

text \<open>Per sequence number the id and the body hash of the command, and the acknowledgement sent.\<close>

record command_ledger =
  cl_next_sequence :: int
  cl_results :: "(int \<times> json \<times> json \<times> string) list"

definition fresh_ledger :: command_ledger where
  "fresh_ledger = \<lparr>cl_next_sequence = 1, cl_results = []\<rparr>"

definition encode_ack :: "p6_prims \<Rightarrow> dict \<Rightarrow> string \<Rightarrow> uuid \<Rightarrow> py_exn + string" where
  "encode_ack P ack worker_id incarnation =
     bindR (validate_message P (JObj ack) (Some worker_id) (Some incarnation)) (\<lambda>_.
       preflight_worker_control P ack (Some worker_id) (Some incarnation))"

definition refuse_command ::
    "p6_prims \<Rightarrow> string \<Rightarrow> uuid \<Rightarrow> dict \<Rightarrow> string \<Rightarrow> int option \<Rightarrow> py_exn + string" where
  "refuse_command P worker_id incarnation command code expected =
     bindR (command_ack_fields command) (\<lambda>ack.
       encode_ack P (dupdate ack ([(''status'', JStr ''refused''), (''code'', JStr code)]
           @ (case expected of None \<Rightarrow> [] | Some n \<Rightarrow> [(''expected_sequence'', JInt n)])))
         worker_id incarnation)"

text \<open>The sequence number of a validated command is an integer; anything else does not compare with one.\<close>

fun sequence_of :: "json \<Rightarrow> py_exn + int" where
  "sequence_of (JInt i) = Inr i"
| "sequence_of _ = Inl TypeError"

definition remember_result :: "int \<Rightarrow> json \<Rightarrow> json \<Rightarrow> string \<Rightarrow> command_ledger \<Rightarrow> command_ledger" where
  "remember_result sequence command_id body_hash text l =
     (let results = cl_results l @ [(sequence, command_id, body_hash, text)] in
      \<lparr>cl_next_sequence = min (sequence + 1) LEDGER_MAX_SEQUENCE,
       cl_results = (if length results > MAX_RETAINED then tl results else results)\<rparr>)"

text \<open>
  \<open>handle\<close>. The worker state \<open>s\<close> changes only through \<open>apply\<close>, which may raise after it changed
  something; an exception leaves the ledger as it was and closes the connection.
\<close>

definition apply_and_ack ::
    "p6_prims \<Rightarrow> (dict \<Rightarrow> 's \<Rightarrow> (py_exn + (string \<times> string option)) \<times> 's) \<Rightarrow> string \<Rightarrow> uuid \<Rightarrow> dict \<Rightarrow> int \<Rightarrow>
     command_ledger \<Rightarrow> 's \<Rightarrow> (py_exn + string) \<times> command_ledger \<times> 's"
where
  "apply_and_ack P apply worker_id incarnation command sequence l s =
     (let (outcome, s') = apply command s;
          answer = bindR outcome (\<lambda>(status, code).
            bindR (command_ack_fields command) (\<lambda>ack.
            bindR (encode_ack P (dupdate ack ((''status'', JStr status)
                # (case code of None \<Rightarrow> [] | Some c \<Rightarrow> [(''code'', JStr c)]))) worker_id incarnation) (\<lambda>text.
            bindR (item command ''command_id'') (\<lambda>command_id.
            bindR (item command ''body_hash'') (\<lambda>body_hash. Inr (text, command_id, body_hash)))))) in
      case answer of
        Inl e \<Rightarrow> (Inl e, l, s')
      | Inr (text, command_id, body_hash) \<Rightarrow> (Inr text, remember_result sequence command_id body_hash text l, s'))"

definition saved_answer ::
    "p6_prims \<Rightarrow> string \<Rightarrow> uuid \<Rightarrow> dict \<Rightarrow> json \<Rightarrow> json \<times> json \<times> string \<Rightarrow> command_ledger \<Rightarrow> py_exn + string" where
  "saved_answer P worker_id incarnation command command_id saved l =
     (case saved of (saved_id, saved_hash, saved_ack) \<Rightarrow>
      bindR (item command ''body_hash'') (\<lambda>body_hash.
        if py_eq saved_id command_id \<and> py_eq saved_hash body_hash then Inr saved_ack
        else refuse_command P worker_id incarnation command ''sequence_gap''
               (Some (min (cl_next_sequence l) LEDGER_MAX_SEQUENCE))))"

definition handle ::
    "p6_prims \<Rightarrow> (dict \<Rightarrow> 's \<Rightarrow> (py_exn + (string \<times> string option)) \<times> 's) \<Rightarrow> string \<Rightarrow> uuid \<Rightarrow> dict \<Rightarrow>
     command_ledger \<times> 's \<Rightarrow> (py_exn + string) \<times> command_ledger \<times> 's"
where
  "handle P apply worker_id incarnation command = (\<lambda>(l, s).
     (case bindR (item command ''command_sequence'') (\<lambda>n. bindR (item command ''command_id'') (\<lambda>c.
             bindR (sequence_of n) (\<lambda>i. Inr (i, c)))) of
        Inl e \<Rightarrow> (Inl e, l, s)
      | Inr (sequence, command_id) \<Rightarrow>
          (case map_of (cl_results l) sequence of
             Some saved \<Rightarrow> (saved_answer P worker_id incarnation command command_id saved l, l, s)
           | None \<Rightarrow>
               if sequence < cl_next_sequence l
               then (refuse_command P worker_id incarnation command ''stale_sequence'' None, l, s)
               else if sequence > cl_next_sequence l
               then (refuse_command P worker_id incarnation command ''sequence_gap'' (Some (cl_next_sequence l)), l, s)
               else apply_and_ack P apply worker_id incarnation command sequence l s)))"


section \<open>Every command once, in order\<close>

text \<open>
  The log a worker would keep of the commands it applied: \<open>apply\<close> with its calls recorded. A step of
  the ledger is one answered command; a command whose handling raised closes the connection and is
  no step.
\<close>

definition logged ::
    "(dict \<Rightarrow> 's \<Rightarrow> (py_exn + (string \<times> string option)) \<times> 's) \<Rightarrow> dict \<Rightarrow> 's \<times> dict list \<Rightarrow>
     (py_exn + (string \<times> string option)) \<times> 's \<times> dict list" where
  "logged apply command st = (case apply command (fst st) of (r, s') \<Rightarrow> (r, s', snd st @ [command]))"

definition seq_of :: "dict \<Rightarrow> int" where
  "seq_of command = the_int (dget command ''command_sequence'')"

inductive ledger_step ::
    "p6_prims \<Rightarrow> (dict \<Rightarrow> 's \<Rightarrow> (py_exn + (string \<times> string option)) \<times> 's) \<Rightarrow> string \<Rightarrow> uuid \<Rightarrow>
     command_ledger \<times> 's \<times> dict list \<Rightarrow> command_ledger \<times> 's \<times> dict list \<Rightarrow> bool"
  for P app worker_id incarnation
where
  answered: "handle P (logged app) worker_id incarnation command st = (Inr out, st') \<Longrightarrow>
     ledger_step P app worker_id incarnation st st'"

inductive_cases ledger_stepE: "ledger_step P app w i st st'"

text \<open>
  An answered command either changed nothing, or it carried the next number, was applied and its
  acknowledgement is the newest result.
\<close>

lemma handle_answered:
  assumes "handle P apply w i command (l, s) = (Inr out, l', s')"
  shows "(l', s') = (l, s) \<and> (map_of (cl_results l) (seq_of command) \<noteq> None \<or> seq_of command \<noteq> cl_next_sequence l)
     \<or> map_of (cl_results l) (seq_of command) = None \<and> seq_of command = cl_next_sequence l
       \<and> dget command ''command_sequence'' = Some (JInt (seq_of command))
       \<and> s' = snd (apply command s)
       \<and> (\<exists>c h. dget command ''command_id'' = Some c \<and> dget command ''body_hash'' = Some h
            \<and> l' = remember_result (seq_of command) c h out l)"
proof -
  obtain n c where n: "dget command ''command_sequence'' = Some (JInt n)" "dget command ''command_id'' = Some c"
    using assms by (auto simp: handle_def bindR_Inr_iff split: sum.splits prod.splits elim!: sequence_of.elims)
  then have [simp]: "seq_of command = n" by (simp add: seq_of_def)
  show ?thesis
  proof (cases "map_of (cl_results l) n = None \<and> n = cl_next_sequence l")
    case True
    then have new: "map_of (cl_results l) n = None" "cl_next_sequence l = n" by auto
    then have "apply_and_ack P apply w i command n l s = (Inr out, l', s')"
      using assms n by (simp add: handle_def item_def)
    with new n show ?thesis
      by (auto simp: apply_and_ack_def Let_def bindR_Inr_iff split: prod.splits sum.splits)
  next
    case False
    with assms n show ?thesis by (auto simp: handle_def item_def split: option.splits if_splits)
  qed
qed

text \<open>
  The commands applied are numbered from 1; the next number follows the last of them, up to the last
  number there is; the results kept are those of the last 256.
\<close>

definition ledger_inv :: "command_ledger \<times> 's \<times> dict list \<Rightarrow> bool" where
  "ledger_inv = (\<lambda>(l, s, applied). let n = int (length applied) in
     n \<le> LEDGER_MAX_SEQUENCE \<and> map seq_of applied = [1..n] \<and> cl_next_sequence l = min (n + 1) LEDGER_MAX_SEQUENCE
     \<and> map fst (cl_results l) = [max 0 (n - int MAX_RETAINED) + 1 .. n])"

lemma ledger_inv_fresh: "ledger_inv (fresh_ledger, s, [])"
  by (simp add: ledger_inv_def fresh_ledger_def LEDGER_MAX_SEQUENCE_def MAX_RETAINED_def)

lemma map_of_fst_None: "map_of xs k = None \<longleftrightarrow> k \<notin> set (map fst xs)"
  by (simp add: map_of_eq_None_iff)

lemma upto_snoc: "a \<le> n + 1 \<Longrightarrow> [a..n] @ [n + 1] = [a..n + (1 :: int)]"
  by (simp add: upto_rec2)

lemma remember_keys:
  assumes "map fst (cl_results l) = [max 0 (n - int MAX_RETAINED) + 1 .. n]" "0 \<le> n"
  shows "map fst (cl_results (remember_result (n + 1) c h out l)) = [max 0 (n + 1 - int MAX_RETAINED) + 1 .. n + 1]"
proof -
  let ?a = "max 0 (n - int MAX_RETAINED) + 1"
  have keys: "map fst (cl_results l @ [(n + 1, c, h, out)]) = [?a .. n + 1]"
    using assms by (simp add: upto_snoc)
  have "length (cl_results l) = length [?a .. n]" using assms(1) by (metis length_map)
  then have len: "length (cl_results l) = nat (n - max 0 (n - int MAX_RETAINED))" by simp
  show ?thesis
  proof (cases "n < int MAX_RETAINED")
    case True
    with len keys assms show ?thesis by (simp add: remember_result_def Let_def)
  next
    case False
    then have "length (cl_results l) = MAX_RETAINED" using len by simp
    moreover have "tl [?a .. n + 1] = [?a + 1 .. n + 1]" using False by (subst upto_rec1) auto
    ultimately show ?thesis
      using keys False by (simp add: remember_result_def Let_def map_tl max_def)
  qed
qed

lemma ledger_inv_step:
  assumes "ledger_inv st" "ledger_step P apply w i st st'"
  shows "ledger_inv st'"
  using assms(2)
proof (rule ledger_stepE)
  fix command out
  assume run: "handle P (logged apply) w i command st = (Inr out, st')"
  obtain l s applied where st: "st = (l, s, applied)" by (cases st)
  obtain l' s' applied' where st': "st' = (l', s', applied')" by (cases st')
  let ?n = "int (length applied)"
  note inv = assms(1)[unfolded st ledger_inv_def Let_def prod.case]
  show ?thesis
  proof (cases "(l', s', applied') = (l, s, applied)")
    case True
    with assms(1) st st' show ?thesis by simp
  next
    case False
    with handle_answered[OF run[unfolded st st']] obtain c h where new: "map_of (cl_results l) (seq_of command) = None" "seq_of command = cl_next_sequence l"
      and s': "(s', applied') = snd (logged apply command (s, applied))"
      and l': "l' = remember_result (seq_of command) c h out l"
      by blast
    have applied': "applied' = applied @ [command]" using s' by (simp add: logged_def split: prod.splits)
    have "0 < LEDGER_MAX_SEQUENCE" by (simp add: LEDGER_MAX_SEQUENCE_def)
    then have "?n \<noteq> LEDGER_MAX_SEQUENCE"
      using new inv by (auto simp: map_of_fst_None MAX_RETAINED_def split: if_splits)
    with inv have n: "?n < LEDGER_MAX_SEQUENCE" "cl_next_sequence l = ?n + 1" by auto
    have "map seq_of applied' = [1..?n + 1]" using inv applied' new(2) n(2) by (simp add: upto_snoc)
    moreover have "map fst (cl_results l') = [max 0 (?n + 1 - int MAX_RETAINED) + 1 .. ?n + 1]"
      using remember_keys[of l ?n c h out] inv l' new(2) n(2) by simp
    moreover have "cl_next_sequence l' = min (?n + 1 + 1) LEDGER_MAX_SEQUENCE"
      using l' new(2) n(2) by (simp add: remember_result_def Let_def)
    moreover have "?n + 1 \<le> LEDGER_MAX_SEQUENCE" "int (length applied') = ?n + 1" using n applied' by simp_all
    ultimately show ?thesis unfolding st' ledger_inv_def Let_def prod.case by (simp only: simp_thms)
  qed
qed

interpretation ledger: guarded_steps "ledger_step P app w i" ledger_inv
  for P app w i
  by unfold_locales (rule ledger_inv_step)

text \<open>
  Property C26 (safety). Over the whole life of a connection, in whatever order and however often
  commands arrive, the worker applies command 1, then 2, then 3: each sequence number once, in order,
  without a gap. It keeps at most 256 results, the newest ones, and expects the number that follows.
\<close>

theorem commands_are_applied_once_in_order:
  assumes "(ledger_step P app worker_id incarnation)\<^sup>*\<^sup>* (fresh_ledger, s0, []) (l, s, applied)"
  shows "map seq_of applied = [1..int (length applied)] \<and> distinct (map seq_of applied)
     \<and> cl_next_sequence l = min (int (length applied) + 1) LEDGER_MAX_SEQUENCE
     \<and> map fst (cl_results l) = [max 0 (int (length applied) - 256) + 1 .. int (length applied)]
     \<and> length (cl_results l) \<le> 256"
proof -
  have inv: "ledger_inv (l, s, applied)" using assms ledger_inv_fresh by (rule ledger.run_good)
  then have keys: "map fst (cl_results l) = [max 0 (int (length applied) - 256) + 1 .. int (length applied)]"
    by (simp add: ledger_inv_def MAX_RETAINED_def Let_def)
  then have "length (cl_results l) = length [max 0 (int (length applied) - 256) + 1 .. int (length applied)]" by (metis length_map)
  then have "length (cl_results l) \<le> 256" by simp
  with keys inv show ?thesis by (simp add: ledger_inv_def Let_def)
qed

lemma handle_saved:
  assumes "map_of (cl_results l) n = Some (JStr c, JStr h, out)"
    and "dget command ''command_sequence'' = Some (JInt n)"
    "dget command ''command_id'' = Some (JStr c)" "dget command ''body_hash'' = Some (JStr h)"
  shows "handle P apply w i command (l, s) = (Inr out, l, s)"
  using assms by (simp add: handle_def item_def saved_answer_def)

lemma map_of_tl:
  assumes "distinct (map fst xs)" "k \<in> set (map fst (tl xs))"
  shows "map_of (tl xs) k = map_of xs k"
proof (cases xs)
  case (Cons p ys)
  with assms have "fst p \<noteq> k" by auto
  with Cons show ?thesis by (cases p) auto
qed simp

text \<open>The result of command \<open>n\<close> is kept until 256 newer ones have been applied.\<close>

definition result_kept :: "int \<Rightarrow> json \<times> json \<times> string \<Rightarrow> command_ledger \<times> 's \<times> dict list \<Rightarrow> bool" where
  "result_kept n v = (\<lambda>(l, s, applied). ledger_inv (l, s, applied) \<and> n \<le> int (length applied)
     \<and> (int (length applied) < n + int MAX_RETAINED \<longrightarrow> map_of (cl_results l) n = Some v))"

lemma remember_keeps:
  assumes "map fst (cl_results l) = [max 0 (m - int MAX_RETAINED) + 1 .. m]" "0 \<le> m"
    and "map_of (cl_results l) n = Some v" "m + 1 < n + int MAX_RETAINED"
  shows "map_of (cl_results (remember_result (m + 1) c h out l)) n = Some v"
proof -
  let ?xs = "cl_results l @ [(m + 1, c, h, out)]"
  have old: "map_of ?xs n = Some v" using assms(3) by simp
  have keys: "map fst ?xs = [max 0 (m - int MAX_RETAINED) + 1 .. m + 1]" using assms(1,2) by (simp add: upto_snoc)
  then have "distinct (map fst ?xs)" by (simp only: distinct_upto)
  moreover have "n \<in> set (map fst (cl_results (remember_result (m + 1) c h out l)))"
  proof -
    have "n \<in> set (map fst ?xs)" using old by (metis map_of_fst_None option.distinct(1))
    with keys assms(4) show ?thesis by (simp only: remember_keys[OF assms(1,2)] set_upto) auto
  qed
  ultimately show ?thesis using old map_of_tl[of ?xs n]
    by (simp add: remember_result_def Let_def split: if_splits)
qed

lemma result_kept_step:
  assumes "result_kept n v st" "ledger_step P app w i st st'"
  shows "result_kept n v st'"
  using assms(2)
proof (rule ledger_stepE)
  fix command out
  assume run: "handle P (logged app) w i command st = (Inr out, st')"
  obtain l s applied where st: "st = (l, s, applied)" by (cases st)
  obtain l' s' applied' where st': "st' = (l', s', applied')" by (cases st')
  let ?m = "int (length applied)"
  have inv: "ledger_inv st" "ledger_inv st'" and n: "n \<le> ?m"
    using assms ledger_inv_step[OF _ assms(2)] by (auto simp: result_kept_def st)
  show ?thesis
  proof (cases "(l', s', applied') = (l, s, applied)")
    case True
    with assms(1) st st' show ?thesis by simp
  next
    case False
    with handle_answered[OF run[unfolded st st']] obtain c h where new: "seq_of command = cl_next_sequence l"
      and s': "(s', applied') = snd (logged app command (s, applied))"
      and l': "l' = remember_result (seq_of command) c h out l"
      by blast
    have a': "applied' = applied @ [command]" using s' by (simp add: logged_def split: prod.splits)
    then have "?m + 1 \<le> LEDGER_MAX_SEQUENCE" using inv(2) by (simp add: ledger_inv_def Let_def st')
    then have "cl_next_sequence l = ?m + 1" using inv(1) by (simp add: ledger_inv_def Let_def st)
    moreover have "map fst (cl_results l) = [max 0 (?m - int MAX_RETAINED) + 1 .. ?m]"
      using inv(1) by (simp add: ledger_inv_def Let_def st)
    ultimately show ?thesis
      using remember_keeps[of l ?m n v c h out] assms(1) inv(2) n a' l' new
      by (auto simp: result_kept_def st st')
  qed
qed

interpretation kept: guarded_steps "ledger_step P app w i" "result_kept n v"
  for P app w i n v
  by unfold_locales (rule result_kept_step)

text \<open>
  Property C27 (functional). A command that was applied may be delivered again, after a lost
  acknowledgement or a new delivery on the same connection: while fewer than 256 newer commands have
  been applied the worker answers with the same acknowledgement, byte for byte, and applies nothing.
\<close>

theorem redelivery_repeats_the_answer:
  assumes "(ledger_step P app w i)\<^sup>*\<^sup>* (fresh_ledger, s0, []) (l, s, applied)"
    and "handle P (logged app) w i command (l, s, applied) = (Inr out, l1, s1, applied @ [command])"
    and "(ledger_step P app w i)\<^sup>*\<^sup>* (l1, s1, applied @ [command]) (l2, s2, applied2)"
    and "int (length applied2) < seq_of command + 256"
    and "dget command ''command_id'' = Some (JStr c)" "dget command ''body_hash'' = Some (JStr h)"
  shows "handle P apply w i command (l2, x) = (Inr out, l2, x)"
proof -
  have inv: "ledger_inv (l, s, applied)" using assms(1) ledger_inv_fresh by (rule ledger.run_good)
  then have inv1: "ledger_inv (l1, s1, applied @ [command])"
    by (rule ledger.step_good) (rule ledger_step.answered[OF assms(2)])
  from handle_answered[OF assms(2)] assms(5,6) have new: "seq_of command = cl_next_sequence l"
      "map_of (cl_results l) (seq_of command) = None"
      "dget command ''command_sequence'' = Some (JInt (seq_of command))"
      "l1 = remember_result (seq_of command) (JStr c) (JStr h) out l"
    by auto
  have seq: "seq_of command = int (length applied) + 1"
    using inv1 new(1) inv by (simp add: ledger_inv_def Let_def)
  let ?xs = "cl_results l @ [(seq_of command, JStr c, JStr h, out)]"
  have "map_of ?xs (seq_of command) = Some (JStr c, JStr h, out)" using new(2) by (simp add: map_add_def)
  moreover have "map fst ?xs = [max 0 (int (length applied) - int MAX_RETAINED) + 1 .. int (length applied) + 1]"
    using inv seq by (simp add: ledger_inv_def Let_def upto_snoc)
  then have "distinct (map fst ?xs)" by (simp only: distinct_upto)
  moreover have "seq_of command \<in> set (map fst (cl_results l1))"
    using inv1 seq by (simp add: ledger_inv_def Let_def MAX_RETAINED_def)
  ultimately have "map_of (cl_results l1) (seq_of command) = Some (JStr c, JStr h, out)"
    using map_of_tl[of ?xs "seq_of command"] new(4) by (simp add: remember_result_def Let_def split: if_splits)
  with inv1 seq have "result_kept (seq_of command) (JStr c, JStr h, out) (l1, s1, applied @ [command])"
    by (simp add: result_kept_def)
  with assms(3) have "result_kept (seq_of command) (JStr c, JStr h, out) (l2, s2, applied2)" by (rule kept.run_good)
  with assms(4) have "map_of (cl_results l2) (seq_of command) = Some (JStr c, JStr h, out)"
    by (simp add: result_kept_def MAX_RETAINED_def)
  then show ?thesis using new(3) assms(5,6) by (rule handle_saved)
qed

end
