(* ===== verification/Worker_Contract.thy ===== *)
theory Worker_Contract
  imports Worker_Ledger Command_Contract
begin

text \<open>
  The two ends of the command protocol together: the acknowledgement the worker's ledger computes
  (\<open>src/worker/worker/client.py\<close>) against what the command journal of the API accepts
  (\<open>src/backend/app/command_store.py\<close>).
\<close>

section \<open>Dictionaries\<close>

lemma check_pairs_iff:
  "check_pairs depth ps = Inr () \<longleftrightarrow> (\<forall>(k, v) \<in> set ps. depth \<le> 64 \<and> utf8_strict k \<and> check_json depth v = Inr ())"
  by (induction ps) (auto simp: bindR_Inr_iff split: if_splits)

lemma check_obj_iff:
  "check_json 0 (JObj d) = Inr () \<longleftrightarrow> (\<forall>(k, v) \<in> set d. utf8_strict k \<and> check_json 1 v = Inr ())"
  by (simp add: check_json.simps[of 0] check_pairs_iff)

lemma validate_children_iff: "validate_children d = Inr () \<longleftrightarrow> (\<forall>(k, v) \<in> set d. validate_types v k = Inr ())"
  by (induction d) (auto simp: bindR_Inr_iff)

lemma ints_printable_pairs_iff: "ints_printable_pairs d \<longleftrightarrow> (\<forall>(k, v) \<in> set d. ints_printable v)"
  by (induction d) auto

lemma dget_mem: "dget d k = Some v \<Longrightarrow> (k, v) \<in> set d"
  by (auto simp: dget_def dest: map_of_SomeD)

lemma items_Inr_iff:
  "items d ks = Inr r \<longleftrightarrow> (\<forall>k \<in> set ks. dget d k \<noteq> None) \<and> r = map (\<lambda>k. (k, opt_json (dget d k))) ks"
  by (induction ks arbitrary: r) (auto simp: bindR_Inr_iff opt_json_def split: option.splits)

lemma dget_map_keys: "dget (map (\<lambda>k. (k, f k)) ks) k = (if k \<in> set ks then Some (f k) else None)"
  unfolding dget_def by (induction ks) auto

lemma dget_Cons: "dget ((a, b) # d) k = (if k = a then Some b else dget d k)"
  by (simp add: dget_def)

lemma dget_append: "dget (d @ e) k = (case dget d k of None \<Rightarrow> dget e k | Some v \<Rightarrow> Some v)"
  by (simp add: dget_def map_add_def split: option.splits)

lemma dset_new: "k \<notin> fst ` set d \<Longrightarrow> dset k v d = d @ [(k, v)]"
  by (simp add: dset_def)

lemma map_of_overwrite:
  "map_of (map (\<lambda>(key, x). if key = k then (key, v) else (key, x)) d) k'
     = (if k' = k \<and> k \<in> fst ` set d then Some v else map_of d k')"
proof (induction d)
  case (Cons p d)
  obtain a b where "p = (a, b)" by (cases p)
  with Cons show ?case by (cases "a = k"; cases "a = k'") simp_all
qed simp

lemma dget_dset: "dget (dset k v d) k' = (if k' = k then Some v else dget d k')"
proof (cases "k \<in> fst ` set d")
  case True
  then show ?thesis by (simp add: dset_def dget_def map_of_overwrite)
next
  case False
  then have "map_of d k = None" by (simp add: map_of_eq_None_iff)
  with False show ?thesis by (simp add: dset_new dget_def map_add_def split: option.splits)
qed

section \<open>The acknowledgement of a sealed command\<close>

lemma ack_fields_eq:
  "ACK_FIELDS = ACK_COMMON" "ACK_SUBJECTS = SUBJECT_FIELDS"
  by (simp_all add: ACK_FIELDS_def ACK_COMMON_def ACK_SUBJECTS_def SUBJECT_FIELDS_def)

text \<open>The names an acknowledgement repeats from a command of this kind.\<close>

definition ack_names :: "string \<Rightarrow> string list" where
  "ack_names kind = ACK_COMMON @ (case map_of SUBJECT_FIELDS kind of None \<Rightarrow> [] | Some fs \<Rightarrow> fs)"

lemma subject_kinds:
  assumes "map_of SUBJECT_FIELDS kind = Some fs"
  shows "ack_names kind = ACK_COMMON @ fs"
    "fs = [''session_id'', ''attempt_id'', ''control_generation''] \<or> fs = [''job_id'', ''dispatch_sequence'']"
    "kind \<in> {''open_session'', ''update_session'', ''close_session'', ''dispatch_job'', ''cancel_job''}"
  using assms by (auto simp: ack_names_def SUBJECT_FIELDS_def split: if_splits)

text \<open>The acknowledgement \<open>handle\<close> encodes for an accepted command.\<close>

definition accepted_ack_of :: "string \<Rightarrow> dict \<Rightarrow> dict" where
  "accepted_ack_of kind command =
     (''type'', JStr ''command_ack'') # map (\<lambda>k. (k, opt_json (dget command k))) (ack_names kind)
       @ [(''status'', JStr ''accepted'')]"

lemma accepted_ack_eq:
  assumes "dget command ''type'' = Some (JStr kind)" "\<And>k. k \<in> set (ack_names kind) \<Longrightarrow> dget command k \<noteq> None"
    and "map_of SUBJECT_FIELDS kind = Some fs"
  shows "bindR (command_ack_fields command) (\<lambda>ack. Inr (dupdate ack [(''status'', JStr ''accepted'')]))
     = Inr (accepted_ack_of kind command)"
proof -
  let ?f = "\<lambda>k. (k, opt_json (dget command k))"
  have names: "ack_names kind = ACK_COMMON @ fs" using assms(3) by (rule subject_kinds)
  have "items command ACK_COMMON = Inr (map ?f ACK_COMMON)" "items command fs = Inr (map ?f fs)"
    using assms(2) by (auto simp: items_Inr_iff names)
  then have "command_ack_fields command = Inr ((''type'', JStr ''command_ack'') # map ?f ACK_COMMON @ map ?f fs)"
    using assms(1,3) by (simp add: command_ack_fields_def ack_fields_eq item_def)
  moreover have "''status'' \<notin> set (ACK_COMMON @ fs)"
    using subject_kinds(2)[OF assms(3)] by (auto simp: ACK_COMMON_def)
  ultimately show ?thesis
    by (simp add: dupdate_def dset_new accepted_ack_of_def names image_image image_Un)
qed

lemma dget_accepted_ack:
  "dget (accepted_ack_of kind command) k =
     (if k = ''type'' then Some (JStr ''command_ack'')
      else if k \<in> set (ack_names kind) then Some (opt_json (dget command k))
      else if k = ''status'' then Some (JStr ''accepted'') else None)"
  by (simp add: accepted_ack_of_def dget_Cons dget_append dget_map_keys dget_def[of "[]"])

text \<open>Only the names of the identity matter for its hash.\<close>

lemma ack_identity_cong:
  assumes "\<And>k. k \<in> set (ack_names kind) \<Longrightarrow> dget a k = dget b k"
  shows "ack_identity_hash P kind a = ack_identity_hash P kind b"
proof -
  have "ack_identity_projection kind a = ack_identity_projection kind b"
  proof (cases "map_of SUBJECT_FIELDS kind")
    case (Some fs)
    then have "dget a k = dget b k" if "k \<in> set (ACK_COMMON @ fs)" for k
      using assms that by (simp add: subject_kinds(1))
    then have "list_ex (\<lambda>k. \<not> has_key a k) (ACK_COMMON @ fs) = list_ex (\<lambda>k. \<not> has_key b k) (ACK_COMMON @ fs)"
      "map (\<lambda>k. (k, opt_json (dget a k))) (ACK_COMMON @ fs) = map (\<lambda>k. (k, opt_json (dget b k))) (ACK_COMMON @ fs)"
      by (auto simp: has_key_def list_ex_iff)
    with Some show ?thesis by (simp only: ack_identity_projection_def Let_def option.case)
  qed (simp add: ack_identity_projection_def)
  then show ?thesis by (simp add: ack_identity_hash_def)
qed


text \<open>
  Every value of the acknowledgement but its type and its status is one of the command's, so what the
  codec checked of the command it need not fear of the acknowledgement.
\<close>

lemma accepted_ack_mem:
  assumes "\<And>k. k \<in> set (ack_names kind) \<Longrightarrow> dget command k \<noteq> None" "(k, v) \<in> set (accepted_ack_of kind command)"
  shows "(k, v) \<in> set command \<or> (k, v) \<in> {(''type'', JStr ''command_ack''), (''status'', JStr ''accepted'')}"
  using assms dget_mem by (fastforce simp: accepted_ack_of_def opt_json_def split: option.splits)

lemma fixed_fields_ok:
  assumes "(k, v) \<in> {(''type'', JStr ''command_ack''), (''status'', JStr ''accepted'')}"
  shows "utf8_strict k \<and> check_json 1 v = Inr () \<and> validate_types v k = Inr () \<and> ints_printable v"
  using assms by (elim insertE emptyE) (simp_all add: check_json.simps, code_simp+)

lemma ack_shapes:
  "list_ex (matches_shape ([''type''] @ ACK_COMMON @ [''session_id'', ''attempt_id'', ''control_generation''] @ [''status'']))
     (SHAPES ''command_ack'')"
  "list_ex (matches_shape ([''type''] @ ACK_COMMON @ [''job_id'', ''dispatch_sequence''] @ [''status'']))
     (SHAPES ''command_ack'')"
  by code_simp+

lemma accepted_ack_keys:
  assumes "map_of SUBJECT_FIELDS kind = Some fs"
  shows "map fst (accepted_ack_of kind command) = [''type''] @ ACK_COMMON @ fs @ [''status'']"
  by (simp add: accepted_ack_of_def subject_kinds(1)[OF assms] comp_def)

lemma accepted_ack_valid:
  assumes ok: "validate_message P (JObj command) (Some w) (Some i) = Inr ()"
    and kind: "dget command ''type'' = Some (JStr kind)" "map_of SUBJECT_FIELDS kind = Some fs"
    and names: "\<And>k. k \<in> set (ack_names kind) \<Longrightarrow> dget command k \<noteq> None"
  shows "validate_message P (JObj (accepted_ack_of kind command)) (Some w) (Some i) = Inr ()"
proof -
  let ?ack = "accepted_ack_of kind command"
  from ok obtain k' where stages: "dget command ''type'' = Some (JStr k')" "check_json 0 (JObj command) = Inr ()"
      "validate_types (JObj command) [] = Inr ()" "validate_addressee (Some w) (Some i) k' command = Inr ()"
    by (rule validate_message_stages) blast
  have "k' = kind" using stages(1) kind(1) by simp
  note mem = accepted_ack_mem[OF names]
  have json: "check_json 0 (JObj ?ack) = Inr ()"
    using stages(2) mem fixed_fields_ok unfolding check_obj_iff by blast
  have children: "validate_children command = Inr ()"
    using stages(3) by (simp add: bindR_Inr_iff NESTED_KEYS_def)
  then have "validate_children ?ack = Inr ()"
    using mem fixed_fields_ok unfolding validate_children_iff by blast
  moreover have "validate_field [] (JObj ?ack) = Inr ()"
    by (simp add: validate_field_def all_ok_iff UUID_FIELDS_def POSITIVE_def NONNEGATIVE_def HASH_FIELDS_def STRING_FIELDS_def
        BOOLEAN_FIELDS_def)
  ultimately have types: "validate_types (JObj ?ack) [] = Inr ()" by simp
  have shape: "validate_shape ''command_ack'' ?ack = Inr ()"
    using ack_shapes subject_kinds(2)[OF kind(2)] by (auto simp: validate_shape_def accepted_ack_keys[OF kind(2)])
  have "kind \<noteq> ''hello''" using subject_kinds(3)[OF kind(2)] by auto
  then have "dget command ''worker_id'' = Some (JStr w)" "dget command ''incarnation'' = Some (JStr i)"
    using stages(4) \<open>k' = kind\<close> by (auto simp: validate_addressee_def all_ok_iff)
  then have to_us: "validate_addressee (Some w) (Some i) ''command_ack'' ?ack = Inr ()"
    by (simp add: validate_addressee_def all_ok_iff dget_accepted_ack ack_names_def ACK_COMMON_def opt_json_def)
  have ack: "validate_command_ack ''command_ack'' ?ack = Inr ()"
    using subject_kinds(2)[OF kind(2)] unfolding subject_kinds(1)[OF kind(2)]
    by (auto simp: validate_command_ack_def all_ok_iff dget_accepted_ack subject_kinds(1)[OF kind(2)] ACK_COMMON_def
        has_key_def given_def opt_json_def Let_def)
  show ?thesis
    using json types shape to_us ack
    by (simp add: validate_message.simps dget_accepted_ack all_ok_iff validate_downloads_def validate_digests_def
        validate_checkpoint_ack_def validate_heartbeat_def validate_budgets_def validate_class_def
        BODY_HASH_KINDS_def REPORT_HASH_KINDS_def)
qed

lemma validated_field_type: "validate_types v k = Inr () \<Longrightarrow> validate_field k v = Inr ()"
  by (cases v) (auto simp: bindR_Inr_iff)

lemma ack_value_simple:
  assumes "validate_types v k = Inr ()" "k \<in> set (ack_names kind)" "map_of SUBJECT_FIELDS kind = Some fs"
  shows "py_eq v v"
proof -
  have "validate_field k v = Inr ()" using assms(1) by (rule validated_field_type)
  moreover have "k \<in> {''worker_id'', ''region''} \<or> k = ''lease_expires_at'' \<or> k = ''body_hash''
      \<or> k \<in> {''incarnation'', ''lease_id'', ''grant_nonce'', ''command_id'', ''session_id'', ''attempt_id'', ''job_id''}
      \<or> k \<in> {''owner_epoch'', ''command_sequence'', ''control_generation'', ''dispatch_sequence''}"
    using assms(2) subject_kinds(2)[OF assms(3)] by (auto simp: subject_kinds(1)[OF assms(3)] ACK_COMMON_def)
  ultimately have "str_value v \<or> rfc3339_value v \<or> hex64_value v \<or> uuid_value v \<or> integer_value True v"
    by (elim disjE) (auto simp: validate_field_def all_ok_iff UUID_FIELDS_def POSITIVE_def HASH_FIELDS_def STRING_FIELDS_def)
  then show ?thesis by (cases v) auto
qed

lemma accepted_ack_matches:
  assumes "validate_message P (JObj command) w i = Inr ()" "dget command ''type'' = Some (JStr kind)"
    and "map_of SUBJECT_FIELDS kind = Some fs"
    and names: "\<And>k. k \<in> set (ack_names kind) \<Longrightarrow> dget command k \<noteq> None"
  shows "ack_matches command (accepted_ack_of kind command)"
proof -
  have children: "validate_children command = Inr ()"
    using assms(1) by (rule validate_message_stages) (simp add: bindR_Inr_iff NESTED_KEYS_def)
  have "get_eq (dget (accepted_ack_of kind command) k) (dget command k)" if k: "k \<in> set (ack_names kind)" for k
  proof -
    obtain v where v: "dget command k = Some v" using names[OF k] by blast
    have "k \<noteq> ''type''" using k subject_kinds(2)[OF assms(3)] by (auto simp: subject_kinds(1)[OF assms(3)] ACK_COMMON_def)
    moreover have "validate_types v k = Inr ()" using children dget_mem[OF v] by (auto simp: validate_children_iff)
    ultimately show ?thesis
      using v k ack_value_simple[OF _ k assms(3)] by (simp add: get_eq_def dget_accepted_ack opt_json_def)
  qed
  then show ?thesis
    using assms(2,3) by (simp add: ack_matches_def Let_def subject_kinds(1)[OF assms(3)] ACK_COMMON_def list_all_iff)
qed

section \<open>From the journal to the worker and back\<close>

lemma sealed_command:
  assumes "seal_message P kind w i message = Inr m" "dget message ''type'' = Some (JStr kind)"
  defines "command \<equiv> dset ''body_hash'' (JStr (sm_body_hash m)) message"
  obtains fs body where "map_of SUBJECT_FIELDS kind = Some fs" "dget command ''type'' = Some (JStr kind)"
    "\<And>k. k \<in> set (ack_names kind) \<Longrightarrow> dget command k \<noteq> None"
    "ack_identity_hash P kind command = Inr (sm_ack_identity_hash m)"
    "preflight_worker_control P command (Some w) (Some i) = Inr body"
proof -
  have sealed: "ack_identity_hash P kind command = Inr (sm_ack_identity_hash m)"
    "\<exists>body. preflight_worker_control P command (Some w) (Some i) = Inr body"
    using assms(1) unfolding command_def seal_message_def
    by (auto simp: bindR_Inr_iff Let_def raise_if_def split: if_splits prod.splits)
  obtain fs where fs: "map_of SUBJECT_FIELDS kind = Some fs"
    using sealed(1) by (auto simp: ack_identity_hash_def ack_identity_projection_def bindR_Inr_iff split: option.splits)
  have "dget command k \<noteq> None" if "k \<in> set (ack_names kind)" for k
    using that sealed(1) fs
    by (auto simp: ack_identity_hash_def ack_identity_projection_def bindR_Inr_iff raise_if_def has_key_def list_ex_iff
        subject_kinds(1)[OF fs] simp del: not_None_eq split: if_splits)
  moreover have "dget command ''type'' = Some (JStr kind)" using assms(2) by (simp add: command_def dget_dset)
  ultimately show ?thesis using that fs sealed by blast
qed


text \<open>What the ledger answers to the next command when it was applied and accepted.\<close>

lemma handle_accepted:
  assumes "dget command ''command_sequence'' = Some (JInt n)" "cl_next_sequence l = n" "map_of (cl_results l) n = None"
    and "app command s = (Inr (''accepted'', None), s')"
    and "dget command ''type'' = Some (JStr kind)" "map_of SUBJECT_FIELDS kind = Some fs"
    and "\<And>k. k \<in> set (ack_names kind) \<Longrightarrow> dget command k \<noteq> None"
  shows "fst (handle P app w i command (l, s)) = encode_ack P (accepted_ack_of kind command) w i"
proof -
  obtain a where a: "command_ack_fields command = Inr a" "dupdate a [(''status'', JStr ''accepted'')] = accepted_ack_of kind command"
    using accepted_ack_eq[OF assms(5,7,6)] by (auto simp: bindR_Inr_iff)
  obtain c h where "dget command ''command_id'' = Some c" "dget command ''body_hash'' = Some h"
    using assms(7)[of "''command_id''"] assms(7)[of "''body_hash''"] by (auto simp: ack_names_def ACK_COMMON_def)
  then show ?thesis
    using assms(1-4) a
    by (simp add: handle_def item_def apply_and_ack_def split: sum.splits)
      (cases "encode_ack P (accepted_ack_of kind command) w i"; simp)
qed

lemma accepted_answer:
  assumes "seal_message P kind w i message = Inr m" "dget message ''type'' = Some (JStr kind)"
    and "command = dset ''body_hash'' (JStr (sm_body_hash m)) message"
    and "dget command ''command_sequence'' = Some (JInt n)" "cl_next_sequence l = n" "map_of (cl_results l) n = None"
    and "app command s = (Inr (''accepted'', None), s')"
  shows "case fst (handle P app w i command (l, s)) of
      Inl e \<Rightarrow> e = Protocol6Error ''control exceeds byte limit''
    | Inr out \<Rightarrow> \<exists>ack. accept_ack P (JObj ack) w i = Inr (ack, out) \<and> consuming ack \<and> ack_matches command ack
        \<and> dget ack ''command_sequence'' = Some (JInt n)
        \<and> (\<forall>row. cmd_kind row = kind \<and> cmd_ack_identity_hash row = Some (sm_ack_identity_hash m) \<longrightarrow>
             (ack_names_row P ack None row \<longleftrightarrow>
              Some (JStr (cmd_command_id row)) = dget command ''command_id'' \<and> cmd_body_hash row = sm_body_hash m))"
proof -
  let ?ack = "accepted_ack_of kind command"
  obtain fs body where c: "map_of SUBJECT_FIELDS kind = Some fs" "dget command ''type'' = Some (JStr kind)"
      "\<And>k. k \<in> set (ack_names kind) \<Longrightarrow> dget command k \<noteq> None"
      "ack_identity_hash P kind command = Inr (sm_ack_identity_hash m)"
      "preflight_worker_control P command (Some w) (Some i) = Inr body"
    unfolding assms(3) using assms(1,2) by (rule sealed_command) blast
  have ok: "validate_message P (JObj command) (Some w) (Some i) = Inr ()" "ints_printable (JObj command)"
    using c(5) by (auto simp: preflight_worker_control_def canonical_bytes_def bindR_Inr_iff split: if_splits)
  have valid: "validate_message P (JObj ?ack) (Some w) (Some i) = Inr ()"
    using ok(1) c(2,1,3) by (rule accepted_ack_valid)
  have "check_json 0 (JObj ?ack) = Inr ()" using valid by (rule validate_message_stages)
  moreover have "ints_printable (JObj ?ack)"
    using ok(2) accepted_ack_mem[OF c(3)] fixed_fields_ok by (simp add: ints_printable_pairs_iff) blast
  ultimately have bytes: "canonical_bytes (p_float_repr P) (JObj ?ack) = Inr (dumps (p_float_repr P) (JObj ?ack))"
    by (simp add: canonical_bytes_def)
  have run: "fst (handle P app w i command (l, s)) = encode_ack P ?ack w i"
    using assms(4-7) c(2,1,3) by (rule handle_accepted)
  have limit: "message_limit ?ack = Inr (16 * 1024)"
    by (simp add: message_limit_def dget_accepted_ack MAX_WORKER_CONTROL_BYTES_def)
  have own: "''type'' \<notin> set (ack_names kind)" "''status'' \<notin> set (ack_names kind)"
    using subject_kinds(2)[OF c(1)] by (auto simp: subject_kinds(1)[OF c(1)] ACK_COMMON_def)
  then have same: "dget ?ack k = dget command k" if "k \<in> set (ack_names kind)" for k
    using that c(3)[OF that] by (cases "dget command k") (auto simp: dget_accepted_ack opt_json_def)
  have "ack_identity_hash P kind ?ack = ack_identity_hash P kind command"
    by (rule ack_identity_cong) (rule same)
  with c(4) have identity: "ack_identity_hash P kind ?ack = Inr (sm_ack_identity_hash m)" by simp
  have "dget ?ack k = dget command k" if "k \<in> {''command_id'', ''body_hash'', ''command_sequence''}" for k
    by (rule same) (use that in \<open>auto simp: ack_names_def ACK_COMMON_def\<close>)
  then have fields: "dget ?ack ''command_id'' = dget command ''command_id''" "dget ?ack ''command_sequence'' = Some (JInt n)"
      "dget ?ack ''body_hash'' = Some (JStr (sm_body_hash m))"
    using assms(4) by (simp_all add: assms(3) dget_dset)
  have named: "ack_names_row P ?ack None row \<longleftrightarrow>
      Some (JStr (cmd_command_id row)) = dget command ''command_id'' \<and> cmd_body_hash row = sm_body_hash m"
    if "cmd_kind row = kind" "cmd_ack_identity_hash row = Some (sm_ack_identity_hash m)" for row
    using that identity fields by (auto simp: ack_names_row_def)
  have "ack_matches command ?ack" using ok(1) c(2,1,3) by (rule accepted_ack_matches)
  moreover have "consuming ?ack" using own(2) by (simp add: consuming_def dget_accepted_ack)
  moreover have "accept_ack P (JObj ?ack) w i = Inr (?ack, out)" if "encode_ack P ?ack w i = Inr out" for out
    using that valid bytes limit
    by (simp add: encode_ack_def preflight_worker_control_def accept_ack_def raise_if_def dget_accepted_ack split: if_splits)
  moreover have "e = Protocol6Error ''control exceeds byte limit''" if "encode_ack P ?ack w i = Inl e" for e
    using that valid bytes limit by (simp add: encode_ack_def preflight_worker_control_def split: if_splits)
  ultimately show ?thesis
    using fields(2) named unfolding run by (cases "encode_ack P ?ack w i") (simp, force)
qed


text \<open>
  Property C28 (functional). Every command the journal seals can be acknowledged by the worker it is
  sent to. When the worker's ledger has applied it and accepts it, the answer is refused by the codec
  only for its size; otherwise the API accepts it as a consuming acknowledgement, it names the row the
  command was journalled under and no other, and it matches the stored body field by field.
\<close>

theorem worker_ack_proves_the_command:
  assumes "seal_message P kind w i message = Inr m" "dget message ''type'' = Some (JStr kind)"
    and "command = dset ''body_hash'' (JStr (sm_body_hash m)) message"
    and "dget command ''command_sequence'' = Some (JInt n)" "cl_next_sequence l = n" "map_of (cl_results l) n = None"
    and "app command s = (Inr (''accepted'', None), s')"
  shows "case fst (handle P app w i command (l, s)) of
      Inl e \<Rightarrow> e = Protocol6Error ''control exceeds byte limit''
    | Inr out \<Rightarrow> \<exists>ack. accept_ack P (JObj ack) w i = Inr (ack, out) \<and> consuming ack \<and> ack_matches command ack
        \<and> dget ack ''command_sequence'' = Some (JInt n)
        \<and> (\<forall>row. cmd_kind row = kind \<and> cmd_ack_identity_hash row = Some (sm_ack_identity_hash m) \<longrightarrow>
             (ack_names_row P ack None row \<longleftrightarrow>
              Some (JStr (cmd_command_id row)) = dget command ''command_id'' \<and> cmd_body_hash row = sm_body_hash m))"
  using assms by (rule accepted_answer)

text \<open>
  Property C29 (liveness). The loop closes. A command the worker applied and accepted is settled when
  its answer reaches the API over the connection that owns it: while the row is pending, its account
  still set and its stored body still reads back as the command, the acknowledgement is recorded,
  whatever lies between the floor and the command: afterwards the command's row is acknowledged, or it is
  gone and the floor of the connection has passed its number.
\<close>

theorem applied_command_is_settled:
  assumes "reachable P db" "seal_message (fp_p6 P) kind w i message = Inr m" "dget message ''type'' = Some (JStr kind)"
    and "command = dset ''body_hash'' (JStr (sm_body_hash m)) message"
    and "dget command ''command_sequence'' = Some (JInt n)" "cl_next_sequence l = n" "map_of (cl_results l) n = None"
    and "app command s = (Inr (''accepted'', None), s')"
    and answer: "handle (fp_p6 P) app w i command (l, s) = (Inr out, l', s')"
    and row: "command_of w i n db = Some row" "cmd_state row = Pending" "cmd_kind row = kind"
      "Some (JStr (cmd_command_id row)) = dget command ''command_id''" "cmd_body_hash row = sm_body_hash m"
      "cmd_ack_identity_hash row = Some (sm_ack_identity_hash m)" "cmd_account_user_id row \<noteq> None"
      "pending_body P w i n row = Inr (Some command)"
    and conn: "conn_of w i db = Some c" "wc_transport_owner_id c = owner"
  shows "\<exists>ack res db'. accept_ack (fp_p6 P) (JObj ack) w i = Inr (ack, out)
     \<and> acknowledge P env clk (JObj ack) w i owner db db = Inr (res, db') \<and> ar_recorded res
     \<and> (\<forall>row'. command_of w i n db' = Some row' \<longrightarrow> cmd_state row' = Acknowledged)
     \<and> (command_of w i n db' = None \<longrightarrow> (\<exists>c'. conn_of w i db' = Some c' \<and> n \<le> wc_acknowledged_floor c'))"
proof -
  from accepted_answer[OF assms(2-7), of app s, OF assms(8)] answer obtain ack where
      ack: "accept_ack (fp_p6 P) (JObj ack) w i = Inr (ack, out)" "consuming ack" "ack_matches command ack"
        "dget ack ''command_sequence'' = Some (JInt n)"
      and names: "ack_names_row (fp_p6 P) ack None row"
    using row(3-6) by auto
  note keyed = journal_invD(2)[OF reachable_journal[OF assms(1)]]
  have seq: "cmd_sequence row = n" "cmd_key row = (w, i, n)" "row \<in> set (db_commands db)"
    using row(1) by (auto simp: command_of_def cmd_key_def dest: find_SomeD)
  then have at: "row_at_sequence n (conn_commands w i db) = Some row"
    by (simp add: row_at_sequence_conn[OF keyed])
  have hinted: "ack_names_row (fp_p6 P) ack (Some row) row" using names by (simp add: ack_names_row_def)
  have "\<exists>r. ack_pending_row P env clk w i owner ack out row (lock_update_ack_subject (Some row) db) db = Inr (Some r)"
    using row(7,8) ack(3) seq(1) by (simp add: ack_pending_row_def case_prod_beta)
  then obtain publication db1 where
      "ack_pending_row P env clk w i owner ack out row (lock_update_ack_subject (Some row) db) db = Inr (Some (publication, db1))"
    by auto
  then have "\<exists>res db'. acknowledge P env clk (JObj ack) w i owner db db = Inr (res, db') \<and> ar_recorded res"
    using ack at hinted conn row(1,2) by (simp add: acknowledge_def ack_row_def raise_if_def Let_def)
  then obtain res db' where run: "acknowledge P env clk (JObj ack) w i owner db db = Inr (res, db')" "ar_recorded res" by blast
  from recorded_ack_effect[OF assms(1) run] obtain ack' settled c' where
      named: "JObj ack = JObj ack'" "dget ack' ''command_sequence'' = Some (JInt (cmd_sequence settled))"
      and s: "command_of w i (cmd_sequence settled) db = Some settled"
      and c': "conn_of w i db' = Some c'"
        "command_of w i (cmd_sequence settled) db' = None \<longrightarrow> cmd_sequence settled \<le> wc_acknowledged_floor c'"
      and rows: "\<forall>c \<in> set (db_commands db'). if cmd_key c = cmd_key settled then cmd_state c = Acknowledged else c \<in> set (db_commands db)"
    by (elim exE conjE) (rule that; assumption)
  have n: "cmd_sequence settled = n" using named ack(4) by simp
  have "cmd_state row' = Acknowledged" if "command_of w i n db' = Some row'" for row'
  proof -
    have "row' \<in> set (db_commands db')" "cmd_key row' = cmd_key settled"
      using that s[unfolded n] by (auto simp: command_of_def dest!: find_SomeD)
    with rows show ?thesis by metis
  qed
  then show ?thesis
    using ack(1) run c'[unfolded n] by (intro exI[of _ ack] exI[of _ res] exI[of _ db'] conjI allI impI exI[of _ c']) simp_all
qed

section \<open>Witnesses\<close>

definition accept_all :: "dict \<Rightarrow> 's \<Rightarrow> (py_exn + (string \<times> string option)) \<times> 's" where
  "accept_all command s = (Inr (''accepted'', None), s)"

definition demo_handle :: "command_ledger \<times> unit \<times> dict list \<Rightarrow> (py_exn + string) \<times> command_ledger \<times> unit \<times> dict list" where
  "demo_handle = handle demo_p6 (logged accept_all) ''w1'' (uid CHR ''1'') demo_command"

lemma demo_handled: "\<exists>out l. demo_handle (fresh_ledger, (), []) = (Inr out, l, (), [demo_command])"
proof -
  have "case demo_handle (fresh_ledger, (), []) of (Inr out, l, u, applied) \<Rightarrow> applied = [demo_command] | _ \<Rightarrow> False"
    by code_simp
  then show ?thesis by (auto split: prod.splits sum.splits)
qed


theorem commands_are_applied_once_in_order_witness:
  "\<exists>l. (ledger_step demo_p6 accept_all ''w1'' (uid CHR ''1''))\<^sup>*\<^sup>* (fresh_ledger, (), []) (l, (), [demo_command])
     \<and> map seq_of [demo_command] = [1..1] \<and> cl_next_sequence l = 2"
proof -
  obtain out l where run: "demo_handle (fresh_ledger, (), []) = (Inr out, l, (), [demo_command])" using demo_handled by blast
  then have steps: "(ledger_step demo_p6 accept_all ''w1'' (uid CHR ''1''))\<^sup>*\<^sup>* (fresh_ledger, (), []) (l, (), [demo_command])"
    unfolding demo_handle_def by (blast intro: ledger_step.answered)
  with commands_are_applied_once_in_order[OF steps] show ?thesis by (auto simp: LEDGER_MAX_SEQUENCE_def)
qed

lemma demo_command_fields:
  "dget demo_command ''command_id'' = Some (JStr (uid CHR ''5''))" "dget demo_command ''body_hash'' = Some (JStr demo_hash)"
  "dget demo_command ''command_sequence'' = Some (JInt 1)" "dget demo_message ''type'' = Some (JStr ''dispatch_job'')"
  by code_simp+

theorem redelivery_repeats_the_answer_witness:
  "\<exists>out l. demo_handle (fresh_ledger, (), []) = (Inr out, l, (), [demo_command])
     \<and> demo_handle (l, (), [demo_command]) = (Inr out, l, (), [demo_command])"
proof -
  obtain out l where run: "demo_handle (fresh_ledger, (), []) = (Inr out, l, (), [demo_command])" using demo_handled by blast
  have "demo_handle (l, (), [demo_command]) = (Inr out, l, (), [demo_command])"
    unfolding demo_handle_def
    by (rule redelivery_repeats_the_answer[OF rtranclp.rtrancl_refl, of demo_p6 accept_all "''w1''" "uid CHR ''1''" demo_command
          "()" out l "()", OF _ rtranclp.rtrancl_refl])
      (use run in \<open>simp_all add: demo_handle_def demo_command_fields seq_of_def\<close>)
  with run show ?thesis by blast
qed

theorem worker_ack_proves_the_command_witness:
  "case fst (handle demo_p6 accept_all ''w1'' (uid CHR ''1'') demo_command (fresh_ledger, ())) of
     Inl e \<Rightarrow> e = Protocol6Error ''control exceeds byte limit''
   | Inr out \<Rightarrow> \<exists>ack. accept_ack demo_p6 (JObj ack) ''w1'' (uid CHR ''1'') = Inr (ack, out) \<and> consuming ack
        \<and> ack_names_row demo_p6 ack None demo_row"
proof -
  have "demo_command = dset ''body_hash'' (JStr (sm_body_hash demo_sealed)) demo_message"
    by (simp add: demo_sealed_def demo_dset)
  from worker_ack_proves_the_command[OF demo_seal demo_command_fields(4) this demo_command_fields(3), of fresh_ledger accept_all "()" "()"]
  show ?thesis
    by (auto simp: fresh_ledger_def accept_all_def demo_row_fields demo_sealed_def demo_command_fields split: sum.splits)
qed

theorem applied_command_is_settled_witness:
  "\<exists>ack out res db'. accept_ack demo_p6 (JObj ack) ''w1'' (uid CHR ''1'') = Inr (ack, out)
     \<and> acknowledge demo_prims demo_env (\<lambda>_. 4 * second) (JObj ack) ''w1'' (uid CHR ''1'') (uid CHR ''b'') demo_committed demo_committed
         = Inr (res, db') \<and> ar_recorded res"
proof -
  have "\<exists>out l. handle demo_p6 accept_all ''w1'' (uid CHR ''1'') demo_command (fresh_ledger, ()) = (Inr out, l, ())"
  proof -
    have "case handle demo_p6 accept_all ''w1'' (uid CHR ''1'') demo_command (fresh_ledger, ()) of (Inr out, l, u) \<Rightarrow> True | _ \<Rightarrow> False"
      by code_simp
    then show ?thesis by (auto split: prod.splits sum.splits)
  qed
  then obtain out l where run: "handle demo_p6 accept_all ''w1'' (uid CHR ''1'') demo_command (fresh_ledger, ()) = (Inr out, l, ())"
    by blast
  have conn: "conn_of ''w1'' (uid CHR ''1'') demo_committed = Some (demo_conn\<lparr>wc_next_command_sequence := 2\<rparr>)"
    by (simp add: conn_of_def demo_committed_def conn_key_def demo_conn_def)
  have row: "command_of ''w1'' (uid CHR ''1'') 1 demo_committed = Some demo_row"
    by (simp add: command_of_def demo_committed_def demo_row_fields)
  have cmd: "demo_command = dset ''body_hash'' (JStr (sm_body_hash demo_sealed)) demo_message"
    by (simp add: demo_sealed_def demo_dset)
  show ?thesis
    using applied_command_is_settled[of demo_prims demo_committed "''dispatch_job''" "''w1''" "uid CHR ''1''" demo_message demo_sealed
        demo_command 1 fresh_ledger accept_all "()" "()" out l demo_row "demo_conn\<lparr>wc_next_command_sequence := 2\<rparr>" "uid CHR ''b''"
        demo_env "\<lambda>_. 4 * second"] demo_committed_reachable demo_seal demo_command_fields cmd run row demo_row_fields demo_pending_body conn
    by (auto simp: fresh_ledger_def accept_all_def demo_sealed_def demo_conn_def)
qed

end
