(* ===== verification/Worker_Sessions.thy ===== *)
theory Worker_Sessions
  imports Worker_Ledger
begin

text \<open>
  Realtime sessions on the worker (\<open>src/worker/worker/client.py\<close>, \<open>SessionRunner\<close> and
  \<open>SessionManager\<close>, and \<open>Manifest.with_defaults\<close> of \<open>src/worker/worker/manifests.py\<close>): one runner
  per session with at most one pending canvas frame, and the generations that fence stale controls.
  A session id is the text of its UUID; the controls are validated ones.
\<close>

section \<open>Manifests\<close>

record worker_manifest =
  wm_id :: string
  wm_capabilities :: "string list"
  wm_parameters :: dict

text \<open>The loop of \<open>with_defaults\<close> over the declared properties.\<close>

fun fill_defaults :: "dict \<Rightarrow> dict \<Rightarrow> dict" where
  "fill_defaults [] filled = filled"
| "fill_defaults ((key, prop) # properties) filled =
     fill_defaults properties
       (case prop of
          JObj p \<Rightarrow> (case dget p ''default'' of
              Some v \<Rightarrow> if has_key filled key then filled else dset key v filled
            | None \<Rightarrow> filled)
        | _ \<Rightarrow> filled)"

definition with_defaults :: "worker_manifest \<Rightarrow> dict \<Rightarrow> py_exn + dict" where
  "with_defaults manifest params =
     (case dget (wm_parameters manifest) ''properties'' of
        None \<Rightarrow> Inr params
      | Some (JObj properties) \<Rightarrow> Inr (fill_defaults properties params)
      | Some _ \<Rightarrow> Inl AttributeError)"

definition default_steps :: "worker_manifest \<Rightarrow> json option" where
  "default_steps manifest =
     (case dget (wm_parameters manifest) ''properties'' of
        Some (JObj properties) \<Rightarrow>
          (case dget properties ''steps'' of
             Some (JObj steps) \<Rightarrow> (case dget steps ''default'' of Some JNull \<Rightarrow> None | v \<Rightarrow> v)
           | _ \<Rightarrow> None)
      | _ \<Rightarrow> None)"

section \<open>A session runner\<close>

text \<open>Where the runner's task stands.\<close>

datatype run_phase = Loading | Waiting | Rendering int | Finished

text \<open>What a runner sends or reports: a control under an identity, a generated frame, a measured frame time.\<close>

datatype emission = Control dict "dict option" | Frame uuid int string | Observe string int

record runner =
  rn_session_id :: uuid
  rn_manifest :: worker_manifest
  rn_params :: dict
  rn_generation :: int
  rn_pending :: "(int \<times> string) option"
  rn_accepted_revision :: int
  rn_dropped :: nat
  rn_frames :: int
  rn_gpu_ms :: int
  rn_last_frame :: "string option"
  rn_ready_sent :: bool
  rn_ended :: bool
  rn_cancel_requested :: bool
  rn_identity :: "dict option"
  rn_residency_failures :: nat
  rn_phase :: run_phase

definition new_runner :: "uuid \<Rightarrow> worker_manifest \<Rightarrow> dict \<Rightarrow> int \<Rightarrow> dict option \<Rightarrow> runner" where
  "new_runner session_id manifest params generation identity =
     \<lparr>rn_session_id = session_id, rn_manifest = manifest, rn_params = params, rn_generation = generation,
      rn_pending = None, rn_accepted_revision = 0, rn_dropped = 0, rn_frames = 0, rn_gpu_ms = 0, rn_last_frame = None,
      rn_ready_sent = False, rn_ended = False, rn_cancel_requested = False, rn_identity = identity,
      rn_residency_failures = 0, rn_phase = Loading\<rparr>"

definition runner_submit :: "int \<Rightarrow> string \<Rightarrow> runner \<Rightarrow> runner" where
  "runner_submit revision payload r =
     (if revision \<le> rn_accepted_revision r then r
      else r\<lparr>rn_accepted_revision := revision,
             rn_dropped := rn_dropped r + (if rn_pending r = None then 0 else 1),
             rn_pending := Some (revision, payload)\<rparr>)"

definition matches_generation :: "runner \<Rightarrow> int option \<Rightarrow> bool" where
  "matches_generation r generation \<longleftrightarrow> generation = Some (rn_generation r)"

definition runner_update :: "dict \<Rightarrow> runner \<Rightarrow> py_exn + runner" where
  "runner_update params r =
     bindR (with_defaults (rn_manifest r) params) (\<lambda>updated.
     bindR (case normalise_seed (opt_json (dget updated ''seed'')) of
              Some i \<Rightarrow> Inr (JInt i)
            | None \<Rightarrow> item (rn_params r) ''seed'') (\<lambda>seed.
       Inr (r\<lparr>rn_params := dset ''seed'' seed updated\<rparr>)))"

definition lifecycle_message :: "string \<Rightarrow> dict \<Rightarrow> runner \<Rightarrow> dict" where
  "lifecycle_message kind extra r =
     dupdate [(''type'', JStr kind), (''session_id'', JStr (rn_session_id r)),
       (''control_generation'', JInt (rn_generation r))] extra"

text \<open>
  A repeated ready is handed to the socket under no identity: \<open>resend_ready\<close> does not set one, and
  suppresses the loss of the connection. What a stage of the task sends is emitted when the socket takes
  it; \<open>taken\<close> is whether it did, and not taking it is the \<open>WebSocketException\<close> of \<open>ws.send\<close>.
\<close>

definition resend_ready :: "runner \<Rightarrow> emission list" where
  "resend_ready r = (if rn_ready_sent r \<and> \<not> rn_ended r then [Control (lifecycle_message ''session_ready'' [] r) None] else [])"

definition send_ready :: "bool \<Rightarrow> runner \<Rightarrow> runner \<times> emission list" where
  "send_ready taken r =
     (if rn_ended r then (r, [])
      else (r\<lparr>rn_ready_sent := True\<rparr>,
        if taken then [Control (lifecycle_message ''session_ready'' [] r) (rn_identity r)] else []))"

definition send_refuse :: "string \<Rightarrow> bool \<Rightarrow> runner \<Rightarrow> runner \<times> emission list" where
  "send_refuse reason taken r =
     (if rn_ended r then (r, [])
      else (r\<lparr>rn_ended := True\<rparr>,
        if taken then [Control (lifecycle_message ''session_refused'' [(''reason'', JStr reason)] r) (rn_identity r)] else []))"

text \<open>
  The stages of \<open>_run\<close>: the answer about residency, waking up on a pending frame, and the
  outcome of one render, a frame with its cost, or an error that is or is not a residency refusal; the
  last argument is whether the socket takes the message the stage sends.
\<close>

datatype run_event = Resident bool bool | Woken | Generated int string bool | Failed bool bool

text \<open>A ready the socket does not take ends the task, a lost refusal is suppressed and ends it as a sent one does.\<close>

definition run_resident :: "bool \<Rightarrow> bool \<Rightarrow> runner \<Rightarrow> runner \<times> emission list" where
  "run_resident resident taken r =
     (if resident
      then (case send_ready taken r of (r', out) \<Rightarrow> (r'\<lparr>rn_phase := (if rn_ended r \<or> taken then Waiting else Finished)\<rparr>, out))
      else (case send_refuse ''not_resident'' taken r of (r', out) \<Rightarrow> (r'\<lparr>rn_phase := Finished\<rparr>, out)))"

text \<open>A frame the socket does not take ends the task before it becomes the last frame.\<close>

definition run_generated :: "int \<Rightarrow> int \<Rightarrow> string \<Rightarrow> bool \<Rightarrow> runner \<Rightarrow> runner \<times> emission list" where
  "run_generated revision gpu_ms data taken r =
     (let r1 = r\<lparr>rn_residency_failures := 0, rn_frames := rn_frames r + 1, rn_gpu_ms := rn_gpu_ms r + gpu_ms\<rparr>;
          observed = (case default_steps (rn_manifest r) of
              None \<Rightarrow> []
            | Some d \<Rightarrow> if py_eq (opt_json (dget (rn_params r) ''steps'')) d then [Observe (wm_id (rn_manifest r)) gpu_ms] else []) in
      if rn_ended r \<or> \<not> taken then (r1\<lparr>rn_phase := Finished\<rparr>, observed)
      else (r1\<lparr>rn_last_frame := Some data, rn_phase := Waiting\<rparr>, observed @ [Frame (rn_session_id r) revision data]))"

definition run_failed :: "bool \<Rightarrow> bool \<Rightarrow> runner \<Rightarrow> runner \<times> emission list" where
  "run_failed not_resident taken r =
     (if not_resident then
        (let r1 = r\<lparr>rn_residency_failures := rn_residency_failures r + 1\<rparr> in
         if rn_residency_failures r1 \<ge> 2
         then (case send_refuse ''not_resident'' taken r1 of (r', out) \<Rightarrow> (r'\<lparr>rn_phase := Finished\<rparr>, out))
         else (r1\<lparr>rn_phase := Waiting\<rparr>, []))
      else (r\<lparr>rn_residency_failures := 0, rn_phase := Waiting\<rparr>, []))"

text \<open>One stage of the task; an event that does not fit the phase does not occur and changes nothing.\<close>

fun run_stage :: "run_event \<Rightarrow> run_phase \<Rightarrow> runner \<Rightarrow> runner \<times> emission list" where
  "run_stage (Resident b taken) Loading r = run_resident b taken r"
| "run_stage Woken Waiting r =
     (case rn_pending r of
        None \<Rightarrow> (r, [])
      | Some (revision, _) \<Rightarrow> (r\<lparr>rn_pending := None, rn_phase := Rendering revision\<rparr>, []))"
| "run_stage (Generated gpu_ms data taken) (Rendering revision) r = run_generated revision gpu_ms data taken r"
| "run_stage (Failed not_resident taken) (Rendering revision) r = run_failed not_resident taken r"
| "run_stage event phase r = (r, [])"

definition run_step :: "run_event \<Rightarrow> runner \<Rightarrow> runner \<times> emission list" where
  "run_step event r = run_stage event (rn_phase r) r"

text \<open>Closing cancels the task, which resumes no more: every await of \<open>_run\<close> lets the cancellation through.\<close>

definition runner_close :: "runner \<Rightarrow> runner" where
  "runner_close r = r\<lparr>rn_ended := True, rn_cancel_requested := True, rn_phase := Finished\<rparr>"

text \<open>The categoriser's answer for the last frame and the elapsed time are arguments.\<close>

definition close_report :: "json \<Rightarrow> json option \<Rightarrow> int \<Rightarrow> runner \<Rightarrow> dict" where
  "close_report category score elapsed_ms r =
     [(''type'', JStr ''session_closed''), (''session_id'', JStr (rn_session_id r)), (''frames'', JInt (rn_frames r)),
      (''gpu_ms'', JInt (rn_gpu_ms r)), (''duration_ms'', JInt elapsed_ms), (''category'', category),
      (''control_generation'', JInt (rn_generation r))]
     @ (case score of None \<Rightarrow> [] | Some v \<Rightarrow> [(''category_score'', v)])"

section \<open>The session manager\<close>

record manager =
  mg_runners :: "uuid \<rightharpoonup> runner"
  mg_highest_generation :: "uuid \<rightharpoonup> int"
  mg_retired :: "runner list"

definition fresh_manager :: manager where
  "fresh_manager = \<lparr>mg_runners = Map.empty, mg_highest_generation = Map.empty, mg_retired = []\<rparr>"

definition highest_of :: "uuid \<Rightarrow> manager \<Rightarrow> int" where
  "highest_of session_id m = (case mg_highest_generation m session_id of None \<Rightarrow> 0 | Some g \<Rightarrow> g)"

fun session_key :: "json \<Rightarrow> py_exn + uuid" where
  "session_key (JStr s) = Inr s"
| "session_key _ = Inl TypeError"

definition control_session :: "dict \<Rightarrow> py_exn + uuid" where
  "control_session control = bindR (item control ''session_id'') session_key"

text \<open>
  \<open>dict(params)\<close> of a mapping or of an empty sequence, and \<open>dict(control.get("params") or {})\<close>. The
  API sends objects; any other value is refused as Python refuses it.
\<close>

fun dict_of :: "json \<Rightarrow> py_exn + dict" where
  "dict_of (JObj d) = Inr d"
| "dict_of (JStr s) = (if s = [] then Inr [] else Inl (Protocol6Error ''dictionary update sequence''))"
| "dict_of (JArr xs) = (if xs = [] then Inr [] else Inl TypeError)"
| "dict_of _ = Inl TypeError"

definition params_or_empty :: "json \<Rightarrow> py_exn + dict" where
  "params_or_empty v =
     (if v = JNull \<or> num_val v = Some 0 then Inr [] else dict_of v)"

definition retire :: "runner option \<Rightarrow> manager \<Rightarrow> manager" where
  "retire old m = (case old of None \<Rightarrow> m | Some r \<Rightarrow> m\<lparr>mg_retired := mg_retired m @ [runner_close r]\<rparr>)"

text \<open>
  \<open>open\<close>. The table of manifests is the live one; the fresh seed is the one \<open>ensure_seed\<close> may draw.
  An old runner is retired and the generation raised before the manifest is looked up, so an
  exception from there on leaves both done.
\<close>

definition manager_open ::
    "(string \<rightharpoonup> worker_manifest) \<Rightarrow> int \<Rightarrow> dict option \<Rightarrow> dict \<Rightarrow> manager \<Rightarrow> (py_exn + emission list) \<times> manager" where
  "manager_open by_id fresh_seed identity control m =
     (case control_session control of
        Inl e \<Rightarrow> (Inl e, m)
      | Inr session_id \<Rightarrow>
        (case control_generation control of
           None \<Rightarrow> (Inr [], m)
         | Some generation \<Rightarrow>
             if generation < highest_of session_id m then (Inr [], m)
             else if generation = highest_of session_id m
             then (Inr (case mg_runners m session_id of None \<Rightarrow> [] | Some r \<Rightarrow> resend_ready r), m)
             else let m1 = retire (mg_runners m session_id) m;
                      m2 = m1\<lparr>mg_runners := (mg_runners m1)(session_id := None),
                             mg_highest_generation := (mg_highest_generation m1)(session_id \<mapsto> generation)\<rparr> in
               (case bindR (item control ''model_id'') (\<lambda>model.
                   bindR (case by_id (the_str (Some model)) of None \<Rightarrow> Inl (KeyError (the_str (Some model))) | Some x \<Rightarrow> Inr x) (\<lambda>manifest.
                   bindR (params_or_empty (opt_json (dget control ''params''))) (\<lambda>params.
                   bindR (with_defaults manifest params) (\<lambda>filled.
                     Inr (new_runner session_id manifest (ensure_seed fresh_seed filled) generation identity))))) of
                  Inl e \<Rightarrow> (Inl e, m2)
                | Inr r \<Rightarrow> (Inr [], m2\<lparr>mg_runners := (mg_runners m2)(session_id \<mapsto> r)\<rparr>))))"

definition manager_update :: "dict \<Rightarrow> manager \<Rightarrow> (py_exn + emission list) \<times> manager" where
  "manager_update control m =
     (case control_session control of
        Inl e \<Rightarrow> (Inl e, m)
      | Inr session_id \<Rightarrow>
        (case mg_runners m session_id of
           None \<Rightarrow> (Inr [], m)
         | Some r \<Rightarrow>
             if \<not> matches_generation r (control_generation control) then (Inr [], m)
             else (case bindR (item control ''params'') (\<lambda>v.
                 bindR (dict_of v) (\<lambda>params. runner_update params r)) of
                Inl e \<Rightarrow> (Inl e, m)
              | Inr r' \<Rightarrow> (Inr [], m\<lparr>mg_runners := (mg_runners m)(session_id \<mapsto> r')\<rparr>))))"

definition manager_close ::
    "json \<Rightarrow> json option \<Rightarrow> int \<Rightarrow> dict \<Rightarrow> manager \<Rightarrow> (py_exn + emission list) \<times> manager" where
  "manager_close category score elapsed_ms control m =
     (case control_session control of
        Inl e \<Rightarrow> (Inl e, m)
      | Inr session_id \<Rightarrow>
        (case mg_runners m session_id of
           None \<Rightarrow>
             (case control_generation control of
                None \<Rightarrow> (Inr [], m)
              | Some g \<Rightarrow> (Inr [], m\<lparr>mg_highest_generation :=
                    (mg_highest_generation m)(session_id \<mapsto> max (highest_of session_id m) g)\<rparr>))
         | Some r \<Rightarrow>
             if \<not> matches_generation r (control_generation control) then (Inr [], m)
             else (Inr [Control (close_report category score elapsed_ms r) (rn_identity r)],
               retire (Some r) (m\<lparr>mg_runners := (mg_runners m)(session_id := None)\<rparr>))))"

definition manager_submit :: "uuid \<Rightarrow> int \<Rightarrow> string \<Rightarrow> manager \<Rightarrow> manager" where
  "manager_submit session_id revision payload m =
     (case mg_runners m session_id of
        None \<Rightarrow> m
      | Some r \<Rightarrow> m\<lparr>mg_runners := (mg_runners m)(session_id \<mapsto> runner_submit revision payload r)\<rparr>)"

text \<open>The task of one live runner moves.\<close>

definition manager_run :: "uuid \<Rightarrow> run_event \<Rightarrow> manager \<Rightarrow> emission list \<times> manager" where
  "manager_run session_id event m =
     (case mg_runners m session_id of
        None \<Rightarrow> ([], m)
      | Some r \<Rightarrow> (case run_step event r of (r', out) \<Rightarrow> (out, m\<lparr>mg_runners := (mg_runners m)(session_id \<mapsto> r')\<rparr>)))"

text \<open>A frame on the socket: one byte of kind, the session, the revision in four bytes, the picture.\<close>

definition LEGACY_FRAME_HEADER_BYTES :: nat where "LEGACY_FRAME_HEADER_BYTES = 17"
definition FRAME_HEADER_BYTES :: nat where "FRAME_HEADER_BYTES = 21"

fun be_value :: "nat list \<Rightarrow> nat" where
  "be_value bs = foldl (\<lambda>acc b. acc * 256 + b) 0 bs"

definition be_bytes4 :: "nat \<Rightarrow> nat list" where
  "be_bytes4 n = [n div 16777216 mod 256, n div 65536 mod 256, n div 256 mod 256, n mod 256]"

definition parse_frame :: "nat list \<Rightarrow> (nat list \<times> int \<times> nat list) option" where
  "parse_frame message =
     (if length message < FRAME_HEADER_BYTES then None
      else Some (take (LEGACY_FRAME_HEADER_BYTES - 1) (drop 1 message),
        int (be_value (take (FRAME_HEADER_BYTES - LEGACY_FRAME_HEADER_BYTES) (drop LEGACY_FRAME_HEADER_BYTES message))),
        drop FRAME_HEADER_BYTES message))"

definition generated_frame :: "nat list \<Rightarrow> nat \<Rightarrow> nat list \<Rightarrow> nat list" where
  "generated_frame session_bytes revision data = [2] @ session_bytes @ be_bytes4 revision @ data"


section \<open>Fencing by generations\<close>

text \<open>What can happen to the manager of one connection; a finished retired runner is forgotten.\<close>

inductive manager_step :: "manager \<Rightarrow> manager \<Rightarrow> bool" where
  "open": "manager_open by_id seed identity control m = (r, m') \<Longrightarrow> manager_step m m'"
| update: "manager_update control m = (r, m') \<Longrightarrow> manager_step m m'"
| close: "manager_close category score elapsed control m = (r, m') \<Longrightarrow> manager_step m m'"
| submit: "manager_step m (manager_submit session_id revision payload m)"
| run: "manager_run session_id event m = (out, m') \<Longrightarrow> manager_step m m'"
| forget: "manager_step m (m\<lparr>mg_retired := filter keep (mg_retired m)\<rparr>)"

text \<open>A live runner is filed under its session and has the highest generation seen of it; a retired one has ended.\<close>

definition manager_inv :: "manager \<Rightarrow> bool" where
  "manager_inv m \<longleftrightarrow>
     (\<forall>sid r. mg_runners m sid = Some r \<longrightarrow>
        rn_session_id r = sid \<and> 1 \<le> rn_generation r \<and> mg_highest_generation m sid = Some (rn_generation r)
        \<and> \<not> rn_cancel_requested r)
     \<and> (\<forall>r \<in> set (mg_retired m). rn_ended r \<and> rn_phase r = Finished)"

text \<open>What the stages of a runner leave alone.\<close>

definition same_runner :: "runner \<Rightarrow> runner \<Rightarrow> bool" where
  "same_runner r r' \<longleftrightarrow> rn_session_id r' = rn_session_id r \<and> rn_generation r' = rn_generation r
     \<and> rn_cancel_requested r' = rn_cancel_requested r"

lemma same_runner_submit: "same_runner r (runner_submit revision payload r)"
  by (simp add: same_runner_def runner_submit_def)

lemma same_runner_update: "runner_update params r = Inr r' \<Longrightarrow> same_runner r r'"
  by (auto simp: same_runner_def runner_update_def bindR_Inr_iff)

lemmas stage_defs = run_step_def run_resident_def run_generated_def run_failed_def send_ready_def send_refuse_def Let_def

lemma same_runner_run: "run_step event r = (r', out) \<Longrightarrow> same_runner r r'"
  by (cases event; cases "rn_phase r")
    (auto simp: same_runner_def stage_defs split: if_splits option.splits prod.splits)

lemma generation_positive: "control_generation control = Some g \<Longrightarrow> 1 \<le> g"
  unfolding control_generation_def by (cases "opt_json (dget control ''control_generation'')") (auto split: if_splits)

text \<open>A step replaces the runner of one session by a similar one, removes it, or opens a newer generation.\<close>

definition runner_moves :: "manager \<Rightarrow> manager \<Rightarrow> bool" where
  "runner_moves m m' \<longleftrightarrow>
     (\<forall>sid. highest_of sid m \<le> highest_of sid m')
     \<and> (\<forall>sid r'. mg_runners m' sid = Some r' \<longrightarrow>
          (\<exists>r. mg_runners m sid = Some r \<and> same_runner r r' \<and> mg_highest_generation m' sid = mg_highest_generation m sid)
          \<or> rn_session_id r' = sid \<and> highest_of sid m < rn_generation r' \<and> 1 \<le> rn_generation r'
             \<and> mg_highest_generation m' sid = Some (rn_generation r') \<and> \<not> rn_cancel_requested r')
     \<and> (\<forall>r' \<in> set (mg_retired m'). r' \<in> set (mg_retired m) \<or> rn_ended r' \<and> rn_phase r' = Finished)"

lemma same_runner_refl [simp]: "same_runner r r"
  by (simp add: same_runner_def)

lemma runner_moves_refl: "runner_moves m m"
  by (auto simp: runner_moves_def)

lemma runner_moves_put:
  assumes "mg_runners m sid = Some r" "same_runner r r'"
  shows "runner_moves m (m\<lparr>mg_runners := (mg_runners m)(sid \<mapsto> r')\<rparr>)"
  using assms by (auto simp: runner_moves_def highest_of_def)

lemma retire_fields [simp]: "mg_runners (retire old m) = mg_runners m"
  "mg_highest_generation (retire old m) = mg_highest_generation m"
  by (simp_all add: retire_def split: option.splits)

lemma retired_ended:
  "r \<in> set (mg_retired (retire old m)) \<Longrightarrow> r \<in> set (mg_retired m) \<or> rn_ended r \<and> rn_phase r = Finished"
  by (auto simp: retire_def runner_close_def split: option.splits)

lemma open_newer:
  assumes "manager_open by_id seed identity control m = (res, m')"
    and "control_session control = Inr sid" "control_generation control = Some g" "highest_of sid m < g"
  defines "base \<equiv> (retire (mg_runners m sid) m)\<lparr>mg_runners := (mg_runners m)(sid := None),
      mg_highest_generation := (mg_highest_generation m)(sid \<mapsto> g)\<rparr>"
  shows "m' = base \<or> (\<exists>manifest params. m' = base\<lparr>mg_runners := (mg_runners base)(sid \<mapsto> new_runner sid manifest params g identity)\<rparr>)"
  using assms(1-4) unfolding base_def
  by (auto simp: manager_open_def Let_def bindR_Inr_iff split: sum.splits)

lemma runner_moves_open:
  assumes "manager_open by_id seed identity control m = (res, m')"
  shows "runner_moves m m'"
proof (cases "\<exists>sid g. control_session control = Inr sid \<and> control_generation control = Some g \<and> highest_of sid m < g")
  case True
  then obtain sid g where c: "control_session control = Inr sid" "control_generation control = Some g" "highest_of sid m < g"
    by blast
  have "1 \<le> g" using c(2) by (rule generation_positive)
  moreover have high: "highest_of s m' = (if s = sid then g else highest_of s m)" for s
    using open_newer[OF assms c] by (auto simp: highest_of_def)
  have "r' \<in> set (mg_retired (retire (mg_runners m sid) m))" if "r' \<in> set (mg_retired m')" for r'
    using open_newer[OF assms c] that by auto
  moreover have "s \<noteq> sid \<and> mg_runners m s = Some r' \<and> mg_highest_generation m' s = mg_highest_generation m s
      \<or> s = sid \<and> rn_session_id r' = sid \<and> rn_generation r' = g \<and> mg_highest_generation m' s = Some g \<and> \<not> rn_cancel_requested r'"
    if "mg_runners m' s = Some r'" for s r'
    using open_newer[OF assms c] that by (auto simp: new_runner_def split: if_splits)
  ultimately show ?thesis
    using c(3) unfolding runner_moves_def high by (fastforce dest: retired_ended)
next
  case False
  then have "m' = m"
    using assms by (auto simp: manager_open_def Let_def split: sum.splits option.splits if_splits)
  then show ?thesis by (simp add: runner_moves_refl)
qed

lemma runner_moves_close:
  assumes "manager_close category score elapsed control m = (res, m')"
  shows "runner_moves m m'"
  using assms
  by (auto simp: manager_close_def runner_moves_def highest_of_def retire_def runner_close_def
      split: sum.splits option.splits if_splits)

lemma manager_step_moves: "manager_step m m' \<Longrightarrow> runner_moves m m'"
proof (induction rule: manager_step.induct)
  case (update control m r m')
  then show ?case
    by (auto simp: manager_update_def runner_moves_refl bindR_Inr_iff split: sum.splits option.splits if_splits
        intro!: runner_moves_put dest: same_runner_update)
next
  case (submit m session_id revision payload)
  then show ?case
    by (auto simp: manager_submit_def runner_moves_refl same_runner_submit split: option.splits intro!: runner_moves_put)
next
  case (run session_id event m out m')
  then show ?case
    by (auto simp: manager_run_def runner_moves_refl split: option.splits prod.splits intro!: runner_moves_put dest: same_runner_run)
next
  case (forget m keep)
  then show ?case by (auto simp: runner_moves_def highest_of_def)
qed (rule runner_moves_open runner_moves_close; assumption)+

lemma manager_inv_step:
  assumes "manager_inv m" "manager_step m m'"
  shows "manager_inv m'"
proof -
  note moves = manager_step_moves[OF assms(2), unfolded runner_moves_def]
  have "rn_session_id r' = sid \<and> 1 \<le> rn_generation r' \<and> mg_highest_generation m' sid = Some (rn_generation r')
      \<and> \<not> rn_cancel_requested r'" if "mg_runners m' sid = Some r'" for sid r'
  proof -
    from moves that consider r where "mg_runners m sid = Some r" "same_runner r r'"
        "mg_highest_generation m' sid = mg_highest_generation m sid"
      | "rn_session_id r' = sid" "1 \<le> rn_generation r'" "mg_highest_generation m' sid = Some (rn_generation r')"
        "\<not> rn_cancel_requested r'"
      by blast
    then show ?thesis using assms(1) by cases (auto simp: manager_inv_def same_runner_def)
  qed
  with moves assms(1) show ?thesis by (auto simp: manager_inv_def)
qed

interpretation manager: guarded_steps manager_step manager_inv
  by unfold_locales (rule manager_inv_step)









section \<open>Latest input wins\<close>

text \<open>
  The history of one runner: the revisions it accepted, those it started to render and those of the
  frames it sent.
\<close>

record runner_log =
  lg_runner :: runner
  lg_accepted :: "int list"
  lg_started :: "int list"
  lg_sent :: "int list"

definition frames_of :: "emission list \<Rightarrow> int list" where
  "frames_of out = concat (map (\<lambda>e. case e of Frame _ revision _ \<Rightarrow> [revision] | _ \<Rightarrow> []) out)"

definition started_by :: "runner \<Rightarrow> run_event \<Rightarrow> int list" where
  "started_by r event =
     (case (event, rn_phase r, rn_pending r) of (Woken, Waiting, Some (revision, _)) \<Rightarrow> [revision] | _ \<Rightarrow> [])"

inductive runner_step :: "runner_log \<Rightarrow> runner_log \<Rightarrow> bool" where
  submit: "runner_step g (g\<lparr>lg_runner := runner_submit revision payload (lg_runner g),
     lg_accepted := lg_accepted g @ (if revision \<le> rn_accepted_revision (lg_runner g) then [] else [revision])\<rparr>)"
| run: "run_step event (lg_runner g) = (r', out) \<Longrightarrow>
     runner_step g (g\<lparr>lg_runner := r', lg_started := lg_started g @ started_by (lg_runner g) event,
       lg_sent := lg_sent g @ frames_of out\<rparr>)"
| update: "runner_update params (lg_runner g) = Inr r' \<Longrightarrow> runner_step g (g\<lparr>lg_runner := r'\<rparr>)"
| close: "runner_step g (g\<lparr>lg_runner := runner_close (lg_runner g)\<rparr>)"

definition log_of :: "runner \<Rightarrow> runner_log" where
  "log_of r = \<lparr>lg_runner = r, lg_accepted = [], lg_started = [], lg_sent = []\<rparr>"

text \<open>
  The pending frame is the newest accepted; the one being rendered is the last started; frames are
  sent in the order they were started; nothing accepted is lost without being counted.
\<close>

definition log_inv :: "runner_log \<Rightarrow> bool" where
  "log_inv g \<longleftrightarrow> (let r = lg_runner g in
     sorted_wrt (<) (lg_accepted g) \<and> sorted_wrt (<) (lg_started g) \<and> sorted_wrt (<) (lg_sent g)
     \<and> (\<forall>v \<in> set (lg_accepted g). v \<le> rn_accepted_revision r)
     \<and> set (lg_started g) \<subseteq> set (lg_accepted g) \<and> set (lg_sent g) \<subseteq> set (lg_started g)
     \<and> (\<forall>v p. rn_pending r = Some (v, p) \<longrightarrow> v = rn_accepted_revision r \<and> v \<in> set (lg_accepted g)
          \<and> (\<forall>u \<in> set (lg_started g). u < v))
     \<and> (\<forall>v. rn_phase r = Rendering v \<longrightarrow> v \<in> set (lg_started g) \<and> (\<forall>u \<in> set (lg_sent g). u < v))
     \<and> length (lg_accepted g) = rn_dropped r + length (lg_started g) + (if rn_pending r = None then 0 else 1))"

lemma log_inv_submit:
  assumes "log_inv g"
  shows "log_inv (g\<lparr>lg_runner := runner_submit revision payload (lg_runner g),
     lg_accepted := lg_accepted g @ (if revision \<le> rn_accepted_revision (lg_runner g) then [] else [revision])\<rparr>)"
  using assms by (fastforce simp: log_inv_def runner_submit_def Let_def sorted_wrt_append)

lemma frames_of_simps [simp]: "frames_of [] = []" "frames_of (a @ b) = frames_of a @ frames_of b"
  "frames_of (Control d i # out) = frames_of out" "frames_of (Frame s v p # out) = v # frames_of out"
  "frames_of (Observe m n # out) = frames_of out"
  by (simp_all add: frames_of_def)

text \<open>The stages that neither start nor send a frame only move the task on.\<close>

lemma run_quiet:
  assumes "run_step event r = (r', out)" "started_by r event = []" "frames_of out = []"
  shows "rn_pending r' = rn_pending r \<and> rn_accepted_revision r' = rn_accepted_revision r \<and> rn_dropped r' = rn_dropped r
     \<and> (rn_phase r' = rn_phase r \<or> rn_phase r' \<in> {Waiting, Finished})"
  using assms
  by (cases event; cases "rn_phase r")
    (auto simp: stage_defs started_by_def split: if_splits option.splits prod.splits)


lemma run_cases:
  assumes "run_step event r = (r', out)"
  obtains (quiet) "started_by r event = []" "frames_of out = []"
  | (start) v p where "rn_phase r = Waiting" "rn_pending r = Some (v, p)" "started_by r event = [v]" "frames_of out = []"
      "r' = r\<lparr>rn_pending := None, rn_phase := Rendering v\<rparr>"
  | (send) v where "rn_phase r = Rendering v" "started_by r event = []" "frames_of out = [v]" "rn_phase r' = Waiting"
      "rn_pending r' = rn_pending r" "rn_accepted_revision r' = rn_accepted_revision r" "rn_dropped r' = rn_dropped r"
  using assms
  by (cases event; cases "rn_phase r")
    (auto simp: stage_defs started_by_def split: if_splits option.splits prod.splits)

lemma log_inv_run:
  assumes "log_inv g" "run_step event (lg_runner g) = (r', out)"
  shows "log_inv (g\<lparr>lg_runner := r', lg_started := lg_started g @ started_by (lg_runner g) event,
     lg_sent := lg_sent g @ frames_of out\<rparr>)"
  using assms(2)
proof (cases rule: run_cases)
  case quiet
  with run_quiet[OF assms(2)] assms(1) show ?thesis by (auto simp: log_inv_def Let_def)
next
  case (start v p)
  with assms(1) show ?thesis by (auto simp: log_inv_def Let_def sorted_wrt_append)
next
  case (send v)
  with assms(1) show ?thesis by (auto simp: log_inv_def Let_def sorted_wrt_append)
qed

lemma log_inv_step:
  assumes "log_inv g" "runner_step g g'"
  shows "log_inv g'"
  using assms(2,1)
proof (induction rule: runner_step.induct)
  case (update params g r')
  then show ?case by (auto simp: runner_update_def bindR_Inr_iff log_inv_def Let_def)
next
  case (close g)
  then show ?case by (auto simp: runner_close_def log_inv_def Let_def)
qed (rule log_inv_submit log_inv_run; assumption)+

interpretation latest: guarded_steps runner_step log_inv
  by unfold_locales (rule log_inv_step)

text \<open>
  Property C31 (invariant). Latest input wins. A runner starts to render strictly increasing revisions,
  each of a frame it accepted, and sends strictly increasing ones among those; the frame it holds is
  always the newest accepted;
  and every accepted frame was rendered, is pending, or is counted as dropped for a newer one.
\<close>

theorem latest_input_wins:
  assumes "runner_step\<^sup>*\<^sup>* (log_of (new_runner session_id manifest params generation identity)) g"
  shows "sorted_wrt (<) (lg_started g) \<and> sorted_wrt (<) (lg_sent g) \<and> set (lg_sent g) \<subseteq> set (lg_started g) \<and> set (lg_started g) \<subseteq> set (lg_accepted g)
     \<and> sorted_wrt (<) (lg_accepted g)
     \<and> (case rn_pending (lg_runner g) of None \<Rightarrow> True | Some (v, _) \<Rightarrow> v = last (lg_accepted g))
     \<and> length (lg_accepted g) = rn_dropped (lg_runner g) + length (lg_started g)
         + (if rn_pending (lg_runner g) = None then 0 else 1)"
proof -
  have "log_inv (log_of (new_runner session_id manifest params generation identity))"
    by (simp add: log_inv_def log_of_def new_runner_def Let_def)
  with assms have inv: "log_inv g" by (rule latest.run_good)
  have "v = last (lg_accepted g)" if "rn_pending (lg_runner g) = Some (v, p)" for v p
  proof -
    have v: "v \<in> set (lg_accepted g)" "\<forall>u \<in> set (lg_accepted g). u \<le> v" "sorted_wrt (<) (lg_accepted g)"
      using inv that by (auto simp: log_inv_def Let_def)
    obtain xs x where xs: "lg_accepted g = xs @ [x]" using v(1) by (cases "lg_accepted g" rule: rev_cases) auto
    with v show ?thesis by (fastforce simp: sorted_wrt_append)
  qed
  with inv show ?thesis by (auto simp: log_inv_def Let_def split: option.splits)
qed

section \<open>Frames on the wire\<close>

lemma be_value_bytes4:
  assumes "n < 2 ^ 32"
  shows "be_value (be_bytes4 n) = n"
proof -
  define a b c where q: "a = n div 256" "b = a div 256" "c = b div 256"
  have parts: "n div 65536 = b" "n div 16777216 = c" by (simp_all add: q flip: div_mult2_eq)
  have "c < 256" using assms by (simp add: parts(2)[symmetric] less_mult_imp_div_less)
  moreover have "b = c * 256 + b mod 256" "a = b * 256 + a mod 256" "n = a * 256 + n mod 256"
    unfolding q by presburger+
  ultimately show ?thesis by (simp add: be_bytes4_def parts flip: q(1))
qed

text \<open>
  A generated frame reads back as the session, the revision and the picture
  it was made of, for every revision of four bytes; and a message shorter than the header is refused.
\<close>

theorem frame_reads_back:
  assumes "length session_bytes = 16" "revision < 2 ^ 32"
  shows "parse_frame (generated_frame session_bytes revision data) = Some (session_bytes, int revision, data)
     \<and> (length message < 21 \<longrightarrow> parse_frame message = None)"
proof -
  have "be_value (be_bytes4 revision) = revision" using assms(2) by (rule be_value_bytes4)
  moreover have "length (be_bytes4 revision) = 4" by (simp add: be_bytes4_def)
  ultimately show ?thesis
    using assms(1) by (simp add: parse_frame_def generated_frame_def FRAME_HEADER_BYTES_def LEGACY_FRAME_HEADER_BYTES_def)
qed

theorem frame_reads_back_witness:
  "parse_frame (generated_frame (replicate 16 7) 4294967295 [1, 2, 3]) = Some (replicate 16 7, 4294967295, [1, 2, 3])"
  using frame_reads_back[of "replicate 16 7" 4294967295 "[1, 2, 3]"] by simp

section \<open>A repeated open\<close>

lemma ready_shape: "\<not> list_ex (matches_shape [''type'', ''session_id'', ''control_generation'']) (SHAPES ''session_ready'')"
  by code_simp

lemma validate_message_shape:
  assumes "dget control ''type'' = Some (JStr kind)" "validate_shape kind control = Inl (Protocol6Error f)"
    and "check_json 0 (JObj control) = Inr () \<or> (\<exists>e. check_json 0 (JObj control) = Inl (Protocol6Error e))"
  shows "\<exists>e. validate_message P (JObj control) w i = Inl (Protocol6Error e)"
  using assms(3) by (subst validate_message.simps) (auto simp: assms(1,2) all_ok.simps)

lemma check_flat:
  "check_json 0 (JObj [(''type'', JStr t), (''session_id'', JStr s), (''control_generation'', JInt g)]) \<in>
     {Inr (), Inl (Protocol6Error ''invalid Unicode'')}"
  by (simp add: check_json.simps)

text \<open>
  Property C37 (error). The repeated ready of an idempotent open cannot be sent over protocol 6: a runner
  that already sent its ready answers an open of its own generation with a bare \<open>session_ready\<close>, which
  goes out under no identity, lacks the fields of the closed shape and is refused by the worker's own
  codec before it reaches the socket.
\<close>

theorem repeated_ready_is_refused:
  assumes "mg_runners m sid = Some r" "rn_ready_sent r \<and> \<not> rn_ended r"
    and "control_session control = Inr sid" "control_generation control = Some (highest_of sid m)"
  shows "\<exists>message. manager_open by_id seed identity control m = (Inr [Control message None], m)
     \<and> (\<exists>e. send_control P worker_id incarnation None message = Inl (Protocol6Error e))"
proof -
  let ?msg = "lifecycle_message ''session_ready'' [] r"
  have msg: "?msg = [(''type'', JStr ''session_ready''), (''session_id'', JStr (rn_session_id r)),
      (''control_generation'', JInt (rn_generation r))]"
    by (simp add: lifecycle_message_def dupdate_def)
  have "manager_open by_id seed identity control m = (Inr [Control ?msg None], m)"
    using assms by (simp add: manager_open_def resend_ready_def)
  moreover have "\<exists>e. validate_message P (JObj ?msg) (Some worker_id) (Some incarnation) = Inl (Protocol6Error e)"
  proof -
    have "validate_shape ''session_ready'' ?msg = Inl (Protocol6Error ''control fields do not match a closed message shape'')"
      using ready_shape by (simp add: validate_shape_def refuse_if_def msg)
    moreover have "check_json 0 (JObj ?msg) = Inr () \<or> (\<exists>e. check_json 0 (JObj ?msg) = Inl (Protocol6Error e))"
      using check_flat by (auto simp: msg)
    moreover have "dget ?msg ''type'' = Some (JStr ''session_ready'')" by (simp add: msg dget_def)
    ultimately show ?thesis by (intro validate_message_shape)
  qed
  ultimately show ?thesis by (auto simp: send_control_def)
qed

section \<open>Witnesses\<close>

definition demo_manifest :: worker_manifest where
  "demo_manifest = \<lparr>wm_id = ''sd'', wm_capabilities = [''realtime''],
     wm_parameters = [(''properties'', JObj [(''steps'', JObj [(''default'', JInt 4)])])]\<rparr>"

definition demo_control :: "int \<Rightarrow> dict" where
  "demo_control g = [(''session_id'', JStr ''s''), (''control_generation'', JInt g), (''model_id'', JStr ''sd'')]"






definition demo_history :: runner_log where
  "demo_history =
     (let r0 = new_runner ''s'' demo_manifest [(''seed'', JInt 1)] 1 None;
          r1 = fst (run_step (Resident True True) r0);
          r2 = runner_submit 3 ''a'' r1; r3 = runner_submit 5 ''b'' r2; r4 = fst (run_step Woken r3);
          r5 = fst (run_step (Generated 10 ''x'' True) r4) in
      \<lparr>lg_runner = r5, lg_accepted = [3, 5], lg_started = [5], lg_sent = [5]\<rparr>)"

lemma demo_history_runs: "runner_step\<^sup>*\<^sup>* (log_of (new_runner ''s'' demo_manifest [(''seed'', JInt 1)] 1 None)) demo_history"
proof -
  let ?r0 = "new_runner ''s'' demo_manifest [(''seed'', JInt 1)] 1 None"
  let ?r1 = "fst (run_step (Resident True True) ?r0)"
  let ?r2 = "runner_submit 3 ''a'' ?r1"
  let ?r3 = "runner_submit 5 ''b'' ?r2"
  let ?r4 = "fst (run_step Woken ?r3)"
  let ?g = "\<lambda>r a t n. \<lparr>lg_runner = r, lg_accepted = a, lg_started = t, lg_sent = n\<rparr>"
  have "runner_step (?g ?r0 [] [] []) (?g ?r1 [] [] [])"
    using runner_step.run[OF prod.collapse[symmetric], of "?g ?r0 [] [] []" "Resident True True"]
    by (simp add: stage_defs new_runner_def started_by_def lifecycle_message_def)
  moreover have "runner_step (?g ?r1 [] [] []) (?g ?r2 [3] [] [])"
    using runner_step.submit[of "?g ?r1 [] [] []" 3 "''a''"] by (simp add: stage_defs new_runner_def)
  moreover have "runner_step (?g ?r2 [3] [] []) (?g ?r3 [3, 5] [] [])"
    using runner_step.submit[of "?g ?r2 [3] [] []" 5 "''b''"] by (simp add: stage_defs new_runner_def runner_submit_def)
  moreover have "runner_step (?g ?r3 [3, 5] [] []) (?g ?r4 [3, 5] [5] [])"
    using runner_step.run[OF prod.collapse[symmetric], of "?g ?r3 [3, 5] [] []" Woken] by (simp add: stage_defs new_runner_def runner_submit_def started_by_def)
  moreover have "runner_step (?g ?r4 [3, 5] [5] []) demo_history"
    using runner_step.run[OF prod.collapse[symmetric], of "?g ?r4 [3, 5] [5] []" "Generated 10 ''x'' True"]
    by (simp add: stage_defs new_runner_def runner_submit_def started_by_def demo_history_def demo_manifest_def default_steps_def
        dget_def opt_json_def)
  ultimately show ?thesis by (simp add: log_of_def converse_rtranclp_into_rtranclp)
qed

theorem latest_input_wins_witness: "sorted_wrt (<) (lg_sent demo_history) \<and> lg_sent demo_history = [5]"
  using latest_input_wins[OF demo_history_runs] by (simp add: demo_history_def Let_def)

theorem repeated_ready_is_refused_witness:
  "\<exists>message e. manager_open [''sd'' \<mapsto> demo_manifest] 7 None (demo_control 1)
       (fresh_manager\<lparr>mg_runners := [''s'' \<mapsto> (new_runner ''s'' demo_manifest [] 1 None)\<lparr>rn_ready_sent := True\<rparr>],
          mg_highest_generation := [''s'' \<mapsto> 1]\<rparr>)
     = (Inr [Control message None],
       (fresh_manager\<lparr>mg_runners := [''s'' \<mapsto> (new_runner ''s'' demo_manifest [] 1 None)\<lparr>rn_ready_sent := True\<rparr>],
          mg_highest_generation := [''s'' \<mapsto> 1]\<rparr>))
     \<and> send_control \<lparr>p_sha256 = (\<lambda>x. x), p_float_repr = (\<lambda>_. [])\<rparr> ''w1'' ''i'' None message = Inl (Protocol6Error e)"
proof -
  let ?r = "(new_runner ''s'' demo_manifest [] 1 None)\<lparr>rn_ready_sent := True\<rparr>"
  let ?m = "fresh_manager\<lparr>mg_runners := [''s'' \<mapsto> ?r], mg_highest_generation := [''s'' \<mapsto> 1]\<rparr>"
  have "mg_runners ?m ''s'' = Some ?r" "rn_ready_sent ?r \<and> \<not> rn_ended ?r" by (simp_all add: new_runner_def)
  moreover have "control_session (demo_control 1) = Inr ''s''" "control_generation (demo_control 1) = Some (highest_of ''s'' ?m)"
    by (simp_all add: control_session_def control_generation_def demo_control_def item_def dget_def highest_of_def opt_json_def)
  ultimately show ?thesis using repeated_ready_is_refused by blast
qed

end
