(* ===== verification/Frame_Batch.thy ===== *)
theory Frame_Batch
  imports Prelude
begin

text \<open>
  Cross-session frame batching on the worker (\<open>src/worker/worker/frame_batch.py\<close>): the collector of
  pending frames, one bucket per compatibility class, and the choice of the next batch. Dictionaries
  are association lists in insertion order; the payload of a request is left abstract.
\<close>

definition occupancy_share_ms :: "int \<Rightarrow> int \<Rightarrow> int" where
  "occupancy_share_ms cycle_ms batch_size = (if batch_size \<le> 1 then cycle_ms else cycle_ms div batch_size)"

record compat_key =
  ck_model_id :: string
  ck_steps :: int
  ck_resolution :: int

record 'a frame_request =
  fr_session_key :: int
  fr_compat :: compat_key
  fr_content :: 'a
  fr_done :: bool
  fr_cancelled :: bool

type_synonym 'a bucket = "(int \<times> 'a frame_request) list"

record 'a collector =
  fb_pending :: "(compat_key \<times> 'a bucket) list"
  fb_session_compat :: "(int \<times> compat_key) list"
  fb_compat_ring :: "compat_key list"
  fb_next_class_index :: nat
  fb_work :: bool

definition fresh_collector :: "'a collector" where
  "fresh_collector = \<lparr>fb_pending = [], fb_session_compat = [], fb_compat_ring = [], fb_next_class_index = 0, fb_work = False\<rparr>"

section \<open>Dictionaries\<close>

text \<open>\<open>d[k] = v\<close>, \<open>d.pop(k, None)\<close>.\<close>

definition put :: "'k \<Rightarrow> 'v \<Rightarrow> ('k \<times> 'v) list \<Rightarrow> ('k \<times> 'v) list" where
  "put k v d = (if k \<in> fst ` set d then map (\<lambda>p. if fst p = k then (k, v) else p) d else d @ [(k, v)])"

definition pop :: "'k \<Rightarrow> ('k \<times> 'v) list \<Rightarrow> ('k \<times> 'v) list" where
  "pop k d = filter (\<lambda>p. fst p \<noteq> k) d"

section \<open>Operations\<close>

definition pending_for :: "int \<Rightarrow> 'a collector \<Rightarrow> 'a frame_request option" where
  "pending_for session_key c =
     (case map_of (fb_session_compat c) session_key of
        None \<Rightarrow> None
      | Some ck \<Rightarrow> (case map_of (fb_pending c) ck of None \<Rightarrow> None | Some bucket \<Rightarrow> map_of bucket session_key))"

text \<open>Take a session out of the bucket of a class; an emptied bucket leaves the table and the ring.\<close>

definition leave_bucket :: "int \<Rightarrow> compat_key \<Rightarrow> 'a collector \<Rightarrow> 'a collector" where
  "leave_bucket session_key ck c =
     (case map_of (fb_pending c) ck of
        None \<Rightarrow> c
      | Some bucket \<Rightarrow>
          let rest = pop session_key bucket in
          if rest = [] then c\<lparr>fb_pending := pop ck (fb_pending c),
                fb_compat_ring := filter (\<lambda>key. key \<noteq> ck) (fb_compat_ring c)\<rparr>
          else c\<lparr>fb_pending := put ck rest (fb_pending c)\<rparr>)"

text \<open>File a request under its class, which joins the ring if it is not there, and signal work.\<close>

definition join_bucket :: "'a frame_request \<Rightarrow> 'a collector \<Rightarrow> 'a collector" where
  "join_bucket request c =
     (let ck = fr_compat request; session_key = fr_session_key request;
          bucket = (case map_of (fb_pending c) ck of None \<Rightarrow> [] | Some b \<Rightarrow> b) in
      c\<lparr>fb_session_compat := put session_key ck (fb_session_compat c),
        fb_pending := put ck (put session_key request bucket) (fb_pending c),
        fb_compat_ring := (if ck \<in> set (fb_compat_ring c) then fb_compat_ring c else fb_compat_ring c @ [ck]),
        fb_work := True\<rparr>)"

definition rebucket :: "'a frame_request \<Rightarrow> compat_key \<Rightarrow> 'a collector \<Rightarrow> 'a collector" where
  "rebucket request ck c =
     join_bucket (request\<lparr>fr_compat := ck\<rparr>) (leave_bucket (fr_session_key request) (fr_compat request) c)"

definition enqueue :: "'a frame_request \<Rightarrow> 'a collector \<Rightarrow> 'a collector" where
  "enqueue request c =
     join_bucket request
       (case map_of (fb_session_compat c) (fr_session_key request) of
          None \<Rightarrow> c
        | Some old_compat \<Rightarrow> leave_bucket (fr_session_key request) old_compat c)"

text \<open>An update in place of the request a bucket holds.\<close>

definition refresh :: "'a frame_request \<Rightarrow> 'a collector \<Rightarrow> 'a collector" where
  "refresh request c =
     (case map_of (fb_pending c) (fr_compat request) of
        None \<Rightarrow> c
      | Some bucket \<Rightarrow> c\<lparr>fb_pending := put (fr_compat request) (put (fr_session_key request) request bucket) (fb_pending c)\<rparr>)"

text \<open>\<open>submit\<close> up to the point where it waits for the frame.\<close>

definition submit :: "int \<Rightarrow> compat_key \<Rightarrow> 'a \<Rightarrow> 'a collector \<Rightarrow> 'a collector" where
  "submit session_key ck content c =
     (case pending_for session_key c of
        Some existing \<Rightarrow>
          if \<not> fr_done existing then
            (let updated = existing\<lparr>fr_content := content\<rparr> in
             if fr_compat existing \<noteq> ck then rebucket updated ck c else refresh updated c)
          else enqueue \<lparr>fr_session_key = session_key, fr_compat = ck, fr_content = content,
                 fr_done = False, fr_cancelled = False\<rparr> c
      | None \<Rightarrow> enqueue \<lparr>fr_session_key = session_key, fr_compat = ck, fr_content = content,
                 fr_done = False, fr_cancelled = False\<rparr> c)"

text \<open>The submitter was cancelled: its future is done and its request is marked.\<close>

definition abandon :: "int \<Rightarrow> 'a collector \<Rightarrow> 'a collector" where
  "abandon session_key c =
     (case pending_for session_key c of
        None \<Rightarrow> c
      | Some request \<Rightarrow> refresh (request\<lparr>fr_done := True, fr_cancelled := True\<rparr>) c)"

text \<open>The loop of \<open>_pick_batch\<close> over the offsets still to try.\<close>

fun pick_from :: "nat list \<Rightarrow> 'a collector \<Rightarrow> ('a frame_request list \<times> 'a collector) option" where
  "pick_from [] c = None"
| "pick_from (offset # offsets) c =
     (let ring = fb_compat_ring c; index = (fb_next_class_index c + offset) mod length ring; ck = ring ! index in
      case map_of (fb_pending c) ck of
        None \<Rightarrow> pick_from offsets c
      | Some bucket \<Rightarrow>
          if bucket = [] then pick_from offsets c
          else let ring' = filter (\<lambda>key. key \<noteq> ck) ring in
            Some (map snd bucket, c\<lparr>fb_pending := pop ck (fb_pending c), fb_compat_ring := ring',
              fb_next_class_index := (if ring' = [] then 0 else index mod length ring')\<rparr>))"

definition pick_batch :: "'a collector \<Rightarrow> ('a frame_request list \<times> 'a collector) option" where
  "pick_batch c = (if fb_compat_ring c = [] then None else pick_from [0..<length (fb_compat_ring c)] c)"

text \<open>After a batch ran: forget the class of every session of it that has nothing pending.\<close>

fun settle_batch :: "'a frame_request list \<Rightarrow> 'a collector \<Rightarrow> 'a collector" where
  "settle_batch [] c = c"
| "settle_batch (request # batch) c =
     settle_batch batch
       (if pending_for (fr_session_key request) c = None
        then c\<lparr>fb_session_compat := pop (fr_session_key request) (fb_session_compat c)\<rparr> else c)"

text \<open>\<open>close\<close> clears everything; the ring's cursor and the event stay.\<close>

definition close_collector :: "'a collector \<Rightarrow> 'a collector" where
  "close_collector c = c\<lparr>fb_pending := [], fb_session_compat := [], fb_compat_ring := []\<rparr>"


section \<open>The collector's invariant\<close>

lemma set_pop [simp]: "set (pop k d) = {p \<in> set d. fst p \<noteq> k}"
  by (simp add: pop_def)

lemma keys_pop: "map fst (pop k d) = filter (\<lambda>x. x \<noteq> k) (map fst d)"
  by (induction d) (auto simp: pop_def)

lemma keys_put: "map fst (put k v d) = (if k \<in> fst ` set d then map fst d else map fst d @ [k])"
  by (auto simp: put_def)

lemma map_of_pop: "map_of (pop k d) x = (if x = k then None else map_of d x)"
  by (induction d) (auto simp: pop_def)

lemma map_of_replace:
  "map_of (map (\<lambda>p. if fst p = k then (k, v) else p) d) x = (if x = k \<and> k \<in> fst ` set d then Some v else map_of d x)"
proof (induction d)
  case (Cons p d)
  obtain a b where "p = (a, b)" by (cases p)
  with Cons show ?case by (cases "a = k"; cases "a = x") simp_all
qed simp

lemma map_of_put: "map_of (put k v d) x = (if x = k then Some v else map_of d x)"
proof (cases "k \<in> fst ` set d")
  case True
  then show ?thesis by (simp add: put_def map_of_replace)
next
  case False
  then have "map_of d k = None" by (simp add: map_of_eq_None_iff)
  with False show ?thesis by (simp add: put_def map_add_def split: option.splits)
qed

lemma fst_set_put: "fst ` set (put k v d) = insert k (fst ` set d)"
  by (metis image_set insert_absorb keys_put list.simps(15) rotate1.simps(2) set_rotate1)

lemma distinct_keys_put: "distinct (map fst d) \<Longrightarrow> distinct (map fst (put k v d))"
  by (auto simp: keys_put)

lemma distinct_keys_pop: "distinct (map fst d) \<Longrightarrow> distinct (map fst (pop k d))"
  by (simp add: keys_pop)

text \<open>
  A bucket is never empty and holds each session once, under its own key and class; the ring lists the
  classes with a bucket, each once, in the order of the table; a session with a pending frame is known
  under its class; the cursor stands at the front.
\<close>

definition bucket_ok :: "compat_key \<Rightarrow> 'a bucket \<Rightarrow> bool" where
  "bucket_ok ck b \<longleftrightarrow> b \<noteq> [] \<and> distinct (map fst b)
     \<and> (\<forall>(s, r) \<in> set b. fr_session_key r = s \<and> fr_compat r = ck)"

definition collector_inv :: "'a collector \<Rightarrow> bool" where
  "collector_inv c \<longleftrightarrow>
     distinct (map fst (fb_pending c)) \<and> fb_compat_ring c = map fst (fb_pending c) \<and> fb_next_class_index c = 0
     \<and> (\<forall>ck b. map_of (fb_pending c) ck = Some b \<longrightarrow> bucket_ok ck b
          \<and> (\<forall>s \<in> fst ` set b. map_of (fb_session_compat c) s = Some ck))"

lemma collector_invD:
  assumes "collector_inv c" "map_of (fb_pending c) ck = Some b"
  shows "bucket_ok ck b" "\<And>s. s \<in> fst ` set b \<Longrightarrow> map_of (fb_session_compat c) s = Some ck"
  using assms unfolding collector_inv_def by blast+

lemma collector_invI:
  assumes "distinct (map fst (fb_pending c))" "fb_compat_ring c = map fst (fb_pending c)" "fb_next_class_index c = 0"
    and "\<And>ck b. map_of (fb_pending c) ck = Some b \<Longrightarrow> bucket_ok ck b"
    and "\<And>ck b s. map_of (fb_pending c) ck = Some b \<Longrightarrow> s \<in> fst ` set b \<Longrightarrow> map_of (fb_session_compat c) s = Some ck"
  shows "collector_inv c"
  using assms unfolding collector_inv_def by blast

lemma bucket_ok_put:
  assumes "b = [] \<or> bucket_ok ck b" "fr_compat r = ck"
  shows "bucket_ok ck (put (fr_session_key r) r b)"
proof -
  have "distinct (map fst (put (fr_session_key r) r b))" using assms(1) by (auto simp: bucket_ok_def intro: distinct_keys_put)
  moreover have "put (fr_session_key r) r b \<noteq> []" by (auto simp: put_def)
  moreover have "fr_session_key q = s \<and> fr_compat q = ck" if "(s, q) \<in> set (put (fr_session_key r) r b)" for s q
    using that assms by (auto simp: put_def bucket_ok_def split: if_splits)
  ultimately show ?thesis by (auto simp: bucket_ok_def)
qed

lemma bucket_ok_pop: "bucket_ok ck b \<Longrightarrow> pop s b \<noteq> [] \<Longrightarrow> bucket_ok ck (pop s b)"
  by (auto simp: bucket_ok_def distinct_keys_pop)

text \<open>Leaving a bucket keeps the invariant and removes the session from it.\<close>

lemma leave_inv:
  assumes "collector_inv c"
  shows "collector_inv (leave_bucket s ck c)"
proof (cases "map_of (fb_pending c) ck")
  case None
  with assms show ?thesis by (simp add: leave_bucket_def)
next
  case (Some b)
  with assms have ok: "bucket_ok ck b" "\<forall>x \<in> fst ` set b. map_of (fb_session_compat c) x = Some ck"
    by (auto simp: collector_inv_def)
  show ?thesis
  proof (cases "pop s b = []")
    case True
    with Some assms show ?thesis
      by (auto simp: leave_bucket_def collector_inv_def keys_pop map_of_pop distinct_keys_pop)
  next
    case False
    have "ck \<in> fst ` set (fb_pending c)" using Some by (metis map_of_eq_None_iff option.distinct(1))
    with False Some ok assms show ?thesis
      by (auto simp: leave_bucket_def collector_inv_def keys_put map_of_put bucket_ok_pop)
  qed
qed

lemma leave_session: "fb_session_compat (leave_bucket s ck c) = fb_session_compat c"
  by (simp add: leave_bucket_def Let_def split: option.splits)

lemma leave_removes:
  assumes "collector_inv c" "map_of (fb_pending (leave_bucket s ck c)) k = Some b" "s \<in> fst ` set b"
  shows "k \<noteq> ck \<and> map_of (fb_pending c) k = Some b"
  using assms(2,3)
  by (auto simp: leave_bucket_def Let_def map_of_pop map_of_put split: option.splits if_splits)

text \<open>Joining a bucket keeps the invariant when the session is in no other bucket.\<close>

lemma join_inv:
  assumes "collector_inv c"
    and alone: "\<And>k b. map_of (fb_pending c) k = Some b \<Longrightarrow> fr_session_key r \<in> fst ` set b \<Longrightarrow> k = fr_compat r"
  shows "collector_inv (join_bucket r c)"
proof -
  let ?ck = "fr_compat r" and ?s = "fr_session_key r"
  define b where "b = (case map_of (fb_pending c) ?ck of None \<Rightarrow> [] | Some b \<Rightarrow> b)"
  have b: "b = [] \<or> bucket_ok ?ck b" "\<forall>x \<in> fst ` set b. map_of (fb_session_compat c) x = Some ?ck"
    using assms(1) unfolding b_def collector_inv_def by (cases "map_of (fb_pending c) ?ck"; simp)+
  have "bucket_ok ?ck (put ?s r b)" using b(1) by (rule bucket_ok_put) simp
  moreover have "map_of (put ?s ?ck (fb_session_compat c)) x = Some ?ck" if "x \<in> fst ` set (put ?s r b)" for x
    using that b(2) by (auto simp: map_of_put fst_set_put)
  moreover have "map_of (put ?s ?ck (fb_session_compat c)) x = Some k"
    if "map_of (fb_pending c) k = Some q" "k \<noteq> ?ck" "x \<in> fst ` set q" for k q x
    using that alone[OF that(1)] assms(1) unfolding collector_inv_def map_of_put by metis
  moreover have "?ck \<in> set (fb_compat_ring c) \<longleftrightarrow> ?ck \<in> fst ` set (fb_pending c)"
    using assms(1) by (simp add: collector_inv_def)
  moreover have "join_bucket r c = c\<lparr>fb_session_compat := put ?s ?ck (fb_session_compat c),
      fb_pending := put ?ck (put ?s r b) (fb_pending c),
      fb_compat_ring := (if ?ck \<in> set (fb_compat_ring c) then fb_compat_ring c else fb_compat_ring c @ [?ck]), fb_work := True\<rparr>"
    by (simp add: join_bucket_def Let_def b_def)
  ultimately show ?thesis
    using assms(1) by (simp add: collector_inv_def keys_put distinct_keys_put map_of_put)
qed


lemma pending_forD:
  assumes "collector_inv c" "pending_for s c = Some r"
  obtains b where "map_of (fb_pending c) (fr_compat r) = Some b" "map_of b s = Some r" "fr_session_key r = s"
    "map_of (fb_session_compat c) s = Some (fr_compat r)"
proof -
  obtain ck b where b: "map_of (fb_session_compat c) s = Some ck" "map_of (fb_pending c) ck = Some b" "map_of b s = Some r"
    using assms(2) by (auto simp: pending_for_def split: option.splits)
  then have "bucket_ok ck b" "(s, r) \<in> set b" using assms(1) by (auto simp: collector_inv_def dest: map_of_SomeD)
  then have "fr_compat r = ck" "fr_session_key r = s" by (auto simp: bucket_ok_def)
  with b show ?thesis by (intro that) simp_all
qed

lemma enqueue_inv [inv_intros]:
  assumes "collector_inv c"
  shows "collector_inv (enqueue r c)"
proof (cases "map_of (fb_session_compat c) (fr_session_key r)")
  case None
  then have "k = fr_compat r" if "map_of (fb_pending c) k = Some b" "fr_session_key r \<in> fst ` set b" for k b
    using assms that unfolding collector_inv_def by fastforce
  with None assms show ?thesis by (simp add: enqueue_def join_inv)
next
  case (Some old)
  have "k = fr_compat r"
    if "map_of (fb_pending (leave_bucket (fr_session_key r) old c)) k = Some b" "fr_session_key r \<in> fst ` set b" for k b
  proof -
    have "k \<noteq> old" "map_of (fb_pending c) k = Some b" using leave_removes[OF assms that] by auto
    then show ?thesis using assms that(2) Some unfolding collector_inv_def by fastforce
  qed
  with Some leave_inv[OF assms] show ?thesis by (simp add: enqueue_def join_inv)
qed

lemma rebucket_inv [inv_intros]:
  assumes "collector_inv c" "map_of (fb_session_compat c) (fr_session_key r) = Some (fr_compat r)"
  shows "collector_inv (rebucket r ck c)"
proof -
  have "k = ck"
    if "map_of (fb_pending (leave_bucket (fr_session_key r) (fr_compat r) c)) k = Some b" "fr_session_key r \<in> fst ` set b" for k b
  proof -
    have "k \<noteq> fr_compat r" "map_of (fb_pending c) k = Some b" using leave_removes[OF assms(1) that] by auto
    then show ?thesis using assms that(2) unfolding collector_inv_def by fastforce
  qed
  then show ?thesis unfolding rebucket_def by (intro join_inv leave_inv assms(1)) auto
qed

lemma refresh_inv [inv_intros]:
  assumes "collector_inv c" "map_of (fb_session_compat c) (fr_session_key r) = Some (fr_compat r)"
  shows "collector_inv (refresh r c)"
proof (cases "map_of (fb_pending c) (fr_compat r)")
  case None
  with assms(1) show ?thesis by (simp add: refresh_def)
next
  case (Some b)
  then have "bucket_ok (fr_compat r) (put (fr_session_key r) r b)"
    using assms(1) by (intro bucket_ok_put) (auto simp: collector_inv_def)
  moreover have "fr_compat r \<in> fst ` set (fb_pending c)" using Some by (metis map_of_eq_None_iff option.distinct(1))
  moreover have "map_of (fb_session_compat c) x = Some (fr_compat r)" if "x \<in> fst ` set (put (fr_session_key r) r b)" for x
    using that assms(2) collector_invD(2)[OF assms(1) Some] by (auto simp: fst_set_put)
  moreover have "distinct (map fst (fb_pending c))" "fb_compat_ring c = map fst (fb_pending c)" "fb_next_class_index c = 0"
    using assms(1) by (simp_all add: collector_inv_def)
  ultimately show ?thesis
    using Some collector_invD[OF assms(1)] unfolding collector_inv_def
    by (simp add: refresh_def keys_put map_of_put del: map_of_eq_Some_iff)
qed

lemma submit_inv [inv_intros]:
  assumes "collector_inv c"
  shows "collector_inv (submit s ck content c)"
proof (cases "pending_for s c")
  case None
  then show ?thesis by (simp add: submit_def enqueue_inv assms)
next
  case (Some r)
  with assms obtain b where "fr_session_key r = s" "map_of (fb_session_compat c) s = Some (fr_compat r)"
    by (elim pending_forD)
  with Some assms show ?thesis by (simp add: submit_def enqueue_inv rebucket_inv refresh_inv Let_def)
qed

lemma abandon_keeps_inv [inv_intros]:
  assumes "collector_inv c"
  shows "collector_inv (abandon s c)"
proof (cases "pending_for s c")
  case None
  then show ?thesis by (simp add: abandon_def assms)
next
  case (Some r)
  with assms obtain b where "fr_session_key r = s" "map_of (fb_session_compat c) s = Some (fr_compat r)"
    by (elim pending_forD)
  with Some assms show ?thesis by (simp add: abandon_def refresh_inv)
qed

lemma settle_inv [inv_intros]: "collector_inv c \<Longrightarrow> collector_inv (settle_batch batch c)"
proof (induction batch c rule: settle_batch.induct)
  case (2 r batch c)
  have "collector_inv (c\<lparr>fb_session_compat := pop (fr_session_key r) (fb_session_compat c)\<rparr>)"
    if "pending_for (fr_session_key r) c = None"
  proof -
    have "fr_session_key r \<notin> fst ` set b" if "map_of (fb_pending c) ck = Some b" for ck b
    proof
      assume "fr_session_key r \<in> fst ` set b"
      then have "map_of (fb_session_compat c) (fr_session_key r) = Some ck" "map_of b (fr_session_key r) \<noteq> None"
        using collector_invD(2)[OF 2(2) that] by (auto simp: map_of_eq_None_iff simp del: map_of_eq_Some_iff)
      with that \<open>pending_for (fr_session_key r) c = None\<close> show False by (simp add: pending_for_def)
    qed
    then have "map_of (pop (fr_session_key r) (fb_session_compat c)) s = Some ck"
      if "map_of (fb_pending c) ck = Some b" "s \<in> fst ` set b" for ck b s
      using that collector_invD(2)[OF 2(2) that] unfolding map_of_pop by metis
    moreover have "distinct (map fst (fb_pending c))" "fb_compat_ring c = map fst (fb_pending c)" "fb_next_class_index c = 0"
      using 2(2) by (simp_all add: collector_inv_def)
    ultimately show ?thesis using collector_invD(1)[OF 2(2)] by (intro collector_invI) simp_all
  qed
  with 2 show ?case by simp
qed simp

lemma pick_head:
  assumes "collector_inv c"
  shows "pick_batch c = (case fb_pending c of
      [] \<Rightarrow> None
    | (ck, b) # rest \<Rightarrow> Some (map snd b, c\<lparr>fb_pending := rest, fb_compat_ring := map fst rest, fb_next_class_index := 0\<rparr>))"
proof (cases "fb_pending c")
  case Nil
  with assms show ?thesis by (simp add: pick_batch_def collector_inv_def)
next
  case (Cons p rest)
  obtain ck b where p: "p = (ck, b)" by (cases p)
  have "bucket_ok ck b" by (rule collector_invD(1)[OF assms]) (simp add: Cons p)
  then have ring: "fb_compat_ring c = ck # map fst rest" "fb_next_class_index c = 0" "ck \<notin> fst ` set rest" "b \<noteq> []"
    using assms Cons p by (auto simp: collector_inv_def bucket_ok_def)
  moreover have "filter (\<lambda>q. fst q \<noteq> ck) rest = rest" "filter (\<lambda>key. key \<noteq> ck) (map fst rest) = map fst rest"
    using ring(3) by (auto intro!: filter_True)
  moreover have "[0..<length (fb_compat_ring c)] = 0 # [1..<length (fb_compat_ring c)]" 
    using ring(1) upt_conv_Cons[of 0 "length (fb_compat_ring c)"] by simp
  ultimately show ?thesis
    using Cons p by (simp add: pick_batch_def pop_def Let_def)
qed


lemma pick_inv [inv_intros]:
  assumes "collector_inv c" "pick_batch c = Some (batch, c')"
  shows "collector_inv c'"
proof -
  obtain ck b rest where p: "fb_pending c = (ck, b) # rest"
      "c' = c\<lparr>fb_pending := rest, fb_compat_ring := map fst rest, fb_next_class_index := 0\<rparr>"
    using assms(2) unfolding pick_head[OF assms(1)] by (auto split: list.splits)
  have keys: "ck \<notin> fst ` set rest" "distinct (map fst rest)" using assms(1) p(1) by (auto simp: collector_inv_def)
  have "map_of (fb_pending c) k = Some q" if "map_of rest k = Some q" for k q
    using that keys(1) p(1) by (auto simp: rev_image_eqI dest: map_of_SomeD)
  then show ?thesis
    using collector_invD[OF assms(1)] keys(2) unfolding collector_inv_def p(2)
    by (auto simp del: map_of_eq_Some_iff)
qed

text \<open>What can happen to a collector; the loop picks a batch and settles it when it ran.\<close>

inductive collector_step :: "'a collector \<Rightarrow> 'a collector \<Rightarrow> bool" where
  submit: "collector_step c (submit s ck content c)"
| abandon: "collector_step c (abandon s c)"
| pick: "pick_batch c = Some (batch, c') \<Longrightarrow> collector_step c c'"
| settle: "collector_step c (settle_batch batch c)"
| work: "collector_step c (c\<lparr>fb_work := w\<rparr>)"

lemma work_inv [simp]: "collector_inv (c\<lparr>fb_work := w\<rparr>) = collector_inv c"
  by (simp add: collector_inv_def)

interpretation collector: guarded_steps collector_step collector_inv
proof
  show "collector_inv c'" if "collector_inv c" "collector_step c c'" for c c' :: "'a collector"
    using that(2,1) by (induction rule: collector_step.induct) (auto intro: inv_intros)
qed

lemma fresh_collector_inv: "collector_inv fresh_collector"
  by (simp add: collector_inv_def fresh_collector_def)

lemma reachable_collector: "collector_step\<^sup>*\<^sup>* fresh_collector c \<Longrightarrow> collector_inv c"
  using fresh_collector_inv by (rule collector.run_good[rotated])

text \<open>
  Property C32 (equivalence). The cursor over the ring of classes is a plain queue: under the invariant
  the next batch is the whole bucket of the class that has waited longest, and picking it is taking the
  head of the table of pending frames; there is a batch exactly when something is pending.
\<close>

theorem round_robin_is_a_queue:
  assumes "collector_step\<^sup>*\<^sup>* fresh_collector c"
  shows "fb_compat_ring c = map fst (fb_pending c) \<and> fb_next_class_index c = 0
     \<and> pick_batch c = (case fb_pending c of
         [] \<Rightarrow> None
       | (ck, b) # rest \<Rightarrow> Some (map snd b, c\<lparr>fb_pending := rest, fb_compat_ring := map fst rest\<rparr>))"
  using reachable_collector[OF assms] pick_head[OF reachable_collector[OF assms]]
  by (simp add: collector_inv_def split: list.splits)

text \<open>
  A batch is never empty, all its frames are of one compatibility class, and no
  session is in it twice; and while they wait, a session has one pending frame at most over all classes.
\<close>

theorem batches_are_uniform:
  assumes "collector_step\<^sup>*\<^sup>* fresh_collector c" "pick_batch c = Some (batch, c')"
  shows "batch \<noteq> [] \<and> (\<exists>ck. \<forall>r \<in> set batch. fr_compat r = ck) \<and> distinct (map fr_session_key batch)
     \<and> (\<forall>ck b ck' b' s. map_of (fb_pending c) ck = Some b \<and> map_of (fb_pending c) ck' = Some b'
          \<and> s \<in> fst ` set b \<and> s \<in> fst ` set b' \<longrightarrow> ck = ck')"
proof -
  have inv: "collector_inv c" using assms(1) by (rule reachable_collector)
  obtain ck b rest where p: "fb_pending c = (ck, b) # rest" "batch = map snd b"
    using assms(2) unfolding pick_head[OF inv] by (auto split: list.splits)
  then have "bucket_ok ck b" by (intro collector_invD(1)[OF inv]) simp
  then have "b \<noteq> []" "distinct (map fst b)" "map fr_session_key (map snd b) = map fst b" "\<forall>r \<in> set (map snd b). fr_compat r = ck"
    by (auto simp: bucket_ok_def)
  moreover have "ck = ck'"
    if "map_of (fb_pending c) ck = Some b" "map_of (fb_pending c) ck' = Some b'" "s \<in> fst ` set b" "s \<in> fst ` set b'" for ck b ck' b' s
    using collector_invD(2)[OF inv that(1,3)] collector_invD(2)[OF inv that(2,4)] by simp
  ultimately show ?thesis unfolding p(2)
    by (intro conjI) (simp, blast, simp only:, blast)
qed


section \<open>Bounded waiting\<close>

text \<open>Session \<open>s\<close> has a frame pending in the class at position \<open>i\<close> of the ring.\<close>

definition waiting :: "int \<Rightarrow> compat_key \<Rightarrow> nat \<Rightarrow> 'a collector \<Rightarrow> bool" where
  "waiting s ck i c \<longleftrightarrow> collector_inv c \<and> i < length (fb_compat_ring c) \<and> fb_compat_ring c ! i = ck
     \<and> (\<exists>b. map_of (fb_pending c) ck = Some b \<and> s \<in> fst ` set b)"

lemma nth_filter_le:
  assumes "i < length xs" "P (xs ! i)"
  shows "\<exists>j \<le> i. j < length (filter P xs) \<and> filter P xs ! j = xs ! i"
proof -
  have split: "xs = take i xs @ xs ! i # drop (Suc i) xs" using assms(1) by (rule id_take_nth_drop)
  let ?j = "length (filter P (take i xs))"
  have eq: "filter P xs = filter P (take i xs) @ xs ! i # filter P (drop (Suc i) xs)"
    using assms(2) by (subst split) simp
  have "?j \<le> i" by (metis length_filter_le length_take min.bounded_iff)
  moreover have "?j < length (filter P xs)" "filter P xs ! ?j = xs ! i" by (simp_all add: eq nth_append)
  ultimately show ?thesis by blast
qed

lemma waiting_leave:
  assumes "waiting s ck i c" "s' \<noteq> s"
  shows "\<exists>j \<le> i. waiting s ck j (leave_bucket s' k c)"
proof -
  have w: "collector_inv c" "i < length (fb_compat_ring c)" "fb_compat_ring c ! i = ck"
    and "\<exists>b. map_of (fb_pending c) ck = Some b \<and> s \<in> fst ` set b" using assms(1) by (auto simp: waiting_def)
  then obtain b where b: "map_of (fb_pending c) ck = Some b" "s \<in> fst ` set b" by blast
  have inv: "collector_inv (leave_bucket s' k c)" using w(1) by (rule leave_inv)
  have stays: "s \<in> fst ` set (pop s' b)" using b(2) assms(2) by force
  show ?thesis
  proof (cases "map_of (fb_pending c) k")
    case None
    with assms(1) show ?thesis by (auto simp: leave_bucket_def)
  next
    case (Some q)
    show ?thesis
    proof (cases "pop s' q = []")
      case True
      have "k \<noteq> ck"
      proof
        assume "k = ck"
        with Some b(1) have "q = b" by simp
        with True stays show False by simp
      qed
      then obtain j where "j \<le> i" "j < length (filter (\<lambda>key. key \<noteq> k) (fb_compat_ring c))"
          "filter (\<lambda>key. key \<noteq> k) (fb_compat_ring c) ! j = ck"
        using nth_filter_le[of i "fb_compat_ring c" "\<lambda>key. key \<noteq> k"] w by auto
      with inv b \<open>k \<noteq> ck\<close> Some True show ?thesis
        by (auto simp: waiting_def leave_bucket_def map_of_pop simp del: map_of_eq_Some_iff)
    next
      case False
      have "map_of (fb_pending (leave_bucket s' k c)) ck = Some (if ck = k then pop s' q else b)"
        using Some False b by (simp add: leave_bucket_def map_of_put del: map_of_eq_Some_iff)
      moreover have "s \<in> fst ` set (if ck = k then pop s' q else b)" using Some b stays by auto
      moreover have "fb_compat_ring (leave_bucket s' k c) = fb_compat_ring c" using Some False by (simp add: leave_bucket_def)
      ultimately show ?thesis using inv w by (auto simp: waiting_def simp del: map_of_eq_Some_iff)
    qed
  qed
qed

lemma waiting_join:
  assumes "waiting s ck i c" "collector_inv (join_bucket r c)"
  shows "waiting s ck i (join_bucket r c)"
proof -
  obtain b where b: "map_of (fb_pending c) ck = Some b" "s \<in> fst ` set b" using assms(1) by (auto simp: waiting_def)
  have "map_of (fb_pending (join_bucket r c)) ck
      = Some (if ck = fr_compat r then put (fr_session_key r) r b else b)"
    using b by (cases "ck = fr_compat r") (simp_all add: join_bucket_def Let_def map_of_put del: map_of_eq_Some_iff)
  moreover have "s \<in> fst ` set (if ck = fr_compat r then put (fr_session_key r) r b else b)"
    using b(2) by (simp add: fst_set_put)
  moreover have "i < length (fb_compat_ring (join_bucket r c))" "fb_compat_ring (join_bucket r c) ! i = ck"
    using assms(1) by (auto simp: waiting_def join_bucket_def Let_def nth_append)
  ultimately show ?thesis using assms(2) by (auto simp: waiting_def simp del: map_of_eq_Some_iff)
qed

lemma waiting_refresh:
  assumes "waiting s ck i c" "collector_inv (refresh r c)"
  shows "waiting s ck i (refresh r c)"
proof -
  obtain b where b: "map_of (fb_pending c) ck = Some b" "s \<in> fst ` set b" using assms(1) by (auto simp: waiting_def)
  have "\<exists>q. map_of (fb_pending (refresh r c)) ck = Some q \<and> s \<in> fst ` set q"
    using b by (cases "map_of (fb_pending c) (fr_compat r)"; cases "ck = fr_compat r")
      (simp_all add: refresh_def map_of_put fst_set_put del: map_of_eq_Some_iff)
  moreover have "fb_compat_ring (refresh r c) = fb_compat_ring c" by (simp add: refresh_def split: option.splits)
  ultimately show ?thesis using assms by (auto simp: waiting_def simp del: map_of_eq_Some_iff)
qed

lemma waiting_enqueue:
  assumes "waiting s ck i c" "fr_session_key r \<noteq> s"
  shows "\<exists>j \<le> i. waiting s ck j (enqueue r c)"
proof -
  have inv: "collector_inv (enqueue r c)" using assms(1) by (intro enqueue_inv) (simp add: waiting_def)
  let ?c = "case map_of (fb_session_compat c) (fr_session_key r) of None \<Rightarrow> c | Some k \<Rightarrow> leave_bucket (fr_session_key r) k c"
  have "\<exists>j \<le> i. waiting s ck j ?c"
    using assms waiting_leave[OF assms] by (auto split: option.splits)
  with inv show ?thesis unfolding enqueue_def by (blast intro: waiting_join)
qed

lemma waiting_submit:
  assumes "waiting s ck i c" "s' \<noteq> s"
  shows "\<exists>j \<le> i. waiting s ck j (submit s' k content c)"
proof (cases "\<exists>r. pending_for s' c = Some r \<and> \<not> fr_done r")
  case False
  then show ?thesis using waiting_enqueue[OF assms(1)] assms(2) by (auto simp: submit_def split: option.splits)
next
  case True
  then obtain r where r: "pending_for s' c = Some r" "\<not> fr_done r" by blast
  have c: "collector_inv c" using assms(1) by (simp add: waiting_def)
  then obtain b where key: "fr_session_key r = s'" "map_of (fb_session_compat c) s' = Some (fr_compat r)"
    using r(1) by (elim pending_forD)
  let ?r = "r\<lparr>fr_content := content\<rparr>"
  have "\<exists>j \<le> i. waiting s ck j (rebucket ?r k c)"
    using waiting_leave[OF assms, of "fr_compat ?r"] rebucket_inv[OF c, of ?r k] key
    unfolding rebucket_def by (auto intro: waiting_join)
  moreover have "waiting s ck i (refresh ?r c)"
    using assms(1) by (rule waiting_refresh) (use key in \<open>simp add: refresh_inv[OF c]\<close>)
  ultimately show ?thesis using r by (auto simp: submit_def Let_def)
qed


text \<open>
  A run in which session \<open>s\<close> waits, with the batches picked along it: other sessions submit, replace
  and abandon frames, the session itself replaces its pending frame in the class it waits in, batches are
  picked and settled.
\<close>

inductive waiting_run :: "int \<Rightarrow> 'a collector \<Rightarrow> 'a frame_request list list \<Rightarrow> 'a collector \<Rightarrow> bool" for s c where
  start: "waiting_run s c [] c"
| submit: "waiting_run s c bs d \<Longrightarrow> s' \<noteq> s \<Longrightarrow> waiting_run s c bs (submit s' ck content d)"
| own: "waiting_run s c bs d \<Longrightarrow> pending_for s d = Some r \<Longrightarrow> \<not> fr_done r \<Longrightarrow> waiting_run s c bs (submit s (fr_compat r) content d)"
| abandon: "waiting_run s c bs d \<Longrightarrow> s' \<noteq> s \<Longrightarrow> waiting_run s c bs (abandon s' d)"
| settle: "waiting_run s c bs d \<Longrightarrow> waiting_run s c bs (settle_batch batch d)"
| pick: "waiting_run s c bs d \<Longrightarrow> pick_batch d = Some (b, d') \<Longrightarrow> waiting_run s c (bs @ [b]) d'"

lemma settle_pending: "fb_pending (settle_batch batch c) = fb_pending c" "fb_compat_ring (settle_batch batch c) = fb_compat_ring c"
  by (induction batch c rule: settle_batch.induct) simp_all

lemma waiting_own:
  assumes "waiting s ck i c" "pending_for s c = Some r" "\<not> fr_done r"
  shows "waiting s ck i (submit s (fr_compat r) content c)"
proof -
  have c: "collector_inv c" using assms(1) by (simp add: waiting_def)
  then obtain b where key: "fr_session_key r = s" "map_of (fb_session_compat c) s = Some (fr_compat r)"
    using assms(2) by (elim pending_forD)
  have "waiting s ck i (refresh (r\<lparr>fr_content := content\<rparr>) c)"
    using assms(1) by (rule waiting_refresh) (use key in \<open>simp add: refresh_inv[OF c]\<close>)
  with assms(2,3) show ?thesis by (simp add: submit_def Let_def)
qed

lemma waiting_abandon:
  assumes "waiting s ck i c"
  shows "waiting s ck i (abandon s' c)"
proof (cases "pending_for s' c")
  case (Some r)
  have "collector_inv (abandon s' c)" using assms by (intro abandon_keeps_inv) (simp add: waiting_def)
  with Some waiting_refresh[OF assms] show ?thesis by (simp add: abandon_def)
qed (simp add: abandon_def assms)

lemma waiting_pick:
  assumes "waiting s ck i c" "pick_batch c = Some (b, c')"
  shows "(\<exists>r \<in> set b. fr_session_key r = s) \<or> 0 < i \<and> waiting s ck (i - 1) c'"
proof -
  have c: "collector_inv c" "i < length (fb_compat_ring c)" "fb_compat_ring c ! i = ck" using assms(1) by (auto simp: waiting_def)
  obtain q where q: "map_of (fb_pending c) ck = Some q" "s \<in> fst ` set q" using assms(1) by (auto simp: waiting_def)
  obtain k d rest where p: "fb_pending c = (k, d) # rest" "b = map snd d"
      "c' = c\<lparr>fb_pending := rest, fb_compat_ring := map fst rest, fb_next_class_index := 0\<rparr>"
    using assms(2) unfolding pick_head[OF c(1)] by (auto split: list.splits)
  have ring: "fb_compat_ring c = k # map fst rest" using c(1) p(1) by (simp add: collector_inv_def)
  show ?thesis
  proof (cases "k = ck")
    case True
    then have "q = d" using q(1) p(1) by simp
    then obtain r where "(s, r) \<in> set d" using q(2) by auto
    moreover have "bucket_ok ck d" using collector_invD(1)[OF c(1) q(1)] \<open>q = d\<close> by simp
    ultimately have "fr_session_key r = s" "r \<in> set b" using p(2) by (force simp: bucket_ok_def)+
    then show ?thesis by blast
  next
    case False
    then have "0 < i" using c(3) ring by (cases i) auto
    moreover have "collector_inv c'" by (rule pick_inv[OF c(1) assms(2)])
    moreover have "map_of (fb_pending c') ck = Some q" using q(1) p False by simp
    moreover have "i - 1 < length (fb_compat_ring c')" "fb_compat_ring c' ! (i - 1) = ck"
      using c(2,3) ring p(3) \<open>0 < i\<close> by (simp_all add: nth_Cons')
    ultimately show ?thesis using q(2) by (auto simp: waiting_def simp del: map_of_eq_Some_iff)
  qed
qed

lemma waiting_run_position:
  assumes "waiting_run s c bs d" "waiting s ck i c"
  shows "(\<exists>b \<in> set bs. \<exists>r \<in> set b. fr_session_key r = s) \<or> (\<exists>j. j + length bs \<le> i \<and> waiting s ck j d)"
  using assms(1)
proof (induction rule: waiting_run.induct)
  case start
  then show ?case using assms(2) by auto
next
  case (submit bs d s' k content)
  then show ?case using waiting_submit[OF _ submit(2)] by (meson add_le_mono1 order_trans)
next
  case (own bs d r content)
  have "waiting s ck j (submit s (fr_compat r) content d)" if "waiting s ck j d" for j
    using that own(2,3) by (rule waiting_own)
  with own(4) show ?case by blast
next
  case (abandon bs d s')
  then show ?case using waiting_abandon by blast
next
  case (settle bs d batch)
  have "waiting s ck j (settle_batch batch d)" if "waiting s ck j d" for j
    using that settle_inv[of d batch] by (simp add: waiting_def settle_pending)
  with settle show ?case by blast
next
  case (pick bs d b d')
  show ?case
  proof (cases "\<exists>b \<in> set bs. \<exists>r \<in> set b. fr_session_key r = s")
    case False
    with pick(3) obtain j where j: "j + length bs \<le> i" "waiting s ck j d" by blast
    from waiting_pick[OF j(2) pick(2)] show ?thesis
    proof
      assume "0 < j \<and> waiting s ck (j - 1) d'"
      with j(1) show ?thesis by (intro disjI2 exI[of _ "j - 1"]) auto
    qed auto
  qed auto
qed

text \<open>
  Property C33 (liveness). Bounded waiting. A session whose frame waits in a class with \<open>i\<close> classes
  before it in the ring is in one of the next \<open>i + 1\<close> batches, however many frames the other sessions
  submit, move between classes or abandon meanwhile, and however often the session replaces its own
  frame in that class; only moving it to another class or giving it up loses the place.
\<close>

theorem waiting_is_bounded:
  assumes "collector_step\<^sup>*\<^sup>* fresh_collector c" "pending_for s c = Some r"
    and "i < length (fb_compat_ring c)" "fb_compat_ring c ! i = fr_compat r"
    and "waiting_run s c batches d" "i < length batches"
  shows "\<exists>b \<in> set batches. \<exists>q \<in> set b. fr_session_key q = s"
proof -
  have inv: "collector_inv c" using assms(1) by (rule reachable_collector)
  obtain b where "map_of (fb_pending c) (fr_compat r) = Some b" "map_of b s = Some r"
    using inv assms(2) by (elim pending_forD)
  then have "waiting s (fr_compat r) i c"
    using inv assms(3,4) by (auto simp: waiting_def rev_image_eqI dest: map_of_SomeD)
  from waiting_run_position[OF assms(5) this] assms(6) show ?thesis by fastforce
qed

text \<open>
  The inner loop of \<open>_loop\<close>, while nothing new arrives: pick, run and settle until the table is
  empty. One unit of fuel per iteration.
\<close>

fun drain :: "nat \<Rightarrow> 'a collector \<Rightarrow> 'a frame_request list list \<times> 'a collector" where
  "drain 0 c = ([], c)"
| "drain (Suc fuel) c =
     (if fb_pending c = [] then ([], c)
      else case pick_batch c of
        None \<Rightarrow> ([], c)
      | Some (batch, c') \<Rightarrow> (case drain fuel (settle_batch batch c') of (batches, d) \<Rightarrow> (batch # batches, d)))"

lemma drain_all:
  assumes "collector_inv c" "length (fb_pending c) \<le> fuel"
  shows "fb_pending (snd (drain fuel c)) = [] \<and> fst (drain fuel c) = map (\<lambda>p. map snd (snd p)) (fb_pending c)"
  using assms
proof (induction fuel arbitrary: c)
  case (Suc fuel)
  show ?case
  proof (cases "fb_pending c")
    case (Cons p rest)
    obtain ck b where p: "p = (ck, b)" by (cases p)
    let ?c = "c\<lparr>fb_pending := rest, fb_compat_ring := map fst rest, fb_next_class_index := 0\<rparr>"
    have pick: "pick_batch c = Some (map snd b, ?c)" using pick_head[OF Suc.prems(1)] Cons p by simp
    have "collector_inv (settle_batch (map snd b) ?c)" using pick_inv[OF Suc.prems(1) pick] by (rule settle_inv)
    moreover have "length (fb_pending (settle_batch (map snd b) ?c)) \<le> fuel" using Suc.prems(2) Cons by (simp add: settle_pending)
    ultimately show ?thesis
      using Suc.IH[of "settle_batch (map snd b) ?c"] Cons p pick by (simp add: settle_pending case_prod_beta)
  qed simp
qed simp

text \<open>
  Property C34 (termination). Draining terminates: when nothing new is submitted the inner loop of the
  collector picks one batch per pending class, which together are all the pending frames, and then stops with an
  empty table; one unit of fuel per class is enough, and more changes nothing.
\<close>

theorem draining_terminates:
  assumes "collector_step\<^sup>*\<^sup>* fresh_collector c" "length (fb_compat_ring c) \<le> fuel"
  shows "fb_pending (snd (drain fuel c)) = [] \<and> fst (drain fuel c) = map (\<lambda>p. map snd (snd p)) (fb_pending c)
     \<and> length (fst (drain fuel c)) = length (fb_compat_ring c)"
proof -
  have inv: "collector_inv c" using assms(1) by (rule reachable_collector)
  then have len: "length (fb_pending c) = length (fb_compat_ring c)" by (simp add: collector_inv_def)
  with drain_all[OF inv, of fuel] assms(2) show ?thesis by simp
qed

section \<open>Witnesses\<close>

definition demo_class :: "int \<Rightarrow> compat_key" where
  "demo_class steps = \<lparr>ck_model_id = ''sd'', ck_steps = steps, ck_resolution = 512\<rparr>"

definition demo_collector :: "string collector" where
  "demo_collector = submit 3 (demo_class 2) ''c'' (submit 2 (demo_class 4) ''b'' (submit 1 (demo_class 2) ''a'' fresh_collector))"

lemma demo_collector_runs: "collector_step\<^sup>*\<^sup>* fresh_collector demo_collector"
  unfolding demo_collector_def by (blast intro: collector_step.submit rtranclp.rtrancl_into_rtrancl rtranclp.rtrancl_refl)

lemma demo_collector_eq:
  "map fst (fb_pending demo_collector) = [demo_class 2, demo_class 4]" "fb_compat_ring demo_collector = [demo_class 2, demo_class 4]"
  "map_option fr_compat (pending_for 2 demo_collector) = Some (demo_class 4)"
  "map_option (map fr_session_key \<circ> fst) (pick_batch demo_collector) = Some [1, 3]"
  by code_simp+

theorem round_robin_is_a_queue_witness:
  "fb_next_class_index demo_collector = 0 \<and> fb_compat_ring demo_collector = map fst (fb_pending demo_collector)"
  using round_robin_is_a_queue[OF demo_collector_runs] by simp

theorem batches_are_uniform_witness:
  "\<exists>batch c. pick_batch demo_collector = Some (batch, c) \<and> distinct (map fr_session_key batch)"
proof -
  obtain batch c where pick: "pick_batch demo_collector = Some (batch, c)" using demo_collector_eq(4) by auto
  with batches_are_uniform[OF demo_collector_runs pick] show ?thesis by blast
qed

theorem waiting_is_bounded_witness:
  "\<exists>b1 c1 b2 c2. pick_batch demo_collector = Some (b1, c1) \<and> pick_batch c1 = Some (b2, c2)
     \<and> (\<exists>b \<in> {b1, b2}. \<exists>q \<in> set b. fr_session_key q = 2)"
proof -
  obtain r where r: "pending_for 2 demo_collector = Some r" "fr_compat r = demo_class 4" using demo_collector_eq(3) by auto
  obtain b1 c1 where p1: "pick_batch demo_collector = Some (b1, c1)" using demo_collector_eq(4) by auto
  have "case pick_batch demo_collector of None \<Rightarrow> False | Some (_, c) \<Rightarrow> pick_batch c \<noteq> None" by code_simp
  then obtain b2 c2 where p2: "pick_batch c1 = Some (b2, c2)" using p1 by auto
  have run: "waiting_run 2 demo_collector ([b1] @ [b2]) c2"
    using waiting_run.pick[OF waiting_run.pick[OF waiting_run.start p1] p2] by simp
  have "\<exists>b \<in> set ([b1] @ [b2]). \<exists>q \<in> set b. fr_session_key q = 2"
    by (rule waiting_is_bounded[OF demo_collector_runs r(1) _ _ run, of 1]) (simp_all add: demo_collector_eq(2) r(2))
  with p1 p2 show ?thesis by auto
qed

theorem draining_terminates_witness: "fb_pending (snd (drain 2 demo_collector)) = [] \<and> length (fst (drain 2 demo_collector)) = 2"
  using draining_terminates[OF demo_collector_runs, of 2] unfolding demo_collector_eq(2) by auto

end
