(* ===== verification/Sign_In_Limits.thy ===== *)
theory Sign_In_Limits
  imports Prelude
begin

text \<open>
  How often the sign-in and the password reset may be asked (\<open>src/backend/app/rate_limit.py\<close>): the
  counters of the table \<open>login_attempts\<close>, the wait that doubles and the queue of turns an address
  has. Instants and delays are microseconds; \<open>digest\<close> stands for SHA-256 of the subject.
\<close>

section \<open>Rows and constants\<close>

record login_attempt =
  la_scope :: string
  la_subject :: string
  la_attempts :: int
  la_expires_at :: moment
  la_not_before :: "moment option"

definition la_key :: "login_attempt \<Rightarrow> string \<times> string" where
  "la_key r = (la_scope r, la_subject r)"

definition WINDOW :: moment where "WINDOW = 10 * 60 * 1000000"
definition IDENTIFIER_LIMIT :: int where "IDENTIFIER_LIMIT = 10"
definition FREE_ATTEMPTS :: int where "FREE_ATTEMPTS = 5"
definition MAX_DELAY :: moment where "MAX_DELAY = 8 * 1000000"
definition MAX_QUEUE :: moment where "MAX_QUEUE = 30 * 1000000"

text \<open>
  \<open>0.5 * 2 ** n\<close> multiplies a double by an integer: from \<open>2 ** 1024\<close> on the integer has no double
  and Python raises \<open>OverflowError\<close>, before \<open>min\<close> is applied.
\<close>

datatype limit_error = Overflow

definition delay_for :: "int \<Rightarrow> limit_error + moment" where
  "delay_for attempts =
     (if attempts \<le> FREE_ATTEMPTS then Inr 0
      else if attempts - FREE_ATTEMPTS - 1 \<ge> 1024 then Inl Overflow
      else Inr (min MAX_DELAY (500000 * 2 ^ nat (attempts - FREE_ATTEMPTS - 1))))"

section \<open>Counting\<close>

text \<open>The row of a subject, and \<open>INSERT ... ON CONFLICT DO UPDATE ... RETURNING\<close>.\<close>

definition attempt_of :: "string \<Rightarrow> string \<Rightarrow> login_attempt list \<Rightarrow> login_attempt option" where
  "attempt_of scope subject rows = find (\<lambda>r. la_key r = (scope, subject)) rows"

definition counted :: "moment \<Rightarrow> login_attempt \<Rightarrow> login_attempt" where
  "counted now r =
     (if la_expires_at r \<le> now then r\<lparr>la_attempts := 1, la_expires_at := now + WINDOW, la_not_before := None\<rparr>
      else r\<lparr>la_attempts := la_attempts r + 1\<rparr>)"

definition charge ::
    "moment \<Rightarrow> string \<Rightarrow> string \<Rightarrow> login_attempt list \<Rightarrow> (int \<times> moment option) \<times> login_attempt list" where
  "charge now scope subject rows =
     (case attempt_of scope subject rows of
        None \<Rightarrow> ((1, None), rows @ [\<lparr>la_scope = scope, la_subject = subject, la_attempts = 1,
                   la_expires_at = now + WINDOW, la_not_before = None\<rparr>])
      | Some r \<Rightarrow> ((la_attempts (counted now r), la_not_before (counted now r)),
                   upd_where (\<lambda>q. la_key q = (scope, subject)) (counted now) rows))"

text \<open>The next turn of an address: the wait, or \<open>None\<close> when the queue is full.\<close>

definition reserve ::
    "clock \<Rightarrow> string \<Rightarrow> login_attempt list \<Rightarrow> limit_error + (moment option \<times> login_attempt list)" where
  "reserve clk subject rows =
     (case charge (clk 0) ''address'' subject rows of ((attempts, taken), rows1) \<Rightarrow>
      bindR (delay_for attempts) (\<lambda>delay.
        let now = clk 1; turn = max (case taken of None \<Rightarrow> now | Some t \<Rightarrow> t) now + delay; waiting = turn - now in
        if waiting > MAX_QUEUE then Inr (None, rows1)
        else Inr (Some waiting, upd_where (\<lambda>q. la_key q = (''address'', subject)) (\<lambda>q. q\<lparr>la_not_before := Some turn\<rparr>) rows1)))"

section \<open>The two routes\<close>

text \<open>
  How a route ends: refused with 429, busy with 503, held for a time, or an exception, whose
  transaction is rolled back.
\<close>

datatype charged = Refused | Busy | Held moment | Crashed limit_error

definition charge_address ::
    "(string \<Rightarrow> string) \<Rightarrow> clock \<Rightarrow> string option \<Rightarrow> login_attempt list \<Rightarrow> charged \<times> login_attempt list" where
  "charge_address digest clk peer rows =
     (case peer of
        None \<Rightarrow> (Held 0, rows)
      | Some host \<Rightarrow>
          (case reserve clk (digest (''reset:'' @ host)) rows of
             Inl e \<Rightarrow> (Crashed e, rows)
           | Inr (None, rows') \<Rightarrow> (Busy, rows')
           | Inr (Some waiting, rows') \<Rightarrow> (Held waiting, rows')))"

definition charge_login ::
    "(string \<Rightarrow> string) \<Rightarrow> clock \<Rightarrow> string \<Rightarrow> string option \<Rightarrow> login_attempt list \<Rightarrow> charged \<times> login_attempt list" where
  "charge_login digest clk subject peer rows =
     (case charge (clk 0) ''identifier'' (digest subject) rows of ((identifier, _), rows1) \<Rightarrow>
      if identifier > IDENTIFIER_LIMIT then (Refused, rows1)
      else
        (case (case peer of None \<Rightarrow> Inr (Some 0, rows1) | Some host \<Rightarrow> reserve (\<lambda>n. clk (n + 1)) (digest host) rows1) of
           Inl e \<Rightarrow> (Crashed e, rows)
         | Inr (None, rows2) \<Rightarrow> (Busy, rows2)
         | Inr (Some queued, rows2) \<Rightarrow>
             (case delay_for identifier of
                Inl e \<Rightarrow> (Crashed e, rows2)
              | Inr delay \<Rightarrow> (Held (max delay queued), rows2))))"

definition prune :: "moment \<Rightarrow> login_attempt list \<Rightarrow> login_attempt list" where
  "prune now rows = del_where (\<lambda>r. la_expires_at r < now) rows"

section \<open>The table\<close>

lemma la_key_counted [simp]: "la_key (counted now r) = la_key r"
  by (simp add: la_key_def counted_def)

lemma la_key_new [simp]: "la_key \<lparr>la_scope = a, la_subject = b, la_attempts = n, la_expires_at = e, la_not_before = t\<rparr> = (a, b)"
  by (simp add: la_key_def)

lemma la_key_not_before [simp]: "la_key (q\<lparr>la_not_before := t\<rparr>) = la_key q"
  by (simp add: la_key_def)

lemma attempt_of_append:
  "attempt_of scope subject (rows @ [r]) = (case attempt_of scope subject rows of
     None \<Rightarrow> if la_key r = (scope, subject) then Some r else None | Some q \<Rightarrow> Some q)"
  by (simp add: attempt_of_def find_append split: option.splits)

lemma attempt_of_upd:
  assumes "\<And>r. la_key (f r) = la_key r"
  shows "attempt_of scope subject (upd_where (\<lambda>q. la_key q = k) f rows)
     = map_option (\<lambda>r. if (scope, subject) = k then f r else r) (attempt_of scope subject rows)"
proof -
  have "attempt_of scope subject (upd_where (\<lambda>q. la_key q = k) f rows)
      = map_option (\<lambda>r. if la_key r = k then f r else r) (attempt_of scope subject rows)"
    unfolding attempt_of_def by (rule find_upd_where) (simp add: assms)
  moreover have "la_key r = (scope, subject)" if "attempt_of scope subject rows = Some r" for r
    using that by (auto simp: attempt_of_def dest: find_SomeD)
  ultimately show ?thesis by (cases "attempt_of scope subject rows") auto
qed

text \<open>Charging one subject leaves the row of every other.\<close>

lemma charge_other:
  assumes "(scope', subject') \<noteq> (scope, subject)"
  shows "attempt_of scope' subject' (snd (charge now scope subject rows)) = attempt_of scope' subject' rows"
  using assms
  by (auto simp: charge_def attempt_of_append attempt_of_upd option.map_ident split: option.splits)

lemma charge_own:
  "attempt_of scope subject (snd (charge now scope subject rows))
     = Some (case attempt_of scope subject rows of
         None \<Rightarrow> \<lparr>la_scope = scope, la_subject = subject, la_attempts = 1, la_expires_at = now + WINDOW, la_not_before = None\<rparr>
       | Some r \<Rightarrow> counted now r)"
  by (auto simp: charge_def attempt_of_append attempt_of_upd split: option.splits)

lemma charge_result:
  "fst (charge now scope subject rows)
     = (la_attempts (the (attempt_of scope subject (snd (charge now scope subject rows)))),
        la_not_before (the (attempt_of scope subject (snd (charge now scope subject rows)))))"
  by (simp add: charge_own) (simp add: charge_def split: option.splits)


text \<open>The primary key of the table.\<close>

definition one_row_each :: "login_attempt list \<Rightarrow> bool" where
  "one_row_each rows \<longleftrightarrow> distinct (map la_key rows)"

lemma attempt_of_iff: "one_row_each rows \<Longrightarrow> attempt_of scope subject rows = Some r \<longleftrightarrow> r \<in> set rows \<and> la_key r = (scope, subject)"
  unfolding attempt_of_def one_row_each_def
  by (auto dest: find_SomeD intro: find_Some_if_distinct)

lemma charge_one_row [inv_intros]: "one_row_each rows \<Longrightarrow> one_row_each (snd (charge now scope subject rows))"
  by (auto simp: charge_def one_row_each_def map_upd_where attempt_of_def find_None_iff split: option.splits)

lemma reserve_one_row [inv_intros]:
  "one_row_each rows \<Longrightarrow> reserve clk subject rows = Inr (w, rows') \<Longrightarrow> one_row_each rows'"
  using charge_one_row[of rows "clk 0" "''address''" subject]
  by (auto simp: reserve_def bindR_Inr_iff Let_def one_row_each_def map_upd_where split: prod.splits if_splits)

section \<open>Sequences of requests\<close>

datatype limit_op = Login string "string option" clock | Reset "string option" clock | Prune moment

definition limit_step :: "(string \<Rightarrow> string) \<Rightarrow> limit_op \<Rightarrow> login_attempt list \<Rightarrow> charged \<times> login_attempt list" where
  "limit_step digest op rows =
     (case op of Login subject peer clk \<Rightarrow> charge_login digest clk subject peer rows
      | Reset peer clk \<Rightarrow> charge_address digest clk peer rows
      | Prune now \<Rightarrow> (Held 0, prune now rows))"

fun limit_run :: "(string \<Rightarrow> string) \<Rightarrow> limit_op list \<Rightarrow> login_attempt list \<Rightarrow> (limit_op \<times> charged) list" where
  "limit_run digest [] rows = []"
| "limit_run digest (op # ops) rows =
     (case limit_step digest op rows of (out, rows') \<Rightarrow> (op, out) # limit_run digest ops rows')"

text \<open>Every reading of the clock by an operation is before an instant.\<close>

definition op_before :: "moment \<Rightarrow> limit_op \<Rightarrow> bool" where
  "op_before e op \<longleftrightarrow> (case op of Login _ _ clk \<Rightarrow> clk 0 < e | Reset _ _ \<Rightarrow> True | Prune now \<Rightarrow> now \<le> e)"

text \<open>A sign-in attempt for this subject that was let through to the password check, or queued out.\<close>

definition let_through :: "string \<Rightarrow> (string \<Rightarrow> string) \<Rightarrow> limit_op \<times> charged \<Rightarrow> bool" where
  "let_through d digest e \<longleftrightarrow> (case e of (Login subject _ _, out) \<Rightarrow> digest subject = d \<and> (out = Busy \<or> (\<exists>w. out = Held w)) | _ \<Rightarrow> False)"

lemma reserve_other:
  assumes "reserve clk subject rows = Inr (w, rows')" "scope \<noteq> ''address''"
  shows "attempt_of scope d rows' = attempt_of scope d rows"
  using assms charge_other[of scope d "''address''" subject "clk 0" rows]
  by (auto simp: reserve_def bindR_Inr_iff Let_def attempt_of_upd option.map_ident split: prod.splits if_splits)

text \<open>What a sign-in does to the counter of one identifier during its window.\<close>

lemma login_counts:
  assumes "attempt_of ''identifier'' d rows = Some r" "clk 0 < la_expires_at r"
    and "charge_login digest clk subject peer rows = (out, rows')"
  shows "(out = Busy \<or> (\<exists>w. out = Held w)) \<and> digest subject = d \<longrightarrow> la_attempts r < IDENTIFIER_LIMIT"
    and "\<exists>r'. attempt_of ''identifier'' d rows' = Some r' \<and> la_expires_at r' = la_expires_at r
       \<and> la_attempts r \<le> la_attempts r' \<and> ((out = Busy \<or> (\<exists>w. out = Held w)) \<and> digest subject = d \<longrightarrow> la_attempts r' = la_attempts r + 1)"
proof -
  let ?rows1 = "snd (charge (clk 0) ''identifier'' (digest subject) rows)"
  have own: "attempt_of ''identifier'' d ?rows1
      = Some (if digest subject = d then r\<lparr>la_attempts := la_attempts r + 1\<rparr> else r)"
  proof (cases "digest subject = d")
    case True
    then show ?thesis using assms(1,2) charge_own[of "''identifier''" d "clk 0" rows] by (simp add: counted_def)
  next
    case False
    then show ?thesis using assms(1) charge_other[of "''identifier''" d "''identifier''" "digest subject"] by simp
  qed
  have later: "attempt_of ''identifier'' d rows' = attempt_of ''identifier'' d ?rows1 \<or> rows' = rows \<and> (\<exists>e. out = Crashed e)"
    using assms(3) reserve_other[of _ _ ?rows1 _ rows' "''identifier''" d]
    by (auto simp: charge_login_def split: prod.splits if_splits option.splits sum.splits)
  have "digest subject = d \<Longrightarrow> fst (fst (charge (clk 0) ''identifier'' (digest subject) rows)) = la_attempts r + 1"
    using own charge_result[of "clk 0" "''identifier''" d rows] by simp
  then show first: "(out = Busy \<or> (\<exists>w. out = Held w)) \<and> digest subject = d \<longrightarrow> la_attempts r < IDENTIFIER_LIMIT"
    using assms(3) by (auto simp: charge_login_def split: prod.splits if_splits option.splits sum.splits)
  show "\<exists>r'. attempt_of ''identifier'' d rows' = Some r' \<and> la_expires_at r' = la_expires_at r
       \<and> la_attempts r \<le> la_attempts r' \<and> ((out = Busy \<or> (\<exists>w. out = Held w)) \<and> digest subject = d \<longrightarrow> la_attempts r' = la_attempts r + 1)"
    using later own assms(1) by (elim disjE) (auto split: if_splits)
qed


lemma prune_keeps:
  assumes "one_row_each rows" "attempt_of scope d rows = Some r" "now \<le> la_expires_at r"
  shows "attempt_of scope d (prune now rows) = Some r"
proof -
  have "one_row_each (prune now rows)" using assms(1) by (simp add: one_row_each_def prune_def distinct_map_filter_del)
  moreover have "r \<in> set rows" "la_key r = (scope, d)" using assms(1,2) by (simp_all add: attempt_of_iff)
  ultimately show ?thesis using assms(3) by (simp add: attempt_of_iff prune_def set_del_where)
qed

lemma limit_step_one_row [inv_intros]:
  assumes "one_row_each rows" "limit_step digest op rows = (out, rows')"
  shows "one_row_each rows'"
proof (cases op)
  case (Login subject peer clk)
  let ?rows1 = "snd (charge (clk 0) ''identifier'' (digest subject) rows)"
  have "one_row_each ?rows1" using assms(1) by (rule charge_one_row)
  with assms Login show ?thesis
    using reserve_one_row[of ?rows1 "\<lambda>n. clk (n + 1)"]
    by (auto simp: limit_step_def charge_login_def split: prod.splits if_splits option.splits sum.splits)
next
  case (Reset peer clk)
  with assms reserve_one_row[OF assms(1)] show ?thesis
    by (auto simp: limit_step_def charge_address_def split: option.splits sum.splits)
next
  case (Prune now)
  with assms show ?thesis by (auto simp: limit_step_def prune_def one_row_each_def distinct_map_filter_del)
qed

lemma limit_step_counts:
  assumes "one_row_each rows" "attempt_of ''identifier'' d rows = Some r" "op_before (la_expires_at r) op"
    and "limit_step digest op rows = (out, rows')"
  shows "let_through d digest (op, out) \<longrightarrow> la_attempts r < IDENTIFIER_LIMIT"
    and "\<exists>r'. attempt_of ''identifier'' d rows' = Some r' \<and> la_expires_at r' = la_expires_at r \<and> la_attempts r \<le> la_attempts r'
       \<and> (let_through d digest (op, out) \<longrightarrow> la_attempts r' = la_attempts r + 1)"
proof -
  consider (login) subject peer clk where "op = Login subject peer clk" | (other) "\<forall>subject peer clk. op \<noteq> Login subject peer clk"
    by blast
  then have "(let_through d digest (op, out) \<longrightarrow> la_attempts r < IDENTIFIER_LIMIT)
    \<and> (\<exists>r'. attempt_of ''identifier'' d rows' = Some r' \<and> la_expires_at r' = la_expires_at r \<and> la_attempts r \<le> la_attempts r'
       \<and> (let_through d digest (op, out) \<longrightarrow> la_attempts r' = la_attempts r + 1))"
  proof cases
    case login
    with assms(3,4) have "clk 0 < la_expires_at r" "charge_login digest clk subject peer rows = (out, rows')"
      by (simp_all add: op_before_def limit_step_def)
    note counts = login_counts[OF assms(2) this]
    have "let_through d digest (op, out) \<longleftrightarrow> (out = Busy \<or> (\<exists>w. out = Held w)) \<and> digest subject = d"
      by (auto simp: login let_through_def)
    with counts show ?thesis by simp
  next
    case other
    have "attempt_of ''identifier'' d rows' = Some r"
    proof (cases op)
      case (Reset peer clk)
      with assms(2,4) reserve_other[of clk _ rows _ rows' "''identifier''" d] show ?thesis
        by (auto simp: limit_step_def charge_address_def split: option.splits sum.splits)
    next
      case (Prune now)
      with assms prune_keeps[OF assms(1,2), of now] show ?thesis by (simp add: limit_step_def op_before_def)
    qed (use other in blast)
    with other show ?thesis by (auto simp: let_through_def split: limit_op.splits)
  qed
  then show "let_through d digest (op, out) \<longrightarrow> la_attempts r < IDENTIFIER_LIMIT"
    "\<exists>r'. attempt_of ''identifier'' d rows' = Some r' \<and> la_expires_at r' = la_expires_at r \<and> la_attempts r \<le> la_attempts r'
       \<and> (let_through d digest (op, out) \<longrightarrow> la_attempts r' = la_attempts r + 1)"
    by blast+
qed

lemma spent_identifier:
  assumes "one_row_each rows" "attempt_of ''identifier'' d rows = Some q" "10 < la_attempts q"
    and "list_all (op_before (la_expires_at q)) ops"
  shows "filter (let_through d digest) (limit_run digest ops rows) = []"
  using assms
proof (induction ops arbitrary: rows q)
  case (Cons op ops)
  obtain out rows' where step: "limit_step digest op rows = (out, rows')" by fastforce
  have "op_before (la_expires_at q) op" using Cons.prems(4) by simp
  note c = limit_step_counts[OF Cons.prems(1,2) this step]
  obtain q' where "attempt_of ''identifier'' d rows' = Some q'" "la_expires_at q' = la_expires_at q" "la_attempts q \<le> la_attempts q'"
    using c(2) by blast
  with Cons.IH[of rows' q'] Cons.prems limit_step_one_row[OF Cons.prems(1) step] c(1) step show ?case
    by (auto simp: IDENTIFIER_LIMIT_def)
qed simp

text \<open>
  Property C35 (bounds). The ceiling of an identifier holds: until its window ends, whatever other
  sign-ins, resets and prunings happen and from whatever addresses, at most ten attempts in all get
  past the ceiling for it; every further one is refused.
\<close>

theorem identifier_ceiling_holds:
  assumes "one_row_each rows" "attempt_of ''identifier'' d rows = Some r" "la_attempts r \<le> 10"
    and "list_all (op_before (la_expires_at r)) ops"
  shows "la_attempts r + int (length (filter (let_through d digest) (limit_run digest ops rows))) \<le> 10"
  using assms
proof (induction ops arbitrary: rows r)
  case (Cons op ops)
  obtain out rows' where step: "limit_step digest op rows = (out, rows')" by fastforce
  have before: "op_before (la_expires_at r) op" using Cons.prems(4) by simp
  note counts = limit_step_counts[OF Cons.prems(1,2) before step]
  obtain r' where r': "attempt_of ''identifier'' d rows' = Some r'" "la_expires_at r' = la_expires_at r"
      "la_attempts r \<le> la_attempts r'" "let_through d digest (op, out) \<longrightarrow> la_attempts r' = la_attempts r + 1"
    using counts(2) by blast
  show ?case
  proof (cases "la_attempts r' \<le> 10")
    case True
    with Cons.IH[OF limit_step_one_row[OF Cons.prems(1) step] r'(1)] r'(2-) Cons.prems(4) step show ?thesis by auto
  next
    case False
    have "\<not> let_through d digest (op, out)" using False r'(4) counts(1) by (auto simp: IDENTIFIER_LIMIT_def)
    with spent_identifier[OF limit_step_one_row[OF Cons.prems(1) step] r'(1)] False Cons.prems(3,4) r'(2) step
    show ?thesis by simp
  qed
qed simp


section \<open>The queue of an address\<close>

lemma delay_bounds: "delay_for n = Inr d \<Longrightarrow> 0 \<le> d \<and> d \<le> MAX_DELAY"
  by (auto simp: delay_for_def MAX_DELAY_def split: if_splits)

lemma delay_capped:
  assumes "10 \<le> n" "n < 1030"
  shows "delay_for n = Inr MAX_DELAY"
proof -
  have "(2 :: int) ^ 4 \<le> 2 ^ nat (n - 6)" using assms by (intro power_increasing) simp_all
  with assms show ?thesis by (simp add: delay_for_def FREE_ATTEMPTS_def MAX_DELAY_def min_def)
qed

text \<open>
  The turns of one address are taken one after another: within a window a turn
  that is handed out is no more than thirty seconds away and lies at least the delay of its number
  after the turn handed out before it, eight seconds from the tenth attempt on; an attempt that would
  have to wait longer is turned away and leaves the queue where it is.
\<close>

theorem turns_are_spaced:
  assumes "attempt_of ''address'' a rows = Some r" "clk 0 < la_expires_at r"
    and "delay_for (la_attempts r + 1) = Inr delay" "reserve clk a rows = Inr (w, rows')"
  shows "\<exists>r'. attempt_of ''address'' a rows' = Some r' \<and> la_attempts r' = la_attempts r + 1
     \<and> (10 \<le> la_attempts r + 1 \<longrightarrow> delay = 8 * 1000000)
     \<and> (case w of
          Some waiting \<Rightarrow> la_not_before r' = Some (clk 1 + waiting) \<and> delay \<le> waiting \<and> waiting \<le> 30 * 1000000
            \<and> (\<forall>turn. la_not_before r = Some turn \<longrightarrow> turn + delay \<le> clk 1 + waiting)
        | None \<Rightarrow> la_not_before r' = la_not_before r
            \<and> (\<exists>turn. la_not_before r = Some turn \<and> clk 1 + 30 * 1000000 < turn + delay))"
proof -
  let ?c = "charge (clk 0) ''address'' a rows"
  have own: "attempt_of ''address'' a (snd ?c) = Some (r\<lparr>la_attempts := la_attempts r + 1\<rparr>)"
    using assms(1,2) charge_own[of "''address''" a "clk 0" rows] by (simp add: counted_def)
  have res: "fst ?c = (la_attempts r + 1, la_not_before r)" using charge_result[of "clk 0" "''address''" a rows] own by simp
  have d: "0 \<le> delay" "delay \<le> 8 * 1000000" using delay_bounds[OF assms(3)] by (simp_all add: MAX_DELAY_def)
  have "la_attempts r + 1 < 1030" using assms(3) by (auto simp: delay_for_def FREE_ATTEMPTS_def split: if_splits)
  then have cap: "10 \<le> la_attempts r + 1 \<longrightarrow> delay = 8 * 1000000"
    using delay_capped[of "la_attempts r + 1"] assms(3) by (auto simp: MAX_DELAY_def)
  obtain rows1 where c: "?c = ((la_attempts r + 1, la_not_before r), rows1)" using res by (cases ?c) auto
  then have own1: "attempt_of ''address'' a rows1 = Some (r\<lparr>la_attempts := la_attempts r + 1\<rparr>)" using own by simp
  show ?thesis
    using assms(4) d cap own1
    by (cases "la_not_before r") (auto simp: reserve_def c assms(3) Let_def MAX_QUEUE_def attempt_of_upd split: if_splits)
qed

text \<open>
  Property C36 (error). Beyond 1029 attempts in one window the delay is no longer computed: the power of
  two has no double. Every later sign-in from that address either meets a spent identifier or ends in an
  exception whose rollback keeps the counters, so the route stays broken for the whole address until its
  window runs out.
\<close>

theorem flooded_address_crashes:
  assumes "attempt_of ''address'' (digest host) rows = Some r" "clk 1 < la_expires_at r" "1029 \<le> la_attempts r"
  shows "fst (charge_login digest clk subject (Some host) rows) = Refused
     \<or> charge_login digest clk subject (Some host) rows = (Crashed Overflow, rows)"
proof -
  obtain n t rows1 where c: "charge (clk 0) ''identifier'' (digest subject) rows = ((n, t), rows1)" by (metis prod.collapse)
  have "attempt_of ''address'' (digest host) rows1 = Some r"
    using charge_other[of "''address''" "digest host" "''identifier''" "digest subject" "clk 0" rows] assms(1) c by simp
  then have "fst (fst (charge (clk 1) ''address'' (digest host) rows1)) = la_attempts r + 1"
    using charge_result[of "clk 1" "''address''" "digest host" rows1] charge_own[of "''address''" "digest host" "clk 1" rows1] assms(2)
    by (simp add: counted_def)
  moreover have "delay_for (la_attempts r + 1) = Inl Overflow" using assms(3) by (simp add: delay_for_def FREE_ATTEMPTS_def)
  ultimately have "reserve (\<lambda>n. clk (n + 1)) (digest host) rows1 = Inl Overflow"
    by (cases "charge (clk 1) ''address'' (digest host) rows1") (auto simp: reserve_def)
  with c show ?thesis by (simp add: charge_login_def)
qed

section \<open>Witnesses\<close>

definition demo_attempt_row :: "string \<Rightarrow> int \<Rightarrow> moment option \<Rightarrow> login_attempt" where
  "demo_attempt_row scope n turn = \<lparr>la_scope = scope, la_subject = ''a'', la_attempts = n, la_expires_at = WINDOW, la_not_before = turn\<rparr>"

theorem identifier_ceiling_holds_witness:
  "9 + int (length (filter (let_through ''a'' id)
     (limit_run id [Login ''a'' None (\<lambda>_. 1), Login ''a'' None (\<lambda>_. 2), Login ''a'' None (\<lambda>_. 3)]
       [demo_attempt_row ''identifier'' 9 None]))) \<le> 10"
  using identifier_ceiling_holds[of "[demo_attempt_row ''identifier'' 9 None]" "''a''" "demo_attempt_row ''identifier'' 9 None"
      "[Login ''a'' None (\<lambda>_. 1), Login ''a'' None (\<lambda>_. 2), Login ''a'' None (\<lambda>_. 3)]" id]
  by (simp add: demo_attempt_row_def one_row_each_def attempt_of_def la_key_def op_before_def WINDOW_def)

theorem turns_are_spaced_witness:
  "\<exists>r'. attempt_of ''address'' ''a'' [demo_attempt_row ''address'' 12 (Some 20000000)] = Some r' \<and> la_not_before r' = Some 20000000"
proof -
  let ?r = "demo_attempt_row ''address'' 11 (Some 12000000)"
  let ?r' = "demo_attempt_row ''address'' 12 (Some 20000000)"
  have "reserve (\<lambda>_. 1000000) ''a'' [?r] = Inr (Some 19000000, [?r'])" by code_simp
  moreover have "delay_for 12 = Inr 8000000" by code_simp
  ultimately show ?thesis
    using turns_are_spaced[of "''a''" "[?r]" ?r "\<lambda>_. 1000000" 8000000 "Some 19000000" "[?r']"]
    by (auto simp: demo_attempt_row_def attempt_of_def la_key_def WINDOW_def)
qed

theorem flooded_address_crashes_witness:
  "charge_login id (\<lambda>_. 1) ''u'' (Some ''a'') [demo_attempt_row ''address'' 1029 None]
     = (Crashed Overflow, [demo_attempt_row ''address'' 1029 None])"
proof -
  have "fst (charge_login id (\<lambda>_. 1) ''u'' (Some ''a'') [demo_attempt_row ''address'' 1029 None]) \<noteq> Refused" by code_simp
  then show ?thesis
    using flooded_address_crashes[of id "''a''" "[demo_attempt_row ''address'' 1029 None]" "demo_attempt_row ''address'' 1029 None"
        "\<lambda>_. 1" "''u''"]
    by (simp add: demo_attempt_row_def attempt_of_def la_key_def WINDOW_def)
qed

end
