(* ===== verification/Account_Tables.thy ===== *)
theory Account_Tables
  imports Command_Store
begin

text \<open>
  The account tables (\<open>src/backend/app/tables.py\<close>: \<open>User\<close>, \<open>AuthIdentity\<close>, \<open>Session\<close>,
  \<open>AuthToken\<close>, \<open>Invitation\<close>, \<open>AuthFactor\<close>, \<open>RecoveryCode\<close>, \<open>InstallationAuthState\<close>) beside the
  fleet tables, the exceptions of the account routes, the effects they have after their commit, and
  the statements the routes share. Every transaction takes the key of its account first
  (\<open>hold_the_account\<close>), so transactions of one account follow each other; a request that waits too
  long for the key is refused before it wrote anything and is not represented.
\<close>

section \<open>Rows\<close>

record account =
  u_id :: uuid
  u_email :: string
  u_mail_verified :: bool
  u_role :: string
  u_state :: string
  u_prior_state :: "string option"
  u_deletion_requested_at :: "moment option"

record auth_identity =
  ai_id :: uuid
  ai_user_id :: uuid
  ai_provider :: string
  ai_subject :: string
  ai_password_hash :: "string option"

record login_session =
  ls_id :: uuid
  ls_user_id :: uuid
  ls_token_hash :: string
  ls_remember_me :: bool
  ls_absolute_expires_at :: moment
  ls_idle_expires_at :: "moment option"
  ls_recent_auth_at :: "moment option"
  ls_revoked_at :: "moment option"
  ls_last_seen_at :: "moment option"

record auth_token =
  tk_id :: uuid
  tk_user_id :: "uuid option"
  tk_purpose :: string
  tk_token_hash :: string
  tk_attempts :: int
  tk_expires_at :: moment
  tk_consumed_at :: "moment option"

record invitation =
  iv_id :: uuid
  iv_email :: string
  iv_role :: string
  iv_invited_by :: "uuid option"
  iv_accepted_user_id :: "uuid option"
  iv_token_hash :: string
  iv_expires_at :: moment
  iv_accepted_at :: "moment option"
  iv_revoked_at :: "moment option"

record auth_factor =
  af_id :: uuid
  af_user_id :: uuid
  af_secret_ciphertext :: string
  af_key_version :: int
  af_last_step :: "int option"
  af_replace_attempts :: int
  af_confirmed_at :: "moment option"

record recovery_code =
  rv_id :: uuid
  rv_user_id :: uuid
  rv_code_hash :: string
  rv_consumed_at :: "moment option"

record account_db =
  ac_users :: "account list"
  ac_identities :: "auth_identity list"
  ac_logins :: "login_session list"
  ac_tokens :: "auth_token list"
  ac_invitations :: "invitation list"
  ac_factors :: "auth_factor list"
  ac_codes :: "recovery_code list"
  ac_mode :: "(string \<times> int option) option"
  ac_fleet :: fleet_db

text \<open>
  The primitives: SHA-256 of a token, \<open>str.strip\<close> and \<open>str.lower\<close> (and \<open>btrim\<close>, \<open>lower\<close> of SQL) on
  whole Unicode, Argon2id, the bundled blocklist and HMAC-SHA1 on a base32 secret (\<open>None\<close> when the
  secret is not base32).
\<close>

record account_prims =
  ap_sha256 :: "string \<Rightarrow> string"
  ap_strip :: "string \<Rightarrow> string"
  ap_lower :: "string \<Rightarrow> string"
  ap_btrim :: "string \<Rightarrow> string"
  ap_sql_lower :: "string \<Rightarrow> string"
  ap_argon_hash :: "string \<Rightarrow> string"
  ap_argon_verify :: "string \<Rightarrow> string \<Rightarrow> bool"
  ap_blocklist :: "string list"
  ap_hmac_sha1 :: "string \<Rightarrow> nat list \<Rightarrow> nat list option"
  ap_crypto :: crypto
  ap_ring :: "ring_error + key_ring"

definition normalized :: "account_prims \<Rightarrow> string \<Rightarrow> string" where
  "normalized P s = ap_lower P (ap_strip P s)"

definition sql_normalized :: "account_prims \<Rightarrow> string \<Rightarrow> string" where
  "sql_normalized P s = ap_sql_lower P (ap_btrim P s)"

section \<open>Results\<close>

datatype account_exn =
    HTTP int string
  | Runtime string
  | Lookup string
  | Integrity string
  | Wrong_phrase string
  | Bad_key string
  | Ring_error ring_error

type_synonym 'a atx = "account_exn + ('a \<times> account_db)"

definition committed :: "'a atx \<Rightarrow> account_db \<Rightarrow> account_db" where
  "committed r db = (case r of Inl _ \<Rightarrow> db | Inr (_, db') \<Rightarrow> db')"

lemma committed_simps [simp]: "committed (Inl e) db = db" "committed (Inr (v, db')) db = db'"
  by (simp_all add: committed_def)

text \<open>\<open>except e: raise g(e)\<close>.\<close>

definition rethrow :: "('e \<Rightarrow> 'f) \<Rightarrow> 'e + 'a \<Rightarrow> 'f + 'a" where
  "rethrow g r = (case r of Inl e \<Rightarrow> Inl (g e) | Inr v \<Rightarrow> Inr v)"

lemma rethrow_Inr [simp]: "rethrow g r = Inr v \<longleftrightarrow> r = Inr v"
  by (cases r) (simp_all add: rethrow_def)

lemma rethrow_simps [simp]: "rethrow g (Inr v) = Inr v" "rethrow g (Inl e) = Inl (g e)"
  by (simp_all add: rethrow_def)

text \<open>
  What a route does after its commit: it closes sockets (of a user, one session, all but one), asks
  for the cancellation of a job, writes an audit row, changes the mode the process serves, closes the
  sockets opened without an account; or, inside it, queues a mail (address, template, token).
\<close>

datatype account_effect =
    Close_sockets uuid "uuid option" "uuid option"
  | Cancel_job uuid string
  | Audit string "uuid option"
  | Mail string string string
  | Load_mode string
  | Close_none_mode_sockets

section \<open>Lookups and shared statements\<close>

definition user_of :: "uuid \<Rightarrow> account_db \<Rightarrow> account option" where
  "user_of i db = find (\<lambda>u. u_id u = i) (ac_users db)"

definition login_of :: "uuid \<Rightarrow> account_db \<Rightarrow> login_session option" where
  "login_of i db = find (\<lambda>s. ls_id s = i) (ac_logins db)"

definition set_user :: "uuid \<Rightarrow> (account \<Rightarrow> account) \<Rightarrow> account_db \<Rightarrow> account_db" where
  "set_user i f = ac_users_update (upd_where (\<lambda>u. u_id u = i) f)"

text \<open>\<open>UPDATE sessions SET revoked_at = now WHERE P AND revoked_at IS NULL\<close>.\<close>

definition revoke_where :: "moment \<Rightarrow> (login_session \<Rightarrow> bool) \<Rightarrow> account_db \<Rightarrow> account_db" where
  "revoke_where now P = ac_logins_update (upd_where (\<lambda>s. P s \<and> ls_revoked_at s = None) (\<lambda>s. s\<lparr>ls_revoked_at := Some now\<rparr>))"

text \<open>\<open>UPDATE auth_tokens SET consumed_at = now WHERE P AND consumed_at IS NULL\<close>.\<close>

definition spend_where :: "moment \<Rightarrow> (auth_token \<Rightarrow> bool) \<Rightarrow> account_db \<Rightarrow> account_db" where
  "spend_where now P = ac_tokens_update (upd_where (\<lambda>t. P t \<and> tk_consumed_at t = None) (\<lambda>t. t\<lparr>tk_consumed_at := Some now\<rparr>))"

definition mailed_link :: "uuid \<Rightarrow> auth_token \<Rightarrow> bool" where
  "mailed_link user t \<longleftrightarrow> tk_user_id t = Some user \<and> tk_purpose t \<in> {''reset'', ''recovery''}"

text \<open>The fleet tables with the users and sessions they read.\<close>

definition fleet_view :: "account_db \<Rightarrow> fleet_db" where
  "fleet_view db = (ac_fleet db)
     \<lparr>db_users := map (\<lambda>u. \<lparr>us_id = u_id u, us_role = u_role u, us_state = u_state u\<rparr>) (ac_users db),
      db_auth_sessions := map (\<lambda>s. \<lparr>se_id = ls_id s, se_user_id = ls_user_id s, se_revoked_at = ls_revoked_at s,
        se_idle_expires_at = ls_idle_expires_at s, se_absolute_expires_at = ls_absolute_expires_at s\<rparr>) (ac_logins db)\<rparr>"

definition erase_accounts :: "clock \<Rightarrow> uuid list \<Rightarrow> account_db \<Rightarrow> account_db" where
  "erase_accounts clk users db = db\<lparr>ac_fleet := snd (erase_account_commands clk users (fleet_view db))\<rparr>"

definition erase_realtime :: "clock \<Rightarrow> uuid \<Rightarrow> uuid list option \<Rightarrow> uuid option \<Rightarrow> account_db \<Rightarrow> account_db" where
  "erase_realtime clk user ids keep db =
     db\<lparr>ac_fleet := snd (erase_realtime_commands clk user ids keep (fleet_view db))\<rparr>"

text \<open>\<open>SELECT id FROM jobs WHERE user_id = ... AND state IN ('queued', 'running')\<close>.\<close>

definition unfinished_jobs :: "uuid \<Rightarrow> account_db \<Rightarrow> uuid list" where
  "unfinished_jobs user db =
     map jb_id (filter (\<lambda>j. jb_user_id j = user \<and> jb_state j \<in> {''queued'', ''running''}) (db_jobs (ac_fleet db)))"

section \<open>Inserts with their constraints\<close>

definition insert_user :: "account_prims \<Rightarrow> account \<Rightarrow> account_db \<Rightarrow> account_exn + account_db" where
  "insert_user P u db =
     (if exists_row (\<lambda>v. u_id v = u_id u \<or> u_email v = u_email u
           \<or> sql_normalized P (u_email v) = sql_normalized P (u_email u)) (ac_users db)
      then Inl (Integrity ''users'') else Inr (ac_users_update (\<lambda>us. us @ [u]) db))"

definition insert_identity :: "account_prims \<Rightarrow> auth_identity \<Rightarrow> account_db \<Rightarrow> account_exn + account_db" where
  "insert_identity P i db =
     (if exists_row (\<lambda>j. ai_id j = ai_id i \<or> (ai_provider j = ai_provider i \<and> ai_subject j = ai_subject i)
           \<or> (ai_provider j = ''password'' \<and> ai_provider i = ''password''
              \<and> (ai_user_id j = ai_user_id i \<or> sql_normalized P (ai_subject j) = sql_normalized P (ai_subject i))))
           (ac_identities db)
         \<or> user_of (ai_user_id i) db = None
      then Inl (Integrity ''auth_identities'') else Inr (ac_identities_update (\<lambda>is. is @ [i]) db))"

definition insert_login :: "login_session \<Rightarrow> account_db \<Rightarrow> account_exn + account_db" where
  "insert_login s db =
     (if exists_row (\<lambda>q. ls_id q = ls_id s \<or> ls_token_hash q = ls_token_hash s) (ac_logins db) \<or> user_of (ls_user_id s) db = None
      then Inl (Integrity ''sessions'') else Inr (ac_logins_update (\<lambda>ss. ss @ [s]) db))"

definition insert_token :: "auth_token \<Rightarrow> account_db \<Rightarrow> account_exn + account_db" where
  "insert_token t db =
     (if exists_row (\<lambda>q. tk_id q = tk_id t \<or> tk_token_hash q = tk_token_hash t) (ac_tokens db)
         \<or> (case tk_user_id t of None \<Rightarrow> False | Some u \<Rightarrow> user_of u db = None)
      then Inl (Integrity ''auth_tokens'') else Inr (ac_tokens_update (\<lambda>ts. ts @ [t]) db))"

definition insert_invitation :: "account_prims \<Rightarrow> invitation \<Rightarrow> account_db \<Rightarrow> account_exn + account_db" where
  "insert_invitation P i db =
     (if exists_row (\<lambda>j. iv_id j = iv_id i \<or> iv_token_hash j = iv_token_hash i
           \<or> (iv_accepted_at j = None \<and> iv_revoked_at j = None \<and> iv_accepted_at i = None \<and> iv_revoked_at i = None
              \<and> sql_normalized P (iv_email j) = sql_normalized P (iv_email i))) (ac_invitations db)
      then Inl (Integrity ''invitations'') else Inr (ac_invitations_update (\<lambda>is. is @ [i]) db))"

definition insert_factor :: "auth_factor \<Rightarrow> account_db \<Rightarrow> account_exn + account_db" where
  "insert_factor f db =
     (if exists_row (\<lambda>g. af_user_id g = af_user_id f) (ac_factors db) then Inl (Integrity ''auth_factors_one_per_kind'')
      else if exists_row (\<lambda>g. af_id g = af_id f) (ac_factors db) \<or> user_of (af_user_id f) db = None
      then Inl (Integrity ''auth_factors'')
      else Inr (ac_factors_update (\<lambda>fs. fs @ [f]) db))"

definition insert_code :: "recovery_code \<Rightarrow> account_db \<Rightarrow> account_exn + account_db" where
  "insert_code c db =
     (if exists_row (\<lambda>d. rv_id d = rv_id c \<or> (rv_user_id d = rv_user_id c \<and> rv_code_hash d = rv_code_hash c)) (ac_codes db)
      then Inl (Integrity ''recovery_codes'') else Inr (ac_codes_update (\<lambda>cs. cs @ [c]) db))"

text \<open>Deleting a user cascades to what it owns and leaves invitations and realtime sessions without it.\<close>

definition delete_user :: "uuid \<Rightarrow> account_db \<Rightarrow> account_db" where
  "delete_user user db =
     db\<lparr>ac_users := del_where (\<lambda>u. u_id u = user) (ac_users db),
        ac_identities := del_where (\<lambda>i. ai_user_id i = user) (ac_identities db),
        ac_logins := del_where (\<lambda>s. ls_user_id s = user) (ac_logins db),
        ac_tokens := del_where (\<lambda>t. tk_user_id t = Some user) (ac_tokens db),
        ac_factors := del_where (\<lambda>f. af_user_id f = user) (ac_factors db),
        ac_codes := del_where (\<lambda>c. rv_user_id c = user) (ac_codes db),
        ac_invitations := map (\<lambda>i. i\<lparr>iv_invited_by := (if iv_invited_by i = Some user then None else iv_invited_by i),
           iv_accepted_user_id := (if iv_accepted_user_id i = Some user then None else iv_accepted_user_id i)\<rparr>) (ac_invitations db),
        ac_fleet := db_sessions_update (upd_where (\<lambda>s. rs_user_id s = Some user) (\<lambda>s. s\<lparr>rs_user_id := None\<rparr>)) (ac_fleet db)\<rparr>"

end
