(* ===== verification/Login_Sessions.thy ===== *)
theory Login_Sessions
  imports Account_Tables
begin

text \<open>
  Browser sessions and the identity of a request: \<open>src/backend/app/sessions.py\<close>,
  \<open>src/backend/app/auth.py\<close>, \<open>src/backend/app/passwords.py\<close> and the address check of
  \<open>src/backend/app/enable.py\<close>. \<open>now\<close> is \<open>func.now()\<close> of the transaction where the statement uses it,
  \<open>clock\<close> the process clock \<open>_now()\<close>; random values are arguments.
\<close>

definition MINUTE :: moment where "MINUTE = 60 * 1000000"
definition HOUR :: moment where "HOUR = 60 * MINUTE"
definition DAY :: moment where "DAY = 24 * HOUR"

definition ABSOLUTE :: moment where "ABSOLUTE = 12 * HOUR"
definition REMEMBER_ABSOLUTE :: moment where "REMEMBER_ABSOLUTE = 30 * DAY"
definition REMEMBER_IDLE :: moment where "REMEMBER_IDLE = 7 * DAY"
definition ADMIN_IDLE :: moment where "ADMIN_IDLE = 30 * MINUTE"
definition RECENT_AUTH :: moment where "RECENT_AUTH = 30 * MINUTE"
definition TOUCH_INTERVAL :: moment where "TOUCH_INTERVAL = MINUTE"

lemmas spans = MINUTE_def HOUR_def DAY_def ABSOLUTE_def REMEMBER_ABSOLUTE_def REMEMBER_IDLE_def ADMIN_IDLE_def
  RECENT_AUTH_def TOUCH_INTERVAL_def

section \<open>Passwords and addresses\<close>

text \<open>\<open>len\<close> of a Python string: the UTF-8 bytes that do not continue a character.\<close>

definition py_len :: "string \<Rightarrow> nat" where
  "py_len s = length (filter (\<lambda>c. \<not> (128 \<le> (of_char c :: nat) \<and> (of_char c :: nat) < 192)) s)"

definition MIN_LENGTH :: nat where "MIN_LENGTH = 10"
definition MAX_LENGTH :: nat where "MAX_LENGTH = 128"

definition hash_password :: "account_prims \<Rightarrow> string \<Rightarrow> string option" where
  "hash_password P password =
     (let candidate = ap_strip P password in
      if py_len password > MAX_LENGTH \<or> \<not> (MIN_LENGTH \<le> py_len candidate \<and> py_len candidate \<le> MAX_LENGTH) then None
      else if ap_lower P candidate \<in> set (ap_blocklist P) then None
      else Some (ap_argon_hash P password))"

definition policy_hash :: "account_prims \<Rightarrow> string \<Rightarrow> account_exn + string" where
  "policy_hash P password =
     (case hash_password P password of None \<Rightarrow> Inl (HTTP 400 ''password does not meet the policy'') | Some h \<Rightarrow> Inr h)"

definition MAX_EMAIL_LENGTH :: nat where "MAX_EMAIL_LENGTH = 320"

definition NOT_IN_AN_ADDRESS :: string where
  "NOT_IN_AN_ADDRESS = [CHR '','', CHR '';'', CHR ''<'', CHR ''>'', CHR 0x22, CHR 0x5C, CHR '' '', CHR 0x09, CHR 0x0D, CHR 0x0A]"

definition checked_email :: "account_prims \<Rightarrow> string \<Rightarrow> account_exn + string" where
  "checked_email P email =
     (let address = ap_strip P email;
          local = takeWhile (\<lambda>c. c \<noteq> CHR ''@'') address;
          domain = drop (length local + 1) address in
      if length (filter (\<lambda>c. c = CHR ''@'') address) \<noteq> 1 \<or> local = [] \<or> domain = []
         \<or> py_len address > MAX_EMAIL_LENGTH \<or> list_ex (\<lambda>c. c \<in> set NOT_IN_AN_ADDRESS) address
      then Inl (HTTP 400 ''invalid email address'') else Inr address)"

section \<open>Minting and resolving\<close>

record fresh_session =
  fs_id :: uuid
  fs_token :: string
  fs_csrf :: string

record issued =
  is_token :: string
  is_csrf :: string
  is_max_age :: "int option"

definition issue :: "bool \<Rightarrow> fresh_session \<Rightarrow> issued" where
  "issue remembered f = \<lparr>is_token = fs_token f, is_csrf = fs_csrf f,
     is_max_age = (if remembered then Some (REMEMBER_ABSOLUTE div 1000000) else None)\<rparr>"

definition session_shape :: "string \<Rightarrow> bool \<Rightarrow> bool \<times> moment option" where
  "session_shape role remember_me =
     (if role = ''admin'' then (False, Some ADMIN_IDLE)
      else if remember_me then (True, Some REMEMBER_IDLE)
      else (False, None))"

definition mint_in ::
    "account_prims \<Rightarrow> moment \<Rightarrow> fresh_session \<Rightarrow> account \<Rightarrow> bool \<Rightarrow> bool \<Rightarrow> account_db \<Rightarrow> issued atx" where
  "mint_in P clock f user remember_me authenticated db =
     (let (remembered, idle) = session_shape (u_role user) remember_me in
      bindR (insert_login \<lparr>ls_id = fs_id f, ls_user_id = u_id user, ls_token_hash = ap_sha256 P (fs_token f),
          ls_remember_me = remembered, ls_absolute_expires_at = clock + (if remembered then REMEMBER_ABSOLUTE else ABSOLUTE),
          ls_idle_expires_at = map_option (\<lambda>d. clock + d) idle,
          ls_recent_auth_at = (if authenticated then Some clock else None),
          ls_revoked_at = None, ls_last_seen_at = None\<rparr> db) (\<lambda>db'.
        Inr (issue remembered f, db')))"

text \<open>\<open>mint\<close>: the same in a transaction of its own.\<close>

definition mint :: "account_prims \<Rightarrow> moment \<Rightarrow> fresh_session \<Rightarrow> account \<Rightarrow> bool \<Rightarrow> bool \<Rightarrow> account_db \<Rightarrow> issued atx" where
  "mint P clock f user remember_me authenticated db = mint_in P clock f user remember_me authenticated db"

definition expired :: "moment \<Rightarrow> login_session \<Rightarrow> bool" where
  "expired clock s \<longleftrightarrow> ls_absolute_expires_at s \<le> clock
     \<or> (case ls_idle_expires_at s of None \<Rightarrow> False | Some t \<Rightarrow> t \<le> clock)"

type_synonym resolved = "login_session \<times> account"

definition touched :: "moment \<Rightarrow> account \<Rightarrow> login_session \<Rightarrow> login_session" where
  "touched clock u s =
     (if (case ls_last_seen_at s of None \<Rightarrow> True | Some t \<Rightarrow> clock - t \<ge> TOUCH_INTERVAL) then
        s\<lparr>ls_idle_expires_at := map_option (\<lambda>_. clock + (if u_role u = ''admin'' then ADMIN_IDLE else REMEMBER_IDLE))
            (ls_idle_expires_at s),
          ls_last_seen_at := Some clock\<rparr>
      else s)"

definition resolve :: "account_prims \<Rightarrow> moment \<Rightarrow> string \<Rightarrow> account_db \<Rightarrow> resolved option \<times> account_db" where
  "resolve P clock token db =
     (case find (\<lambda>s. ls_token_hash s = ap_sha256 P token) (ac_logins db) of
        None \<Rightarrow> (None, db)
      | Some row \<Rightarrow>
        (case user_of (ls_user_id row) db of
           None \<Rightarrow> (None, db)
         | Some user \<Rightarrow>
             if ls_revoked_at row \<noteq> None \<or> expired clock row then (None, db)
             else (Some (touched clock user row, user),
                   ac_logins_update (upd_where (\<lambda>s. ls_id s = ls_id row) (touched clock user)) db)))"

definition is_live :: "moment \<Rightarrow> uuid \<Rightarrow> account_db \<Rightarrow> bool" where
  "is_live clock sid db =
     (case login_of sid db of None \<Rightarrow> False | Some s \<Rightarrow> ls_revoked_at s = None \<and> \<not> expired clock s)"

definition live_among :: "moment \<Rightarrow> uuid list \<Rightarrow> account_db \<Rightarrow> uuid list" where
  "live_among clock ids db =
     map ls_id (filter (\<lambda>s. ls_id s \<in> set ids \<and> ls_revoked_at s = None \<and> \<not> expired clock s) (ac_logins db))"

definition is_recent :: "moment \<Rightarrow> login_session \<Rightarrow> bool" where
  "is_recent clock s \<longleftrightarrow> (case ls_recent_auth_at s of None \<Rightarrow> False | Some t \<Rightarrow> t > clock - RECENT_AUTH)"

section \<open>Revoking and rotating\<close>

definition revoke_session_row :: "clock \<Rightarrow> moment \<Rightarrow> uuid \<Rightarrow> account_db \<Rightarrow> account_effect list atx" where
  "revoke_session_row clk clock sid db =
     (case login_of sid db of
        None \<Rightarrow> Inr ([], db)
      | Some s \<Rightarrow>
          let db1 = erase_realtime clk (ls_user_id s) (Some [sid]) None db;
              db2 = revoke_where clock (\<lambda>q. ls_id q = sid) db1
          in Inr ([Close_sockets (ls_user_id s) (Some sid) None], db2))"

definition revoke_all :: "clock \<Rightarrow> moment \<Rightarrow> uuid \<Rightarrow> account_db \<Rightarrow> account_effect list atx" where
  "revoke_all clk clock user db =
     Inr ([Close_sockets user None None],
          revoke_where clock (\<lambda>s. ls_user_id s = user) (erase_realtime clk user None None db))"

text \<open>\<open>rotate\<close>: revokes in one transaction, mints in the next; the rows in between are read again.\<close>

definition rotate_revoke :: "clock \<Rightarrow> moment \<Rightarrow> uuid \<Rightarrow> account \<Rightarrow> account_db \<Rightarrow> bool atx" where
  "rotate_revoke clk clock sid user db =
     (case such (\<lambda>s. ls_revoked_at s = None \<and> ls_user_id s = u_id user) (login_of sid db) of
        None \<Rightarrow> Inl (Runtime ''no live session to rotate'')
      | Some s \<Rightarrow> Inr (ls_remember_me s,
          revoke_where clock (\<lambda>q. ls_id q = sid) (erase_realtime clk (u_id user) (Some [sid]) None db)))"

text \<open>
  \<open>rotate_and_revoke_others\<close>: inside the caller's transaction, with the principal the request was
  resolved to earlier.
\<close>

definition rotate_and_revoke_others ::
    "account_prims \<Rightarrow> clock \<Rightarrow> moment \<Rightarrow> fresh_session \<Rightarrow> resolved \<Rightarrow> bool \<Rightarrow> account_db \<Rightarrow> issued atx" where
  "rotate_and_revoke_others P clk now f who spend_capabilities db =
     (let (session, user) = who;
          db1 = erase_realtime clk (u_id user) None (Some (ls_id session)) db;
          db2 = (if spend_capabilities then spend_where now (mailed_link (u_id user)) db1 else db1);
          db3 = revoke_where now (\<lambda>s. ls_user_id s = u_id user \<and> ls_id s \<noteq> ls_id session) db2;
          swaps = (\<lambda>s. ls_id s = ls_id session \<and> ls_token_hash s = ls_token_hash session \<and> ls_revoked_at s = None) in
      if \<not> exists_row swaps (ac_logins db3)
      then Inl (HTTP 409 ''this session changed while that was in flight'')
      else if exists_row (\<lambda>s. \<not> swaps s \<and> ls_token_hash s = ap_sha256 P (fs_token f)) (ac_logins db3)
      then Inl (Integrity ''sessions'')
      else Inr (issue (ls_remember_me session) f,
                ac_logins_update (upd_where swaps (\<lambda>s. s\<lparr>ls_token_hash := ap_sha256 P (fs_token f)\<rparr>)) db3))"

section \<open>The principal of a request\<close>

definition CANNOT_SIGN_IN :: "string list" where
  "CANNOT_SIGN_IN = [''disabled'', ''deletion_pending'', ''purging'']"

definition UNAUTHENTICATED :: account_exn where
  "UNAUTHENTICATED = HTTP 401 ''authentication required''"

definition SAFE_METHODS :: "string list" where
  "SAFE_METHODS = [''GET'', ''HEAD'', ''OPTIONS'']"

text \<open>
  The request: the bearer token when the authorization header carries one, the session cookie, the
  method, the template of its route, and what the check of origin and CSRF token raises.
\<close>

record http_request =
  hr_bearer :: "string option"
  hr_cookie :: "string option"
  hr_method :: string
  hr_path :: string
  hr_csrf_ok :: "account_exn option"

definition current_principal ::
    "account_prims \<Rightarrow> moment \<Rightarrow> http_request \<Rightarrow> account_db \<Rightarrow> (account_exn + resolved) \<times> account_db" where
  "current_principal P clock req db =
     (let finish = (\<lambda>(s, u). if u_state u \<in> set CANNOT_SIGN_IN then Inl UNAUTHENTICATED else Inr (s, u)) in
      case hr_bearer req of
        Some token \<Rightarrow>
          (case resolve P clock token db of (None, db') \<Rightarrow> (Inl UNAUTHENTICATED, db') | (Some r, db') \<Rightarrow> (finish r, db'))
      | None \<Rightarrow>
          (case hr_cookie req of
             None \<Rightarrow> (Inl UNAUTHENTICATED, db)
           | Some token \<Rightarrow>
               if token = [] then (Inl UNAUTHENTICATED, db)
               else (case resolve P clock token db of
                       (None, db') \<Rightarrow> (Inl UNAUTHENTICATED, db')
                     | (Some r, db') \<Rightarrow>
                         (if hr_method req \<in> set SAFE_METHODS then (finish r, db')
                          else case hr_csrf_ok req of Some e \<Rightarrow> (Inl e, db') | None \<Rightarrow> (finish r, db')))))"

text \<open>\<open>mode\<close> is the mode the process serves and \<open>local\<close> the id of the implicit user it holds.\<close>

definition current_user ::
    "account_prims \<Rightarrow> string \<Rightarrow> uuid option \<Rightarrow> moment \<Rightarrow> http_request \<Rightarrow> account_db \<Rightarrow> (account_exn + account) \<times> account_db" where
  "current_user P mode local clock req db =
     (if mode \<noteq> ''none'' then
        (case current_principal P clock req db of
           (Inl e, db') \<Rightarrow> (Inl e, db')
         | (Inr (s, u), db') \<Rightarrow>
             if u_state u = ''suspended'' \<and> hr_method req \<notin> set SAFE_METHODS
             then (Inl (HTTP 403 ''account suspended''), db') else (Inr u, db'))
      else
        (case local of
           None \<Rightarrow> (Inl (HTTP 503 ''database unavailable''), db)
         | Some i \<Rightarrow>
             (case user_of i db of None \<Rightarrow> (Inl (HTTP 503 ''local user missing''), db) | Some u \<Rightarrow> (Inr u, db))))"

definition role_rank :: "string \<Rightarrow> int" where
  "role_rank role = (if role = ''viewer'' then 0 else if role = ''user'' then 1 else if role = ''admin'' then 2 else -1)"

text \<open>Unsafe work of an administrator, and the attempt of somebody else at it, is audited.\<close>

definition require_role ::
    "account_prims \<Rightarrow> string \<Rightarrow> uuid option \<Rightarrow> moment \<Rightarrow> string \<Rightarrow> http_request \<Rightarrow> account_db \<Rightarrow>
     (account_exn + account) \<times> account_effect list \<times> account_db" where
  "require_role P mode local clock minimum req db =
     (let required = (if minimum = ''member'' then ''user'' else minimum);
          audit = (if required = ''admin'' \<and> hr_method req \<notin> set SAFE_METHODS
                   then [Audit (hr_method req @ '' '' @ hr_path req) None] else []) in
      case current_user P mode local clock req db of
        (Inl e, db') \<Rightarrow> (Inl e, [], db')
      | (Inr u, db') \<Rightarrow>
          if role_rank (u_role u) < role_rank required then (Inl (HTTP 403 ''insufficient role''), audit, db')
          else (Inr u, audit, db'))"

definition recent_principal :: "moment \<Rightarrow> resolved \<Rightarrow> account_exn + resolved" where
  "recent_principal clock p =
     raise_if (\<not> is_recent clock (fst p)) (HTTP 403 ''recent authentication required'')
    (raise_if (u_state (snd p) \<noteq> ''active'') (HTTP 403 ''account suspended'') (Inr p))"

end
