(* ===== verification/Accounts.thy ===== *)
theory Accounts
  imports Login_Sessions
begin

text \<open>
  The life of an account: roles (\<open>src/backend/app/roles.py\<close>), states (\<open>states.py\<close>), deletion
  (\<open>deletion.py\<close>), the way back in (\<open>recovery.py\<close>), changes of its credentials
  (\<open>credentials.py\<close>), invitations (\<open>invitations.py\<close>) and the password check of a sign-in
  (\<open>accounts.py\<close>). A definition is one transaction, with what its route does after the commit as a
  list of effects; what a route read in an earlier transaction is an argument.
\<close>

section \<open>Roles\<close>

definition ROLES :: "string list" where "ROLES = [''viewer'', ''user'', ''admin'']"

definition active_admin :: "account \<Rightarrow> bool" where
  "active_admin u \<longleftrightarrow> u_role u = ''admin'' \<and> u_state u = ''active''"

definition remaining_administrators :: "uuid \<Rightarrow> account_db \<Rightarrow> nat" where
  "remaining_administrators excluding db = length (filter (\<lambda>u. active_admin u \<and> u_id u \<noteq> excluding) (ac_users db))"

definition end_of_account_access :: "moment \<Rightarrow> uuid \<Rightarrow> account_db \<Rightarrow> account_db" where
  "end_of_account_access now user db =
     revoke_where now (\<lambda>s. ls_user_id s = user) (spend_where now (mailed_link user) db)"

definition change_role ::
    "clock \<Rightarrow> moment \<Rightarrow> moment \<Rightarrow> uuid \<Rightarrow> string \<Rightarrow> bool \<Rightarrow> resolved \<Rightarrow> account_db \<Rightarrow> account_effect list atx" where
  "change_role clk now clock user role attested who db =
     raise_if (role \<notin> set ROLES) (HTTP 422 ''role'')
    (raise_if (user = u_id (snd who)) (HTTP 403 ''an administrator cannot change their own role'')
    (case user_of user db of
       None \<Rightarrow> Inl (HTTP 404 ''Not Found'')
     | Some target \<Rightarrow>
         raise_if (role = ''admin'' \<and> \<not> is_recent clock (fst who)) (HTTP 403 ''recent authentication required'')
        (raise_if (role = ''admin'' \<and> \<not> u_mail_verified target \<and> \<not> attested)
           (HTTP 409 ''this address is unverified; attest to promote it'')
        (raise_if (role \<noteq> ''admin'' \<and> u_role target = ''admin'' \<and> remaining_administrators user db = 0)
           (HTTP 403 ''the last administrator cannot be demoted'')
        (Inr ([Close_sockets user None None, Audit ''user.role'' (Some user)],
              end_of_account_access now user
                (set_user user (\<lambda>u. u\<lparr>u_role := role\<rparr>) (erase_realtime clk user None None db))))))))"

section \<open>States\<close>

definition ACCOUNT_STATES :: "string list" where
  "ACCOUNT_STATES = [''active'', ''suspended'', ''disabled'', ''deletion_pending'', ''purging'']"

definition TRANSITIONS :: "(string \<times> string list) list" where
  "TRANSITIONS =
     [(''active'', [''suspended'', ''disabled'', ''deletion_pending'']),
      (''suspended'', [''active'', ''disabled'', ''deletion_pending'']),
      (''disabled'', [''active'', ''deletion_pending'']),
      (''deletion_pending'', []),
      (''purging'', [])]"

definition STATE_REQUESTS :: "string list" where
  "STATE_REQUESTS = [''active'', ''suspended'', ''disabled'', ''deletion_pending'']"

definition change_state ::
    "clock \<Rightarrow> moment \<Rightarrow> uuid \<Rightarrow> string \<Rightarrow> account \<Rightarrow> account_db \<Rightarrow> account_effect list atx" where
  "change_state clk now user state actor db =
     raise_if (state \<notin> set STATE_REQUESTS) (HTTP 422 ''state'')
    (raise_if (user = u_id actor) (HTTP 403 ''an administrator cannot change their own state'')
    (case user_of user db of
       None \<Rightarrow> Inl (HTTP 404 ''Not Found'')
     | Some target \<Rightarrow>
         if u_state target = state then Inr ([], db)
         else (case map_of TRANSITIONS (u_state target) of
             None \<Rightarrow> Inl (Bad_key (u_state target))
           | Some allowed \<Rightarrow>
               raise_if (state \<notin> set allowed) (HTTP 409 (''an account cannot go from '' @ u_state target @ '' to '' @ state))
              (raise_if (state \<noteq> ''active'' \<and> u_role target = ''admin'' \<and> remaining_administrators user db = 0)
                 (HTTP 403 ''the last administrator cannot be suspended'')
              (if state = ''active''
               then Inr ([Audit ''account.state'' (Some user)], set_user user (\<lambda>u. u\<lparr>u_state := state\<rparr>) db)
               else let db1 = erase_accounts clk [user] db;
                        db2 = end_of_account_access now user (set_user user (\<lambda>u. u\<lparr>u_state := state\<rparr>) db1)
                    in Inr (Close_sockets user None None # map (\<lambda>j. Cancel_job j ''account suspended'') (unfinished_jobs user db2)
                              @ [Audit ''account.state'' (Some user)], db2))))))"

section \<open>Deletion\<close>

definition RESTORE_WINDOW :: moment where "RESTORE_WINDOW = 30 * DAY"
definition PURGE_BATCH :: nat where "PURGE_BATCH = 20"

definition leaving :: "moment \<Rightarrow> account \<Rightarrow> account" where
  "leaving now u = u\<lparr>u_prior_state := Some (u_state u), u_state := ''deletion_pending'', u_deletion_requested_at := Some now\<rparr>"

definition request_deletion :: "clock \<Rightarrow> moment \<Rightarrow> uuid \<Rightarrow> account_db \<Rightarrow> bool \<times> account_db" where
  "request_deletion clk now user db =
     (let stays = (\<lambda>u. u_id u = user \<and> u_state u \<noteq> ''deletion_pending'' \<and> u_state u \<noteq> ''purging'') in
      if \<not> exists_row stays (ac_users db) then (False, db)
      else let db1 = ac_users_update (upd_where stays (leaving now)) db;
               db2 = erase_accounts clk [user] db1;
               db3 = spend_where now (\<lambda>t. tk_user_id t = Some user) db2
           in (True, revoke_where now (\<lambda>s. ls_user_id s = user) db3))"

definition delete_account :: "clock \<Rightarrow> moment \<Rightarrow> resolved \<Rightarrow> account_db \<Rightarrow> account_effect list \<times> account_db" where
  "delete_account clk now who db =
     (let user = u_id (snd who); (asked, db') = request_deletion clk now user db in
      (if asked then Close_sockets user None None # map (\<lambda>j. Cancel_job j ''account deleted'') (unfinished_jobs user db')
          @ [Audit ''account.deletion'' (Some user)] else [], db'))"

definition restored :: "account \<Rightarrow> account" where
  "restored u = u\<lparr>u_state := (case u_prior_state u of None \<Rightarrow> ''active'' | Some s \<Rightarrow> if s = [] then ''active'' else s),
     u_prior_state := None\<rparr>"

definition restore :: "moment \<Rightarrow> uuid \<Rightarrow> account_db \<Rightarrow> account_effect list atx" where
  "restore clock user db =
     (case user_of user db of
        None \<Rightarrow> Inl (HTTP 404 ''Not Found'')
      | Some target \<Rightarrow>
          raise_if (u_state target = ''deletion_pending''
              \<and> (case u_deletion_requested_at target of None \<Rightarrow> False | Some t \<Rightarrow> t < clock - RESTORE_WINDOW))
            (HTTP 409 ''that account passed its 30 day restore window'')
         (raise_if (u_state target = ''purging'') (HTTP 409 ''that account is already being deleted'')
         (if u_state target \<noteq> ''deletion_pending''
          then raise_if (u_deletion_requested_at target = None) (HTTP 409 ''that account is not waiting to be deleted'')
                 (Inr ([], db))
          else Inr ([Audit ''account.restore'' (Some user)], set_user user restored db))))"

definition purgeable :: "moment \<Rightarrow> account \<Rightarrow> bool" where
  "purgeable cutoff u \<longleftrightarrow> u_state u \<in> {''deletion_pending'', ''purging''}
     \<and> (case u_deletion_requested_at u of None \<Rightarrow> False | Some t \<Rightarrow> t < cutoff)"

text \<open>The accounts one pass of \<open>purge_due\<close> takes up, oldest request first.\<close>

definition purge_due :: "moment \<Rightarrow> account_db \<Rightarrow> uuid list" where
  "purge_due clock db =
     map u_id (take PURGE_BATCH (sort_key (\<lambda>u. the (u_deletion_requested_at u))
       (filter (purgeable (clock - RESTORE_WINDOW)) (ac_users db))))"

definition purge_claim :: "clock \<Rightarrow> moment \<Rightarrow> uuid \<Rightarrow> account_db \<Rightarrow> bool \<times> account_db" where
  "purge_claim clk cutoff user db =
     (let due = (\<lambda>u. u_id u = user \<and> purgeable cutoff u) in
      if \<not> exists_row due (ac_users db) then (False, db)
      else (True, erase_accounts clk [user] (ac_users_update (upd_where due (\<lambda>u. u\<lparr>u_state := ''purging''\<rparr>)) db)))"

text \<open>The last transaction of \<open>_purge\<close>: assets, jobs, then the user; a job made from a deleted asset forgets it.\<close>

definition purge_finish :: "clock \<Rightarrow> uuid \<Rightarrow> account_db \<Rightarrow> account_db" where
  "purge_finish clk user db =
     (let db1 = erase_accounts clk [user] db;
          gone = map as_id (filter (\<lambda>a. as_user_id a = user) (db_assets (ac_fleet db1)));
          db2 = ac_fleet_update (\<lambda>f. f
            \<lparr>db_assets := del_where (\<lambda>a. as_user_id a = user) (db_assets f),
             db_jobs := del_where (\<lambda>j. jb_user_id j = user)
               (upd_where (\<lambda>j. jb_source_asset_id j \<in> Some ` set gone) (\<lambda>j. j\<lparr>jb_source_asset_id := None\<rparr>) (db_jobs f))\<rparr>) db1
      in delete_user user db2)"

section \<open>The way back in\<close>

definition RESET_TTL :: moment where "RESET_TTL = 30 * MINUTE"
definition ADMIN_RECOVERY_TTL :: moment where "ADMIN_RECOVERY_TTL = 10 * MINUTE"
definition RESET_PURPOSES :: "string list" where "RESET_PURPOSES = [''reset'', ''recovery'']"

record fresh_token =
  ft_id :: uuid
  ft_token :: string

definition mint_link ::
    "account_prims \<Rightarrow> moment \<Rightarrow> fresh_token \<Rightarrow> uuid \<Rightarrow> string \<Rightarrow> moment \<Rightarrow> account_db \<Rightarrow> string atx" where
  "mint_link P clock f user purpose ttl db =
     bindR (insert_token \<lparr>tk_id = ft_id f, tk_user_id = Some user, tk_purpose = purpose, tk_token_hash = ap_sha256 P (ft_token f),
        tk_attempts = 0, tk_expires_at = clock + ttl, tk_consumed_at = None\<rparr> db) (\<lambda>db'. Inr (ft_token f, db'))"

definition active_account :: "account_prims \<Rightarrow> string \<Rightarrow> account_db \<Rightarrow> account option" where
  "active_account P email db =
     find (\<lambda>u. sql_normalized P (u_email u) = normalized P email \<and> u_state u = ''active'') (ac_users db)"

definition mint_reset :: "account_prims \<Rightarrow> moment \<Rightarrow> fresh_token \<Rightarrow> string \<Rightarrow> account_db \<Rightarrow> string atx" where
  "mint_reset P clock f email db =
     (case active_account P email db of
        None \<Rightarrow> Inl (Lookup (''no active account holds '' @ email))
      | Some u \<Rightarrow> mint_link P clock f (u_id u) ''reset'' RESET_TTL db)"

definition mint_admin_recovery :: "account_prims \<Rightarrow> moment \<Rightarrow> fresh_token \<Rightarrow> string \<Rightarrow> account_db \<Rightarrow> string atx" where
  "mint_admin_recovery P clock f email db =
     (case such (\<lambda>u. u_role u = ''admin'') (active_account P email db) of
        None \<Rightarrow> Inl (Lookup email)
      | Some u \<Rightarrow> mint_link P clock f (u_id u) ''recovery'' ADMIN_RECOVERY_TTL db)"

text \<open>
  \<open>_deliver_reset\<close> holds no account key, so what it read of the account may have changed when it
  writes: \<open>read\<close> is the row it read. Every exception is logged and swallowed.
\<close>

definition deliver_reset :: "account_prims \<Rightarrow> moment \<Rightarrow> fresh_token \<Rightarrow> account option \<Rightarrow> account_db \<Rightarrow> account_effect list \<times> account_db" where
  "deliver_reset P clock f read db =
     (case such (\<lambda>u. u_role u \<noteq> ''admin'') read of
        None \<Rightarrow> ([], db)
      | Some u \<Rightarrow>
          (case mint_link P clock f (u_id u) ''reset'' RESET_TTL db of
             Inl _ \<Rightarrow> ([], db)
           | Inr (token, db') \<Rightarrow> ([Mail (u_email u) ''reset'' token], db')))"

definition usable_reset :: "account_prims \<Rightarrow> moment \<Rightarrow> string \<Rightarrow> auth_token \<Rightarrow> bool" where
  "usable_reset P now token t \<longleftrightarrow> tk_token_hash t = ap_sha256 P token \<and> tk_purpose t \<in> set RESET_PURPOSES
     \<and> tk_consumed_at t = None \<and> tk_expires_at t > now"

text \<open>\<open>UPDATE auth_identities SET password_hash\<close>, or a new password identity under the account's address.\<close>

definition put_password :: "account_prims \<Rightarrow> uuid \<Rightarrow> uuid \<Rightarrow> string \<Rightarrow> account_db \<Rightarrow> account_exn + account_db" where
  "put_password P fresh_id user h db =
     (let mine = (\<lambda>i. ai_user_id i = user \<and> ai_provider i = ''password'') in
      if exists_row mine (ac_identities db)
      then Inr (ac_identities_update (upd_where mine (\<lambda>i. i\<lparr>ai_password_hash := Some h\<rparr>)) db)
      else case user_of user db of
             None \<Rightarrow> Inl (Lookup ''no row'')
           | Some u \<Rightarrow> insert_identity P \<lparr>ai_id = fresh_id, ai_user_id = user, ai_provider = ''password'',
               ai_subject = normalized P (u_email u), ai_password_hash = Some h\<rparr> db)"

definition complete_reset ::
    "account_prims \<Rightarrow> clock \<Rightarrow> moment \<Rightarrow> uuid \<Rightarrow> string \<Rightarrow> string \<Rightarrow> account_db \<Rightarrow> account_effect list atx" where
  "complete_reset P clk now fresh_id token password db =
     (case find (usable_reset P now token) (ac_tokens db) of
        None \<Rightarrow> Inl (HTTP 403 ''invalid or expired reset link'')
      | Some t \<Rightarrow>
        (case tk_user_id t of
           None \<Rightarrow> Inl (HTTP 403 ''invalid or expired reset link'')
         | Some user \<Rightarrow>
             let db1 = erase_accounts clk [user] (spend_where now (usable_reset P now token) db) in
             bindR (policy_hash P password) (\<lambda>h.
             bindR (put_password P fresh_id user h db1) (\<lambda>db2.
               Inr ([Close_sockets user None None], revoke_where now (\<lambda>s. ls_user_id s = user) db2)))))"

section \<open>Credentials\<close>

definition password_identity :: "uuid \<Rightarrow> account_db \<Rightarrow> auth_identity option" where
  "password_identity user db = find (\<lambda>i. ai_user_id i = user \<and> ai_provider i = ''password'') (ac_identities db)"

text \<open>The account's first password goes under its address; a later one replaces the hash.\<close>

definition store_password ::
    "account_prims \<Rightarrow> uuid \<Rightarrow> uuid \<Rightarrow> auth_identity option \<Rightarrow> string \<Rightarrow> account_db \<Rightarrow> account_exn + account_db" where
  "store_password P fresh_id user existing h db =
     (case existing of
        Some e \<Rightarrow> Inr (ac_identities_update (upd_where (\<lambda>i. ai_id i = ai_id e) (\<lambda>i. i\<lparr>ai_password_hash := Some h\<rparr>)) db)
      | None \<Rightarrow>
        (case user_of user db of
           None \<Rightarrow> Inl (Lookup ''no row'')
         | Some u \<Rightarrow> rethrow (\<lambda>_. HTTP 409 ''this account already has a password'')
             (insert_identity P \<lparr>ai_id = fresh_id, ai_user_id = user, ai_provider = ''password'',
                ai_subject = normalized P (u_email u), ai_password_hash = Some h\<rparr> db)))"

definition current_password_wrong :: "account_prims \<Rightarrow> auth_identity option \<Rightarrow> string option \<Rightarrow> bool" where
  "current_password_wrong P existing current =
     (case existing of None \<Rightarrow> False
      | Some e \<Rightarrow> (case current of None \<Rightarrow> True
          | Some c \<Rightarrow> \<not> ap_argon_verify P (case ai_password_hash e of None \<Rightarrow> [] | Some h \<Rightarrow> h) c))"

definition change_password ::
    "account_prims \<Rightarrow> clock \<Rightarrow> moment \<Rightarrow> moment \<Rightarrow> uuid \<Rightarrow> fresh_session \<Rightarrow> resolved \<Rightarrow> string \<Rightarrow> string option \<Rightarrow>
     account_db \<Rightarrow> (issued \<times> account_effect list) atx" where
  "change_password P clk now clock fresh_id f who password current db =
     bindR (recent_principal clock who) (\<lambda>_.
     let user = u_id (snd who); existing = password_identity user db in
     raise_if (current_password_wrong P existing current) (HTTP 403 ''the current password is required'')
    (bindR (policy_hash P password) (\<lambda>h.
     bindR (store_password P fresh_id user existing h db) (\<lambda>db1.
     bindR (rotate_and_revoke_others P clk now f who True db1) (\<lambda>(issued, db2).
       Inr ((issued, [Close_sockets user None (Some (ls_id (fst who)))]), db2))))))"

definition ADDRESS_TAKEN :: account_exn where "ADDRESS_TAKEN = HTTP 409 ''that address is already in use''"

text \<open>The unique indexes on \<open>users.email\<close> and on the subject of a password identity.\<close>

definition put_address :: "account_prims \<Rightarrow> uuid \<Rightarrow> string \<Rightarrow> account_db \<Rightarrow> account_exn + account_db" where
  "put_address P user address db =
     (let subject = ap_lower P address; mine = (\<lambda>i. ai_user_id i = user \<and> ai_provider i = ''password'') in
      if exists_row (\<lambda>u. u_id u \<noteq> user \<and> (u_email u = address \<or> sql_normalized P (u_email u) = sql_normalized P address)) (ac_users db)
      then Inl ADDRESS_TAKEN
      else if exists_row mine (ac_identities db) \<and> exists_row (\<lambda>i. \<not> mine i \<and> ai_provider i = ''password''
                \<and> (ai_subject i = subject \<or> sql_normalized P (ai_subject i) = sql_normalized P subject)) (ac_identities db)
      then Inl ADDRESS_TAKEN
      else Inr (ac_identities_update (upd_where mine (\<lambda>i. i\<lparr>ai_subject := subject\<rparr>))
             (set_user user (\<lambda>u. u\<lparr>u_email := address, u_mail_verified := False\<rparr>) db)))"

definition change_email ::
    "account_prims \<Rightarrow> clock \<Rightarrow> moment \<Rightarrow> moment \<Rightarrow> fresh_session \<Rightarrow> resolved \<Rightarrow> string \<Rightarrow>
     account_db \<Rightarrow> (issued option \<times> account_effect list) atx" where
  "change_email P clk now clock f who email db =
     bindR (recent_principal clock who) (\<lambda>_.
     bindR (checked_email P email) (\<lambda>address.
     let user = u_id (snd who) in
     (case user_of user db of
        None \<Rightarrow> Inl (Lookup ''no row'')
      | Some u \<Rightarrow>
          if normalized P address = normalized P (u_email u) then Inr ((None, []), db)
          else raise_if (exists_row (\<lambda>v. sql_normalized P (u_email v) = ap_lower P address \<and> u_id v \<noteq> user) (ac_users db)) ADDRESS_TAKEN
           (bindR (put_address P user address db) (\<lambda>db1.
            bindR (rethrow (\<lambda>e. case e of Integrity _ \<Rightarrow> ADDRESS_TAKEN | _ \<Rightarrow> e)
              (rotate_and_revoke_others P clk now f who True db1)) (\<lambda>(issued, db2).
            Inr ((Some issued, [Close_sockets user None (Some (ls_id (fst who)))]), db2)))))))"

definition UNLINKABLE :: "string list" where "UNLINKABLE = [''google'', ''github'']"

definition unlink_identity ::
    "account_prims \<Rightarrow> clock \<Rightarrow> moment \<Rightarrow> moment \<Rightarrow> fresh_session \<Rightarrow> resolved \<Rightarrow> string \<Rightarrow>
     account_db \<Rightarrow> (issued \<times> account_effect list) atx" where
  "unlink_identity P clk now clock f who provider db =
     bindR (recent_principal clock who) (\<lambda>_.
     raise_if (provider \<notin> set UNLINKABLE) (HTTP 404 ''Not Found'')
    (let user = u_id (snd who); held = filter (\<lambda>i. ai_user_id i = user) (ac_identities db) in
     case find (\<lambda>i. ai_provider i = provider) held of
       None \<Rightarrow> Inl (HTTP 404 ''Not Found'')
     | Some linked \<Rightarrow>
         raise_if (length held = 1) (HTTP 409 ''that is the only way in'')
        (bindR (rotate_and_revoke_others P clk now f who True
            (ac_identities_update (del_where (\<lambda>i. ai_id i = ai_id linked)) db)) (\<lambda>(issued, db2).
          Inr ((issued, [Close_sockets user None (Some (ls_id (fst who)))]), db2)))))"

section \<open>Invitations\<close>

definition INVITATION_TTL :: moment where "INVITATION_TTL = 72 * HOUR"

definition open_invitation :: "invitation \<Rightarrow> bool" where
  "open_invitation i \<longleftrightarrow> iv_accepted_at i = None \<and> iv_revoked_at i = None"

definition invite ::
    "account_prims \<Rightarrow> moment \<Rightarrow> fresh_token \<Rightarrow> resolved \<Rightarrow> string \<Rightarrow> string \<Rightarrow> account_db \<Rightarrow> account_effect list atx" where
  "invite P clock f who email role db =
     raise_if (role \<notin> set ROLES) (HTTP 422 ''role'')
    (raise_if (role = ''admin'' \<and> \<not> is_recent clock (fst who)) (HTTP 403 ''recent authentication required'')
    (bindR (checked_email P email) (\<lambda>address.
     let nrm = ap_lower P address in
     raise_if (exists_row (\<lambda>u. sql_normalized P (u_email u) = nrm) (ac_users db)) (HTTP 409 ''that address already has an account'')
    (raise_if (exists_row (\<lambda>i. sql_normalized P (iv_email i) = nrm \<and> open_invitation i) (ac_invitations db))
       (HTTP 409 ''that address already has an open invitation'')
    (bindR (insert_invitation P \<lparr>iv_id = ft_id f, iv_email = address, iv_role = role, iv_invited_by = Some (u_id (snd who)),
         iv_accepted_user_id = None, iv_token_hash = ap_sha256 P (ft_token f), iv_expires_at = clock + INVITATION_TTL,
         iv_accepted_at = None, iv_revoked_at = None\<rparr> db) (\<lambda>db'.
       Inr ([Mail address ''invitation'' (ft_token f), Audit ''invitation.created'' None], db')))))))"

definition revoke_invitation :: "moment \<Rightarrow> uuid \<Rightarrow> account_db \<Rightarrow> account_effect list atx" where
  "revoke_invitation now iid db =
     (let hit = (\<lambda>i. iv_id i = iid \<and> open_invitation i) in
      raise_if (\<not> exists_row hit (ac_invitations db)) (HTTP 404 ''Not Found'')
       (Inr ([Audit ''invitation.revoked'' None],
             ac_invitations_update (upd_where hit (\<lambda>i. i\<lparr>iv_revoked_at := Some now\<rparr>)) db)))"

definition reveal :: "account_prims \<Rightarrow> string \<Rightarrow> uuid \<Rightarrow> account_db \<Rightarrow> (string \<times> account_effect list) atx" where
  "reveal P token iid db =
     (let hit = (\<lambda>i. iv_id i = iid \<and> open_invitation i) in
      raise_if (\<not> exists_row hit (ac_invitations db)) (HTTP 404 ''Not Found'')
     (raise_if (exists_row (\<lambda>i. \<not> hit i \<and> iv_token_hash i = ap_sha256 P token) (ac_invitations db)) (Integrity ''invitations'')
       (Inr ((token, [Audit ''invitation.revealed'' None]), ac_invitations_update (upd_where hit (\<lambda>i. i\<lparr>iv_token_hash := ap_sha256 P token\<rparr>)) db))))"

definition claimable :: "account_prims \<Rightarrow> moment \<Rightarrow> string \<Rightarrow> invitation \<Rightarrow> bool" where
  "claimable P now token i \<longleftrightarrow> iv_token_hash i = ap_sha256 P token \<and> open_invitation i \<and> iv_expires_at i > now"

text \<open>The first transaction of \<open>register\<close>; the session is minted in one of its own.\<close>

definition register ::
    "account_prims \<Rightarrow> moment \<Rightarrow> uuid \<Rightarrow> uuid \<Rightarrow> string \<Rightarrow> string \<Rightarrow> account_db \<Rightarrow> account atx" where
  "register P now user_id identity_id token password db =
     (case find (claimable P now token) (ac_invitations db) of
        None \<Rightarrow> Inl (HTTP 403 ''invalid or expired invitation'')
      | Some i \<Rightarrow>
          bindR (policy_hash P password) (\<lambda>h.
          let u = \<lparr>u_id = user_id, u_email = iv_email i, u_mail_verified = False, u_role = iv_role i, u_state = ''active'',
                u_prior_state = None, u_deletion_requested_at = None\<rparr>;
              db1 = ac_invitations_update (upd_where (claimable P now token) (\<lambda>i. i\<lparr>iv_accepted_at := Some now\<rparr>)) db in
          bindR (insert_user P u db1) (\<lambda>db2.
          bindR (insert_identity P \<lparr>ai_id = identity_id, ai_user_id = user_id, ai_provider = ''password'',
              ai_subject = ap_lower P (iv_email i), ai_password_hash = Some h\<rparr> db2) (\<lambda>db3.
            Inr (u, ac_invitations_update (upd_where (\<lambda>j. iv_id j = iv_id i) (\<lambda>j. j\<lparr>iv_accepted_user_id := Some user_id\<rparr>)) db3)))))"

section \<open>Signing in with a password\<close>

definition SIGN_IN_REFUSED :: account_exn where "SIGN_IN_REFUSED = HTTP 401 ''invalid email or password''"

definition ABSENT_ACCOUNT_HASH :: string where
  "ABSENT_ACCOUNT_HASH = ''$argon2id$v=19$m=19456,t=2,p=1$5FGPgcOuWsn+UfdGOcCR4w$6e2EuqoQru8Lt94M3CDXgJ+41TbosnBsRzpe3yboRZU''"

text \<open>\<open>login\<close> up to the point where it may mint: the account it found and admits, read in one transaction.\<close>

definition login_admits :: "account_prims \<Rightarrow> string \<Rightarrow> string \<Rightarrow> account_db \<Rightarrow> account_exn + account" where
  "login_admits P email password db =
     (let subject = normalized P email;
          found = (case find (\<lambda>i. ai_provider i = ''password'' \<and> ai_subject i = subject) (ac_identities db) of
            None \<Rightarrow> None | Some i \<Rightarrow> map_option (\<lambda>u. (i, u)) (user_of (ai_user_id i) db));
          stored = (case found of None \<Rightarrow> ABSENT_ACCOUNT_HASH
            | Some (i, _) \<Rightarrow> (case ai_password_hash i of None \<Rightarrow> [] | Some h \<Rightarrow> h)) in
      case found of
        None \<Rightarrow> Inl SIGN_IN_REFUSED
      | Some (i, u) \<Rightarrow>
          raise_if (\<not> ap_argon_verify P stored password) SIGN_IN_REFUSED
         (raise_if (u_state u \<in> set CANNOT_SIGN_IN) SIGN_IN_REFUSED (Inr u)))"

text \<open>\<open>DELETE /account/sessions/{id}\<close>: only a session of the caller's own account.\<close>

definition revoke_own_session ::
    "clock \<Rightarrow> moment \<Rightarrow> uuid \<Rightarrow> resolved \<Rightarrow> account_db \<Rightarrow> account_effect list atx" where
  "revoke_own_session clk clock sid who db =
     (case such (\<lambda>s. ls_user_id s = u_id (snd who)) (login_of sid db) of
        None \<Rightarrow> Inl (HTTP 404 ''Not Found'')
      | Some s \<Rightarrow> revoke_session_row clk clock (ls_id s) db)"

end
