(* ===== verification/Factors.thy ===== *)
theory Factors
  imports Accounts
begin

text \<open>
  The second factor: time based codes (\<open>src/backend/app/totp.py\<close>) and the gate of a sign-in,
  enrolment and removal (\<open>src/backend/app/factors.py\<close>). The routes of this module are several
  transactions each; every transaction is a definition, and what an earlier one read is an argument.
\<close>

section \<open>Time based codes\<close>

definition STEP :: int where "STEP = 30"

fun be_bytes :: "nat \<Rightarrow> nat \<Rightarrow> nat list" where
  "be_bytes 0 n = []"
| "be_bytes (Suc k) n = be_bytes k (n div 256) @ [n mod 256]"

fun from_be :: "nat list \<Rightarrow> nat" where
  "from_be [] = 0"
| "from_be (b # bs) = b * 256 ^ length bs + from_be bs"

fun zfill_digits :: "nat \<Rightarrow> nat \<Rightarrow> string" where
  "zfill_digits 0 n = []"
| "zfill_digits (Suc k) n = zfill_digits k (n div 10) @ [char_of (48 + n mod 10)]"

text \<open>
  \<open>code_at\<close> with six digits; \<open>None\<close> is the \<open>ValueError\<close> of a secret that is not base32. The moment is
  in seconds; before 1970 the counter does not pack, which no clock of this program reads.
\<close>

definition code_at :: "account_prims \<Rightarrow> string \<Rightarrow> int \<Rightarrow> string option" where
  "code_at P secret secs =
     map_option (\<lambda>digest.
       let offset = last digest mod 16;
           truncated = from_be (take 4 (drop offset digest)) mod 2 ^ 31
       in zfill_digits 6 (truncated mod 10 ^ 6))
     (ap_hmac_sha1 P secret (be_bytes 8 (nat (secs div STEP))))"

fun match_offsets :: "account_prims \<Rightarrow> string \<Rightarrow> string \<Rightarrow> int \<Rightarrow> int list \<Rightarrow> int option" where
  "match_offsets P secret candidate secs [] = None"
| "match_offsets P secret candidate secs (d # ds) =
     (case code_at P secret (secs + d * STEP) of
        None \<Rightarrow> None
      | Some expected \<Rightarrow> if candidate = expected then Some ((secs + d * STEP) div STEP)
                         else match_offsets P secret candidate secs ds)"

definition matched_step :: "account_prims \<Rightarrow> string \<Rightarrow> string \<Rightarrow> int \<Rightarrow> int option" where
  "matched_step P secret code secs = match_offsets P secret (ap_strip P code) secs [-1, 0, 1]"

section \<open>The gate of a sign-in\<close>

definition TOTP_PURPOSE :: string where "TOTP_PURPOSE = ''totp-factors''"
definition CHALLENGE_TTL :: moment where "CHALLENGE_TTL = 10 * MINUTE"
definition MAX_ATTEMPTS :: int where "MAX_ATTEMPTS = 10"
definition CODE_REFUSED :: account_exn where "CODE_REFUSED = HTTP 403 ''that code is not valid''"

definition enrolled_factor :: "uuid \<Rightarrow> account_db \<Rightarrow> auth_factor option" where
  "enrolled_factor user db = find (\<lambda>f. af_user_id f = user \<and> af_confirmed_at f \<noteq> None) (ac_factors db)"

text \<open>\<open>user\<close> is the row the sign-in read in an earlier transaction.\<close>

definition mint_behind_the_gate ::
    "account_prims \<Rightarrow> moment \<Rightarrow> fresh_session \<Rightarrow> account \<Rightarrow> bool \<Rightarrow> uuid option \<Rightarrow> account_db \<Rightarrow> issued option atx" where
  "mint_behind_the_gate P clock f user remember_me expected db =
     (if map_option af_id (enrolled_factor (u_id user) db) \<noteq> expected then Inr (None, db)
      else bindR (mint_in P clock f user remember_me True db) (\<lambda>(issued, db'). Inr (Some issued, db')))"

definition outstanding_challenge :: "moment \<Rightarrow> uuid \<Rightarrow> auth_token \<Rightarrow> bool" where
  "outstanding_challenge now user t \<longleftrightarrow> tk_user_id t = Some user \<and> tk_purpose t = ''challenge''
     \<and> tk_consumed_at t = None \<and> tk_expires_at t > now"

definition begin_challenge ::
    "account_prims \<Rightarrow> moment \<Rightarrow> moment \<Rightarrow> fresh_token \<Rightarrow> uuid \<Rightarrow> account_db \<Rightarrow> string atx" where
  "begin_challenge P now clock f user db =
     (let spent = map tk_attempts (filter (outstanding_challenge now user) (ac_tokens db));
          db1 = spend_where now (outstanding_challenge now user) db in
      bindR (insert_token \<lparr>tk_id = ft_id f, tk_user_id = Some user, tk_purpose = ''challenge'',
          tk_token_hash = ap_sha256 P (ft_token f), tk_attempts = sum_list spent, tk_expires_at = clock + CHALLENGE_TTL,
          tk_consumed_at = None\<rparr> db1) (\<lambda>db2. Inr (ft_token f, db2)))"

text \<open>The first transaction of \<open>answer_challenge\<close>: the guess is counted before it is looked at.\<close>

definition guessable :: "account_prims \<Rightarrow> moment \<Rightarrow> string \<Rightarrow> auth_token \<Rightarrow> bool" where
  "guessable P now presented t \<longleftrightarrow> tk_token_hash t = ap_sha256 P presented \<and> tk_purpose t = ''challenge''
     \<and> tk_consumed_at t = None \<and> tk_expires_at t > now \<and> tk_attempts t < MAX_ATTEMPTS"

definition count_guess ::
    "account_prims \<Rightarrow> moment \<Rightarrow> string \<Rightarrow> account_db \<Rightarrow> (account_exn + uuid \<times> uuid) \<times> account_db" where
  "count_guess P now presented db =
     (case find (guessable P now presented) (ac_tokens db) of
        None \<Rightarrow> (Inl CODE_REFUSED, db)
      | Some t \<Rightarrow>
          let db' = ac_tokens_update (upd_where (guessable P now presented) (\<lambda>t. t\<lparr>tk_attempts := tk_attempts t + 1\<rparr>)) db
          in (case tk_user_id t of None \<Rightarrow> (Inl CODE_REFUSED, db') | Some u \<Rightarrow> (Inr (tk_id t, u), db')))"

section \<open>Proofs\<close>

datatype proof_of_factor = Recovery uuid | Time_step int

fun nibble :: "char \<Rightarrow> nat" where
  "nibble c = (let n = of_char c in if n \<ge> 97 then n - 87 else n - 48)"

fun unhex :: "string \<Rightarrow> string" where
  "unhex (a # b # s) = char_of (16 * nibble a + nibble b) # unhex s"
| "unhex _ = []"

definition uuid_bytes :: "uuid \<Rightarrow> string" where
  "uuid_bytes u = unhex (filter (\<lambda>c. c \<noteq> CHR ''-'') u)"

definition recovery_proof :: "account_prims \<Rightarrow> uuid \<Rightarrow> string \<Rightarrow> account_db \<Rightarrow> proof_of_factor option" where
  "recovery_proof P user code db =
     map_option (\<lambda>c. Recovery (rv_id c))
       (find (\<lambda>c. rv_user_id c = user \<and> rv_code_hash c = ap_sha256 P (normalized P code) \<and> rv_consumed_at c = None) (ac_codes db))"

definition totp_proof :: "account_prims \<Rightarrow> int \<Rightarrow> string \<Rightarrow> uuid \<Rightarrow> auth_factor \<Rightarrow> proof_of_factor option" where
  "totp_proof P secs code user factor =
     (case ap_ring P of
        Inl _ \<Rightarrow> None
      | Inr ring \<Rightarrow>
        (case decrypt (ap_crypto P) ring TOTP_PURPOSE (af_secret_ciphertext factor) (uuid_bytes user) of
           Inl _ \<Rightarrow> None
         | Inr secret \<Rightarrow> map_option Time_step (matched_step P secret code secs)))"

definition verify_code :: "account_prims \<Rightarrow> int \<Rightarrow> string \<Rightarrow> uuid \<Rightarrow> auth_factor \<Rightarrow> account_db \<Rightarrow> proof_of_factor option" where
  "verify_code P secs code user factor db =
     (case recovery_proof P user code db of Some p \<Rightarrow> Some p | None \<Rightarrow> totp_proof P secs code user factor)"

text \<open>\<open>_spend\<close>: whether this request is the one that spent the proof.\<close>

definition spend_proof :: "moment \<Rightarrow> uuid \<Rightarrow> proof_of_factor \<Rightarrow> account_db \<Rightarrow> bool \<times> account_db" where
  "spend_proof now factor_id p db =
     (case p of
        Recovery cid \<Rightarrow>
          let hit = (\<lambda>c. rv_id c = cid \<and> rv_consumed_at c = None) in
          (exists_row hit (ac_codes db), ac_codes_update (upd_where hit (\<lambda>c. c\<lparr>rv_consumed_at := Some now\<rparr>)) db)
      | Time_step s \<Rightarrow>
          let hit = (\<lambda>f. af_id f = factor_id \<and> (case af_last_step f of None \<Rightarrow> True | Some l \<Rightarrow> l < s)) in
          (exists_row hit (ac_factors db), ac_factors_update (upd_where hit (\<lambda>f. f\<lparr>af_last_step := Some s\<rparr>)) db))"

text \<open>
  The writing transaction of \<open>answer_challenge\<close>: it spends the challenge and the proof together and
  clears the budget of replacements; the session is minted behind the gate afterwards.
\<close>

definition win_challenge :: "moment \<Rightarrow> uuid \<Rightarrow> uuid \<Rightarrow> proof_of_factor \<Rightarrow> account_db \<Rightarrow> unit atx" where
  "win_challenge now token_id factor_id p db =
     (let hit = (\<lambda>t. tk_id t = token_id) in
      raise_if (\<not> exists_row (\<lambda>t. hit t \<and> tk_consumed_at t = None) (ac_tokens db)) CODE_REFUSED
     (case spend_proof now factor_id p (spend_where now hit db) of
        (won, db1) \<Rightarrow>
          raise_if (\<not> won) CODE_REFUSED
            (Inr ((), ac_factors_update (upd_where (\<lambda>f. af_id f = factor_id \<and> af_replace_attempts f > 0)
                        (\<lambda>f. f\<lparr>af_replace_attempts := 0\<rparr>)) db1))))"

section \<open>Removing and enrolling\<close>

definition spend_replacement_attempt :: "uuid \<Rightarrow> account_db \<Rightarrow> bool \<times> account_db" where
  "spend_replacement_attempt factor_id db =
     (let hit = (\<lambda>f. af_id f = factor_id \<and> af_replace_attempts f < MAX_ATTEMPTS) in
      (exists_row hit (ac_factors db),
       ac_factors_update (upd_where hit (\<lambda>f. f\<lparr>af_replace_attempts := af_replace_attempts f + 1\<rparr>)) db))"

text \<open>
  What \<open>remove_factor\<close> and \<open>confirm_enrolment\<close> make of the code for the standing factor: a recovery
  code costs nothing to recognise, anything else is charged before it is looked at.
\<close>

definition prove_standing ::
    "account_prims \<Rightarrow> int \<Rightarrow> string \<Rightarrow> uuid \<Rightarrow> auth_factor \<Rightarrow> account_db \<Rightarrow> (account_exn + proof_of_factor) \<times> account_db" where
  "prove_standing P secs code user factor db =
     (case recovery_proof P user code db of
        Some p \<Rightarrow> (Inr p, db)
      | None \<Rightarrow>
        (case spend_replacement_attempt (af_id factor) db of
           (False, db') \<Rightarrow> (Inl CODE_REFUSED, db')
         | (True, db') \<Rightarrow>
            (case totp_proof P secs code user factor of None \<Rightarrow> (Inl CODE_REFUSED, db') | Some p \<Rightarrow> (Inr p, db'))))"

definition drop_factor :: "moment \<Rightarrow> uuid \<Rightarrow> uuid \<Rightarrow> proof_of_factor \<Rightarrow> account_db \<Rightarrow> account_exn + account_db" where
  "drop_factor now user factor_id p db =
     (case spend_proof now factor_id p db of
        (won, db1) \<Rightarrow>
          let mine = (\<lambda>f. af_user_id f = user \<and> af_id f = factor_id) in
          raise_if (\<not> won) CODE_REFUSED
         (raise_if (\<not> exists_row mine (ac_factors db1)) CODE_REFUSED
           (Inr (ac_factors_update (del_where mine) db1))))"

definition drop_codes :: "uuid \<Rightarrow> account_db \<Rightarrow> account_db" where
  "drop_codes user = ac_codes_update (del_where (\<lambda>c. rv_user_id c = user))"

text \<open>The writing transaction of \<open>remove_factor\<close>.\<close>

definition remove_factor ::
    "account_prims \<Rightarrow> clock \<Rightarrow> moment \<Rightarrow> fresh_session \<Rightarrow> resolved \<Rightarrow> uuid \<Rightarrow> proof_of_factor \<Rightarrow>
     account_db \<Rightarrow> (issued \<times> account_effect list) atx" where
  "remove_factor P clk now f who factor_id p db =
     (let user = u_id (snd who) in
      bindR (drop_factor now user factor_id p db) (\<lambda>db1.
      bindR (rotate_and_revoke_others P clk now f who False (drop_codes user db1)) (\<lambda>(issued, db2).
        Inr ((issued, [Close_sockets user None (Some (ls_id (fst who)))]), db2))))"

fun insert_codes :: "account_prims \<Rightarrow> uuid \<Rightarrow> (uuid \<times> string) list \<Rightarrow> account_db \<Rightarrow> account_exn + account_db" where
  "insert_codes P user [] db = Inr db"
| "insert_codes P user ((cid, code) # cs) db =
     bindR (insert_code \<lparr>rv_id = cid, rv_user_id = user, rv_code_hash = ap_sha256 P code, rv_consumed_at = None\<rparr> db)
       (insert_codes P user cs)"

text \<open>
  The writing transaction of \<open>confirm_enrolment\<close>: \<open>replacing\<close> is the standing factor the request read
  with the proof it gave, \<open>ciphertext\<close> the new secret sealed under version \<open>version\<close> of the ring, \<open>step\<close>
  the step of the confirming code, \<open>codes\<close> the recovery codes of the enrolment under fresh ids.
\<close>

definition confirm_enrolment ::
    "account_prims \<Rightarrow> clock \<Rightarrow> moment \<Rightarrow> uuid \<Rightarrow> fresh_session \<Rightarrow> resolved \<Rightarrow> (uuid \<times> proof_of_factor) option \<Rightarrow> string \<Rightarrow> int \<Rightarrow> int \<Rightarrow>
     (uuid \<times> string) list \<Rightarrow> account_db \<Rightarrow> (issued \<times> account_effect list) atx" where
  "confirm_enrolment P clk now factor_id f who replacing ciphertext version step codes db =
     (let user = u_id (snd who) in
      bindR (case replacing of None \<Rightarrow> Inr db | Some (old, p) \<Rightarrow> drop_factor now user old p db) (\<lambda>db1.
      bindR (rethrow (\<lambda>e. if e = Integrity ''auth_factors_one_per_kind'' then HTTP 409 ''a second factor was enrolled already'' else e)
        (insert_factor \<lparr>af_id = factor_id, af_user_id = user, af_secret_ciphertext = ciphertext, af_key_version = version,
          af_last_step = Some step, af_replace_attempts = 0, af_confirmed_at = Some now\<rparr> db1)) (\<lambda>db2.
      bindR (insert_codes P user codes (drop_codes user db2)) (\<lambda>db3.
      bindR (rotate_and_revoke_others P clk now f who False db3) (\<lambda>(issued, db4).
        Inr ((issued, [Close_sockets user None (Some (ls_id (fst who)))]), db4))))))"

end
