(* ===== verification/Installation.thy ===== *)
theory Installation
  imports Factors
begin

text \<open>
  The decision how an installation works and the commands an operator runs at the machine:
  \<open>src/backend/app/enable.py\<close>, the mode functions of \<open>src/backend/app/db.py\<close> and
  \<open>src/backend/app/operator.py\<close>. \<open>ac_mode\<close> is the one row of \<open>installation_auth_state\<close>: the recorded
  mode and the recorded root key version.
\<close>

section \<open>The recorded mode\<close>

definition LOCAL_USER_EMAIL :: string where "LOCAL_USER_EMAIL = ''local@localhost''"

definition ring_or_raise :: "account_prims \<Rightarrow> account_exn + key_ring" where
  "ring_or_raise P = rethrow Ring_error (ap_ring P)"

definition recorded_mode :: "account_db \<Rightarrow> string option" where
  "recorded_mode db = map_option fst (ac_mode db)"

definition record_mode :: "account_prims \<Rightarrow> string \<Rightarrow> account_db \<Rightarrow> account_exn + account_db" where
  "record_mode P mode db =
     bindR (if mode = ''accounts'' then bindR (ring_or_raise P) (\<lambda>ring. Inr (Some (kr_active ring))) else Inr None) (\<lambda>version.
       Inr (if recorded_mode db = Some mode then db else db\<lparr>ac_mode := Some (mode, version)\<rparr>))"

definition decide_startup_auth_mode :: "account_prims \<Rightarrow> string option \<Rightarrow> account_db \<Rightarrow> string atx" where
  "decide_startup_auth_mode P override db =
     (if recorded_mode db \<in> {None, Some ''unclaimed''} then
        (case override of
           None \<Rightarrow> Inr (''unclaimed'', db)
         | Some mode \<Rightarrow> bindR (record_mode P mode db) (\<lambda>db'. Inr (mode, db')))
      else let persisted = the (recorded_mode db) in
        if override \<in> {None, Some persisted} then Inr (persisted, db)
        else if persisted = ''accounts''
        then Inl (Runtime ''accounts installation cannot start in none mode; remove AUTH_MODE=none from the environment'')
        else Inl (Runtime ''AUTH_MODE=accounts requires explicit installation enable''))"

definition validate_startup_key_ring :: "account_prims \<Rightarrow> account_db \<Rightarrow> account_exn + unit" where
  "validate_startup_key_ring P db =
     (case ac_mode db of
        Some (_, Some recorded) \<Rightarrow>
          (case ap_ring P of
             Inl _ \<Rightarrow> Inl (Runtime ''root key ring is unusable'')
           | Inr ring \<Rightarrow> raise_if (recorded \<notin> ring_versions ring) (Runtime ''root key version is missing from the key ring'') (Inr ()))
      | _ \<Rightarrow> Inr ())"

definition implicit_user :: "uuid \<Rightarrow> account" where
  "implicit_user i = \<lparr>u_id = i, u_email = LOCAL_USER_EMAIL, u_mail_verified = False, u_role = ''admin'', u_state = ''active'',
     u_prior_state = None, u_deletion_requested_at = None\<rparr>"

definition local_user :: "account_db \<Rightarrow> account option" where
  "local_user db = find (\<lambda>u. u_email u = LOCAL_USER_EMAIL) (ac_users db)"

definition ensure_local_user :: "account_prims \<Rightarrow> uuid \<Rightarrow> string \<Rightarrow> account_db \<Rightarrow> uuid option atx" where
  "ensure_local_user P fresh mode db =
     (case local_user db of
        None \<Rightarrow>
          if mode = ''accounts'' \<and> ac_identities db \<noteq> [] then Inr (None, db)
          else bindR (insert_user P (implicit_user fresh) db) (\<lambda>db'. Inr (Some fresh, db'))
      | Some u \<Rightarrow>
          Inr (Some (u_id u), if u_role u \<noteq> ''admin'' \<and> mode \<noteq> ''accounts''
            then set_user (u_id u) (\<lambda>v. v\<lparr>u_role := ''admin''\<rparr>) db else db))"

section \<open>The setup link\<close>

definition SETUP_TTL :: moment where "SETUP_TTL = HOUR"
definition SETUP_PURPOSE :: string where "SETUP_PURPOSE = ''setup''"

definition mint_setup_token :: "account_prims \<Rightarrow> moment \<Rightarrow> fresh_token \<Rightarrow> account_db \<Rightarrow> string atx" where
  "mint_setup_token P clock f db =
     raise_if (ac_identities db \<noteq> []) (Lookup ''this installation has already been claimed'')
    (raise_if (recorded_mode db = Some ''none'') (Lookup ''this installation runs without accounts'')
    (bindR (insert_token \<lparr>tk_id = ft_id f, tk_user_id = None, tk_purpose = SETUP_PURPOSE, tk_token_hash = ap_sha256 P (ft_token f),
          tk_attempts = 0, tk_expires_at = clock + SETUP_TTL, tk_consumed_at = None\<rparr>
        (ac_tokens_update (del_where (\<lambda>t. tk_purpose t = SETUP_PURPOSE \<and> tk_consumed_at t = None)) db)) (\<lambda>db'.
      Inr (ft_token f, db'))))"

definition usable_setup :: "account_prims \<Rightarrow> moment \<Rightarrow> string \<Rightarrow> auth_token \<Rightarrow> bool" where
  "usable_setup P now token t \<longleftrightarrow> tk_token_hash t = ap_sha256 P token \<and> tk_purpose t = SETUP_PURPOSE
     \<and> tk_consumed_at t = None \<and> tk_expires_at t > now"

definition spend_setup :: "account_prims \<Rightarrow> moment \<Rightarrow> string \<Rightarrow> account_db \<Rightarrow> account_exn + account_db" where
  "spend_setup P now token db =
     raise_if (\<not> exists_row (usable_setup P now token) (ac_tokens db)) (HTTP 403 ''invalid or expired setup link'')
       (Inr (spend_where now (usable_setup P now token) db))"

definition adopt :: "account_prims \<Rightarrow> uuid \<Rightarrow> string \<Rightarrow> string \<Rightarrow> account_db \<Rightarrow> uuid atx" where
  "adopt P identity_id address password db =
     raise_if (ac_identities db \<noteq> []) (HTTP 409 ''installation already claimed'')
    (bindR (policy_hash P password) (\<lambda>h.
     case local_user db of
       None \<Rightarrow> Inl (HTTP 503 ''database unavailable'')
     | Some u \<Rightarrow>
         raise_if (exists_row (\<lambda>v. u_id v \<noteq> u_id u \<and> (u_email v = address
              \<or> sql_normalized P (u_email v) = sql_normalized P address)) (ac_users db)) (Integrity ''users'')
        (bindR (insert_identity P \<lparr>ai_id = identity_id, ai_user_id = u_id u, ai_provider = ''password'',
             ai_subject = ap_lower P address, ai_password_hash = Some h\<rparr>
           (set_user (u_id u) (\<lambda>v. v\<lparr>u_email := address, u_role := ''admin'', u_state := ''active'', u_mail_verified := False\<rparr>) db)) (\<lambda>db'.
         Inr (u_id u, db')))))"

definition claim :: "account_prims \<Rightarrow> moment \<Rightarrow> uuid \<Rightarrow> string \<Rightarrow> string \<Rightarrow> string \<Rightarrow> account_db \<Rightarrow> uuid atx" where
  "claim P now identity_id token email password db =
     bindR (checked_email P email) (\<lambda>address.
     bindR (spend_setup P now token db) (\<lambda>db1.
     raise_if (recorded_mode db1 = Some ''none'') (HTTP 409 ''installation already decided'')
    (bindR (adopt P identity_id address password db1) (\<lambda>(adopted, db2).
     bindR (record_mode P ''accounts'' db2) (\<lambda>db3. Inr (adopted, db3))))))"

definition decline_accounts :: "account_prims \<Rightarrow> moment \<Rightarrow> string \<Rightarrow> account_db \<Rightarrow> unit atx" where
  "decline_accounts P now token db =
     bindR (spend_setup P now token db) (\<lambda>db1.
     raise_if (ac_identities db1 \<noteq> [] \<or> recorded_mode db1 \<notin> {None, Some ''unclaimed'', Some ''none''})
       (HTTP 409 ''installation already decided'')
    (bindR (record_mode P ''none'' db1) (\<lambda>db2. Inr ((), db2))))"

definition turn_accounts_on :: "account_prims \<Rightarrow> uuid \<Rightarrow> string \<Rightarrow> string \<Rightarrow> account_db \<Rightarrow> uuid atx" where
  "turn_accounts_on P identity_id email password db =
     bindR (checked_email P email) (\<lambda>address.
     raise_if (recorded_mode db \<noteq> Some ''none'') (HTTP 409 ''installation already decided'')
    (bindR (adopt P identity_id address password db) (\<lambda>(adopted, db1).
     bindR (record_mode P ''accounts'' db1) (\<lambda>db2. Inr (adopted, db2)))))"

definition ensure_claimable :: "account_prims \<Rightarrow> uuid \<Rightarrow> account_db \<Rightarrow> unit atx" where
  "ensure_claimable P fresh db =
     (if ac_identities db \<noteq> [] \<or> local_user db \<noteq> None then Inr ((), db)
      else bindR (insert_user P (implicit_user fresh) db) (\<lambda>db'. Inr ((), db')))"

section \<open>Commands at the machine\<close>

definition COLLAPSE_PHRASE :: string where "COLLAPSE_PHRASE = ''destroy the accounts on this installation''"

record collapsed =
  co_accounts :: nat
  co_generations :: nat

text \<open>Deleting all users but one sets the owner of the realtime sessions of the others to \<open>NULL\<close>.\<close>

definition collapse :: "clock \<Rightarrow> string \<Rightarrow> account_db \<Rightarrow> collapsed atx" where
  "collapse clk confirmation db =
     raise_if (confirmation \<noteq> COLLAPSE_PHRASE) (Wrong_phrase COLLAPSE_PHRASE)
    (case local_user db of
       None \<Rightarrow> Inl (Lookup ''this install has no implicit local user to collapse onto'')
     | Some u \<Rightarrow>
         let keep = u_id u;
             counted = \<lparr>co_accounts = length (filter (\<lambda>v. u_id v \<noteq> keep) (ac_users db)),
                        co_generations = length (filter (\<lambda>j. jb_user_id j \<noteq> keep) (db_jobs (ac_fleet db)))\<rparr>;
             db1 = erase_accounts clk (sort (map u_id (ac_users db))) db;
             fleet = (ac_fleet db1)\<lparr>db_jobs := map (\<lambda>j. j\<lparr>jb_user_id := keep\<rparr>) (db_jobs (ac_fleet db1)),
               db_assets := map (\<lambda>a. a\<lparr>as_user_id := keep\<rparr>) (db_assets (ac_fleet db1)),
               db_sessions := upd_where (\<lambda>s. rs_user_id s \<noteq> None \<and> rs_user_id s \<noteq> Some keep) (\<lambda>s. s\<lparr>rs_user_id := None\<rparr>)
                 (db_sessions (ac_fleet db1))\<rparr>
         in Inr (counted, db1
              \<lparr>ac_tokens := [], ac_factors := [], ac_codes := [], ac_logins := [], ac_identities := [], ac_invitations := [],
               ac_users := map (\<lambda>v. v\<lparr>u_role := ''admin'', u_state := ''active'', u_prior_state := None, u_deletion_requested_at := None\<rparr>)
                 (filter (\<lambda>v. u_id v = keep) (ac_users db)),
               ac_mode := map_option (\<lambda>_. (''none'', None)) (ac_mode db),
               ac_fleet := fleet\<rparr>))"

definition reclaim_restore :: "account_prims \<Rightarrow> string \<Rightarrow> account_db \<Rightarrow> string atx" where
  "reclaim_restore P email db =
     (case find (\<lambda>u. sql_normalized P (u_email u) = normalized P email) (ac_users db) of
        None \<Rightarrow> Inl (Lookup (''no account holds '' @ email))
      | Some target \<Rightarrow>
          raise_if (u_state target = ''purging'') (Lookup (email @ '' is being purged and cannot be restored''))
           (Inr (u_state target, set_user (u_id target)
              (\<lambda>u. u\<lparr>u_state := ''active'', u_role := ''admin'', u_prior_state := None, u_deletion_requested_at := None\<rparr>) db)))"

definition clear_factor :: "clock \<Rightarrow> moment \<Rightarrow> uuid \<Rightarrow> account_db \<Rightarrow> account_effect list \<times> account_db" where
  "clear_factor clk now user db =
     (if \<not> exists_row (\<lambda>f. af_user_id f = user) (ac_factors db) then ([], db)
      else ([Close_sockets user None None, Audit ''factor.cleared'' (Some user)],
            revoke_where now (\<lambda>s. ls_user_id s = user)
             (drop_codes user (erase_realtime clk user None None
               (ac_factors_update (del_where (\<lambda>f. af_user_id f = user)) db)))))"

text \<open>One factor of \<open>rotate_keys\<close>; the nonce is the one drawn for it.\<close>

definition rotate_factor :: "account_prims \<Rightarrow> key_ring \<Rightarrow> string \<Rightarrow> auth_factor \<Rightarrow> account_exn + auth_factor" where
  "rotate_factor P ring nonce f =
     bindR (rethrow Ring_error (version_of (af_secret_ciphertext f))) (\<lambda>stored.
     raise_if (stored \<notin> ring_versions ring) (Ring_error (KeyRingError ''root key version is missing; add it to ROOT_KEYS''))
    (bindR (rethrow Ring_error (reencrypt (ap_crypto P) ring nonce TOTP_PURPOSE (af_secret_ciphertext f) (uuid_bytes (af_user_id f)))) (\<lambda>blob.
       Inr (f\<lparr>af_secret_ciphertext := blob, af_key_version := kr_active ring\<rparr>))))"

fun rotate_rows :: "account_prims \<Rightarrow> key_ring \<Rightarrow> (uuid \<Rightarrow> string) \<Rightarrow> auth_factor list \<Rightarrow> account_exn + auth_factor list" where
  "rotate_rows P ring nonces [] = Inr []"
| "rotate_rows P ring nonces (f # fs) =
     bindR (if af_key_version f = kr_active ring then Inr f else rotate_factor P ring (nonces (af_id f)) f) (\<lambda>f'.
     bindR (rotate_rows P ring nonces fs) (\<lambda>fs'. Inr (f' # fs')))"

definition rotate_keys :: "account_prims \<Rightarrow> (uuid \<Rightarrow> string) \<Rightarrow> account_db \<Rightarrow> (nat \<times> int) atx" where
  "rotate_keys P nonces db =
     bindR (ring_or_raise P) (\<lambda>ring.
     bindR (rotate_rows P ring nonces (ac_factors db)) (\<lambda>fs.
       Inr ((length (filter (\<lambda>f. af_key_version f \<noteq> kr_active ring) (ac_factors db)), kr_active ring),
            db\<lparr>ac_factors := fs, ac_mode := map_option (\<lambda>(m, _). (m, Some (kr_active ring))) (ac_mode db)\<rparr>)))"

definition retired_versions :: "account_prims \<Rightarrow> account_db \<Rightarrow> account_exn + int list" where
  "retired_versions P db =
     bindR (ring_or_raise P) (\<lambda>ring.
       Inr (sort (filter (\<lambda>v. v \<noteq> kr_active ring) (remdups (map af_key_version (ac_factors db))))))"

end
