(* ===== verification/Account_Runs.thy ===== *)
theory Account_Runs
  imports Installation
begin

text \<open>
  The account modules as a state machine: one operation for every transaction that writes an account
  table, with everything the transaction was given or had read before as its arguments, so a run is
  any interleaving of the transactions of any requests, stale arguments included. What a run does to
  the rows of a table is described by how single rows may change.
\<close>

section \<open>Operations\<close>

datatype session_op =
    Mint moment fresh_session account bool bool
  | Resolve moment string
  | Revoke clock moment uuid
  | Revoke_all clock moment uuid
  | Rotate_revoke clock moment uuid account
  | Gate moment fresh_session account bool "uuid option"

datatype life_op =
    Change_role clock moment moment uuid string bool resolved
  | Change_state clock moment uuid string account
  | Delete_account clock moment resolved
  | Restore moment uuid
  | Purge_claim clock moment uuid
  | Purge_finish clock uuid

datatype credential_op =
    Mint_reset moment fresh_token string
  | Mint_recovery moment fresh_token string
  | Deliver_reset moment fresh_token "account option"
  | Complete_reset clock moment uuid string string
  | Change_password clock moment moment uuid fresh_session resolved string "string option"
  | Change_email clock moment moment fresh_session resolved string
  | Unlink clock moment moment fresh_session resolved string

datatype invitation_op =
    Invite moment fresh_token resolved string string
  | Revoke_invitation moment uuid
  | Reveal string uuid
  | Register moment uuid uuid string string

datatype factor_op =
    Begin_challenge moment moment fresh_token uuid
  | Count_guess moment string
  | Win_challenge moment uuid uuid proof_of_factor
  | Charge_replacement uuid
  | Remove_factor clock moment fresh_session resolved uuid proof_of_factor
  | Confirm_enrolment clock moment uuid fresh_session resolved "(uuid \<times> proof_of_factor) option" string int int "(uuid \<times> string) list"
  | Clear_factor clock moment uuid

datatype install_op =
    Start_up "string option"
  | Ensure_local_user uuid string
  | Mint_setup moment fresh_token
  | Claim moment uuid string string string
  | Decline moment string
  | Turn_on uuid string string
  | Ensure_claimable uuid
  | Enable_mode
  | Collapse clock string
  | Reclaim_restore string
  | Rotate_keys "uuid \<Rightarrow> string"

fun session_do :: "account_prims \<Rightarrow> session_op \<Rightarrow> account_db \<Rightarrow> account_db" where
  "session_do P (Mint c f u r a) db = committed (mint P c f u r a db) db"
| "session_do P (Resolve c t) db = snd (resolve P c t db)"
| "session_do P (Revoke k c s) db = committed (revoke_session_row k c s db) db"
| "session_do P (Revoke_all k c u) db = committed (revoke_all k c u db) db"
| "session_do P (Rotate_revoke k c s u) db = committed (rotate_revoke k c s u db) db"
| "session_do P (Gate c f u r e) db = committed (mint_behind_the_gate P c f u r e db) db"

text \<open>
  The last transaction of a purge deletes the account whatever its state is by then; that it runs only
  after its claim is a condition on the runs of those properties that need it.
\<close>

fun life_do :: "account_prims \<Rightarrow> life_op \<Rightarrow> account_db \<Rightarrow> account_db" where
  "life_do P (Change_role k n c u r a w) db = committed (change_role k n c u r a w db) db"
| "life_do P (Change_state k n u s a) db = committed (change_state k n u s a db) db"
| "life_do P (Delete_account k n w) db = snd (delete_account k n w db)"
| "life_do P (Restore c u) db = committed (restore c u db) db"
| "life_do P (Purge_claim k c u) db = snd (purge_claim k c u db)"
| "life_do P (Purge_finish k u) db = purge_finish k u db"

fun credential_do :: "account_prims \<Rightarrow> credential_op \<Rightarrow> account_db \<Rightarrow> account_db" where
  "credential_do P (Mint_reset c f e) db = committed (mint_reset P c f e db) db"
| "credential_do P (Mint_recovery c f e) db = committed (mint_admin_recovery P c f e db) db"
| "credential_do P (Deliver_reset c f r) db = snd (deliver_reset P c f r db)"
| "credential_do P (Complete_reset k n i t p) db = committed (complete_reset P k n i t p db) db"
| "credential_do P (Change_password k n c i f w p cur) db = committed (change_password P k n c i f w p cur db) db"
| "credential_do P (Change_email k n c f w e) db = committed (change_email P k n c f w e db) db"
| "credential_do P (Unlink k n c f w p) db = committed (unlink_identity P k n c f w p db) db"

fun invitation_do :: "account_prims \<Rightarrow> invitation_op \<Rightarrow> account_db \<Rightarrow> account_db" where
  "invitation_do P (Invite c f w e r) db = committed (invite P c f w e r db) db"
| "invitation_do P (Revoke_invitation n i) db = committed (revoke_invitation n i db) db"
| "invitation_do P (Reveal t i) db = committed (reveal P t i db) db"
| "invitation_do P (Register n u i t p) db = committed (register P n u i t p db) db"

fun factor_do :: "account_prims \<Rightarrow> factor_op \<Rightarrow> account_db \<Rightarrow> account_db" where
  "factor_do P (Begin_challenge n c f u) db = committed (begin_challenge P n c f u db) db"
| "factor_do P (Count_guess n t) db = snd (count_guess P n t db)"
| "factor_do P (Win_challenge n t f p) db = committed (win_challenge n t f p db) db"
| "factor_do P (Charge_replacement f) db = snd (spend_replacement_attempt f db)"
| "factor_do P (Remove_factor k n f w i p) db = committed (remove_factor P k n f w i p db) db"
| "factor_do P (Confirm_enrolment k n i f w r c v s cs) db = committed (confirm_enrolment P k n i f w r c v s cs db) db"
| "factor_do P (Clear_factor k n u) db = snd (clear_factor k n u db)"

fun install_do :: "account_prims \<Rightarrow> install_op \<Rightarrow> account_db \<Rightarrow> account_db" where
  "install_do P (Start_up m) db = committed (decide_startup_auth_mode P m db) db"
| "install_do P (Ensure_local_user i m) db = committed (ensure_local_user P i m db) db"
| "install_do P (Mint_setup c f) db = committed (mint_setup_token P c f db) db"
| "install_do P (Claim n i t e p) db = committed (claim P n i t e p db) db"
| "install_do P (Decline n t) db = committed (decline_accounts P n t db) db"
| "install_do P (Turn_on i e p) db = committed (turn_accounts_on P i e p db) db"
| "install_do P (Ensure_claimable i) db = committed (ensure_claimable P i db) db"
| "install_do P Enable_mode db = (case record_mode P ''accounts'' db of Inl _ \<Rightarrow> db | Inr db' \<Rightarrow> db')"
| "install_do P (Collapse k s) db = committed (collapse k s db) db"
| "install_do P (Reclaim_restore e) db = committed (reclaim_restore P e db) db"
| "install_do P (Rotate_keys ns) db = committed (rotate_keys P ns db) db"

datatype account_op =
    Sessions session_op
  | Life life_op
  | Credentials credential_op
  | Invitations invitation_op
  | Second_factor factor_op
  | Installs install_op
  | Fleet_moves fleet_db

fun account_do :: "account_prims \<Rightarrow> account_op \<Rightarrow> account_db \<Rightarrow> account_db" where
  "account_do P (Sessions op) db = session_do P op db"
| "account_do P (Life op) db = life_do P op db"
| "account_do P (Credentials op) db = credential_do P op db"
| "account_do P (Invitations op) db = invitation_do P op db"
| "account_do P (Second_factor op) db = factor_do P op db"
| "account_do P (Installs op) db = install_do P op db"
| "account_do P (Fleet_moves f) db = db\<lparr>ac_fleet := f\<rparr>"

definition account_run :: "account_prims \<Rightarrow> account_op list \<Rightarrow> account_db \<Rightarrow> account_db" where
  "account_run P ops db = fold (account_do P) ops db"

lemma account_run_simps [simp]:
  "account_run P [] db = db"
  "account_run P (op # ops) db = account_run P ops (account_do P op db)"
  "account_run P (ops @ ops') db = account_run P ops' (account_run P ops db)"
  by (simp_all add: account_run_def)

section \<open>How rows move\<close>

text \<open>
  Every row of the new table comes from a row of the old one by \<open>R\<close>, or is new and has its key in \<open>F\<close>.
\<close>

definition rows_move :: "('r \<Rightarrow> 'r \<Rightarrow> bool) \<Rightarrow> ('r \<Rightarrow> 'k) \<Rightarrow> 'k set \<Rightarrow> 'r list \<Rightarrow> 'r list \<Rightarrow> bool" where
  "rows_move R key F old new \<longleftrightarrow> (\<forall>r' \<in> set new. key r' \<in> F \<or> (\<exists>r \<in> set old. R r r'))"

lemma upd_whereE:
  assumes "x \<in> set (upd_where Q g rows)"
  obtains r where "r \<in> set rows" "Q r" "x = g r" | "x \<in> set rows" "\<not> Q x"
  using assms by (auto simp: set_upd_where)

text \<open>A way the rows of a table move that composes: \<open>R\<close> is a preorder and keeps the key.\<close>

locale row_moves =
  fixes table :: "account_db \<Rightarrow> 'r list" and R :: "'r \<Rightarrow> 'r \<Rightarrow> bool" and key :: "'r \<Rightarrow> 'k"
  assumes R_refl: "R r r" and R_trans: "R a b \<Longrightarrow> R b c \<Longrightarrow> R a c" and R_key: "R a b \<Longrightarrow> key b = key a"
begin

lemma moves_refl [simp]: "rows_move R key F rows rows"
  by (auto simp: rows_move_def intro: R_refl)

lemma moves_trans: "rows_move R key F a b \<Longrightarrow> rows_move R key F b c \<Longrightarrow> rows_move R key F a c"
  unfolding rows_move_def by (metis R_trans R_key)

lemma moves_upd: "(\<And>r. r \<in> set rows \<Longrightarrow> Q r \<Longrightarrow> R r (f r)) \<Longrightarrow> rows_move R key F rows (upd_where Q f rows)"
  by (auto simp: rows_move_def set_upd_where intro: R_refl)

lemma moves_del: "rows_move R key F a b \<Longrightarrow> rows_move R key F a (del_where Q b)"
  by (auto simp: rows_move_def set_del_where)

lemma moves_only_del [simp]: "rows_move R key F rows (del_where Q rows)"
  by (simp add: moves_del)

lemma moves_nil [simp]: "rows_move R key F rows []"
  by (simp add: rows_move_def)

lemma moves_snoc: "key r \<in> F \<Longrightarrow> rows_move R key F a b \<Longrightarrow> rows_move R key F a (b @ [r])"
  by (auto simp: rows_move_def)

lemma moves_mono: "rows_move R key F a b \<Longrightarrow> F \<subseteq> G \<Longrightarrow> rows_move R key G a b"
  by (auto simp: rows_move_def)

lemma committed_moves:
  "(\<And>v db'. r = Inr (v, db') \<Longrightarrow> rows_move R key F (table db) (table db')) \<Longrightarrow>
     rows_move R key F (table db) (table (committed r db))"
  by (cases r) auto

end

text \<open>
  A table every operation moves this way, inserting only rows with the keys \<open>fresh\<close> names: what such a
  move cannot undo holds of a row for the rest of every run that does not insert its key again.
\<close>

locale moved_by_runs = row_moves table R key
  for table :: "account_db \<Rightarrow> 'r list" and R :: "'r \<Rightarrow> 'r \<Rightarrow> bool" and key :: "'r \<Rightarrow> 'k" +
  fixes fresh :: "account_prims \<Rightarrow> account_op \<Rightarrow> 'k set"
  assumes do_moves: "rows_move R key (fresh P op) (table db) (table (account_do P op db))"
begin

lemma run_moves: "rows_move R key (\<Union> (fresh P ` set ops)) (table db) (table (account_run P ops db))"
proof (induction ops arbitrary: db)
  case (Cons op ops)
  have "rows_move R key (\<Union> (fresh P ` set (op # ops))) (table db) (table (account_do P op db))"
    by (rule moves_mono[OF do_moves]) auto
  moreover have "rows_move R key (\<Union> (fresh P ` set (op # ops))) (table (account_do P op db)) (table (account_run P (op # ops) db))"
    by (simp, rule moves_mono[OF Cons]) auto
  ultimately show ?case by (rule moves_trans)
qed simp

lemma run_keeps:
  assumes "\<forall>op \<in> set ops. x \<notin> fresh P op" "\<forall>r \<in> set (table db). key r = x \<longrightarrow> good r" "\<And>r r'. good r \<Longrightarrow> R r r' \<Longrightarrow> good r'"
  shows "\<forall>r \<in> set (table (account_run P ops db)). key r = x \<longrightarrow> good r"
proof (intro ballI impI)
  fix r' assume "r' \<in> set (table (account_run P ops db))" "key r' = x"
  then obtain r where "r \<in> set (table db)" "R r r'" using run_moves[of P ops db] assms(1) by (auto simp: rows_move_def)
  with assms(2,3) R_key \<open>key r' = x\<close> show "good r'" by metis
qed

end

section \<open>Which tables the shared statements touch\<close>

lemma erase_tables [simp]:
  "ac_users (erase_accounts k us db) = ac_users db" "ac_logins (erase_accounts k us db) = ac_logins db"
  "ac_tokens (erase_accounts k us db) = ac_tokens db" "ac_identities (erase_accounts k us db) = ac_identities db"
  "ac_invitations (erase_accounts k us db) = ac_invitations db" "ac_factors (erase_accounts k us db) = ac_factors db"
  "ac_codes (erase_accounts k us db) = ac_codes db" "ac_mode (erase_accounts k us db) = ac_mode db"
  "ac_users (erase_realtime k u i s db) = ac_users db" "ac_logins (erase_realtime k u i s db) = ac_logins db"
  "ac_tokens (erase_realtime k u i s db) = ac_tokens db" "ac_identities (erase_realtime k u i s db) = ac_identities db"
  "ac_invitations (erase_realtime k u i s db) = ac_invitations db" "ac_factors (erase_realtime k u i s db) = ac_factors db"
  "ac_codes (erase_realtime k u i s db) = ac_codes db" "ac_mode (erase_realtime k u i s db) = ac_mode db"
  by (simp_all add: erase_accounts_def erase_realtime_def)

lemma statement_tables [simp]:
  "ac_users (revoke_where n Q db) = ac_users db" "ac_tokens (revoke_where n Q db) = ac_tokens db"
  "ac_identities (revoke_where n Q db) = ac_identities db" "ac_invitations (revoke_where n Q db) = ac_invitations db"
  "ac_factors (revoke_where n Q db) = ac_factors db" "ac_codes (revoke_where n Q db) = ac_codes db"
  "ac_fleet (revoke_where n Q db) = ac_fleet db"
  "ac_users (spend_where n T db) = ac_users db" "ac_logins (spend_where n T db) = ac_logins db"
  "ac_identities (spend_where n T db) = ac_identities db" "ac_invitations (spend_where n T db) = ac_invitations db"
  "ac_factors (spend_where n T db) = ac_factors db" "ac_codes (spend_where n T db) = ac_codes db"
  "ac_fleet (spend_where n T db) = ac_fleet db"
  "ac_logins (set_user i g db) = ac_logins db" "ac_tokens (set_user i g db) = ac_tokens db"
  "ac_identities (set_user i g db) = ac_identities db" "ac_invitations (set_user i g db) = ac_invitations db"
  "ac_factors (set_user i g db) = ac_factors db" "ac_codes (set_user i g db) = ac_codes db"
  "ac_fleet (set_user i g db) = ac_fleet db"
  "ac_users (drop_codes u db) = ac_users db" "ac_logins (drop_codes u db) = ac_logins db"
  "ac_tokens (drop_codes u db) = ac_tokens db" "ac_identities (drop_codes u db) = ac_identities db"
  "ac_invitations (drop_codes u db) = ac_invitations db" "ac_factors (drop_codes u db) = ac_factors db"
  by (simp_all add: revoke_where_def spend_where_def set_user_def drop_codes_def)

lemmas insert_defs = insert_user_def insert_identity_def insert_login_def insert_token_def insert_invitation_def
  insert_factor_def insert_code_def

lemma insert_Inr:
  "insert_user P u db = Inr db' \<Longrightarrow> db' = ac_users_update (\<lambda>us. us @ [u]) db"
  "insert_identity P i db = Inr db' \<Longrightarrow> db' = ac_identities_update (\<lambda>is. is @ [i]) db"
  "insert_login s db = Inr db' \<Longrightarrow> db' = ac_logins_update (\<lambda>ss. ss @ [s]) db"
  "insert_token t db = Inr db' \<Longrightarrow> db' = ac_tokens_update (\<lambda>ts. ts @ [t]) db"
  "insert_invitation P j db = Inr db' \<Longrightarrow> db' = ac_invitations_update (\<lambda>is. is @ [j]) db"
  "insert_factor f db = Inr db' \<Longrightarrow> db' = ac_factors_update (\<lambda>fs. fs @ [f]) db"
  "insert_code c db = Inr db' \<Longrightarrow> db' = ac_codes_update (\<lambda>cs. cs @ [c]) db"
  by (simp_all add: insert_defs split: if_splits)

lemma insert_codes_tables:
  "insert_codes P u cs db = Inr db' \<Longrightarrow>
     ac_users db' = ac_users db \<and> ac_logins db' = ac_logins db \<and> ac_tokens db' = ac_tokens db
     \<and> ac_identities db' = ac_identities db \<and> ac_invitations db' = ac_invitations db \<and> ac_factors db' = ac_factors db
     \<and> ac_mode db' = ac_mode db \<and> ac_fleet db' = ac_fleet db"
  by (induction P u cs db rule: insert_codes.induct) (auto simp: bindR_Inr_iff dest!: insert_Inr(7))

text \<open>A committed transaction: it either raised, and the database is as before, or returned.\<close>

lemma committedI: "Q db \<Longrightarrow> (\<And>v db'. r = Inr (v, db') \<Longrightarrow> Q db') \<Longrightarrow> Q (committed r db)"
  by (cases r) auto

end
