(* ===== verification/Account_Contract.thy ===== *)
theory Account_Contract
  imports Account_Runs Command_Contract
begin

text \<open>
  What the account modules promise: an ended session stays ended, a change of credentials leaves one
  session, a link works once, an administrator remains, and what taking an account out of service ends.
\<close>

section \<open>Sessions along a run\<close>

definition login_keeps :: "login_session \<Rightarrow> login_session \<Rightarrow> bool" where
  "login_keeps r r' \<longleftrightarrow> ls_id r' = ls_id r \<and> ls_user_id r' = ls_user_id r
     \<and> (ls_revoked_at r \<noteq> None \<longrightarrow> ls_revoked_at r' = ls_revoked_at r)"

text \<open>The ids of the sessions an operation may insert.\<close>

fun session_ids :: "account_prims \<Rightarrow> account_op \<Rightarrow> uuid set" where
  "session_ids P (Sessions (Mint c f u r a)) = {fs_id f}"
| "session_ids P (Sessions (Gate c f u r e)) = {fs_id f}"
| "session_ids P _ = {}"

abbreviation logins_move :: "uuid set \<Rightarrow> login_session list \<Rightarrow> login_session list \<Rightarrow> bool" where
  "logins_move \<equiv> rows_move login_keeps ls_id"

interpretation logins: row_moves ac_logins login_keeps ls_id
  by unfold_locales (auto simp: login_keeps_def)

lemma revoke_moves [simp]: "logins_move F (ac_logins db) (ac_logins (revoke_where n Q db))"
  by (auto simp: revoke_where_def login_keeps_def intro!: logins.moves_upd)

lemma revoke_after_moves: "logins_move F a (ac_logins db) \<Longrightarrow> logins_move F a (ac_logins (revoke_where n Q db))"
  by (erule logins.moves_trans) simp

lemma delete_user_tables [simp]:
  "ac_logins (delete_user u db) = del_where (\<lambda>s. ls_user_id s = u) (ac_logins db)"
  "ac_users (delete_user u db) = del_where (\<lambda>v. u_id v = u) (ac_users db)"
  "ac_tokens (delete_user u db) = del_where (\<lambda>t. tk_user_id t = Some u) (ac_tokens db)"
  "ac_factors (delete_user u db) = del_where (\<lambda>f. af_user_id f = u) (ac_factors db)"
  "ac_codes (delete_user u db) = del_where (\<lambda>c. rv_user_id c = u) (ac_codes db)"
  by (simp_all add: delete_user_def)

text \<open>The rotation of a committed change: the statements before the swap of the token, and the swap.\<close>

definition before_swap :: "clock \<Rightarrow> moment \<Rightarrow> resolved \<Rightarrow> bool \<Rightarrow> account_db \<Rightarrow> account_db" where
  "before_swap k n who spend db =
     (let db1 = erase_realtime k (u_id (snd who)) None (Some (ls_id (fst who))) db;
          db2 = (if spend then spend_where n (mailed_link (u_id (snd who))) db1 else db1)
      in revoke_where n (\<lambda>s. ls_user_id s = u_id (snd who) \<and> ls_id s \<noteq> ls_id (fst who)) db2)"

definition swapped :: "login_session \<Rightarrow> login_session \<Rightarrow> bool" where
  "swapped s q \<longleftrightarrow> ls_id q = ls_id s \<and> ls_token_hash q = ls_token_hash s \<and> ls_revoked_at q = None"

lemma rotate_others_Inr:
  assumes "rotate_and_revoke_others P k n f who spend db = Inr (iss, db')"
  shows "db' = ac_logins_update (upd_where (swapped (fst who)) (\<lambda>q. q\<lparr>ls_token_hash := ap_sha256 P (fs_token f)\<rparr>)) (before_swap k n who spend db)"
    "iss = issue (ls_remember_me (fst who)) f"
    "\<exists>w \<in> set (ac_logins (before_swap k n who spend db)). swapped (fst who) w"
    "\<forall>q \<in> set (ac_logins (before_swap k n who spend db)). \<not> swapped (fst who) q \<longrightarrow> ls_token_hash q \<noteq> ap_sha256 P (fs_token f)"
  using assms by (auto simp: rotate_and_revoke_others_def before_swap_def swapped_def[abs_def] Let_def split: prod.splits if_splits)

lemma before_swap_tables [simp]:
  "ac_logins (before_swap k n who spend db)
     = upd_where (\<lambda>s. (ls_user_id s = u_id (snd who) \<and> ls_id s \<noteq> ls_id (fst who)) \<and> ls_revoked_at s = None)
         (\<lambda>s. s\<lparr>ls_revoked_at := Some n\<rparr>) (ac_logins db)"
  "ac_tokens (before_swap k n who spend db)
     = (if spend then ac_tokens (spend_where n (mailed_link (u_id (snd who))) db) else ac_tokens db)"
  by (simp_all add: before_swap_def Let_def revoke_where_def spend_where_def)

lemma rotate_others_logins:
  assumes "rotate_and_revoke_others P k n f who spend db = Inr (v, db')"
  shows "logins_move F (ac_logins db) (ac_logins db')"
proof (rule logins.moves_trans)
  show "logins_move F (ac_logins db) (ac_logins (before_swap k n who spend db))"
    by (auto simp: login_keeps_def intro!: logins.moves_upd)
  show "logins_move F (ac_logins (before_swap k n who spend db)) (ac_logins db')"
    unfolding rotate_others_Inr(1)[OF assms] by (auto simp: login_keeps_def swapped_def simp del: before_swap_tables intro!: logins.moves_upd)
qed

lemma put_tables:
  "put_password P i u h db = Inr db' \<Longrightarrow> ac_logins db' = ac_logins db \<and> ac_users db' = ac_users db \<and> ac_tokens db' = ac_tokens db
     \<and> ac_factors db' = ac_factors db \<and> ac_codes db' = ac_codes db \<and> ac_invitations db' = ac_invitations db \<and> ac_fleet db' = ac_fleet db"
  "put_address P u a db = Inr db' \<Longrightarrow> ac_logins db' = ac_logins db \<and> ac_tokens db' = ac_tokens db
     \<and> ac_factors db' = ac_factors db \<and> ac_codes db' = ac_codes db \<and> ac_invitations db' = ac_invitations db \<and> ac_fleet db' = ac_fleet db"
  by (auto simp: put_password_def put_address_def Let_def split: if_splits option.splits dest!: insert_Inr)

lemma record_mode_tables:
  "record_mode P m db = Inr db' \<Longrightarrow> ac_logins db' = ac_logins db \<and> ac_users db' = ac_users db \<and> ac_tokens db' = ac_tokens db
     \<and> ac_factors db' = ac_factors db \<and> ac_codes db' = ac_codes db \<and> ac_identities db' = ac_identities db
     \<and> ac_invitations db' = ac_invitations db \<and> ac_fleet db' = ac_fleet db"
  by (auto simp: record_mode_def bindR_Inr_iff)

lemma adopt_tables:
  "adopt P i a p db = Inr (u, db') \<Longrightarrow> ac_logins db' = ac_logins db \<and> ac_tokens db' = ac_tokens db
     \<and> ac_factors db' = ac_factors db \<and> ac_codes db' = ac_codes db \<and> ac_invitations db' = ac_invitations db \<and> ac_fleet db' = ac_fleet db"
  by (auto simp: adopt_def bindR_Inr_iff split: option.splits dest!: insert_Inr)

lemma drop_factor_tables:
  "drop_factor n u i p db = Inr db' \<Longrightarrow> ac_logins db' = ac_logins db \<and> ac_users db' = ac_users db \<and> ac_tokens db' = ac_tokens db
     \<and> ac_identities db' = ac_identities db \<and> ac_invitations db' = ac_invitations db \<and> ac_fleet db' = ac_fleet db"
  by (auto simp: drop_factor_def spend_proof_def Let_def split: proof_of_factor.splits)

lemma mint_logins:
  assumes "mint_in P c f u r a db = Inr (v, db')"
  shows "logins_move {fs_id f} (ac_logins db) (ac_logins db')"
  using assms by (auto simp: mint_in_def bindR_Inr_iff Let_def split: prod.splits dest!: insert_Inr intro!: logins.moves_snoc)

lemma touch_keeps [simp]: "login_keeps s (touched c u s)"
  by (simp add: touched_def login_keeps_def)

lemma resolve_logins: "logins_move F (ac_logins db) (ac_logins (snd (resolve P c t db)))"
  by (simp add: resolve_def logins.moves_upd split: option.splits)

lemma session_logins: "logins_move (session_ids P (Sessions op)) (ac_logins db) (ac_logins (session_do P op db))"
  by (cases op)
    (auto simp: revoke_session_row_def revoke_all_def rotate_revoke_def mint_def mint_behind_the_gate_def resolve_logins
      bindR_Inr_iff Let_def dest: mint_logins intro!: logins.committed_moves revoke_after_moves split: option.splits if_splits)

lemma life_logins: "logins_move {} (ac_logins db) (ac_logins (life_do P op db))"
  by (cases op)
    (auto simp: change_role_def change_state_def delete_account_def request_deletion_def restore_def purge_claim_def purge_finish_def
      end_of_account_access_def Let_def intro!: logins.committed_moves revoke_after_moves split: option.splits if_splits)

lemma link_logins: "mint_link P c f u pu ttl db = Inr (v, db') \<Longrightarrow> ac_logins db' = ac_logins db"
  by (auto simp: mint_link_def bindR_Inr_iff dest!: insert_Inr)

lemma store_password_tables:
  "store_password P i u e h db = Inr db' \<Longrightarrow> ac_logins db' = ac_logins db \<and> ac_users db' = ac_users db \<and> ac_tokens db' = ac_tokens db
     \<and> ac_factors db' = ac_factors db \<and> ac_codes db' = ac_codes db \<and> ac_invitations db' = ac_invitations db \<and> ac_fleet db' = ac_fleet db"
  by (auto simp: store_password_def split: option.splits dest!: insert_Inr)

text \<open>Every change of a credential ends in the rotation, on a database with the sessions it found.\<close>

lemma credential_rotates:
  "change_password P k n c i f w p cur db = Inr (v, db') \<Longrightarrow>
     \<exists>db1. rotate_and_revoke_others P k n f w True db1 = Inr (fst v, db') \<and> ac_logins db1 = ac_logins db \<and> ac_users db1 = ac_users db
       \<and> ac_tokens db1 = ac_tokens db \<and> snd v = [Close_sockets (u_id (snd w)) None (Some (ls_id (fst w)))]"
  "change_email P k n c f w e db = Inr (v', db') \<Longrightarrow> fst v' = None \<and> db' = db \<or>
     (\<exists>iss db1. fst v' = Some iss \<and> rotate_and_revoke_others P k n f w True db1 = Inr (iss, db') \<and> ac_logins db1 = ac_logins db
       \<and> ac_tokens db1 = ac_tokens db \<and> snd v' = [Close_sockets (u_id (snd w)) None (Some (ls_id (fst w)))])"
  "unlink_identity P k n c f w p db = Inr (v, db') \<Longrightarrow>
     \<exists>db1. rotate_and_revoke_others P k n f w True db1 = Inr (fst v, db') \<and> ac_logins db1 = ac_logins db \<and> ac_users db1 = ac_users db
       \<and> ac_tokens db1 = ac_tokens db \<and> snd v = [Close_sockets (u_id (snd w)) None (Some (ls_id (fst w)))]"
  "remove_factor P k n f w i pr db = Inr (v, db') \<Longrightarrow>
     \<exists>db1. rotate_and_revoke_others P k n f w False db1 = Inr (fst v, db') \<and> ac_logins db1 = ac_logins db \<and> ac_users db1 = ac_users db
       \<and> ac_tokens db1 = ac_tokens db \<and> snd v = [Close_sockets (u_id (snd w)) None (Some (ls_id (fst w)))]"
  "confirm_enrolment P k n i f w r ct ver st cs db = Inr (v, db') \<Longrightarrow>
     \<exists>db1. rotate_and_revoke_others P k n f w False db1 = Inr (fst v, db') \<and> ac_logins db1 = ac_logins db \<and> ac_users db1 = ac_users db
       \<and> ac_tokens db1 = ac_tokens db \<and> snd v = [Close_sockets (u_id (snd w)) None (Some (ls_id (fst w)))]"
proof goal_cases
  case 1 then show ?case by (force simp: change_password_def bindR_Inr_iff Let_def dest: store_password_tables)
next
  case 2 then show ?case by (force simp: change_email_def bindR_Inr_iff Let_def dest: put_tables(2) split: option.splits if_splits)
next
  case 3 then show ?case by (force simp: unlink_identity_def bindR_Inr_iff Let_def split: option.splits)
next
  case 4 then show ?case by (force simp: remove_factor_def bindR_Inr_iff Let_def dest: drop_factor_tables)
next
  case 5 then show ?case
    by (force simp: confirm_enrolment_def bindR_Inr_iff Let_def dest: drop_factor_tables insert_Inr(6) insert_codes_tables
        split: option.splits)
qed

lemma credential_change_logins:
  "change_password P k n c i f w p cur db = Inr (v, db') \<Longrightarrow> logins_move F (ac_logins db) (ac_logins db')"
  "change_email P k n c f w e db = Inr (v', db') \<Longrightarrow> logins_move F (ac_logins db) (ac_logins db')"
  "unlink_identity P k n c f w p db = Inr (v, db') \<Longrightarrow> logins_move F (ac_logins db) (ac_logins db')"
  "remove_factor P k n f w i pr db = Inr (v, db') \<Longrightarrow> logins_move F (ac_logins db) (ac_logins db')"
  "confirm_enrolment P k n i f w r ct ver st cs db = Inr (v, db') \<Longrightarrow> logins_move F (ac_logins db) (ac_logins db')"
  by (metis credential_rotates(1) rotate_others_logins, metis credential_rotates(2) rotate_others_logins logins.moves_refl,
      metis credential_rotates(3) rotate_others_logins, metis credential_rotates(4) rotate_others_logins,
      metis credential_rotates(5) rotate_others_logins)

lemma complete_logins:
  assumes "complete_reset P k n i t p db = Inr (v, db')"
  shows "logins_move F (ac_logins db) (ac_logins db')"
  using assms by (auto simp: complete_reset_def bindR_Inr_iff Let_def dest!: put_tables(1) intro!: revoke_after_moves split: option.splits)

lemma credential_logins: "logins_move F (ac_logins db) (ac_logins (credential_do P op db))"
  by (cases op)
    (auto simp: mint_reset_def mint_admin_recovery_def deliver_reset_def dest: link_logins credential_change_logins complete_logins intro!: logins.committed_moves split: option.splits sum.splits)

lemma invitation_logins: "logins_move F (ac_logins db) (ac_logins (invitation_do P op db))"
  by (cases op)
    (auto simp: invite_def revoke_invitation_def reveal_def register_def bindR_Inr_iff Let_def dest!: insert_Inr
      intro!: logins.committed_moves split: option.splits)

lemma factor_logins: "logins_move F (ac_logins db) (ac_logins (factor_do P op db))"
  by (cases op)
    (auto simp: begin_challenge_def count_guess_def win_challenge_def spend_proof_def spend_replacement_attempt_def clear_factor_def
      bindR_Inr_iff Let_def dest!: insert_Inr dest: credential_change_logins intro!: logins.committed_moves revoke_after_moves
      split: option.splits proof_of_factor.splits)

lemma install_logins: "logins_move F (ac_logins db) (ac_logins (install_do P op db))"
  by (cases op)
    (auto simp: decide_startup_auth_mode_def ensure_local_user_def mint_setup_token_def claim_def decline_accounts_def turn_accounts_on_def
      ensure_claimable_def collapse_def reclaim_restore_def rotate_keys_def spend_setup_def bindR_Inr_iff Let_def
      dest!: insert_Inr record_mode_tables adopt_tables intro!: logins.committed_moves split: option.splits if_splits sum.splits)

lemma do_logins: "logins_move (session_ids P op) (ac_logins db) (ac_logins (account_do P op db))"
  by (cases op) (auto simp del: session_ids.simps intro: session_logins life_logins credential_logins invitation_logins factor_logins
      install_logins logins.moves_mono)

interpretation login_runs: moved_by_runs ac_logins login_keeps ls_id session_ids
  by unfold_locales (rule do_logins)

end
