(* ===== verification/Account_Invariant.thy ===== *)
theory Account_Invariant
  imports Account_Contract
begin

text \<open>
  The types of the account tables: keys are unique, every column with a closed set of values keeps to
  it, counters stay in their range, and an account has one password and one factor. Every operation
  keeps them.
\<close>

section \<open>Well-formed tables\<close>

definition user_ok :: "account \<Rightarrow> bool" where
  "user_ok u \<longleftrightarrow> u_role u \<in> set ROLES \<and> u_state u \<in> set ACCOUNT_STATES
     \<and> (case u_prior_state u of None \<Rightarrow> True | Some s \<Rightarrow> s \<in> set ACCOUNT_STATES)"

definition users_ok :: "account list \<Rightarrow> bool" where
  "users_ok rows \<longleftrightarrow> distinct (map u_id rows) \<and> distinct (map u_email rows) \<and> list_all user_ok rows"

definition logins_ok :: "login_session list \<Rightarrow> bool" where
  "logins_ok rows \<longleftrightarrow> distinct (map ls_id rows) \<and> distinct (map ls_token_hash rows)"

definition token_ok :: "auth_token \<Rightarrow> bool" where
  "token_ok t \<longleftrightarrow> 0 \<le> tk_attempts t \<and> (tk_purpose t = ''setup'' \<longleftrightarrow> tk_user_id t = None)"

definition tokens_ok :: "auth_token list \<Rightarrow> bool" where
  "tokens_ok rows \<longleftrightarrow> distinct (map tk_id rows) \<and> distinct (map tk_token_hash rows) \<and> list_all token_ok rows"

definition factors_ok :: "auth_factor list \<Rightarrow> bool" where
  "factors_ok rows \<longleftrightarrow> distinct (map af_id rows) \<and> distinct (map af_user_id rows)
     \<and> list_all (\<lambda>f. 0 \<le> af_replace_attempts f \<and> af_replace_attempts f \<le> MAX_ATTEMPTS) rows"

definition codes_ok :: "recovery_code list \<Rightarrow> bool" where
  "codes_ok rows \<longleftrightarrow> distinct (map rv_id rows)"

definition invitations_ok :: "invitation list \<Rightarrow> bool" where
  "invitations_ok rows \<longleftrightarrow> distinct (map iv_id rows) \<and> distinct (map iv_token_hash rows) \<and> list_all (\<lambda>i. iv_role i \<in> set ROLES) rows"

definition identities_ok :: "auth_identity list \<Rightarrow> bool" where
  "identities_ok rows \<longleftrightarrow> distinct (map ai_id rows) \<and> distinct (map ai_user_id (filter (\<lambda>i. ai_provider i = ''password'') rows))"

definition account_inv :: "account_db \<Rightarrow> bool" where
  "account_inv db \<longleftrightarrow> users_ok (ac_users db) \<and> logins_ok (ac_logins db) \<and> tokens_ok (ac_tokens db) \<and> factors_ok (ac_factors db)
     \<and> codes_ok (ac_codes db) \<and> invitations_ok (ac_invitations db) \<and> identities_ok (ac_identities db)"

text \<open>An installation before its first start.\<close>

definition no_accounts :: "fleet_db \<Rightarrow> account_db" where
  "no_accounts f = \<lparr>ac_users = [], ac_identities = [], ac_logins = [], ac_tokens = [], ac_invitations = [], ac_factors = [],
     ac_codes = [], ac_mode = None, ac_fleet = f\<rparr>"

lemma account_inv_empty: "account_inv (no_accounts f)"
  by (simp add: account_inv_def no_accounts_def users_ok_def logins_ok_def tokens_ok_def factors_ok_def codes_ok_def invitations_ok_def
      identities_ok_def)

section \<open>Single statements\<close>

lemma distinct_del: "distinct (map k rows) \<Longrightarrow> distinct (map k (del_where Q rows))"
  by (rule distinct_map_filter_del)

lemma list_all_del: "list_all A rows \<Longrightarrow> list_all A (del_where Q rows)"
  by (auto simp: list_all_iff set_del_where)

lemma list_all_upd: "list_all A rows \<Longrightarrow> (\<And>r. A r \<Longrightarrow> Q r \<Longrightarrow> A (g r)) \<Longrightarrow> list_all A (upd_where Q g rows)"
  by (auto simp: list_all_iff set_upd_where)

lemma distinct_upd:
  "distinct (map k rows) \<Longrightarrow> (\<And>r. r \<in> set rows \<Longrightarrow> Q r \<Longrightarrow> k (g r) = k r) \<Longrightarrow> distinct (map k (upd_where Q g rows))"
proof -
  assume "distinct (map k rows)" and same: "\<And>r. r \<in> set rows \<Longrightarrow> Q r \<Longrightarrow> k (g r) = k r"
  moreover have "map k (upd_where Q g rows) = map k rows" using same by (induction rows) auto
  ultimately show ?thesis by simp
qed

lemma distinct_snoc: "distinct (map k rows) \<Longrightarrow> \<forall>r \<in> set rows. k r \<noteq> k x \<Longrightarrow> distinct (map k (rows @ [x]))"
  by (auto simp: image_iff)

text \<open>One row, found by a unique key, gets a value of another unique column that no other row has.\<close>

lemma distinct_upd_unique:
  assumes "distinct (map k rows)" "distinct (map i rows)" "\<And>r. Q r \<Longrightarrow> i r = x" "\<And>r. k (g r) = v"
    and "\<And>r. r \<in> set rows \<Longrightarrow> \<not> Q r \<Longrightarrow> k r \<noteq> v"
  shows "distinct (map k (upd_where Q g rows))"
  using assms(1,2,5)
proof (induction rows)
  case (Cons a rows)
  have other: "\<not> Q r" if "Q a" "r \<in> set rows" for r
    using Cons.prems(2) assms(3) that by (metis distinct.simps(2) image_eqI list.map(2) list.set_map)
  show ?case
  proof (cases "Q a")
    case True
    then have "upd_where Q g rows = rows" using other by (auto intro: upd_where_idle)
    moreover have "v \<notin> k ` set rows" using other[OF True] Cons.prems(3) by (metis image_iff list.set_intros(2))
    ultimately show ?thesis using True Cons.prems(1) by (simp add: assms(4))
  next
    case False
    with Cons have "k a \<notin> k ` set (upd_where Q g rows)" by (auto simp: set_upd_where assms(4))
    with False Cons show ?thesis by simp
  qed
qed simp

lemma users_ok_moves:
  "users_ok rows \<Longrightarrow> users_ok (del_where Q rows)"
  "users_ok rows \<Longrightarrow> (\<And>u. user_ok u \<Longrightarrow> Q u \<Longrightarrow> user_ok (g u) \<and> u_id (g u) = u_id u \<and> u_email (g u) = u_email u) \<Longrightarrow>
     users_ok (upd_where Q g rows)"
  "insert_user P u db = Inr db' \<Longrightarrow> users_ok (ac_users db) \<Longrightarrow> user_ok u \<Longrightarrow> users_ok (ac_users db')"
  by (auto simp: users_ok_def insert_user_def list_all_iff set_upd_where set_del_where simp del: map_append
      intro!: distinct_del distinct_upd distinct_snoc split: if_splits)

lemma logins_ok_moves:
  "logins_ok rows \<Longrightarrow> logins_ok (del_where Q rows)"
  "logins_ok rows \<Longrightarrow> (\<And>s. Q s \<Longrightarrow> ls_id (g s) = ls_id s \<and> ls_token_hash (g s) = ls_token_hash s) \<Longrightarrow> logins_ok (upd_where Q g rows)"
  "insert_login s db = Inr db' \<Longrightarrow> logins_ok (ac_logins db) \<Longrightarrow> logins_ok (ac_logins db')"
  by (auto simp: logins_ok_def insert_login_def simp del: map_append intro!: distinct_del distinct_upd distinct_snoc split: if_splits)

lemma tokens_ok_moves:
  "tokens_ok rows \<Longrightarrow> tokens_ok (del_where Q rows)"
  "tokens_ok rows \<Longrightarrow> (\<And>t. token_ok t \<Longrightarrow> Q t \<Longrightarrow> token_ok (g t) \<and> tk_id (g t) = tk_id t \<and> tk_token_hash (g t) = tk_token_hash t) \<Longrightarrow>
     tokens_ok (upd_where Q g rows)"
  "insert_token t db = Inr db' \<Longrightarrow> tokens_ok (ac_tokens db) \<Longrightarrow> token_ok t \<Longrightarrow> tokens_ok (ac_tokens db')"
  by (auto simp: tokens_ok_def insert_token_def list_all_iff set_upd_where set_del_where simp del: map_append
      intro!: distinct_del distinct_upd distinct_snoc split: if_splits)

lemma factors_ok_moves:
  "factors_ok rows \<Longrightarrow> factors_ok (del_where Q rows)"
  "factors_ok rows \<Longrightarrow> (\<And>f. Q f \<Longrightarrow> af_id (g f) = af_id f \<and> af_user_id (g f) = af_user_id f
      \<and> (0 \<le> af_replace_attempts f \<and> af_replace_attempts f \<le> MAX_ATTEMPTS \<longrightarrow>
         0 \<le> af_replace_attempts (g f) \<and> af_replace_attempts (g f) \<le> MAX_ATTEMPTS)) \<Longrightarrow> factors_ok (upd_where Q g rows)"
  "insert_factor f db = Inr db' \<Longrightarrow> factors_ok (ac_factors db) \<Longrightarrow> af_replace_attempts f = 0 \<Longrightarrow> factors_ok (ac_factors db')"
  by (auto simp: factors_ok_def insert_factor_def MAX_ATTEMPTS_def list_all_iff set_upd_where set_del_where simp del: map_append
      intro!: distinct_del distinct_upd distinct_snoc split: if_splits)

lemma codes_ok_moves:
  "codes_ok rows \<Longrightarrow> codes_ok (del_where Q rows)"
  "codes_ok rows \<Longrightarrow> (\<And>c. Q c \<Longrightarrow> rv_id (g c) = rv_id c) \<Longrightarrow> codes_ok (upd_where Q g rows)"
  "insert_code c db = Inr db' \<Longrightarrow> codes_ok (ac_codes db) \<Longrightarrow> codes_ok (ac_codes db')"
  by (auto simp: codes_ok_def insert_code_def simp del: map_append intro!: distinct_del distinct_upd distinct_snoc split: if_splits)

lemma insert_codes_ok: "insert_codes P u cs db = Inr db' \<Longrightarrow> codes_ok (ac_codes db) \<Longrightarrow> codes_ok (ac_codes db')"
  by (induction P u cs db rule: insert_codes.induct) (auto simp: bindR_Inr_iff dest: codes_ok_moves(3))

lemma invitations_ok_moves:
  "invitations_ok rows \<Longrightarrow> (\<And>i. Q i \<Longrightarrow> iv_id (g i) = iv_id i \<and> iv_token_hash (g i) = iv_token_hash i \<and> iv_role (g i) = iv_role i) \<Longrightarrow>
     invitations_ok (upd_where Q g rows)"
  "insert_invitation P i db = Inr db' \<Longrightarrow> invitations_ok (ac_invitations db) \<Longrightarrow> iv_role i \<in> set ROLES \<Longrightarrow> invitations_ok (ac_invitations db')"
  by (auto simp: invitations_ok_def insert_invitation_def list_all_iff set_upd_where simp del: map_append
      intro!: distinct_upd distinct_snoc split: if_splits)

lemma identities_ok_moves:
  "identities_ok rows \<Longrightarrow> identities_ok (del_where Q rows)"
  "identities_ok rows \<Longrightarrow> (\<And>i. Q i \<Longrightarrow> ai_id (g i) = ai_id i \<and> ai_user_id (g i) = ai_user_id i \<and> ai_provider (g i) = ai_provider i) \<Longrightarrow>
     identities_ok (upd_where Q g rows)"
  "insert_identity P i db = Inr db' \<Longrightarrow> identities_ok (ac_identities db) \<Longrightarrow> identities_ok (ac_identities db')"
proof -
  assume ok: "identities_ok rows"
  have "filter (\<lambda>i. ai_provider i = ''password'') (del_where Q rows) = del_where Q (filter (\<lambda>i. ai_provider i = ''password'') rows)"
    by (simp add: del_where_def conj_commute)
  with ok show "identities_ok (del_where Q rows)" by (simp add: identities_ok_def distinct_del)
  assume same: "\<And>i. Q i \<Longrightarrow> ai_id (g i) = ai_id i \<and> ai_user_id (g i) = ai_user_id i \<and> ai_provider (g i) = ai_provider i"
  have "filter (\<lambda>i. ai_provider i = ''password'') (upd_where Q g rows) = upd_where Q g (filter (\<lambda>i. ai_provider i = ''password'') rows)"
    using same by (intro filter_upd_where) simp
  with ok show "identities_ok (upd_where Q g rows)" by (simp add: identities_ok_def distinct_upd same)
next
  show "insert_identity P i db = Inr db' \<Longrightarrow> identities_ok (ac_identities db) \<Longrightarrow> identities_ok (ac_identities db')"
    by (auto simp: identities_ok_def insert_identity_def simp del: map_append intro!: distinct_snoc split: if_splits)
qed

section \<open>Every operation keeps the tables well-formed\<close>

lemmas ok_moves = users_ok_moves logins_ok_moves tokens_ok_moves factors_ok_moves codes_ok_moves invitations_ok_moves
  identities_ok_moves

lemma account_invI:
  "users_ok (ac_users db) \<Longrightarrow> logins_ok (ac_logins db) \<Longrightarrow> tokens_ok (ac_tokens db) \<Longrightarrow> factors_ok (ac_factors db) \<Longrightarrow>
   codes_ok (ac_codes db) \<Longrightarrow> invitations_ok (ac_invitations db) \<Longrightarrow> identities_ok (ac_identities db) \<Longrightarrow> account_inv db"
  by (simp add: account_inv_def)

lemma account_invD:
  assumes "account_inv db"
  shows "users_ok (ac_users db)" "logins_ok (ac_logins db)" "tokens_ok (ac_tokens db)" "factors_ok (ac_factors db)"
    "codes_ok (ac_codes db)" "invitations_ok (ac_invitations db)" "identities_ok (ac_identities db)"
  using assms by (simp_all add: account_inv_def)

lemma inv_erase [simp]: "account_inv (erase_accounts k us db) = account_inv db" "account_inv (erase_realtime k u i s db) = account_inv db"
  "account_inv (ac_fleet_update g db) = account_inv db"
  by (simp_all add: account_inv_def)

lemma inv_statements:
  "account_inv db \<Longrightarrow> account_inv (revoke_where n Q db)"
  "account_inv db \<Longrightarrow> account_inv (spend_where n T db)"
  "account_inv db \<Longrightarrow> (\<And>u. user_ok u \<Longrightarrow> user_ok (g u) \<and> u_id (g u) = u_id u \<and> u_email (g u) = u_email u) \<Longrightarrow>
     account_inv (set_user i g db)"
  "account_inv db \<Longrightarrow> account_inv (drop_codes i db)"
  "account_inv db \<Longrightarrow> account_inv (delete_user i db)"
  by (auto simp: revoke_where_def spend_where_def set_user_def drop_codes_def delete_user_def account_inv_def token_ok_def
      map_upd_where upd_where_def[symmetric] intro!: ok_moves invitations_ok_moves(1)[where Q = "\<lambda>_. True", unfolded upd_where_def, simplified])

lemma inv_inserts:
  "insert_user P u db = Inr db' \<Longrightarrow> account_inv db \<Longrightarrow> user_ok u \<Longrightarrow> account_inv db'"
  "insert_identity P i db = Inr db' \<Longrightarrow> account_inv db \<Longrightarrow> account_inv db'"
  "insert_login s db = Inr db' \<Longrightarrow> account_inv db \<Longrightarrow> account_inv db'"
  "insert_token t db = Inr db' \<Longrightarrow> account_inv db \<Longrightarrow> token_ok t \<Longrightarrow> account_inv db'"
  "insert_invitation P j db = Inr db' \<Longrightarrow> account_inv db \<Longrightarrow> iv_role j \<in> set ROLES \<Longrightarrow> account_inv db'"
  "insert_factor f db = Inr db' \<Longrightarrow> account_inv db \<Longrightarrow> af_replace_attempts f = 0 \<Longrightarrow> account_inv db'"
  "insert_codes P w cs db = Inr db' \<Longrightarrow> account_inv db \<Longrightarrow> account_inv db'"
proof goal_cases
  case 1 then show ?case using insert_Inr(1)[OF 1(1)] users_ok_moves(3)[OF 1(1)] by (simp add: account_inv_def)
next
  case 2 then show ?case using insert_Inr(2)[OF 2(1)] identities_ok_moves(3)[OF 2(1)] by (simp add: account_inv_def)
next
  case 3 then show ?case using insert_Inr(3)[OF 3(1)] logins_ok_moves(3)[OF 3(1)] by (simp add: account_inv_def)
next
  case 4 then show ?case using insert_Inr(4)[OF 4(1)] tokens_ok_moves(3)[OF 4(1)] by (simp add: account_inv_def)
next
  case 5 then show ?case using insert_Inr(5)[OF 5(1)] invitations_ok_moves(2)[OF 5(1)] by (simp add: account_inv_def)
next
  case 6 then show ?case using insert_Inr(6)[OF 6(1)] factors_ok_moves(3)[OF 6(1)] by (simp add: account_inv_def)
next
  case 7 then show ?case using insert_codes_tables[OF 7(1)] insert_codes_ok[OF 7(1)] by (simp add: account_inv_def)
qed

lemma inv_mint: "mint_in P c f u r a db = Inr (v, db') \<Longrightarrow> account_inv db \<Longrightarrow> account_inv db'"
  by (auto simp: mint_in_def bindR_Inr_iff Let_def split: prod.splits dest: inv_inserts(3))

lemma inv_before_swap: "account_inv db \<Longrightarrow> account_inv (before_swap k n who spend db)"
  by (simp add: before_swap_def Let_def inv_statements)

lemma inv_rotate_others:
  assumes "rotate_and_revoke_others P k n f who spend db = Inr (v, db')" "account_inv db"
  shows "account_inv db'"
proof -
  let ?db = "before_swap k n who spend db" and ?h = "ap_sha256 P (fs_token f)"
  let ?rows = "upd_where (swapped (fst who)) (\<lambda>q. q\<lparr>ls_token_hash := ?h\<rparr>) (ac_logins ?db)"
  note run = rotate_others_Inr[OF assms(1)]
  have inv: "account_inv ?db" using assms(2) by (rule inv_before_swap)
  have "distinct (map ls_token_hash ?rows)"
    using account_invD(2)[OF inv] run(4)
    by (intro distinct_upd_unique[where i = ls_id and x = "ls_id (fst who)" and v = ?h])
      (auto simp: logins_ok_def swapped_def simp del: before_swap_tables)
  moreover have "distinct (map ls_id ?rows)"
    using account_invD(2)[OF inv] by (auto simp: logins_ok_def simp del: before_swap_tables intro: distinct_upd)
  ultimately show ?thesis using inv by (simp add: account_inv_def run(1) logins_ok_def del: before_swap_tables)
qed

lemma inv_session: "account_inv db \<Longrightarrow> account_inv (session_do P op db)"
proof (cases op)
  case (Resolve c t)
  assume "account_inv db"
  with Resolve show ?thesis
    by (auto simp: resolve_def touched_def account_inv_def intro!: logins_ok_moves(2) split: option.splits)
qed (auto simp: revoke_session_row_def revoke_all_def rotate_revoke_def mint_def mint_behind_the_gate_def bindR_Inr_iff Let_def
      committed_def inv_statements dest: inv_mint split: sum.splits option.splits if_splits)

lemma user_ok_sets:
  "user_ok u \<Longrightarrow> r \<in> set ROLES \<Longrightarrow> user_ok (u\<lparr>u_role := r\<rparr>)"
  "user_ok u \<Longrightarrow> st \<in> set ACCOUNT_STATES \<Longrightarrow> user_ok (u\<lparr>u_state := st\<rparr>)"
  "user_ok u \<Longrightarrow> user_ok (leaving n u)" "user_ok u \<Longrightarrow> user_ok (restored u)"
  by (auto simp: user_ok_def leaving_def restored_def ACCOUNT_STATES_def split: option.splits)

lemma state_requests_ok: "st \<in> set STATE_REQUESTS \<Longrightarrow> st \<in> set ACCOUNT_STATES"
  by (auto simp: STATE_REQUESTS_def ACCOUNT_STATES_def)

lemma inv_request:
  assumes "account_inv db"
  shows "account_inv (snd (request_deletion k n u db))"
proof -
  have "account_inv (ac_users_update (upd_where Q (leaving n)) db)" for Q
    using assms user_ok_sets(3) by (auto simp: account_inv_def leaving_def intro!: users_ok_moves(2))
  then show ?thesis using assms by (simp add: request_deletion_def Let_def inv_statements)
qed

lemma restored_id [simp]: "u_id (restored u) = u_id u" "u_email (restored u) = u_email u"
  by (simp_all add: restored_def)

lemma inv_restore: "restore c u db = Inr (v, db') \<Longrightarrow> account_inv db \<Longrightarrow> account_inv db'"
  by (auto simp: restore_def user_ok_sets intro!: inv_statements(3) split: option.splits if_splits)

lemma inv_life: "account_inv db \<Longrightarrow> account_inv (life_do P op db)"
proof (cases op)
  case (Purge_claim k c u)
  assume "account_inv db"
  then have "account_inv (ac_users_update (upd_where Q (\<lambda>u. u\<lparr>u_state := ''purging''\<rparr>)) db)" for Q
    by (auto simp: account_inv_def ACCOUNT_STATES_def intro!: users_ok_moves(2) user_ok_sets)
  with Purge_claim \<open>account_inv db\<close> show ?thesis by (simp add: purge_claim_def Let_def)
next
  case (Delete_account k n w)
  assume "account_inv db"
  with Delete_account inv_request[of db k n "u_id (snd w)"] show ?thesis by (simp add: delete_account_def Let_def split_beta)
qed (auto simp: change_role_def change_state_def purge_finish_def end_of_account_access_def Let_def committed_def
      split: sum.splits option.splits if_splits intro!: inv_statements user_ok_sets state_requests_ok dest: inv_restore)

text \<open>A new address that no other account has.\<close>

lemma inv_set_address:
  assumes "account_inv db" "\<And>u. user_ok u \<Longrightarrow> user_ok (g u) \<and> u_id (g u) = u_id u \<and> u_email (g u) = a"
    and "\<And>v. v \<in> set (ac_users db) \<Longrightarrow> u_id v \<noteq> i \<Longrightarrow> u_email v \<noteq> a"
  shows "account_inv (set_user i g db)"
proof -
  let ?g = "\<lambda>u. if user_ok u then g u else u\<lparr>u_email := a\<rparr>"
  have ok: "users_ok (ac_users db)" using assms(1) by (rule account_invD)
  have same: "upd_where (\<lambda>u. u_id u = i) g (ac_users db) = upd_where (\<lambda>u. u_id u = i) ?g (ac_users db)"
    using ok by (auto simp: users_ok_def list_all_iff upd_where_def)
  have "distinct (map u_email (upd_where (\<lambda>u. u_id u = i) ?g (ac_users db)))"
    using ok assms(2,3) by (intro distinct_upd_unique[where i = u_id and x = i and v = a]) (auto simp: users_ok_def)
  moreover have "distinct (map u_id (upd_where (\<lambda>u. u_id u = i) ?g (ac_users db)))"
    using ok assms(2) by (intro distinct_upd) (auto simp: users_ok_def)
  moreover have "list_all user_ok (upd_where (\<lambda>u. u_id u = i) g (ac_users db))"
    using ok assms(2) by (auto simp: users_ok_def intro: list_all_upd)
  ultimately show ?thesis using assms(1) by (simp add: account_inv_def set_user_def users_ok_def same)
qed

lemma inv_credential_puts:
  "put_password P i u h db = Inr db' \<Longrightarrow> account_inv db \<Longrightarrow> account_inv db'"
  "store_password P i u e h db = Inr db' \<Longrightarrow> account_inv db \<Longrightarrow> account_inv db'"
  "put_address P u a db = Inr db' \<Longrightarrow> account_inv db \<Longrightarrow> account_inv db'"
proof -
  have upd: "account_inv db \<Longrightarrow> account_inv (ac_identities_update (upd_where Q (\<lambda>i. i\<lparr>ai_password_hash := v\<rparr>)) db)" for db Q v
    by (auto simp: account_inv_def intro!: identities_ok_moves(2))
  show "put_password P i u h db = Inr db' \<Longrightarrow> account_inv db \<Longrightarrow> account_inv db'"
    by (auto simp: put_password_def Let_def upd dest: inv_inserts(2) split: if_splits option.splits)
  show "store_password P i u e h db = Inr db' \<Longrightarrow> account_inv db \<Longrightarrow> account_inv db'"
    by (auto simp: store_password_def upd dest: inv_inserts(2) split: option.splits)
  have sub: "account_inv db \<Longrightarrow> account_inv (ac_identities_update (upd_where Q (\<lambda>i. i\<lparr>ai_subject := v\<rparr>)) db)" for db Q v
    by (auto simp: account_inv_def intro!: identities_ok_moves(2))
  show "put_address P u a db = Inr db' \<Longrightarrow> account_inv db \<Longrightarrow> account_inv db'"
    by (auto simp: put_address_def Let_def user_ok_def intro!: sub inv_set_address[where a = a] split: if_splits)
qed

lemma inv_link: "mint_link P c f u pu ttl db = Inr (v, db') \<Longrightarrow> pu \<noteq> ''setup'' \<Longrightarrow> account_inv db \<Longrightarrow> account_inv db'"
  by (auto simp: mint_link_def bindR_Inr_iff token_ok_def dest: inv_inserts(4))

lemma inv_credential_changes:
  assumes "account_inv db"
  shows "complete_reset P k n i t p db = Inr (v, db') \<Longrightarrow> account_inv db'"
    "change_password P k n c i f w p cur db = Inr (v1, db') \<Longrightarrow> account_inv db'"
    "change_email P k n c f w e db = Inr (v2, db') \<Longrightarrow> account_inv db'"
    "unlink_identity P k n c f w pr db = Inr (v1, db') \<Longrightarrow> account_inv db'"
proof -
  show "complete_reset P k n i t p db = Inr (v, db') \<Longrightarrow> account_inv db'"
    using assms by (auto simp: complete_reset_def bindR_Inr_iff Let_def inv_statements dest!: inv_credential_puts(1) split: option.splits)
  show "change_password P k n c i f w p cur db = Inr (v1, db') \<Longrightarrow> account_inv db'"
    using assms by (auto simp: change_password_def bindR_Inr_iff Let_def dest: inv_credential_puts(2) inv_rotate_others)
  show "change_email P k n c f w e db = Inr (v2, db') \<Longrightarrow> account_inv db'"
    using assms by (auto simp: change_email_def bindR_Inr_iff Let_def dest: inv_credential_puts(3) inv_rotate_others
        split: option.splits if_splits)
  have "account_inv (ac_identities_update (del_where Q) db)" for Q
    using assms by (auto simp: account_inv_def intro!: identities_ok_moves(1))
  then show "unlink_identity P k n c f w pr db = Inr (v1, db') \<Longrightarrow> account_inv db'"
    by (auto simp: unlink_identity_def bindR_Inr_iff Let_def dest: inv_rotate_others split: option.splits)
qed

lemma inv_credential: "account_inv db \<Longrightarrow> account_inv (credential_do P op db)"
  by (cases op)
    (auto simp: mint_reset_def mint_admin_recovery_def deliver_reset_def committed_def dest: inv_credential_changes inv_link
      split: sum.splits option.splits)

lemma inv_invitation: "account_inv db \<Longrightarrow> account_inv (invitation_do P op db)"
proof -
  assume inv: "account_inv db"
  have upd: "account_inv (ac_invitations_update (upd_where Q g) db)"
    if "account_inv db" "\<And>i. Q i \<Longrightarrow> iv_id (g i) = iv_id i \<and> iv_token_hash (g i) = iv_token_hash i \<and> iv_role (g i) = iv_role i" for Q g db
    using that by (auto simp: account_inv_def intro!: invitations_ok_moves(1))
  have invite: "invite P c f w e r db = Inr (v, db') \<Longrightarrow> account_inv db'" for c f w e r v db'
    using inv by (auto simp: invite_def bindR_Inr_iff Let_def dest: inv_inserts(5))
  have revoke: "revoke_invitation n i db = Inr (v, db') \<Longrightarrow> account_inv db'" for n i v db'
    using inv by (auto simp: revoke_invitation_def Let_def intro!: upd)
  have register: "register P n u i t p db = Inr (v, db') \<Longrightarrow> account_inv db'" for n u i t p v db'
  proof -
    assume run: "register P n u i t p db = Inr (v, db')"
    then obtain j where j: "find (claimable P n t) (ac_invitations db) = Some j" by (auto simp: register_def split: option.splits)
    then have "iv_role j \<in> set ROLES"
      using find_SomeD[OF j] account_invD(6)[OF inv] by (auto simp: invitations_ok_def list_all_iff)
    with run j inv show "account_inv db'"
      by (auto simp: register_def bindR_Inr_iff Let_def user_ok_def ACCOUNT_STATES_def intro!: upd dest!: inv_inserts(1,2))
  qed
  have reveal: "reveal P t i db = Inr (v, db') \<Longrightarrow> account_inv db'" for t i v db'
  proof -
    assume run: "reveal P t i db = Inr (v, db')"
    let ?Q = "\<lambda>j. iv_id j = i \<and> open_invitation j" and ?g = "\<lambda>j. j\<lparr>iv_token_hash := ap_sha256 P t\<rparr>"
    have db': "db' = ac_invitations_update (upd_where ?Q ?g) db"
      and unused: "\<And>j. j \<in> set (ac_invitations db) \<Longrightarrow> \<not> ?Q j \<Longrightarrow> iv_token_hash j \<noteq> ap_sha256 P t"
      using run by (auto simp: reveal_def Let_def)
    have "distinct (map iv_token_hash (upd_where ?Q ?g (ac_invitations db)))"
      using account_invD(6)[OF inv] unused
      by (intro distinct_upd_unique[where i = iv_id and x = i and v = "ap_sha256 P t"]) (auto simp: invitations_ok_def)
    moreover have "distinct (map iv_id (upd_where ?Q ?g (ac_invitations db)))" "list_all (\<lambda>i. iv_role i \<in> set ROLES) (upd_where ?Q ?g (ac_invitations db))"
      using account_invD(6)[OF inv] by (auto simp: invitations_ok_def list_all_iff set_upd_where intro: distinct_upd)
    ultimately show "account_inv db'" using inv by (simp add: account_inv_def db' invitations_ok_def)
  qed
  show ?thesis using inv by (cases op) (auto simp: committed_def dest: invite revoke register reveal split: sum.splits)
qed

lemma inv_tokens_upd:
  "account_inv db \<Longrightarrow> (\<And>t. token_ok t \<Longrightarrow> Q t \<Longrightarrow> token_ok (g t) \<and> tk_id (g t) = tk_id t \<and> tk_token_hash (g t) = tk_token_hash t) \<Longrightarrow>
     account_inv (ac_tokens_update (upd_where Q g) db)"
  by (auto simp: account_inv_def intro!: tokens_ok_moves(2))

lemma inv_factors_upd:
  "account_inv db \<Longrightarrow> (\<And>f. Q f \<Longrightarrow> af_id (g f) = af_id f \<and> af_user_id (g f) = af_user_id f
      \<and> (0 \<le> af_replace_attempts f \<and> af_replace_attempts f \<le> MAX_ATTEMPTS \<longrightarrow>
         0 \<le> af_replace_attempts (g f) \<and> af_replace_attempts (g f) \<le> MAX_ATTEMPTS)) \<Longrightarrow>
     account_inv (ac_factors_update (upd_where Q g) db)"
  by (auto simp: account_inv_def intro!: factors_ok_moves(2))

lemma inv_factors_del: "account_inv db \<Longrightarrow> account_inv (ac_factors_update (del_where Q) db)"
  by (auto simp: account_inv_def intro!: factors_ok_moves(1))

lemma inv_spend_proof: "account_inv db \<Longrightarrow> account_inv (snd (spend_proof n i p db))"
  by (auto simp: spend_proof_def Let_def account_inv_def intro!: factors_ok_moves(2) codes_ok_moves(2) split: proof_of_factor.splits)

lemma inv_drop_factor: "drop_factor n u i p db = Inr db' \<Longrightarrow> account_inv db \<Longrightarrow> account_inv db'"
  using inv_spend_proof[of db n i p]
  by (auto simp: drop_factor_def Let_def split_beta intro!: inv_factors_del)

lemma inv_factor_changes:
  assumes "account_inv db"
  shows "begin_challenge P n c ft u db = Inr (v, db') \<Longrightarrow> account_inv db'"
    "win_challenge n t i p db = Inr (v1, db') \<Longrightarrow> account_inv db'"
    "remove_factor P k n f w i p db = Inr (v2, db') \<Longrightarrow> account_inv db'"
    "confirm_enrolment P k n i f w r ct ver st cs db = Inr (v2, db') \<Longrightarrow> account_inv db'"
proof -
  have "0 \<le> sum_list (map tk_attempts (filter Q (ac_tokens db)))" for Q
    using account_invD(3)[OF assms] by (intro sum_list_nonneg) (auto simp: tokens_ok_def list_all_iff token_ok_def)
  then show "begin_challenge P n c ft u db = Inr (v, db') \<Longrightarrow> account_inv db'"
    using assms by (auto simp: begin_challenge_def bindR_Inr_iff Let_def token_ok_def inv_statements dest!: inv_inserts(4))
  have "account_inv (snd (spend_proof n i p (spend_where n (\<lambda>q. tk_id q = t) db)))"
    by (intro inv_spend_proof inv_statements assms)
  then show "win_challenge n t i p db = Inr (v1, db') \<Longrightarrow> account_inv db'"
    by (auto simp: win_challenge_def Let_def split_beta MAX_ATTEMPTS_def intro!: inv_factors_upd)
  show "remove_factor P k n f w i p db = Inr (v2, db') \<Longrightarrow> account_inv db'"
    using assms by (auto simp: remove_factor_def bindR_Inr_iff Let_def dest!: inv_drop_factor dest: inv_rotate_others inv_statements(4))
  show "confirm_enrolment P k n i f w r ct ver st cs db = Inr (v2, db') \<Longrightarrow> account_inv db'"
    using assms
    by (auto simp: confirm_enrolment_def bindR_Inr_iff Let_def split: option.splits
        dest!: inv_drop_factor inv_inserts(6,7) dest: inv_rotate_others inv_statements(4))
qed

lemma inv_factor: "account_inv db \<Longrightarrow> account_inv (factor_do P op db)"
proof (cases op)
  case (Count_guess n t)
  assume "account_inv db"
  with Count_guess show ?thesis
    by (auto simp: count_guess_def Let_def token_ok_def intro!: inv_tokens_upd split: option.splits)
next
  case (Charge_replacement i)
  assume "account_inv db"
  with Charge_replacement show ?thesis by (auto simp: spend_replacement_attempt_def Let_def MAX_ATTEMPTS_def intro!: inv_factors_upd)
next
  case (Clear_factor k n u)
  assume "account_inv db"
  with Clear_factor show ?thesis by (simp add: clear_factor_def inv_statements inv_factors_del)
qed (auto simp: committed_def dest: inv_factor_changes split: sum.splits)

lemma inv_mode [simp]: "account_inv (ac_mode_update g db) = account_inv db"
  by (simp add: account_inv_def)

lemma inv_record_mode: "record_mode P m db = Inr db' \<Longrightarrow> account_inv db \<Longrightarrow> account_inv db'"
  by (auto simp: record_mode_def bindR_Inr_iff split: if_splits)

lemma implicit_user_ok: "user_ok (implicit_user i)"
  by (simp add: user_ok_def implicit_user_def ROLES_def ACCOUNT_STATES_def)

lemma inv_adopt: "adopt P i a p db = Inr (v, db') \<Longrightarrow> account_inv db \<Longrightarrow> account_inv db'"
proof -
  have admin: "user_ok u \<Longrightarrow> user_ok (u\<lparr>u_email := a, u_role := ''admin'', u_state := ''active'', u_mail_verified := False\<rparr>)" for u
    by (simp add: user_ok_def ROLES_def ACCOUNT_STATES_def)
  assume "adopt P i a p db = Inr (v, db')" "account_inv db"
  then show ?thesis
    by (auto simp: adopt_def bindR_Inr_iff admin split: option.splits intro!: inv_set_address[where a = a] elim!: inv_inserts(2))
qed

lemma inv_spend_setup: "spend_setup P n t db = Inr db' \<Longrightarrow> account_inv db \<Longrightarrow> account_inv db'"
  by (auto simp: spend_setup_def inv_statements)

lemma inv_tokens_del: "account_inv db \<Longrightarrow> account_inv (ac_tokens_update (del_where Q) db)"
  by (auto simp: account_inv_def intro!: tokens_ok_moves(1))

lemma inv_mint_setup: "mint_setup_token P c f db = Inr (v, db') \<Longrightarrow> account_inv db \<Longrightarrow> account_inv db'"
  by (auto simp: mint_setup_token_def bindR_Inr_iff token_ok_def SETUP_PURPOSE_def elim!: inv_inserts(4) intro!: inv_tokens_del)

lemma rotate_rows_keys:
  "rotate_rows P ring ns fs = Inr fs' \<Longrightarrow> map af_id fs' = map af_id fs \<and> map af_user_id fs' = map af_user_id fs
     \<and> map af_replace_attempts fs' = map af_replace_attempts fs"
  by (induction P ring ns fs arbitrary: fs' rule: rotate_rows.induct)
    (auto simp: bindR_Inr_iff rotate_factor_def split: if_splits)

lemma inv_rotate_keys: "rotate_keys P ns db = Inr (v, db') \<Longrightarrow> account_inv db \<Longrightarrow> account_inv db'"
proof -
  have attempts: "list_all (\<lambda>f. 0 \<le> af_replace_attempts f \<and> af_replace_attempts f \<le> MAX_ATTEMPTS) fs
      = list_all (\<lambda>n. 0 \<le> n \<and> n \<le> MAX_ATTEMPTS) (map af_replace_attempts fs)" for fs
    by (simp add: list_all_iff)
  assume "rotate_keys P ns db = Inr (v, db')" "account_inv db"
  then show ?thesis
    by (auto simp: rotate_keys_def bindR_Inr_iff account_inv_def factors_ok_def attempts dest: rotate_rows_keys)
qed

lemma inv_collapse: "collapse k s db = Inr (v, db') \<Longrightarrow> account_inv db \<Longrightarrow> account_inv db'"
proof -
  assume run: "collapse k s db = Inr (v, db')" and inv: "account_inv db"
  let ?one = "\<lambda>u. map (\<lambda>v. v\<lparr>u_role := ''admin'', u_state := ''active'', u_prior_state := None, u_deletion_requested_at := None\<rparr>)
      (filter (\<lambda>v. u_id v = u) (ac_users db))"
  have "users_ok (?one u)" for u
    using account_invD(1)[OF inv]
    by (auto simp: users_ok_def user_ok_def list_all_iff ROLES_def ACCOUNT_STATES_def comp_def distinct_map_filter)
  with run show "account_inv db'"
    by (auto simp: collapse_def Let_def account_inv_def logins_ok_def tokens_ok_def factors_ok_def codes_ok_def invitations_ok_def
        identities_ok_def split: option.splits)
qed

lemma inv_install: "account_inv db \<Longrightarrow> account_inv (install_do P op db)"
proof -
  assume inv: "account_inv db"
  have promote: "user_ok u \<Longrightarrow> user_ok (u\<lparr>u_role := ''admin''\<rparr>)" for u
    by (rule user_ok_sets(1)) (simp_all add: ROLES_def)
  have local: "ensure_local_user P i m db = Inr (v, db') \<Longrightarrow> account_inv db'" for i m v db'
    using inv by (auto simp: ensure_local_user_def bindR_Inr_iff implicit_user_ok promote elim!: inv_inserts(1)
        intro!: inv_statements(3) split: option.splits if_splits)
  have claimable: "ensure_claimable P i db = Inr (v, db') \<Longrightarrow> account_inv db'" for i v db'
    using inv by (auto simp: ensure_claimable_def bindR_Inr_iff implicit_user_ok elim!: inv_inserts(1) split: if_splits)
  have reclaim: "reclaim_restore P e db = Inr (v, db') \<Longrightarrow> account_inv db'" for e v db'
    using inv by (auto simp: reclaim_restore_def user_ok_def ROLES_def ACCOUNT_STATES_def intro!: inv_statements(3) split: option.splits)
  show ?thesis
    using inv
    by (cases op)
      (auto simp: decide_startup_auth_mode_def claim_def decline_accounts_def turn_accounts_on_def committed_def bindR_Inr_iff Let_def
        elim!: inv_record_mode inv_adopt inv_spend_setup
        dest: local claimable reclaim inv_mint_setup inv_collapse inv_rotate_keys inv_record_mode
        split: sum.splits option.splits if_splits)
qed

lemma do_inv: "account_inv db \<Longrightarrow> account_inv (account_do P op db)"
  by (cases op) (auto intro: inv_session inv_life inv_credential inv_invitation inv_factor inv_install)

definition account_step :: "account_prims \<Rightarrow> account_db \<Rightarrow> account_db \<Rightarrow> bool" where
  "account_step P db db' \<longleftrightarrow> (\<exists>op. db' = account_do P op db)"

lemma run_steps: "(account_step P)\<^sup>*\<^sup>* db (account_run P ops db)"
proof (induction ops arbitrary: db)
  case (Cons op ops)
  have "account_step P db (account_do P op db)" by (auto simp: account_step_def)
  with Cons[of "account_do P op db"] show ?case by simp
qed simp

interpretation accounts: guarded_steps "account_step P" account_inv for P
  by unfold_locales (auto simp: account_step_def intro: do_inv)

lemmas run_inv = accounts.run_good[OF run_steps]

end
