(* ===== verification/Spent_Rows.thy ===== *)
theory Spent_Rows
  imports Account_Invariant
begin

text \<open>
  What is used up stays used up: the links of \<open>auth_tokens\<close>, the recovery codes and the time steps of a
  factor. For each of the three tables, how its rows may move under any operation, and which rows an
  operation may insert.
\<close>

section \<open>Links\<close>

definition token_keeps :: "auth_token \<Rightarrow> auth_token \<Rightarrow> bool" where
  "token_keeps t t' \<longleftrightarrow> tk_id t' = tk_id t \<and> tk_token_hash t' = tk_token_hash t \<and> tk_purpose t' = tk_purpose t
     \<and> tk_user_id t' = tk_user_id t \<and> tk_expires_at t' = tk_expires_at t \<and> tk_attempts t \<le> tk_attempts t'
     \<and> (tk_consumed_at t \<noteq> None \<longrightarrow> tk_consumed_at t' = tk_consumed_at t)"

fun token_hashes :: "account_prims \<Rightarrow> account_op \<Rightarrow> string set" where
  "token_hashes P (Credentials (Mint_reset c f e)) = {ap_sha256 P (ft_token f)}"
| "token_hashes P (Credentials (Mint_recovery c f e)) = {ap_sha256 P (ft_token f)}"
| "token_hashes P (Credentials (Deliver_reset c f r)) = {ap_sha256 P (ft_token f)}"
| "token_hashes P (Second_factor (Begin_challenge n c f u)) = {ap_sha256 P (ft_token f)}"
| "token_hashes P (Installs (Mint_setup c f)) = {ap_sha256 P (ft_token f)}"
| "token_hashes P _ = {}"

abbreviation tokens_move :: "string set \<Rightarrow> auth_token list \<Rightarrow> auth_token list \<Rightarrow> bool" where
  "tokens_move \<equiv> rows_move token_keeps tk_token_hash"

interpretation tokens: row_moves ac_tokens token_keeps tk_token_hash
  by unfold_locales (auto simp: token_keeps_def)

lemma spend_moves [simp]: "tokens_move H (ac_tokens db) (ac_tokens (spend_where n Q db))"
  by (auto simp: spend_where_def token_keeps_def intro!: tokens.moves_upd)

lemma spend_moves_eq: "ac_tokens db = rows \<Longrightarrow> tokens_move H rows (ac_tokens (spend_where n Q db))"
  using spend_moves by blast

lemma link_tokens: "mint_link P c f u pu ttl db = Inr (v, db') \<Longrightarrow> tokens_move {ap_sha256 P (ft_token f)} (ac_tokens db) (ac_tokens db')"
  by (auto simp: mint_link_def bindR_Inr_iff dest!: insert_Inr intro!: tokens.moves_snoc)

lemma rotate_others_tokens:
  "rotate_and_revoke_others P k n f who spend db = Inr (v, db') \<Longrightarrow> tokens_move H (ac_tokens db) (ac_tokens db')"
  by (auto simp: rotate_and_revoke_others_def Let_def split: prod.splits if_splits intro!: spend_moves_eq)

lemma credential_change_tokens:
  "change_password P k n c i f w p cur db = Inr (v, db') \<Longrightarrow> tokens_move H (ac_tokens db) (ac_tokens db')"
  "change_email P k n c f w e db = Inr (v', db') \<Longrightarrow> tokens_move H (ac_tokens db) (ac_tokens db')"
  "unlink_identity P k n c f w p db = Inr (v, db') \<Longrightarrow> tokens_move H (ac_tokens db) (ac_tokens db')"
  "remove_factor P k n f w i pr db = Inr (v, db') \<Longrightarrow> tokens_move H (ac_tokens db) (ac_tokens db')"
  "confirm_enrolment P k n i f w r ct ver st cs db = Inr (v, db') \<Longrightarrow> tokens_move H (ac_tokens db) (ac_tokens db')"
  by (metis credential_rotates(1) rotate_others_tokens, metis credential_rotates(2) rotate_others_tokens tokens.moves_refl,
      metis credential_rotates(3) rotate_others_tokens, metis credential_rotates(4) rotate_others_tokens,
      metis credential_rotates(5) rotate_others_tokens)

lemma session_tokens: "ac_tokens (session_do P op db) = ac_tokens db"
  by (cases op)
    (auto simp: revoke_session_row_def revoke_all_def rotate_revoke_def mint_def mint_in_def mint_behind_the_gate_def resolve_def committed_def
      bindR_Inr_iff Let_def dest!: insert_Inr split: sum.splits option.splits if_splits prod.splits)

lemma life_tokens: "tokens_move H (ac_tokens db) (ac_tokens (life_do P op db))"
  by (cases op)
    (auto simp: change_role_def change_state_def delete_account_def request_deletion_def restore_def purge_claim_def purge_finish_def
      end_of_account_access_def Let_def intro!: tokens.committed_moves spend_moves_eq split: option.splits if_splits)

lemma complete_tokens:
  "complete_reset P k n i t p db = Inr (v, db') \<Longrightarrow>
     ac_tokens db' = ac_tokens (spend_where n (usable_reset P n t) db)"
  by (auto simp: complete_reset_def bindR_Inr_iff Let_def dest!: put_tables(1) split: option.splits)

lemma credential_tokens: "tokens_move (token_hashes P (Credentials op)) (ac_tokens db) (ac_tokens (credential_do P op db))"
  by (cases op)
    (auto simp: mint_reset_def mint_admin_recovery_def deliver_reset_def complete_tokens dest: link_tokens credential_change_tokens
      intro!: tokens.committed_moves split: option.splits sum.splits)

lemma invitation_tokens: "ac_tokens (invitation_do P op db) = ac_tokens db"
  by (cases op)
    (auto simp: invite_def revoke_invitation_def reveal_def register_def bindR_Inr_iff Let_def committed_def dest!: insert_Inr
      split: option.splits sum.splits)

lemma spend_proof_tables [simp]: "ac_tokens (snd (spend_proof n i p db)) = ac_tokens db" "ac_users (snd (spend_proof n i p db)) = ac_users db"
  by (simp_all add: spend_proof_def Let_def split: proof_of_factor.splits)

lemma begin_tokens:
  "begin_challenge P n c f u db = Inr (v, db') \<Longrightarrow> tokens_move {ap_sha256 P (ft_token f)} (ac_tokens db) (ac_tokens db')"
proof -
  assume "begin_challenge P n c f u db = Inr (v, db')"
  then obtain t where "ac_tokens db' = ac_tokens (spend_where n (outstanding_challenge n u) db) @ [t]"
    "tk_token_hash t = ap_sha256 P (ft_token f)"
    by (auto simp: begin_challenge_def bindR_Inr_iff Let_def dest!: insert_Inr)
  then show ?thesis by (simp add: tokens.moves_snoc)
qed

lemma win_tokens: "win_challenge n t i p db = Inr (v, db') \<Longrightarrow> ac_tokens db' = ac_tokens (spend_where n (\<lambda>q. tk_id q = t) db)"
  by (auto simp: win_challenge_def Let_def split_beta)

lemma factor_tokens: "tokens_move (token_hashes P (Second_factor op)) (ac_tokens db) (ac_tokens (factor_do P op db))"
  by (cases op)
    (auto simp: count_guess_def spend_replacement_attempt_def clear_factor_def Let_def win_tokens token_keeps_def
      dest: begin_tokens credential_change_tokens intro!: tokens.committed_moves tokens.moves_upd split: option.splits)

lemma setup_tokens:
  "mint_setup_token P c f db = Inr (v, db') \<Longrightarrow> tokens_move {ap_sha256 P (ft_token f)} (ac_tokens db) (ac_tokens db')"
proof -
  assume "mint_setup_token P c f db = Inr (v, db')"
  then obtain t Q where "ac_tokens db' = del_where Q (ac_tokens db) @ [t]" "tk_token_hash t = ap_sha256 P (ft_token f)"
    by (auto simp: mint_setup_token_def bindR_Inr_iff Let_def dest!: insert_Inr)
  then show ?thesis by (simp add: tokens.moves_snoc)
qed

lemma install_tokens: "tokens_move (token_hashes P (Installs op)) (ac_tokens db) (ac_tokens (install_do P op db))"
  by (cases op)
    (auto simp: decide_startup_auth_mode_def ensure_local_user_def claim_def decline_accounts_def turn_accounts_on_def
      ensure_claimable_def collapse_def reclaim_restore_def rotate_keys_def spend_setup_def bindR_Inr_iff Let_def
      dest: setup_tokens dest!: insert_Inr record_mode_tables adopt_tables intro!: tokens.committed_moves split: option.splits if_splits sum.splits)

lemma do_tokens: "tokens_move (token_hashes P op) (ac_tokens db) (ac_tokens (account_do P op db))"
proof (cases op)
  case (Sessions op') then show ?thesis by (simp add: session_tokens)
next
  case (Life op') then show ?thesis using life_tokens by simp
next
  case (Credentials op') then show ?thesis using credential_tokens by simp
next
  case (Invitations op') then show ?thesis by (simp add: invitation_tokens)
next
  case (Second_factor op') then show ?thesis using factor_tokens by simp
next
  case (Installs op') then show ?thesis using install_tokens by simp
qed simp

interpretation token_runs: moved_by_runs ac_tokens token_keeps tk_token_hash token_hashes
  by unfold_locales (rule do_tokens)

section \<open>Time steps and recovery codes\<close>

definition factor_keeps :: "auth_factor \<Rightarrow> auth_factor \<Rightarrow> bool" where
  "factor_keeps f f' \<longleftrightarrow> af_id f' = af_id f \<and> af_user_id f' = af_user_id f
     \<and> (\<forall>s. af_last_step f = Some s \<longrightarrow> (\<exists>s'. af_last_step f' = Some s' \<and> s \<le> s'))"

definition code_keeps :: "recovery_code \<Rightarrow> recovery_code \<Rightarrow> bool" where
  "code_keeps c c' \<longleftrightarrow> rv_id c' = rv_id c \<and> rv_user_id c' = rv_user_id c \<and> rv_code_hash c' = rv_code_hash c
     \<and> (rv_consumed_at c \<noteq> None \<longrightarrow> rv_consumed_at c' = rv_consumed_at c)"

fun factor_ids :: "account_prims \<Rightarrow> account_op \<Rightarrow> uuid set" where
  "factor_ids P (Second_factor (Confirm_enrolment k n i f w r c v s cs)) = {i}"
| "factor_ids P _ = {}"

fun code_ids :: "account_prims \<Rightarrow> account_op \<Rightarrow> uuid set" where
  "code_ids P (Second_factor (Confirm_enrolment k n i f w r c v s cs)) = fst ` set cs"
| "code_ids P _ = {}"

abbreviation factors_move :: "uuid set \<Rightarrow> auth_factor list \<Rightarrow> auth_factor list \<Rightarrow> bool" where
  "factors_move \<equiv> rows_move factor_keeps af_id"

abbreviation codes_move :: "uuid set \<Rightarrow> recovery_code list \<Rightarrow> recovery_code list \<Rightarrow> bool" where
  "codes_move \<equiv> rows_move code_keeps rv_id"

interpretation factors: row_moves ac_factors factor_keeps af_id
  by unfold_locales (auto simp: factor_keeps_def, (metis order_trans)?)

interpretation codes: row_moves ac_codes code_keeps rv_id
  by unfold_locales (auto simp: code_keeps_def)

text \<open>The operations that leave both tables alone.\<close>

lemma rotate_others_factors:
  "rotate_and_revoke_others P k n f who spend db = Inr (v, db') \<Longrightarrow> ac_factors db' = ac_factors db \<and> ac_codes db' = ac_codes db"
  by (auto simp: rotate_and_revoke_others_def Let_def split: prod.splits if_splits)

lemma session_factors: "ac_factors (session_do P op db) = ac_factors db \<and> ac_codes (session_do P op db) = ac_codes db"
  by (cases op)
    (auto simp: revoke_session_row_def revoke_all_def rotate_revoke_def mint_def mint_in_def mint_behind_the_gate_def resolve_def committed_def
      bindR_Inr_iff Let_def dest!: insert_Inr split: sum.splits option.splits if_splits prod.splits)

lemma credential_change_factors:
  "change_password P k n c i f w p cur db = Inr (v, db') \<Longrightarrow> ac_factors db' = ac_factors db \<and> ac_codes db' = ac_codes db"
  "change_email P k n c f w e db = Inr (v', db') \<Longrightarrow> ac_factors db' = ac_factors db \<and> ac_codes db' = ac_codes db"
  "unlink_identity P k n c f w p db = Inr (v, db') \<Longrightarrow> ac_factors db' = ac_factors db \<and> ac_codes db' = ac_codes db"
  "complete_reset P k n i t p db = Inr (v2, db') \<Longrightarrow> ac_factors db' = ac_factors db \<and> ac_codes db' = ac_codes db"
  "mint_link P m ft u pu ttl db = Inr (v3, db') \<Longrightarrow> ac_factors db' = ac_factors db \<and> ac_codes db' = ac_codes db"
proof -
  show "change_password P k n c i f w p cur db = Inr (v, db') \<Longrightarrow> ac_factors db' = ac_factors db \<and> ac_codes db' = ac_codes db"
    by (auto simp: change_password_def bindR_Inr_iff Let_def dest!: rotate_others_factors store_password_tables)
  show "change_email P k n c f w e db = Inr (v', db') \<Longrightarrow> ac_factors db' = ac_factors db \<and> ac_codes db' = ac_codes db"
    by (auto simp: change_email_def bindR_Inr_iff Let_def dest!: rotate_others_factors put_tables(2) split: option.splits if_splits)
  show "unlink_identity P k n c f w p db = Inr (v, db') \<Longrightarrow> ac_factors db' = ac_factors db \<and> ac_codes db' = ac_codes db"
    by (auto simp: unlink_identity_def bindR_Inr_iff Let_def dest!: rotate_others_factors split: option.splits)
  show "complete_reset P k n i t p db = Inr (v2, db') \<Longrightarrow> ac_factors db' = ac_factors db \<and> ac_codes db' = ac_codes db"
    by (auto simp: complete_reset_def bindR_Inr_iff Let_def dest!: put_tables(1) split: option.splits)
  show "mint_link P m ft u pu ttl db = Inr (v3, db') \<Longrightarrow> ac_factors db' = ac_factors db \<and> ac_codes db' = ac_codes db"
    by (auto simp: mint_link_def bindR_Inr_iff dest!: insert_Inr)
qed

lemma credential_factors: "ac_factors (credential_do P op db) = ac_factors db \<and> ac_codes (credential_do P op db) = ac_codes db"
  by (cases op)
    (auto simp: mint_reset_def mint_admin_recovery_def deliver_reset_def committed_def dest: credential_change_factors
      split: option.splits sum.splits)

lemma invitation_factors: "ac_factors (invitation_do P op db) = ac_factors db \<and> ac_codes (invitation_do P op db) = ac_codes db"
  by (cases op)
    (auto simp: invite_def revoke_invitation_def reveal_def register_def bindR_Inr_iff Let_def committed_def dest!: insert_Inr
      split: option.splits sum.splits)

lemma life_factors: "factors_move F (ac_factors db) (ac_factors (life_do P op db))" "codes_move G (ac_codes db) (ac_codes (life_do P op db))"
  by (cases op;
    auto simp: change_role_def change_state_def delete_account_def request_deletion_def restore_def purge_claim_def purge_finish_def
      end_of_account_access_def Let_def intro!: factors.committed_moves codes.committed_moves split: option.splits if_splits)+

text \<open>Spending a proof and dropping the factor it proved.\<close>

lemma spend_proof_moves [simp]:
  "factors_move F (ac_factors db) (ac_factors (snd (spend_proof n i p db)))" "codes_move G (ac_codes db) (ac_codes (snd (spend_proof n i p db)))"
  by (auto simp: spend_proof_def Let_def factor_keeps_def code_keeps_def intro!: factors.moves_upd codes.moves_upd split: proof_of_factor.splits)

lemma drop_factor_moves:
  assumes "drop_factor n u i p db = Inr db'"
  shows "factors_move F (ac_factors db) (ac_factors db')" "codes_move G (ac_codes db) (ac_codes db')"
proof -
  have "db' = ac_factors_update (del_where (\<lambda>f. af_user_id f = u \<and> af_id f = i)) (snd (spend_proof n i p db))"
    using assms by (auto simp: drop_factor_def Let_def split_beta)
  then show "factors_move F (ac_factors db) (ac_factors db')" "codes_move G (ac_codes db) (ac_codes db')"
    by (simp_all add: factors.moves_del)
qed

lemma insert_codes_moves: "insert_codes P u cs db = Inr db' \<Longrightarrow> codes_move (fst ` set cs) (ac_codes db) (ac_codes db')"
proof (induction P u cs db rule: insert_codes.induct)
  case (2 P u cid code cs db)
  then obtain db1 where ins: "insert_code \<lparr>rv_id = cid, rv_user_id = u, rv_code_hash = ap_sha256 P code, rv_consumed_at = None\<rparr> db = Inr db1"
    and rest: "insert_codes P u cs db1 = Inr db'" by (auto simp: bindR_Inr_iff)
  have "codes_move (fst ` set ((cid, code) # cs)) (ac_codes db) (ac_codes db1)"
    using insert_Inr(7)[OF ins] by (simp add: codes.moves_snoc)
  moreover have "codes_move (fst ` set ((cid, code) # cs)) (ac_codes db1) (ac_codes db')"
    by (rule codes.moves_mono[OF 2(1)[OF rest]]) auto
  ultimately show ?case by (rule codes.moves_trans)
qed simp

lemma remove_factor_moves:
  assumes "remove_factor P k n f w i p db = Inr (v, db')"
  shows "factors_move F (ac_factors db) (ac_factors db')" "codes_move G (ac_codes db) (ac_codes db')"
proof -
  from assms obtain db1 iss where drop: "drop_factor n (u_id (snd w)) i p db = Inr db1"
    and rot: "rotate_and_revoke_others P k n f w False (drop_codes (u_id (snd w)) db1) = Inr (iss, db')"
    by (auto simp: remove_factor_def bindR_Inr_iff Let_def)
  show "factors_move F (ac_factors db) (ac_factors db')"
    using drop_factor_moves(1)[OF drop] rotate_others_factors[OF rot] by simp
  show "codes_move G (ac_codes db) (ac_codes db')"
    using drop_factor_moves(2)[OF drop] rotate_others_factors[OF rot]
    by (simp add: drop_codes_def codes.moves_del)
qed

lemma confirm_enrolment_moves:
  assumes "confirm_enrolment P k n i f w r ct ver st cs db = Inr (v, db')"
  shows "factors_move {i} (ac_factors db) (ac_factors db')" "codes_move (fst ` set cs) (ac_codes db) (ac_codes db')"
proof -
  let ?u = "u_id (snd w)"
  let ?new = "\<lparr>af_id = i, af_user_id = ?u, af_secret_ciphertext = ct, af_key_version = ver, af_last_step = Some st,
    af_replace_attempts = 0, af_confirmed_at = Some n\<rparr>"
  from assms obtain db1 db2 db3 iss where step: "(case r of None \<Rightarrow> Inr db | Some (old, p) \<Rightarrow> drop_factor n ?u old p db) = Inr db1"
    and ins: "insert_factor ?new db1 = Inr db2" and codes: "insert_codes P ?u cs (drop_codes ?u db2) = Inr db3"
    and rot: "rotate_and_revoke_others P k n f w False db3 = Inr (iss, db')"
    unfolding confirm_enrolment_def Let_def bindR_Inr_iff rethrow_Inr by auto
  have drop: "db1 = db \<or> (\<exists>old p. drop_factor n ?u old p db = Inr db1)" using step by (auto split: option.splits)
  have one: "factors_move {i} (ac_factors db) (ac_factors db1)" "codes_move (fst ` set cs) (ac_codes db) (ac_codes db1)"
    using drop drop_factor_moves by auto
  show "factors_move {i} (ac_factors db) (ac_factors db')"
    using one(1) insert_Inr(6)[OF ins] insert_codes_tables[OF codes] rotate_others_factors[OF rot]
    by (simp add: factors.moves_snoc)
  have "codes_move (fst ` set cs) (ac_codes db1) (ac_codes (drop_codes ?u db2))"
    using insert_Inr(6)[OF ins] by (simp add: drop_codes_def)
  with one(2) insert_codes_moves[OF codes] show "codes_move (fst ` set cs) (ac_codes db) (ac_codes db')"
    using rotate_others_factors[OF rot] by (metis codes.moves_trans)
qed

lemma win_moves:
  assumes "win_challenge n t i p db = Inr (v, db')"
  shows "factors_move F (ac_factors db) (ac_factors db')" "codes_move G (ac_codes db) (ac_codes db')"
proof -
  let ?sp = "snd (spend_proof n i p (spend_where n (\<lambda>q. tk_id q = t) db))"
  have db': "db' = ac_factors_update (upd_where (\<lambda>f. af_id f = i \<and> af_replace_attempts f > 0) (\<lambda>f. f\<lparr>af_replace_attempts := 0\<rparr>)) ?sp"
    using assms by (auto simp: win_challenge_def Let_def split_beta)
  have "factors_move F (ac_factors ?sp) (ac_factors db')"
    unfolding db' by (auto simp: factor_keeps_def intro!: factors.moves_upd)
  then show "factors_move F (ac_factors db) (ac_factors db')"
    using spend_proof_moves(1)[of F "spend_where n (\<lambda>q. tk_id q = t) db"] by (auto intro: factors.moves_trans)
  show "codes_move G (ac_codes db) (ac_codes db')"
    using spend_proof_moves(2)[of G "spend_where n (\<lambda>q. tk_id q = t) db"] by (simp add: db')
qed

lemma factor_moves:
  "factors_move (factor_ids P (Second_factor op)) (ac_factors db) (ac_factors (factor_do P op db))"
  "codes_move (code_ids P (Second_factor op)) (ac_codes db) (ac_codes (factor_do P op db))"
proof -
  have begin_same: "begin_challenge P n c f u db = Inr (v, db') \<Longrightarrow> ac_factors db' = ac_factors db \<and> ac_codes db' = ac_codes db" for n c f u v db'
    by (auto simp: begin_challenge_def bindR_Inr_iff Let_def dest!: insert_Inr)
  show "factors_move (factor_ids P (Second_factor op)) (ac_factors db) (ac_factors (factor_do P op db))"
    by (cases op)
      (auto simp: count_guess_def spend_replacement_attempt_def clear_factor_def Let_def factor_keeps_def
        dest: begin_same win_moves(1) remove_factor_moves(1) confirm_enrolment_moves(1)
        intro!: factors.committed_moves factors.moves_upd split: option.splits)
  show "codes_move (code_ids P (Second_factor op)) (ac_codes db) (ac_codes (factor_do P op db))"
    by (cases op)
      (auto simp: count_guess_def spend_replacement_attempt_def clear_factor_def Let_def drop_codes_def
        dest: begin_same win_moves(2) remove_factor_moves(2) confirm_enrolment_moves(2)
        intro!: codes.committed_moves split: option.splits)
qed

lemma rotate_rows_moves: "rotate_rows P ring ns fs = Inr fs' \<Longrightarrow> factors_move F fs fs'"
  unfolding rows_move_def
  by (induction P ring ns fs arbitrary: fs' rule: rotate_rows.induct)
    (fastforce simp: bindR_Inr_iff rotate_factor_def factor_keeps_def split: if_splits)+

lemma install_factors:
  "factors_move F (ac_factors db) (ac_factors (install_do P op db))" "codes_move G (ac_codes db) (ac_codes (install_do P op db))"
  by (cases op;
    auto simp: decide_startup_auth_mode_def ensure_local_user_def mint_setup_token_def claim_def decline_accounts_def turn_accounts_on_def
      ensure_claimable_def collapse_def reclaim_restore_def rotate_keys_def spend_setup_def bindR_Inr_iff Let_def
      dest: rotate_rows_moves dest!: insert_Inr record_mode_tables adopt_tables
      intro!: factors.committed_moves codes.committed_moves split: option.splits if_splits sum.splits)+

interpretation factor_runs: moved_by_runs ac_factors factor_keeps af_id factor_ids
proof
  fix P op db
  show "factors_move (factor_ids P op) (ac_factors db) (ac_factors (account_do P op db))"
    by (cases op)
      (auto simp: session_factors credential_factors invitation_factors simp del: factor_ids.simps
        intro: life_factors factor_moves install_factors)
qed

interpretation code_runs: moved_by_runs ac_codes code_keeps rv_id code_ids
proof
  fix P op db
  show "codes_move (code_ids P op) (ac_codes db) (ac_codes (account_do P op db))"
    by (cases op)
      (auto simp: session_factors credential_factors invitation_factors simp del: code_ids.simps
        intro: life_factors factor_moves install_factors)
qed

end
