(* ===== verification/Session_Contract.thy ===== *)
theory Session_Contract
  imports Spent_Rows
begin

text \<open>
  What holds of sessions, links and second factors in every run of the account modules: an ended
  session never identifies a request again, a change of credentials leaves one session under a new
  token, a link and a proof of a factor work once, and a challenge allows ten guesses.
\<close>

section \<open>A small installation\<close>

definition house_prims :: account_prims where
  "house_prims = \<lparr>ap_sha256 = id, ap_strip = id, ap_lower = id, ap_btrim = id, ap_sql_lower = id, ap_argon_hash = (\<lambda>p. ''h'' @ p),
     ap_argon_verify = (\<lambda>h p. h = ''h'' @ p), ap_blocklist = [], ap_hmac_sha1 = (\<lambda>_ _. None), ap_crypto = clear_crypto,
     ap_ring = Inr demo_ring\<rparr>"

definition house_user :: "string \<Rightarrow> string \<Rightarrow> account" where
  "house_user i role = \<lparr>u_id = i, u_email = i @ ''@x'', u_mail_verified = True, u_role = role, u_state = ''active'', u_prior_state = None,
     u_deletion_requested_at = None\<rparr>"

definition house_login :: "string \<Rightarrow> string \<Rightarrow> login_session" where
  "house_login i user = \<lparr>ls_id = i, ls_user_id = user, ls_token_hash = i @ ''-token'', ls_remember_me = False,
     ls_absolute_expires_at = ABSOLUTE, ls_idle_expires_at = None, ls_recent_auth_at = Some 0, ls_revoked_at = None, ls_last_seen_at = None\<rparr>"

definition house :: account_db where
  "house = \<lparr>ac_users = [house_user ''ann'' ''admin'', house_user ''ben'' ''user''],
     ac_identities = [\<lparr>ai_id = ''i1'', ai_user_id = ''ben'', ai_provider = ''password'', ai_subject = ''ben@x'', ai_password_hash = Some ''hold-password''\<rparr>],
     ac_logins = [house_login ''s1'' ''ben'', house_login ''s2'' ''ben''],
     ac_tokens = [\<lparr>tk_id = ''t1'', tk_user_id = Some ''ben'', tk_purpose = ''reset'', tk_token_hash = ''link'', tk_attempts = 0,
        tk_expires_at = RESET_TTL, tk_consumed_at = None\<rparr>,
        \<lparr>tk_id = ''t2'', tk_user_id = Some ''ann'', tk_purpose = ''challenge'', tk_token_hash = ''challenge'', tk_attempts = 1,
        tk_expires_at = CHALLENGE_TTL, tk_consumed_at = None\<rparr>],
     ac_invitations = [],
     ac_factors = [\<lparr>af_id = ''f1'', af_user_id = ''ann'', af_secret_ciphertext = [], af_key_version = 1, af_last_step = Some 7,
        af_replace_attempts = 0, af_confirmed_at = Some 0\<rparr>],
     ac_codes = [\<lparr>rv_id = ''c1'', rv_user_id = ''ann'', rv_code_hash = ''code'', rv_consumed_at = None\<rparr>],
     ac_mode = Some (''accounts'', Some 1), ac_fleet = demo_committed\<rparr>"

lemma house_inv: "account_inv house"
  by (simp add: account_inv_def house_def house_user_def house_login_def users_ok_def user_ok_def ROLES_def ACCOUNT_STATES_def logins_ok_def
      tokens_ok_def token_ok_def factors_ok_def MAX_ATTEMPTS_def codes_ok_def invitations_ok_def identities_ok_def)

section \<open>The tables\<close>

text \<open>
  Property C19 (type). Whatever transactions run, in whatever order and with whatever stale arguments,
  from an installation before its first start on: ids, addresses, session tokens, link tokens and
  invitation tokens are unique; every role and state is one of the closed sets; an account has at
  most one password and one factor; only setup links are without an account; the attempts of a
  challenge are not negative and those of a replacement never exceed ten.
\<close>

theorem account_tables_are_typed: "account_inv (account_run P ops (no_accounts f))"
  by (rule run_inv[OF account_inv_empty])

section \<open>Sessions\<close>

lemma resolve_sound:
  assumes "fst (resolve P c t db) = Some (s', u)"
  shows "\<exists>s \<in> set (ac_logins db). ls_id s' = ls_id s \<and> ls_revoked_at s = None \<and> \<not> expired c s \<and> ls_token_hash s = ap_sha256 P t
     \<and> ls_user_id s = u_id u \<and> u \<in> set (ac_users db)"
proof -
  from assms obtain row where row: "find (\<lambda>s. ls_token_hash s = ap_sha256 P t) (ac_logins db) = Some row"
    and u: "user_of (ls_user_id row) db = Some u" and live: "ls_revoked_at row = None" "\<not> expired c row"
    and s': "s' = touched c u row"
    by (auto simp: resolve_def split: option.splits if_splits)
  have "ls_id s' = ls_id row" by (simp add: s' touched_def)
  moreover have "u_id u = ls_user_id row" "u \<in> set (ac_users db)" using u by (auto simp: user_of_def dest: find_SomeD)
  ultimately show ?thesis using find_SomeD[OF row] live by metis
qed

lemma principal_sound:
  assumes "fst (current_principal P c req db) = Inr (s', u)"
  shows "(\<exists>t. fst (resolve P c t db) = Some (s', u)) \<and> u_state u \<notin> set CANNOT_SIGN_IN"
  using assms by (auto simp: current_principal_def Let_def split: option.splits prod.splits if_splits)
    (metis fst_conv)+

lemma login_of_unique: "account_inv db \<Longrightarrow> login_of i db = Some s \<Longrightarrow> q \<in> set (ac_logins db) \<Longrightarrow> ls_id q = i \<Longrightarrow> q = s"
  using account_invD(2)[of db] by (auto simp: logins_ok_def login_of_def distinct_map inj_on_def dest!: find_SomeD)

text \<open>
  Property C11 (safety). A session that was revoked never again identifies a request, is never
  reported live and is never selected among the live ones, whatever happens later, unless a session
  is minted under the same id.
\<close>

theorem ended_session_never_returns:
  assumes "account_inv db" "login_of sid db = Some s" "ls_revoked_at s \<noteq> None" "\<forall>op \<in> set ops. sid \<notin> session_ids P op"
  shows "\<not> is_live c sid (account_run P ops db) \<and> sid \<notin> set (live_among c ids (account_run P ops db))
     \<and> (case fst (current_principal P c req (account_run P ops db)) of Inr (s', u) \<Rightarrow> ls_id s' \<noteq> sid | Inl _ \<Rightarrow> True)"
proof -
  let ?db = "account_run P ops db"
  have ended: "\<forall>r \<in> set (ac_logins ?db). ls_id r = sid \<longrightarrow> ls_revoked_at r \<noteq> None"
    using login_of_unique[OF assms(1,2)] assms(3) by (intro login_runs.run_keeps[OF assms(4)]) (auto simp: login_keeps_def)
  then have "\<not> is_live c sid ?db" by (auto simp: is_live_def login_of_def split: option.splits dest: find_SomeD)
  moreover have "sid \<notin> set (live_among c ids ?db)" using ended by (auto simp: live_among_def)
  moreover have "ls_id s' \<noteq> sid" if "fst (current_principal P c req ?db) = Inr (s', u)" for s' u
    using principal_sound[OF that] resolve_sound ended by metis
  ultimately show ?thesis by (simp split: sum.split)
qed

definition house_signed_out :: account_db where
  "house_signed_out = account_run house_prims [Sessions (Revoke (\<lambda>_. 1) 1 ''s1'')] house"

lemma house_signed_out_logins:
  "login_of ''s1'' house_signed_out = Some ((house_login ''s1'' ''ben'')\<lparr>ls_revoked_at := Some 1\<rparr>)"
proof -
  have "login_of ''s1'' house = Some (house_login ''s1'' ''ben'')" by (simp add: login_of_def house_def house_login_def)
  then have out: "house_signed_out = revoke_where 1 (\<lambda>q. ls_id q = ''s1'') (erase_realtime (\<lambda>_. 1) ''ben'' (Some [''s1'']) None house)"
    by (simp add: house_signed_out_def revoke_session_row_def Let_def house_login_def)
  have "ac_logins house_signed_out
      = upd_where (\<lambda>s. ls_id s = ''s1'' \<and> ls_revoked_at s = None) (\<lambda>s. s\<lparr>ls_revoked_at := Some 1\<rparr>) (ac_logins house)"
    unfolding out by (simp add: revoke_where_def)
  then show ?thesis by (simp add: login_of_def house_def house_login_def)
qed

lemma house_signed_out_inv: "account_inv house_signed_out"
  unfolding house_signed_out_def by (rule run_inv[OF house_inv])

theorem ended_session_never_returns_witness:
  "\<not> is_live 2 ''s1'' (account_run house_prims
      [Sessions (Resolve 2 ''s1-token''), Sessions (Mint 2 \<lparr>fs_id = ''s3'', fs_token = ''x'', fs_csrf = []\<rparr> (house_user ''ben'' ''user'') False True)]
      house_signed_out)"
  using ended_session_never_returns[OF house_signed_out_inv house_signed_out_logins, of "[Sessions (Resolve 2 ''s1-token''),
    Sessions (Mint 2 \<lparr>fs_id = ''s3'', fs_token = ''x'', fs_csrf = []\<rparr> (house_user ''ben'' ''user'') False True)]" house_prims 2]
  by simp

text \<open>What every change of a credential ends with.\<close>

lemma rotate_others_effect:
  assumes "rotate_and_revoke_others P k n f (s, u) spend db = Inr (iss, db')" "logins_ok (ac_logins db)"
  shows "\<forall>q \<in> set (ac_logins db'). ls_user_id q = u_id u \<and> ls_revoked_at q = None \<longrightarrow>
       ls_id q = ls_id s \<and> ls_token_hash q = ap_sha256 P (fs_token f)"
    "\<exists>q \<in> set (ac_logins db'). ls_id q = ls_id s \<and> ls_token_hash q = ap_sha256 P (fs_token f) \<and> ls_revoked_at q = None"
    "is_token iss = fs_token f"
    "spend \<Longrightarrow> \<forall>t \<in> set (ac_tokens db'). mailed_link (u_id u) t \<longrightarrow> tk_consumed_at t \<noteq> None"
proof -
  let ?db = "before_swap k n (s, u) spend db" and ?g = "\<lambda>q. q\<lparr>ls_token_hash := ap_sha256 P (fs_token f)\<rparr>"
  note run = rotate_others_Inr[OF assms(1), unfolded fst_conv]
  have uniq: "distinct (map ls_id (ac_logins ?db))" using assms(2) by (auto simp: logins_ok_def intro!: distinct_upd)
  have mine: "ls_id r = ls_id s" if "r \<in> set (ac_logins ?db)" "ls_user_id r = u_id u" "ls_revoked_at r = None" for r
    using that by (auto simp: set_upd_where split: if_splits)
  from run(3) obtain w where w: "w \<in> set (ac_logins ?db)" "swapped s w" by blast
  have only: "swapped s r" if "r \<in> set (ac_logins ?db)" "ls_user_id r = u_id u" "ls_revoked_at r = None" for r
  proof -
    have "r = w" using uniq w that(1) mine[OF that] by (auto simp: distinct_map inj_on_def swapped_def simp del: before_swap_tables)
    with w show ?thesis by simp
  qed
  have L: "set (ac_logins db') = (\<lambda>r. if swapped s r then ?g r else r) ` set (ac_logins ?db)" by (simp add: run(1) set_upd_where del: before_swap_tables)
  show "\<forall>q \<in> set (ac_logins db'). ls_user_id q = u_id u \<and> ls_revoked_at q = None \<longrightarrow> ls_id q = ls_id s \<and> ls_token_hash q = ap_sha256 P (fs_token f)"
  proof (intro ballI impI)
    fix q assume "q \<in> set (ac_logins db')" and live: "ls_user_id q = u_id u \<and> ls_revoked_at q = None"
    then obtain r where r: "r \<in> set (ac_logins ?db)" "q = (if swapped s r then ?g r else r)" unfolding L by blast
    with live have "ls_user_id r = u_id u" "ls_revoked_at r = None" by (simp_all split: if_splits)
    with r only have "swapped s r" by blast
    with r(2) show "ls_id q = ls_id s \<and> ls_token_hash q = ap_sha256 P (fs_token f)" by (simp add: swapped_def)
  qed
  have "?g w \<in> set (ac_logins db')" unfolding L using w by (intro image_eqI[of _ _ w]) (simp_all del: before_swap_tables)
  then show "\<exists>q \<in> set (ac_logins db'). ls_id q = ls_id s \<and> ls_token_hash q = ap_sha256 P (fs_token f) \<and> ls_revoked_at q = None"
    using w(2) by (intro bexI[of _ "?g w"]) (simp_all add: swapped_def)
  show "is_token iss = fs_token f" by (simp add: run(2) issue_def)
  show "spend \<Longrightarrow> \<forall>t \<in> set (ac_tokens db'). mailed_link (u_id u) t \<longrightarrow> tk_consumed_at t \<noteq> None"
    by (auto simp: run(1) spend_where_def set_upd_where mailed_link_def split: if_splits)
qed

text \<open>
  Property C13 (functional). When a password or address is changed, an identity unlinked, or a factor
  enrolled, replaced or removed, the account has exactly one session left, the one the request came
  with, under the new token that is handed back: nobody who presents any other token is the account
  any more.
\<close>

theorem credential_change_leaves_one_session:
  assumes "account_inv db"
    and "change_password P k n c i f (s, u) pw cur db = Inr ((iss, fx), db') \<or> change_email P k n c f (s, u) e db = Inr ((Some iss, fx), db')
       \<or> unlink_identity P k n c f (s, u) pr db = Inr ((iss, fx), db') \<or> remove_factor P k n f (s, u) i p db = Inr ((iss, fx), db')
       \<or> confirm_enrolment P k n i f (s, u) r ct ver st cs db = Inr ((iss, fx), db')"
  shows "(\<forall>q \<in> set (ac_logins db'). ls_user_id q = u_id u \<and> ls_revoked_at q = None \<longrightarrow>
         ls_id q = ls_id s \<and> ls_token_hash q = ap_sha256 P (is_token iss))
     \<and> (\<exists>q \<in> set (ac_logins db'). ls_id q = ls_id s \<and> ls_token_hash q = ap_sha256 P (is_token iss) \<and> ls_revoked_at q = None)
     \<and> (\<forall>t s' u'. fst (resolve P c' t db') = Some (s', u') \<and> u_id u' = u_id u \<longrightarrow> ap_sha256 P t = ap_sha256 P (is_token iss))
     \<and> fx = [Close_sockets (u_id u) None (Some (ls_id s))]"
proof -
  obtain spend db1 where rot: "rotate_and_revoke_others P k n f (s, u) spend db1 = Inr (iss, db')" "ac_logins db1 = ac_logins db"
    and fx: "fx = [Close_sockets (u_id u) None (Some (ls_id s))]"
    using assms(2) by (elim disjE) (drule credential_rotates, fastforce)+
  have "logins_ok (ac_logins db1)" using account_invD(2)[OF assms(1)] rot(2) by simp
  note eff = rotate_others_effect[OF rot(1) this]
  have "ap_sha256 P t = ap_sha256 P (is_token iss)" if "fst (resolve P c' t db') = Some (s', u')" "u_id u' = u_id u" for t s' u'
    using resolve_sound[OF that(1)] that(2) eff(1,3) by metis
  with eff(1-3) fx show ?thesis by metis
qed

text \<open>A password change of the small installation.\<close>

definition house_change :: "(issued \<times> account_effect list) atx" where
  "house_change = change_password house_prims (\<lambda>_. 1) 1 1 ''i9'' \<lparr>fs_id = [], fs_token = ''fresh'', fs_csrf = []\<rparr>
     (house_login ''s1'' ''ben'', house_user ''ben'' ''user'') ''a new password'' (Some ''old-password'') house"

lemma house_change_runs: "\<exists>fx db'. house_change = Inr ((\<lparr>is_token = ''fresh'', is_csrf = [], is_max_age = None\<rparr>, fx), db')"
proof -
  have "recent_principal 1 (house_login ''s1'' ''ben'', house_user ''ben'' ''user'') = Inr (house_login ''s1'' ''ben'', house_user ''ben'' ''user'')"
    by (simp add: recent_principal_def is_recent_def house_login_def house_user_def spans)
  moreover have "policy_hash house_prims ''a new password'' = Inr ''ha new password''"
    by (simp add: policy_hash_def hash_password_def house_prims_def py_len_def MIN_LENGTH_def MAX_LENGTH_def)
  moreover have "\<not> current_password_wrong house_prims (password_identity ''ben'' house) (Some ''old-password'')"
    by (simp add: current_password_wrong_def password_identity_def house_def house_prims_def)
  ultimately show ?thesis
    by (simp add: house_change_def change_password_def house_user_def[of "''ben''"] Let_def store_password_def password_identity_def
        rotate_and_revoke_others_def issue_def revoke_where_def house_login_def house_def house_prims_def)
qed

theorem credential_change_leaves_one_session_witness:
  "\<exists>fx db'. house_change = Inr ((\<lparr>is_token = ''fresh'', is_csrf = [], is_max_age = None\<rparr>, fx), db')
     \<and> (\<forall>q \<in> set (ac_logins db'). ls_user_id q = ''ben'' \<and> ls_revoked_at q = None \<longrightarrow> ls_id q = ''s1'' \<and> ls_token_hash q = ''fresh'')"
proof -
  obtain fx db' where run: "house_change = Inr ((\<lparr>is_token = ''fresh'', is_csrf = [], is_max_age = None\<rparr>, fx), db')"
    using house_change_runs by blast
  have "\<forall>q \<in> set (ac_logins db'). ls_user_id q = ''ben'' \<and> ls_revoked_at q = None \<longrightarrow> ls_id q = ''s1'' \<and> ls_token_hash q = ''fresh''"
    using conjunct1[OF credential_change_leaves_one_session[OF house_inv disjI1[OF run[unfolded house_change_def]]]]
    by (simp add: house_user_def house_login_def house_prims_def)
  with run show ?thesis by blast
qed

section \<open>Links and proofs\<close>

text \<open>
  Property C18 (safety). A reset or recovery link that set a password is refused for ever, whatever
  happens in between, unless a link with the same token is minted again.
\<close>

theorem reset_link_works_once:
  assumes "account_inv db" "complete_reset P k n i t pw db = Inr (fx, db')" "\<forall>op \<in> set ops. ap_sha256 P t \<notin> token_hashes P op"
  shows "complete_reset P k' n' i' t pw' (account_run P ops db') = Inl (HTTP 403 ''invalid or expired reset link'')"
proof -
  obtain t0 where found: "find (usable_reset P n t) (ac_tokens db) = Some t0"
    using assms(2) by (auto simp: complete_reset_def split: option.splits)
  have only: "q = t0" if "q \<in> set (ac_tokens db)" "tk_token_hash q = ap_sha256 P t" for q
    using find_SomeD[OF found] that account_invD(3)[OF assms(1)]
    by (auto simp: usable_reset_def tokens_ok_def distinct_map inj_on_def)
  have "tk_consumed_at q \<noteq> None" if "q \<in> set (ac_tokens db')" "tk_token_hash q = ap_sha256 P t" for q
    using that only find_SomeD[OF found] unfolding complete_tokens[OF assms(2)]
    by (fastforce simp: spend_where_def set_upd_where split: if_splits)
  then have "\<forall>q \<in> set (ac_tokens (account_run P ops db')). tk_token_hash q = ap_sha256 P t \<longrightarrow> tk_consumed_at q \<noteq> None"
    by (intro token_runs.run_keeps[OF assms(3)]) (auto simp: token_keeps_def)
  then have "find (usable_reset P n' t) (ac_tokens (account_run P ops db')) = None"
    by (auto simp: find_None_iff usable_reset_def)
  then show ?thesis by (simp add: complete_reset_def)
qed

definition house_reset :: "account_effect list atx" where
  "house_reset = complete_reset house_prims (\<lambda>_. 1) 1 ''i9'' ''link'' ''a new password'' house"

lemma house_reset_runs: "\<exists>fx db'. house_reset = Inr (fx, db')"
proof -
  have "policy_hash house_prims ''a new password'' = Inr ''ha new password''"
    by (simp add: policy_hash_def hash_password_def house_prims_def py_len_def MIN_LENGTH_def MAX_LENGTH_def)
  then show ?thesis
    by (simp add: house_reset_def complete_reset_def put_password_def usable_reset_def RESET_PURPOSES_def RESET_TTL_def MINUTE_def
        Let_def house_def house_prims_def)
qed

theorem reset_link_works_once_witness:
  "\<exists>fx db'. house_reset = Inr (fx, db')
     \<and> complete_reset house_prims (\<lambda>_. 2) 2 ''i8'' ''link'' ''another password'' db' = Inl (HTTP 403 ''invalid or expired reset link'')"
proof -
  obtain fx db' where run: "house_reset = Inr (fx, db')" using house_reset_runs by blast
  have "complete_reset house_prims (\<lambda>_. 2) 2 ''i8'' ''link'' ''another password'' (account_run house_prims [] db')
      = Inl (HTTP 403 ''invalid or expired reset link'')"
    by (rule reset_link_works_once[OF house_inv run[unfolded house_reset_def]]) simp
  with run show ?thesis by auto
qed

text \<open>A proof that is worth nothing once the first was spent: the same code, or one of the same or an earlier step.\<close>

fun no_newer :: "proof_of_factor \<Rightarrow> proof_of_factor \<Rightarrow> bool" where
  "no_newer (Recovery c) (Recovery d) \<longleftrightarrow> d = c"
| "no_newer (Time_step s) (Time_step s') \<longleftrightarrow> s' \<le> s"
| "no_newer _ _ \<longleftrightarrow> False"

definition proof_is_spent :: "uuid \<Rightarrow> proof_of_factor \<Rightarrow> account_db \<Rightarrow> bool" where
  "proof_is_spent fid p db \<longleftrightarrow>
     (case p of
        Recovery c \<Rightarrow> (\<forall>r \<in> set (ac_codes db). rv_id r = c \<longrightarrow> rv_consumed_at r \<noteq> None)
      | Time_step s \<Rightarrow> (\<forall>f \<in> set (ac_factors db). af_id f = fid \<longrightarrow> (\<exists>s'. af_last_step f = Some s' \<and> s \<le> s')))"

lemma spent_is_refused: "proof_is_spent fid p db \<Longrightarrow> no_newer p p' \<Longrightarrow> \<not> fst (spend_proof n fid p' db)"
  by (cases p; cases p') (fastforce simp: proof_is_spent_def spend_proof_def Let_def)+

lemma spend_spends:
  assumes "account_inv db" "fst (spend_proof n fid p db)"
  shows "proof_is_spent fid p (snd (spend_proof n fid p db))"
proof (cases p)
  case (Time_step s)
  let ?hit = "\<lambda>f. af_id f = fid \<and> (case af_last_step f of None \<Rightarrow> True | Some l \<Rightarrow> l < s)"
  obtain g where g: "g \<in> set (ac_factors db)" "?hit g" using assms(2) by (auto simp: Time_step spend_proof_def Let_def)
  have hit: "?hit f" if "f \<in> set (ac_factors db)" "af_id f = fid" for f
  proof -
    have "f = g" using account_invD(4)[OF assms(1)] that g by (auto simp: factors_ok_def distinct_map inj_on_def)
    with g show ?thesis by simp
  qed
  have "\<exists>s'. af_last_step f' = Some s' \<and> s \<le> s'"
    if f': "f' \<in> set (upd_where ?hit (\<lambda>f. f\<lparr>af_last_step := Some s\<rparr>) (ac_factors db))" "af_id f' = fid" for f'
  proof -
    obtain f where f: "f \<in> set (ac_factors db)" "f' = (if ?hit f then f\<lparr>af_last_step := Some s\<rparr> else f)"
      using f'(1) by (auto simp only: set_upd_where)
    then have "af_id f = fid" using f'(2) by (simp split: if_splits)
    with f hit have "f' = f\<lparr>af_last_step := Some s\<rparr>" by metis
    then show ?thesis by simp
  qed
  then show ?thesis by (simp add: Time_step proof_is_spent_def spend_proof_def Let_def)
qed (use assms(2) in \<open>auto simp: proof_is_spent_def spend_proof_def Let_def set_upd_where\<close>)

lemma spent_upd:
  "proof_is_spent fid p db \<Longrightarrow> (\<And>f. af_id (g f) = af_id f \<and> af_last_step (g f) = af_last_step f) \<Longrightarrow>
     proof_is_spent fid p (ac_factors_update (upd_where Q g) db)"
  by (cases p) (auto simp: proof_is_spent_def set_upd_where)

lemma win_spends:
  assumes "account_inv db" "win_challenge n t fid p db = Inr ((), db')"
  shows "proof_is_spent fid p db'"
proof -
  let ?db = "spend_where n (\<lambda>q. tk_id q = t) db"
  have won: "fst (spend_proof n fid p ?db)"
    and db': "db' = ac_factors_update (upd_where (\<lambda>f. af_id f = fid \<and> af_replace_attempts f > 0) (\<lambda>f. f\<lparr>af_replace_attempts := 0\<rparr>))
        (snd (spend_proof n fid p ?db))"
    using assms(2) by (auto simp: win_challenge_def Let_def split_beta)
  have "proof_is_spent fid p (snd (spend_proof n fid p ?db))" using assms(1) won by (intro spend_spends inv_statements)
  then show ?thesis unfolding db' by (rule spent_upd) simp
qed

lemma run_proof_is_spent:
  assumes "proof_is_spent fid p db" "\<forall>op \<in> set ops. fid \<notin> factor_ids P op"
    and "\<forall>op \<in> set ops. case p of Recovery c \<Rightarrow> c \<notin> code_ids P op | Time_step _ \<Rightarrow> True"
  shows "proof_is_spent fid p (account_run P ops db)"
proof (cases p)
  case (Recovery c)
  have "\<forall>r \<in> set (ac_codes (account_run P ops db)). rv_id r = c \<longrightarrow> rv_consumed_at r \<noteq> None"
    using assms(1,3) by (intro code_runs.run_keeps) (auto simp: Recovery proof_is_spent_def code_keeps_def)
  then show ?thesis by (simp add: Recovery proof_is_spent_def)
next
  case (Time_step s)
  have "\<forall>f \<in> set (ac_factors (account_run P ops db)). af_id f = fid \<longrightarrow> (\<exists>s'. af_last_step f = Some s' \<and> s \<le> s')"
    using assms(1,2) by (intro factor_runs.run_keeps) (auto simp: Time_step proof_is_spent_def factor_keeps_def dest: order_trans)
  then show ?thesis by (simp add: Time_step proof_is_spent_def)
qed

text \<open>
  Property C16 (safety). A recovery code, and a time based code with every earlier one, is good for one
  sign-in: after a challenge was answered with it, neither a challenge nor the removal or replacement
  of the factor accepts it again, in any later state, unless a factor or code is enrolled under the
  same id.
\<close>

theorem factor_proof_is_good_once:
  assumes "account_inv db" "win_challenge n t fid p db = Inr ((), db')" "\<forall>op \<in> set ops. fid \<notin> factor_ids P op"
    and "\<forall>op \<in> set ops. case p of Recovery c \<Rightarrow> c \<notin> code_ids P op | Time_step _ \<Rightarrow> True" "no_newer p p'"
  shows "win_challenge n' t' fid p' (account_run P ops db') = Inl CODE_REFUSED
     \<and> drop_factor n' u fid p' (account_run P ops db') = Inl CODE_REFUSED"
proof -
  have spent: "proof_is_spent fid p (account_run P ops db')"
    by (rule run_proof_is_spent[OF win_spends[OF assms(1,2)] assms(3,4)])
  then have "proof_is_spent fid p (spend_where n' (\<lambda>q. tk_id q = t') (account_run P ops db'))"
    by (simp add: proof_is_spent_def split: proof_of_factor.splits)
  then have "\<not> fst (spend_proof n' fid p' (spend_where n' (\<lambda>q. tk_id q = t') (account_run P ops db')))"
    "\<not> fst (spend_proof n' fid p' (account_run P ops db'))"
    using spent assms(5) by (simp_all add: spent_is_refused)
  then show ?thesis by (auto simp: win_challenge_def drop_factor_def Let_def split_beta raise_if_def)
qed

definition house_won :: account_db where
  "house_won = committed (win_challenge 1 ''t2'' ''f1'' (Time_step 8) house) house"

lemma house_wins: "win_challenge 1 ''t2'' ''f1'' (Time_step 8) house = Inr ((), house_won)"
  by (simp add: house_won_def win_challenge_def spend_proof_def Let_def spend_where_def raise_if_def house_def)

theorem factor_proof_is_good_once_witness:
  "win_challenge 2 ''t3'' ''f1'' (Time_step 8) (account_run house_prims [Second_factor (Charge_replacement ''f1'')] house_won) = Inl CODE_REFUSED"
  using factor_proof_is_good_once[OF house_inv house_wins, of "[Second_factor (Charge_replacement ''f1'')]" house_prims "Time_step 8"]
  by simp

end
