(* ===== verification/Challenge_Budget.thy ===== *)
theory Challenge_Budget
  imports Session_Contract
begin

text \<open>
  The budget of a challenge: within ten minutes an account gets ten guesses at its second factor,
  however many sign-ins are started, as long as no challenge of it is answered.
\<close>

section \<open>Runs within a window\<close>

text \<open>The guesses at the factor of an account that a run counts.\<close>

fun guesses :: "account_prims \<Rightarrow> uuid \<Rightarrow> account_op list \<Rightarrow> account_db \<Rightarrow> nat" where
  "guesses P u [] db = 0"
| "guesses P u (op # ops) db =
     (case op of
        Second_factor (Count_guess n t) \<Rightarrow> (case fst (count_guess P n t db) of Inr (_, v) \<Rightarrow> if v = u then 1 else 0 | Inl _ \<Rightarrow> 0)
      | _ \<Rightarrow> 0) + guesses P u ops (account_do P op db)"

text \<open>
  Challenges of the account are begun and guesses made between \<open>start\<close> and ten minutes later; no challenge
  of it is answered, and the account is not deleted.
\<close>

fun window_step :: "moment \<Rightarrow> uuid \<Rightarrow> account_op \<Rightarrow> account_db \<Rightarrow> bool" where
  "window_step start u (Second_factor (Begin_challenge n c f v)) db = (v = u \<longrightarrow> start \<le> c \<and> start \<le> n \<and> n < start + CHALLENGE_TTL)"
| "window_step start u (Second_factor (Count_guess n t)) db = (start \<le> n \<and> n < start + CHALLENGE_TTL)"
| "window_step start u (Second_factor (Win_challenge n t f p)) db = list_all (\<lambda>q. tk_id q = t \<longrightarrow> tk_user_id q \<noteq> Some u) (ac_tokens db)"
| "window_step start u (Life (Delete_account k n w)) db = (u_id (snd w) \<noteq> u)"
| "window_step start u (Life (Purge_finish k v)) db = (v \<noteq> u)"
| "window_step start u (Installs (Collapse k s)) db = False"
| "window_step start u _ db = True"

fun within_window :: "account_prims \<Rightarrow> moment \<Rightarrow> uuid \<Rightarrow> account_op list \<Rightarrow> account_db \<Rightarrow> bool" where
  "within_window P start u [] db = True"
| "within_window P start u (op # ops) db = (window_step start u op db \<and> within_window P start u ops (account_do P op db))"

section \<open>The outstanding challenges\<close>

definition challenges :: "moment \<Rightarrow> uuid \<Rightarrow> account_db \<Rightarrow> auth_token list" where
  "challenges start u db = filter (outstanding_challenge start u) (ac_tokens db)"

lemma challenges_cong: "ac_tokens db' = ac_tokens db \<Longrightarrow> challenges start u db' = challenges start u db"
  by (simp add: challenges_def)

lemma challenges_other_tables [simp]:
  "challenges start u (revoke_where n Q db) = challenges start u db" "challenges start u (set_user v g db) = challenges start u db"
  "challenges start u (erase_accounts k us db) = challenges start u db" "challenges start u (erase_realtime k v i s db) = challenges start u db"
  "challenges start u (drop_codes v db) = challenges start u db" "challenges start u (ac_fleet_update h db) = challenges start u db"
  "challenges start u (ac_users_update h' db) = challenges start u db" "challenges start u (ac_factors_update h'' db) = challenges start u db"
  "challenges start u (ac_mode_update m db) = challenges start u db"
  by (simp_all add: challenges_def)

lemma challenges_spend:
  "(\<And>t. t \<in> set (ac_tokens db) \<Longrightarrow> Q t \<Longrightarrow> \<not> outstanding_challenge start u t) \<Longrightarrow> challenges start u (spend_where n Q db) = challenges start u db"
proof -
  assume other: "\<And>t. t \<in> set (ac_tokens db) \<Longrightarrow> Q t \<Longrightarrow> \<not> outstanding_challenge start u t"
  have "filter (outstanding_challenge start u) (upd_where (\<lambda>t. Q t \<and> tk_consumed_at t = None) (\<lambda>t. t\<lparr>tk_consumed_at := Some n\<rparr>) rows)
      = filter (outstanding_challenge start u) rows" if "set rows \<subseteq> set (ac_tokens db)" for rows
    using that by (induction rows) (auto simp: outstanding_challenge_def dest: other[unfolded outstanding_challenge_def])
  then show ?thesis by (simp add: challenges_def spend_where_def)
qed

lemma challenges_links [simp]:
  "challenges start u (spend_where n (mailed_link v) db) = challenges start u db"
  "challenges start u (spend_where n (usable_reset P m t) db) = challenges start u db"
  "challenges start u (spend_where n (usable_setup P m t) db) = challenges start u db"
  by (rule challenges_spend; auto simp: mailed_link_def usable_reset_def RESET_PURPOSES_def usable_setup_def SETUP_PURPOSE_def
      outstanding_challenge_def)+

lemma challenges_insert:
  "insert_token t db = Inr db' \<Longrightarrow> challenges start u db' = challenges start u db @ (if outstanding_challenge start u t then [t] else [])"
  by (auto simp: challenges_def dest!: insert_Inr)

lemma challenges_link: "mint_link P c f v pu ttl db = Inr (x, db') \<Longrightarrow> pu \<noteq> ''challenge'' \<Longrightarrow> challenges start u db' = challenges start u db"
  by (auto simp: mint_link_def bindR_Inr_iff outstanding_challenge_def dest!: challenges_insert[where start = start and u = u])

lemma challenges_rotate:
  "rotate_and_revoke_others P k n f who spend db = Inr (v, db') \<Longrightarrow> challenges start u db' = challenges start u db"
  using challenges_links(1)[of start u n "u_id (snd who)" db]
  by (auto simp: challenges_def dest: rotate_others_Inr(1))

lemma challenges_change:
  "change_password P k n c i f w p cur db = Inr (v, db') \<Longrightarrow> challenges start u db' = challenges start u db"
  "change_email P k n c f w e db = Inr (v', db') \<Longrightarrow> challenges start u db' = challenges start u db"
  "unlink_identity P k n c f w p db = Inr (v, db') \<Longrightarrow> challenges start u db' = challenges start u db"
  "remove_factor P k n f w i pr db = Inr (v, db') \<Longrightarrow> challenges start u db' = challenges start u db"
  "confirm_enrolment P k n i f w r ct ver st cs db = Inr (v, db') \<Longrightarrow> challenges start u db' = challenges start u db"
  by (metis credential_rotates(1) challenges_rotate challenges_cong, metis credential_rotates(2) challenges_rotate challenges_cong,
      metis credential_rotates(3) challenges_rotate challenges_cong, metis credential_rotates(4) challenges_rotate challenges_cong,
      metis credential_rotates(5) challenges_rotate challenges_cong)

lemma challenges_credential: "challenges start u (credential_do P op db) = challenges start u db"
  by (cases op)
    (auto simp: mint_reset_def mint_admin_recovery_def deliver_reset_def committed_def dest: challenges_change challenges_link
      dest!: complete_tokens intro: trans[OF challenges_cong challenges_links(2)] split: option.splits sum.splits)

lemma challenges_deleted:
  "v \<noteq> u \<Longrightarrow> challenges start u (spend_where n (\<lambda>t. tk_user_id t = Some v) db) = challenges start u db"
  "v \<noteq> u \<Longrightarrow> challenges start u (delete_user v db) = challenges start u db"
proof -
  show "v \<noteq> u \<Longrightarrow> challenges start u (spend_where n (\<lambda>t. tk_user_id t = Some v) db) = challenges start u db"
    by (rule challenges_spend) (auto simp: outstanding_challenge_def)
  show "v \<noteq> u \<Longrightarrow> challenges start u (delete_user v db) = challenges start u db"
    by (auto simp: challenges_def del_where_def outstanding_challenge_def intro!: filter_cong)
qed

lemma challenges_life:
  assumes "window_step start u (Life op) db"
  shows "challenges start u (life_do P op db) = challenges start u db"
proof (cases op)
  case (Change_role k n c v r a w)
  have "change_role k n c v r a w db = Inr (fx, db') \<Longrightarrow> challenges start u db' = challenges start u db" for fx db'
    by (auto simp: change_role_def end_of_account_access_def split: option.splits)
  then show ?thesis by (auto simp: Change_role committed_def split: sum.splits)
next
  case (Change_state k n v st a)
  have "change_state k n v st a db = Inr (fx, db') \<Longrightarrow> challenges start u db' = challenges start u db" for fx db'
    by (auto simp: change_state_def end_of_account_access_def Let_def split: option.splits if_splits)
  then show ?thesis by (auto simp: Change_state committed_def split: sum.splits)
next
  case (Delete_account k n w)
  then show ?thesis using assms by (simp add: delete_account_def request_deletion_def Let_def challenges_deleted split_beta)
next
  case (Restore c v)
  have "restore c v db = Inr (fx, db') \<Longrightarrow> challenges start u db' = challenges start u db" for fx db'
    by (auto simp: restore_def split: option.splits if_splits)
  then show ?thesis by (auto simp: Restore committed_def split: sum.splits)
next
  case (Purge_claim k c v)
  then show ?thesis by (simp add: purge_claim_def Let_def)
next
  case (Purge_finish k v)
  then have "challenges start u (purge_finish k v db) = challenges start u db"
    using assms unfolding purge_finish_def Let_def by (subst challenges_deleted(2)) simp_all
  then show ?thesis by (simp add: Purge_finish split: option.split)
qed

lemma challenges_setup:
  "mint_setup_token P c f db = Inr (v, db') \<Longrightarrow> challenges start u db' = challenges start u db"
proof -
  assume "mint_setup_token P c f db = Inr (v, db')"
  then obtain t where "insert_token t (ac_tokens_update (del_where (\<lambda>t. tk_purpose t = SETUP_PURPOSE \<and> tk_consumed_at t = None)) db) = Inr db'"
    and "tk_purpose t = SETUP_PURPOSE"
    by (auto simp: mint_setup_token_def bindR_Inr_iff)
  moreover have "challenges start u (ac_tokens_update (del_where (\<lambda>t. tk_purpose t = SETUP_PURPOSE \<and> tk_consumed_at t = None)) db)
      = challenges start u db"
    by (auto simp: challenges_def del_where_def outstanding_challenge_def SETUP_PURPOSE_def intro!: filter_cong)
  ultimately show ?thesis using challenges_insert by (fastforce simp: outstanding_challenge_def SETUP_PURPOSE_def)
qed

lemma challenges_install:
  assumes "window_step start u (Installs op) db"
  shows "challenges start u (install_do P op db) = challenges start u db"
proof -
  have mode: "record_mode P m db = Inr db' \<Longrightarrow> challenges start u db' = challenges start u db" for m db db'
    by (rule challenges_cong) (auto dest: record_mode_tables)
  have adopt: "adopt P i a p db = Inr (v, db') \<Longrightarrow> challenges start u db' = challenges start u db" for i a p v db db'
    by (rule challenges_cong) (auto dest: adopt_tables)
  have user: "insert_user P v db = Inr db' \<Longrightarrow> challenges start u db' = challenges start u db" for v db db'
    by (rule challenges_cong) (auto dest: insert_Inr)
  show ?thesis
    using assms
    by (cases op)
      (auto simp: decide_startup_auth_mode_def ensure_local_user_def claim_def decline_accounts_def turn_accounts_on_def
        ensure_claimable_def reclaim_restore_def rotate_keys_def spend_setup_def bindR_Inr_iff Let_def committed_def
        dest: challenges_setup dest!: mode adopt user split: option.splits if_splits sum.splits)
qed

section \<open>The budget\<close>

text \<open>
  What holds after \<open>g\<close> guesses: there is at most one outstanding challenge, it outlives the window and
  has counted them all.
\<close>

definition budget :: "moment \<Rightarrow> uuid \<Rightarrow> nat \<Rightarrow> account_db \<Rightarrow> bool" where
  "budget start u g db \<longleftrightarrow> length (challenges start u db) \<le> 1 \<and> int g \<le> sum_list (map tk_attempts (challenges start u db))
     \<and> (\<forall>t \<in> set (challenges start u db). start + CHALLENGE_TTL \<le> tk_expires_at t \<and> tk_attempts t \<le> MAX_ATTEMPTS)"

lemma budget_cong: "challenges start u db' = challenges start u db \<Longrightarrow> budget start u g db' = budget start u g db"
  by (simp add: budget_def)

lemma short_list: "length xs \<le> 1 \<Longrightarrow> xs = [] \<or> (\<exists>x. xs = [x])"
  by (cases xs) (auto simp: le_Suc_eq)

lemma budget_bound: "budget start u g db \<Longrightarrow> int g \<le> MAX_ATTEMPTS"
  using short_list[of "challenges start u db"] by (auto simp: budget_def MAX_ATTEMPTS_def)

lemma budget_begin:
  assumes "budget start u g db" "begin_challenge P n c f u db = Inr (v, db')" "start \<le> c" "start \<le> n" "n < start + CHALLENGE_TTL"
  shows "budget start u g db'"
proof -
  have same: "filter (outstanding_challenge n u) (ac_tokens db) = challenges start u db"
    using assms(1,4,5) unfolding challenges_def budget_def
    by (intro filter_cong) (auto simp: outstanding_challenge_def)
  let ?t = "\<lparr>tk_id = ft_id f, tk_user_id = Some u, tk_purpose = ''challenge'', tk_token_hash = ap_sha256 P (ft_token f),
    tk_attempts = sum_list (map tk_attempts (challenges start u db)), tk_expires_at = c + CHALLENGE_TTL, tk_consumed_at = None\<rparr>"
  have "insert_token ?t (spend_where n (outstanding_challenge n u) db) = Inr db'"
    using assms(2) by (auto simp: begin_challenge_def bindR_Inr_iff Let_def same)
  moreover have "challenges start u (spend_where n (outstanding_challenge n u) db) = []"
  proof -
    have "\<not> outstanding_challenge start u t" if "t \<in> set (ac_tokens (spend_where n (outstanding_challenge n u) db))" for t
      using that assms(1,5) by (auto simp: spend_where_def set_upd_where budget_def challenges_def outstanding_challenge_def split: if_splits)
    then show ?thesis by (simp add: challenges_def filter_empty_conv)
  qed
  moreover have "outstanding_challenge start u ?t" using assms(3) by (simp add: outstanding_challenge_def CHALLENGE_TTL_def MINUTE_def)
  ultimately have "challenges start u db' = [?t]" using challenges_insert by fastforce
  moreover have "sum_list (map tk_attempts (challenges start u db)) \<le> MAX_ATTEMPTS"
    using assms(1) short_list[of "challenges start u db"] by (auto simp: budget_def MAX_ATTEMPTS_def)
  ultimately show ?thesis using assms(1,3) by (simp add: budget_def)
qed

lemma challenges_guess:
  assumes "account_inv db" "find (guessable P n t) (ac_tokens db) = Some q"
  shows "challenges start u (ac_tokens_update (upd_where (guessable P n t) (\<lambda>t. t\<lparr>tk_attempts := tk_attempts t + 1\<rparr>)) db)
     = map (\<lambda>x. if x = q then x\<lparr>tk_attempts := tk_attempts x + 1\<rparr> else x) (challenges start u db)"
proof -
  have only: "guessable P n t x \<longleftrightarrow> x = q" if "x \<in> set (ac_tokens db)" for x
    using find_SomeD[OF assms(2)] that account_invD(3)[OF assms(1)]
    by (auto simp: guessable_def tokens_ok_def distinct_map inj_on_def)
  have "filter (outstanding_challenge start u) (upd_where (guessable P n t) (\<lambda>t. t\<lparr>tk_attempts := tk_attempts t + 1\<rparr>) rows)
      = map (\<lambda>x. if x = q then x\<lparr>tk_attempts := tk_attempts x + 1\<rparr> else x) (filter (outstanding_challenge start u) rows)"
    if "set rows \<subseteq> set (ac_tokens db)" for rows
    using that by (induction rows) (auto simp: only outstanding_challenge_def)
  then show ?thesis by (simp add: challenges_def)
qed

lemma budget_guess:
  assumes "account_inv db" "budget start u g db" "start \<le> n" "n < start + CHALLENGE_TTL"
  shows "budget start u (g + (case fst (count_guess P n t db) of Inr (_, v) \<Rightarrow> if v = u then 1 else 0 | Inl _ \<Rightarrow> 0)) (snd (count_guess P n t db))"
proof (cases "find (guessable P n t) (ac_tokens db)")
  case None
  then show ?thesis using assms(2) by (simp add: count_guess_def)
next
  case (Some q)
  let ?db = "ac_tokens_update (upd_where (guessable P n t) (\<lambda>t. t\<lparr>tk_attempts := tk_attempts t + 1\<rparr>)) db"
  have q: "q \<in> set (ac_tokens db)" "guessable P n t q" using find_SomeD[OF Some] by auto
  have mine: "q \<in> set (challenges start u db) \<longleftrightarrow> tk_user_id q = Some u"
    using q assms(3) by (auto simp: challenges_def outstanding_challenge_def guessable_def)
  have less: "tk_attempts q < MAX_ATTEMPTS" using q(2) by (simp add: guessable_def)
  note guess = challenges_guess[OF assms(1) Some, of start u]
  show ?thesis
  proof (cases "tk_user_id q = Some u")
    case True
    with mine short_list[of "challenges start u db"] assms(2) have "challenges start u db = [q]" by (fastforce simp: budget_def)
    with True show ?thesis using assms(2) less guess by (simp add: count_guess_def Some Let_def budget_def)
  next
    case False
    with mine have "q \<notin> set (challenges start u db)" by simp
    then have "challenges start u ?db = challenges start u db" unfolding guess by (intro map_idI) auto
    with False show ?thesis using assms(2) by (simp add: count_guess_def Some Let_def budget_def split: option.split)
  qed
qed

lemma budget_other:
  assumes "window_step start u op db" "budget start u g db"
    and "\<forall>n c f. op \<noteq> Second_factor (Begin_challenge n c f u)" "\<forall>n t. op \<noteq> Second_factor (Count_guess n t)"
  shows "budget start u g (account_do P op db)"
proof -
  have "challenges start u (account_do P op db) = challenges start u db"
  proof (cases op)
    case (Second_factor fop)
    have begin_other: "begin_challenge P n c f v db = Inr (x, db') \<Longrightarrow> v \<noteq> u \<Longrightarrow> challenges start u db' = challenges start u db" for n c f v x db'
      by (auto simp: begin_challenge_def bindR_Inr_iff Let_def outstanding_challenge_def dest!: challenges_insert[where start = start and u = u]
          intro!: challenges_spend)
    have win_other: "win_challenge n t i p db = Inr (x, db') \<Longrightarrow> list_all (\<lambda>q. tk_id q = t \<longrightarrow> tk_user_id q \<noteq> Some u) (ac_tokens db) \<Longrightarrow>
        challenges start u db' = challenges start u db" for n t i p x db'
      by (rule trans[OF challenges_cong[OF win_tokens]])
        (auto simp: outstanding_challenge_def list_all_iff intro!: challenges_spend)
    show ?thesis
      using assms Second_factor
      by (cases fop)
        (auto simp: committed_def spend_replacement_attempt_def clear_factor_def Let_def
          dest: begin_other win_other challenges_change split: sum.splits)
  next
    case (Sessions sop) then show ?thesis using challenges_cong[OF session_tokens] by simp
  next
    case (Life lop) then show ?thesis using challenges_life assms(1) by simp
  next
    case (Credentials cop) then show ?thesis using challenges_credential by simp
  next
    case (Invitations iop) then show ?thesis using challenges_cong[OF invitation_tokens] by simp
  next
    case (Installs iop) then show ?thesis using challenges_install assms(1) by simp
  qed simp
  with assms(2) show ?thesis by (simp add: budget_def)
qed

lemma budget_step:
  assumes "account_inv db" "budget start u g db" "window_step start u op db"
  shows "budget start u (g + guesses P u [op] db) (account_do P op db)"
proof -
  consider (begins) n c f where "op = Second_factor (Begin_challenge n c f u)" | (counts) n t where "op = Second_factor (Count_guess n t)"
    | (other) "\<forall>n c f. op \<noteq> Second_factor (Begin_challenge n c f u)" "\<forall>n t. op \<noteq> Second_factor (Count_guess n t)"
    by blast
  then show ?thesis
  proof cases
    case begins
    with assms(2,3) budget_begin[of start u g db P n c f] show ?thesis by (auto simp: committed_def split: sum.split)
  next
    case counts
    with budget_guess[OF assms(1,2), of n P t] assms(3) show ?thesis by simp
  next
    case other
    then have "guesses P u [op] db = 0" by (auto split: account_op.splits factor_op.splits)
    with budget_other[OF assms(3,2) other] show ?thesis by simp
  qed
qed

lemma guesses_append_one: "guesses P u (op # ops) db = guesses P u [op] db + guesses P u ops (account_do P op db)"
  by simp

lemma budget_run:
  "account_inv db \<Longrightarrow> budget start u g db \<Longrightarrow> within_window P start u ops db \<Longrightarrow> budget start u (g + guesses P u ops db) (account_run P ops db)"
proof (induction ops arbitrary: g db)
  case (Cons op ops)
  have "budget start u (g + guesses P u [op] db) (account_do P op db)" using Cons.prems by (intro budget_step) simp_all
  with Cons do_inv have "budget start u (g + guesses P u [op] db + guesses P u ops (account_do P op db)) (account_run P ops (account_do P op db))"
    by (simp del: guesses.simps)
  then show ?case unfolding guesses_append_one[of P u op ops] account_run_simps by (simp only: add.assoc)
qed simp

text \<open>
  Property C17 (bounds). Ten guesses at a second factor: from a moment at which an account has no
  outstanding challenge, at most ten guesses are looked at within the next ten minutes, however many
  sign-ins begin a new challenge and whatever else happens in between, as long as none of its challenges
  is answered with a right code, which starts a new count, the account is not deleted or purged, the
  installation is not collapsed, and every challenge is begun and every guess made at a moment of the window.
\<close>

theorem challenge_budget_holds:
  assumes "account_inv db" "challenges start u db = []" "within_window P start u ops db"
  shows "guesses P u ops db \<le> 10"
  using budget_bound[OF budget_run[OF assms(1) _ assms(3), of 0]] assms(2) by (simp add: budget_def MAX_ATTEMPTS_def)

text \<open>Ann begins two challenges and twelve guesses are made: ten of them are looked at.\<close>

definition house_guesses :: "account_op list" where
  "house_guesses = [Second_factor (Begin_challenge CHALLENGE_TTL CHALLENGE_TTL \<lparr>ft_id = ''t8'', ft_token = ''x''\<rparr> ''ann'')]
     @ replicate 6 (Second_factor (Count_guess CHALLENGE_TTL ''x''))
     @ [Second_factor (Begin_challenge CHALLENGE_TTL CHALLENGE_TTL \<lparr>ft_id = ''t9'', ft_token = ''y''\<rparr> ''ann'')]
     @ replicate 6 (Second_factor (Count_guess CHALLENGE_TTL ''y''))"

definition house_challenge_row :: "uuid \<Rightarrow> string \<Rightarrow> int \<Rightarrow> moment option \<Rightarrow> auth_token" where
  "house_challenge_row i h a spent = \<lparr>tk_id = i, tk_user_id = Some ''ann'', tk_purpose = ''challenge'', tk_token_hash = h, tk_attempts = a,
     tk_expires_at = CHALLENGE_TTL + CHALLENGE_TTL, tk_consumed_at = spent\<rparr>"

definition house_with :: "auth_token list \<Rightarrow> account_db" where
  "house_with ts = house\<lparr>ac_tokens := ac_tokens house @ ts\<rparr>"

lemmas house_guess_defs = house_with_def house_challenge_row_def house_def house_prims_def count_guess_def guessable_def
  MAX_ATTEMPTS_def CHALLENGE_TTL_def MINUTE_def Let_def

lemma house_first_guess:
  "a < 10 \<Longrightarrow> count_guess house_prims CHALLENGE_TTL ''x'' (house_with [house_challenge_row ''t8'' ''x'' a None])
     = (Inr (''t8'', ''ann''), house_with [house_challenge_row ''t8'' ''x'' (a + 1) None])"
  by (simp add: house_guess_defs)

lemma house_second_guess:
  "count_guess house_prims CHALLENGE_TTL ''y'' (house_with [house_challenge_row ''t8'' ''x'' b (Some s), house_challenge_row ''t9'' ''y'' a None])
     = (if a < 10 then (Inr (''t9'', ''ann''), house_with [house_challenge_row ''t8'' ''x'' b (Some s), house_challenge_row ''t9'' ''y'' (a + 1) None])
        else (Inl CODE_REFUSED, house_with [house_challenge_row ''t8'' ''x'' b (Some s), house_challenge_row ''t9'' ''y'' a None]))"
  by (simp add: house_guess_defs)

lemma house_begins:
  "account_do house_prims (Second_factor (Begin_challenge CHALLENGE_TTL CHALLENGE_TTL \<lparr>ft_id = ''t8'', ft_token = ''x''\<rparr> ''ann'')) house
     = house_with [house_challenge_row ''t8'' ''x'' 0 None]"
  "account_do house_prims (Second_factor (Begin_challenge CHALLENGE_TTL CHALLENGE_TTL \<lparr>ft_id = ''t9'', ft_token = ''y''\<rparr> ''ann''))
      (house_with [house_challenge_row ''t8'' ''x'' a None])
     = house_with [house_challenge_row ''t8'' ''x'' a (Some CHALLENGE_TTL), house_challenge_row ''t9'' ''y'' a None]"
  by (simp_all add: committed_def begin_challenge_def insert_token_def outstanding_challenge_def spend_where_def user_of_def house_user_def
      RESET_TTL_def house_guess_defs)

lemma house_guesses_count: "guesses house_prims ''ann'' house_guesses house = 10"
proof -
  have first: "guesses house_prims ''ann'' (replicate k (Second_factor (Count_guess CHALLENGE_TTL ''x'')) @ ops)
      (house_with [house_challenge_row ''t8'' ''x'' a None])
    = k + guesses house_prims ''ann'' ops (house_with [house_challenge_row ''t8'' ''x'' (a + int k) None])" if "a + int k \<le> 10" for k ops a
    using that by (induction k arbitrary: a) (simp_all add: house_first_guess ac_simps)
  have taken: "guesses house_prims ''ann'' (replicate k (Second_factor (Count_guess CHALLENGE_TTL ''y'')))
      (house_with [house_challenge_row ''t8'' ''x'' b (Some s), house_challenge_row ''t9'' ''y'' a None]) = min k (nat (10 - a))" for k a b s
    by (induction k arbitrary: a) (auto simp: house_second_guess)
  show ?thesis
    by (simp add: house_guesses_def house_begins first taken del: replicate.simps account_do.simps)
qed

theorem challenge_budget_holds_witness:
  "guesses house_prims ''ann'' house_guesses house = 10 \<and> guesses house_prims ''ann'' house_guesses house \<le> 10"
proof
  show "guesses house_prims ''ann'' house_guesses house \<le> 10"
  proof (rule challenge_budget_holds[OF house_inv])
    show "challenges CHALLENGE_TTL ''ann'' house = []" by (simp add: challenges_def house_def outstanding_challenge_def)
    show "within_window house_prims CHALLENGE_TTL ''ann'' house_guesses house"
      by (simp add: house_guesses_def numeral_eq_Suc CHALLENGE_TTL_def MINUTE_def)
  qed
qed (rule house_guesses_count)

end
