(* ===== verification/Account_Users.thy ===== *)
theory Account_Users
  imports Session_Contract
begin

text \<open>
  How the rows of the accounts may move under any operation: an account keeps its id, and one that is
  being purged stays so, unless the installation is claimed for it or collapsed onto it. With this, what a
  purge has claimed is still out of service when its last transaction deletes it.
\<close>

section \<open>Which operations leave the accounts alone\<close>

lemma user_of_unique: "account_inv db \<Longrightarrow> user_of i db = Some a \<Longrightarrow> u \<in> set (ac_users db) \<Longrightarrow> u_id u = i \<Longrightarrow> u = a"
  using account_invD(1)[of db] by (auto simp: users_ok_def user_of_def distinct_map inj_on_def dest!: find_SomeD)

lemma set_user_rows: "ac_users (set_user i g db) = upd_where (\<lambda>u. u_id u = i) g (ac_users db)"
  by (simp add: set_user_def)

lemma rotate_others_users: "rotate_and_revoke_others P k n f who spend db = Inr (v, db') \<Longrightarrow> ac_users db' = ac_users db"
  by (auto simp: before_swap_def Let_def dest: rotate_others_Inr(1))

lemma session_users: "ac_users (session_do P op db) = ac_users db"
  by (cases op)
    (auto simp: revoke_session_row_def revoke_all_def rotate_revoke_def mint_def mint_in_def mint_behind_the_gate_def resolve_def committed_def
      bindR_Inr_iff Let_def dest!: insert_Inr split: sum.splits option.splits if_splits prod.splits)

lemma factor_users: "ac_users (factor_do P op db) = ac_users db"
proof -
  have "begin_challenge P n c f u db = Inr (v, db') \<Longrightarrow> ac_users db' = ac_users db" for n c f u v db'
    by (auto simp: begin_challenge_def bindR_Inr_iff Let_def dest!: insert_Inr)
  moreover have "win_challenge n t i p db = Inr (v, db') \<Longrightarrow> ac_users db' = ac_users db" for n t i p v db'
    by (auto simp: win_challenge_def Let_def split_beta)
  moreover have "remove_factor P k n f w i p db = Inr (v, db') \<Longrightarrow> ac_users db' = ac_users db" for k n f w i p v db'
    using credential_rotates(4) rotate_others_users by metis
  moreover have "confirm_enrolment P k n i f w r ct ver st cs db = Inr (v, db') \<Longrightarrow> ac_users db' = ac_users db" for k n i f w r ct ver st cs v db'
    using credential_rotates(5) rotate_others_users by metis
  ultimately show ?thesis
    by (cases op) (auto simp: committed_def count_guess_def spend_replacement_attempt_def clear_factor_def Let_def split: sum.splits option.splits)
qed

lemma credential_users:
  "mint_link P c f v pu ttl db = Inr (x, db') \<Longrightarrow> ac_users db' = ac_users db"
  "complete_reset P k n i t p db = Inr (y, db') \<Longrightarrow> ac_users db' = ac_users db"
  "change_password P k n c i f' w p cur db = Inr (z, db') \<Longrightarrow> ac_users db' = ac_users db"
  "unlink_identity P k n c f' w p db = Inr (z, db') \<Longrightarrow> ac_users db' = ac_users db"
proof goal_cases
  case 1 then show ?case by (auto simp: mint_link_def bindR_Inr_iff dest!: insert_Inr)
next
  case 2 then show ?case by (auto simp: complete_reset_def bindR_Inr_iff Let_def dest!: put_tables(1) split: option.splits)
next
  case 3 then show ?case using credential_rotates(1) rotate_others_users by metis
next
  case 4 then show ?case using credential_rotates(3) rotate_others_users by metis
qed

text \<open>The transactions that leave the users alone.\<close>

lemma install_users:
  "spend_setup P n t db = Inr db' \<Longrightarrow> ac_users db' = ac_users db"
  "mint_setup_token P c f db = Inr (x, db') \<Longrightarrow> ac_users db' = ac_users db"
  "rotate_keys P ns db = Inr (y, db') \<Longrightarrow> ac_users db' = ac_users db"
  by (auto simp: spend_setup_def mint_setup_token_def rotate_keys_def bindR_Inr_iff dest!: insert_Inr)

section \<open>Accounts along a run\<close>

definition user_keeps :: "account \<Rightarrow> account \<Rightarrow> bool" where
  "user_keeps u u' \<longleftrightarrow> u_id u' = u_id u \<and> (u_state u = ''purging'' \<longrightarrow> u_state u' = ''purging'')"

interpretation users: row_moves ac_users user_keeps u_id
  by unfold_locales (auto simp: user_keeps_def)

text \<open>
  The ids an operation may insert an account with, or put back in service without looking at its state:
  the latter is the implicit user when the installation is claimed or collapsed.
\<close>

fun served_again :: "account_op \<Rightarrow> account_db \<Rightarrow> uuid set" where
  "served_again (Invitations (Register n u i t p)) db = {u}"
| "served_again (Installs (Ensure_local_user u m)) db = {u}"
| "served_again (Installs (Ensure_claimable u)) db = {u}"
| "served_again (Installs (Claim n i t e p)) db = set_option (map_option u_id (local_user db))"
| "served_again (Installs (Turn_on i e p)) db = set_option (map_option u_id (local_user db))"
| "served_again (Installs (Collapse k s)) db = set_option (map_option u_id (local_user db))"
| "served_again op db = {}"

abbreviation users_move :: "uuid set \<Rightarrow> account list \<Rightarrow> account list \<Rightarrow> bool" where
  "users_move \<equiv> rows_move user_keeps u_id"

lemma life_users: "account_inv db \<Longrightarrow> users_move {} (ac_users db) (ac_users (life_do P op db))"
proof (cases op)
  case (Change_state k n i st a)
  assume inv: "account_inv db"
  have "users_move {} (ac_users db) (ac_users (set_user i (\<lambda>u. u\<lparr>u_state := st\<rparr>) d))"
    if "user_of i db = Some t" "map_of TRANSITIONS (u_state t) = Some allowed" "st \<in> set allowed" "ac_users d = ac_users db" for t allowed d
    unfolding set_user_rows that(4)
  proof (rule users.moves_upd)
    fix u assume "u \<in> set (ac_users db)" "u_id u = i"
    then have "u = t" by (rule user_of_unique[OF inv that(1)])
    with that(2,3) show "user_keeps u (u\<lparr>u_state := st\<rparr>)" by (auto simp: user_keeps_def TRANSITIONS_def split: if_splits)
  qed
  then show ?thesis
    by (auto simp: Change_state change_state_def end_of_account_access_def Let_def intro!: users.committed_moves split: option.splits)
next
  case (Restore c i)
  assume inv: "account_inv db"
  have "users_move {} (ac_users db) (ac_users (set_user i restored db))" if "user_of i db = Some t" "u_state t = ''deletion_pending''" for t
    unfolding set_user_rows
    using that(2) user_of_unique[OF inv that(1)] by (intro users.moves_upd) (auto simp: user_keeps_def)
  then show ?thesis by (auto simp: Restore restore_def intro!: users.committed_moves split: option.splits)
qed (auto simp: change_role_def delete_account_def request_deletion_def purge_claim_def purge_finish_def end_of_account_access_def
      leaving_def user_keeps_def set_user_rows Let_def split_beta intro!: users.committed_moves users.moves_upd split: option.splits)

lemma address_users: "put_address P u a db = Inr db' \<Longrightarrow> users_move F (ac_users db) (ac_users db')"
  by (auto simp: put_address_def Let_def set_user_rows user_keeps_def intro!: users.moves_upd split: if_splits)

lemma email_users: "change_email P k n c f w e db = Inr (x, db') \<Longrightarrow> users_move F (ac_users db) (ac_users db')"
proof (cases "user_of (u_id (snd w)) db")
  case (Some y)
  assume "change_email P k n c f w e db = Inr (x, db')"
  with Some have "db' = db \<or> (\<exists>a db1 v. put_address P (u_id (snd w)) a db = Inr db1 \<and> rotate_and_revoke_others P k n f w True db1 = Inr (v, db'))"
    by (auto simp: change_email_def bindR_Inr_iff Let_def split: if_splits)
  then show ?thesis using rotate_others_users address_users users.moves_refl by metis
qed (simp add: change_email_def bindR_Inr_iff)

lemma credential_moves: "users_move F (ac_users db) (ac_users (credential_do P op db))"
  by (cases op)
    (auto simp: mint_reset_def mint_admin_recovery_def deliver_reset_def credential_users intro!: users.committed_moves
      dest!: credential_users intro: email_users split: option.splits sum.splits)

lemma invitation_users: "users_move (served_again (Invitations op) db) (ac_users db) (ac_users (invitation_do P op db))"
  by (cases op)
    (auto simp: invite_def revoke_invitation_def reveal_def register_def bindR_Inr_iff Let_def dest!: insert_Inr
      intro!: users.committed_moves users.moves_snoc split: option.splits)

lemma adopt_users: "adopt P i a p db = Inr (x, db') \<Longrightarrow> users_move (set_option (map_option u_id (local_user db))) (ac_users db) (ac_users db')"
proof -
  assume "adopt P i a p db = Inr (x, db')"
  then obtain y g where y: "local_user db = Some y" and db': "ac_users db' = upd_where (\<lambda>u. u_id u = u_id y) g (ac_users db)"
    and g: "\<And>u. u_id (g u) = u_id u"
    by (auto simp: adopt_def bindR_Inr_iff set_user_rows split: option.splits dest!: insert_Inr)
  show ?thesis unfolding rows_move_def db'
  proof
    fix r' assume "r' \<in> set (upd_where (\<lambda>u. u_id u = u_id y) g (ac_users db))"
    then show "u_id r' \<in> set_option (map_option u_id (local_user db)) \<or> (\<exists>r \<in> set (ac_users db). user_keeps r r')"
      by (rule upd_whereE) (use y g in \<open>auto intro: users.R_refl\<close>)
  qed
qed

lemma local_user_cong: "ac_users db' = ac_users db \<Longrightarrow> local_user db' = local_user db"
  by (simp add: local_user_def)

lemma claim_users:
  "claim P n i t e p db = Inr (x, db') \<Longrightarrow> users_move (set_option (map_option u_id (local_user db))) (ac_users db) (ac_users db')"
  "turn_accounts_on P i e p db = Inr (x, db') \<Longrightarrow> users_move (set_option (map_option u_id (local_user db))) (ac_users db) (ac_users db')"
proof goal_cases
  case 1
  then obtain a db1 db2 where "spend_setup P n t db = Inr db1" "adopt P i a p db1 = Inr (x, db2)" "record_mode P ''accounts'' db2 = Inr db'"
    by (auto simp: claim_def bindR_Inr_iff)
  then show ?case using adopt_users install_users(1) local_user_cong record_mode_tables by metis
next
  case 2 then show ?case by (auto simp: turn_accounts_on_def bindR_Inr_iff dest!: record_mode_tables dest: adopt_users)
qed

lemma restored_users:
  assumes "reclaim_restore P e db = Inr (x, db')" "account_inv db"
  shows "users_move F (ac_users db) (ac_users db')"
proof -
  obtain t where t: "t \<in> set (ac_users db)" "u_state t \<noteq> ''purging''"
    and db': "ac_users db' = upd_where (\<lambda>u. u_id u = u_id t) (\<lambda>u. u\<lparr>u_state := ''active'', u_role := ''admin'', u_prior_state := None, u_deletion_requested_at := None\<rparr>) (ac_users db)"
    using assms(1) by (auto simp: reclaim_restore_def set_user_rows split: option.splits dest: find_SomeD)
  have "u = t" if "u \<in> set (ac_users db)" "u_id u = u_id t" for u
    using that t(1) account_invD(1)[OF assms(2)] by (auto simp: users_ok_def distinct_map inj_on_def)
  then show ?thesis unfolding db' using t(2) by (intro users.moves_upd) (auto simp: user_keeps_def)
qed

lemma collapse_users: "collapse k s db = Inr (x, db') \<Longrightarrow> users_move (set_option (map_option u_id (local_user db))) (ac_users db) (ac_users db')"
  by (auto simp: collapse_def Let_def rows_move_def split: option.splits)

lemma install_moves:
  "account_inv db \<Longrightarrow> users_move (served_again (Installs op) db) (ac_users db) (ac_users (install_do P op db))"
  by (cases op)
    (auto simp: decide_startup_auth_mode_def ensure_local_user_def decline_accounts_def ensure_claimable_def set_user_rows user_keeps_def
      implicit_user_def bindR_Inr_iff Let_def dest!: insert_Inr record_mode_tables install_users
      intro!: users.committed_moves users.moves_snoc users.moves_upd dest: claim_users collapse_users restored_users
      split: option.splits if_splits sum.splits)

lemma do_users: "account_inv db \<Longrightarrow> users_move (served_again op db) (ac_users db) (ac_users (account_do P op db))"
proof (cases op)
  case (Invitations iop) then show ?thesis using invitation_users by simp
next
  case (Installs iop) then show "account_inv db \<Longrightarrow> ?thesis" using install_moves by simp
qed (simp_all add: session_users factor_users life_users credential_moves)

end
