(* ===== verification/Account_Life.thy ===== *)
theory Account_Life
  imports Account_Users
begin

text \<open>
  Accounts as a whole: an administrator remains, what taking an account out of service ends in the
  account tables and in the fleet, the way back from a deletion, and three places where the code
  does not keep what its documentation says.
\<close>

section \<open>An administrator remains\<close>

definition has_administrator :: "account_db \<Rightarrow> bool" where
  "has_administrator db \<longleftrightarrow> list_ex active_admin (ac_users db)"

text \<open>The account an operation claims for a purge.\<close>

fun claimed_for_purge :: "account_op \<Rightarrow> account_db \<Rightarrow> uuid set" where
  "claimed_for_purge (Life (Purge_claim k c u)) db = (if fst (purge_claim k c u db) then {u} else {})"
| "claimed_for_purge op db = {}"

text \<open>
  What a step does not do while the purges that claimed \<open>C\<close> are under way: no account deletes itself, a
  last transaction is of an account its purge has claimed, and no claimed account is put back in service.
\<close>

fun step_is_orderly :: "uuid set \<Rightarrow> account_op \<Rightarrow> account_db \<Rightarrow> bool" where
  "step_is_orderly C (Life (Delete_account k n w)) db = False"
| "step_is_orderly C (Life (Purge_finish k u)) db = (u \<in> C)"
| "step_is_orderly C op db = (served_again op db \<inter> C = {})"

fun orderly :: "account_prims \<Rightarrow> uuid set \<Rightarrow> account_op list \<Rightarrow> account_db \<Rightarrow> bool" where
  "orderly P C [] db = True"
| "orderly P C (op # ops) db = (step_is_orderly C op db \<and> orderly P (C \<union> claimed_for_purge op db) ops (account_do P op db))"

definition being_purged :: "uuid set \<Rightarrow> account_db \<Rightarrow> bool" where
  "being_purged C db \<longleftrightarrow> (\<forall>v \<in> set (ac_users db). u_id v \<in> C \<longrightarrow> u_state v = ''purging'')"

lemma has_administrator_iff: "has_administrator db \<longleftrightarrow> (\<exists>u \<in> set (ac_users db). active_admin u)"
  by (simp add: has_administrator_def list_ex_iff)

lemma administrator_same: "ac_users db' = ac_users db \<Longrightarrow> has_administrator db \<Longrightarrow> has_administrator db'"
  by (simp add: has_administrator_def)

lemma administrator_upd:
  assumes "has_administrator db" "ac_users db' = upd_where Q g (ac_users db)"
    and "\<And>u. u \<in> set (ac_users db) \<Longrightarrow> active_admin u \<Longrightarrow> Q u \<Longrightarrow> active_admin (g u)"
  shows "has_administrator db'"
proof -
  obtain u where u: "u \<in> set (ac_users db)" "active_admin u" using assms(1) by (auto simp: has_administrator_iff)
  then have "(if Q u then g u else u) \<in> set (ac_users db')" by (simp add: assms(2) set_upd_where)
  moreover have "active_admin (if Q u then g u else u)" using u assms(3) by simp
  ultimately show ?thesis by (auto simp only: has_administrator_iff)
qed

lemma administrator_snoc: "has_administrator db \<Longrightarrow> ac_users db' = ac_users db @ [u] \<Longrightarrow> has_administrator db'"
  by (auto simp: has_administrator_iff)

text \<open>Another account that is an active administrator is left alone.\<close>

lemma administrator_other:
  "remaining_administrators i db \<noteq> 0 \<Longrightarrow> ac_users db' = upd_where (\<lambda>u. u_id u = i) g (ac_users db) \<Longrightarrow> has_administrator db'"
  by (fastforce simp: remaining_administrators_def has_administrator_iff set_upd_where filter_empty_conv)

lemma administrator_role:
  assumes "account_inv db" "has_administrator db" "change_role k n c i r a w db = Inr (fx, db')"
  shows "has_administrator db'"
proof -
  obtain t where t: "user_of i db = Some t" "\<not> (r \<noteq> ''admin'' \<and> u_role t = ''admin'' \<and> remaining_administrators i db = 0)"
    and db': "ac_users db' = upd_where (\<lambda>u. u_id u = i) (\<lambda>u. u\<lparr>u_role := r\<rparr>) (ac_users db)"
    using assms(3) by (auto simp: change_role_def end_of_account_access_def set_user_rows split: option.splits)
  show ?thesis
  proof (cases "remaining_administrators i db = 0")
    case True
    then show ?thesis
      using t(2) user_of_unique[OF assms(1) t(1)] by (intro administrator_upd[OF assms(2) db']) (auto simp: active_admin_def)
  qed (rule administrator_other[OF _ db'])
qed

lemma administrator_state:
  assumes "account_inv db" "has_administrator db" "change_state k n i st a db = Inr (fx, db')"
  shows "has_administrator db'"
proof (cases "db' = db")
  case False
  then obtain t where t: "user_of i db = Some t" "\<not> (st \<noteq> ''active'' \<and> u_role t = ''admin'' \<and> remaining_administrators i db = 0)"
    and db': "ac_users db' = upd_where (\<lambda>u. u_id u = i) (\<lambda>u. u\<lparr>u_state := st\<rparr>) (ac_users db)"
    using assms(3) by (auto simp: change_state_def end_of_account_access_def Let_def set_user_rows split: option.splits if_splits)
  show ?thesis
  proof (cases "remaining_administrators i db = 0")
    case True
    then show ?thesis
      using t(2) user_of_unique[OF assms(1) t(1)] by (intro administrator_upd[OF assms(2) db']) (auto simp: active_admin_def)
  qed (rule administrator_other[OF _ db'])
qed (use assms(2) in simp)

lemma administrator_life:
  assumes "account_inv db" "has_administrator db" "step_is_orderly C (Life op) db" "being_purged C db"
  shows "has_administrator (life_do P op db)"
proof (cases op)
  case (Change_role k n c i r a w)
  then show ?thesis using administrator_role[OF assms(1,2)] assms(2) by (auto simp: committed_def split: sum.split)
next
  case (Change_state k n i st a)
  then show ?thesis using administrator_state[OF assms(1,2)] assms(2) by (auto simp: committed_def split: sum.split)
next
  case (Restore c i)
  have "has_administrator (set_user i restored db)" if "user_of i db = Some t" "u_state t = ''deletion_pending''" for t
    using that user_of_unique[OF assms(1) that(1)]
    by (intro administrator_upd[OF assms(2) set_user_rows]) (auto simp: active_admin_def)
  then show ?thesis using assms(2) by (auto simp: Restore restore_def committed_def raise_if_def split: option.split)
next
  case (Purge_claim k c i)
  have "has_administrator (erase_accounts k [i] (ac_users_update (upd_where (\<lambda>u. u_id u = i \<and> purgeable c u) (\<lambda>u. u\<lparr>u_state := ''purging''\<rparr>)) db))"
    by (rule administrator_upd[OF assms(2), where Q = "\<lambda>u. u_id u = i \<and> purgeable c u" and g = "\<lambda>u. u\<lparr>u_state := ''purging''\<rparr>"])
      (auto simp: active_admin_def purgeable_def)
  then show ?thesis using assms(2) by (simp add: Purge_claim purge_claim_def Let_def)
next
  case (Purge_finish k i)
  have "u_id v = i \<Longrightarrow> u_state v = ''purging''" if "v \<in> set (ac_users db)" for v
    using that assms(3,4) by (auto simp: Purge_finish being_purged_def)
  then show ?thesis
    using assms(2) by (fastforce simp: Purge_finish purge_finish_def Let_def has_administrator_iff set_del_where active_admin_def)
qed (use assms(3) in simp)

lemma administrator_credential: "has_administrator db \<Longrightarrow> has_administrator (credential_do P op db)"
proof -
  assume admin: "has_administrator db"
  have address: "put_address P u a db = Inr db' \<Longrightarrow> has_administrator db'" for u a db'
    using admin by (auto simp: put_address_def Let_def set_user_rows active_admin_def intro!: administrator_upd[OF admin] split: if_splits)
  have email: "change_email P k n c f w e db = Inr (x, db') \<Longrightarrow> has_administrator db'" for k n c f w e x db'
    using admin
    by (auto simp: change_email_def bindR_Inr_iff Let_def split: option.splits if_splits dest!: address rotate_others_users
        intro: administrator_same)
  show ?thesis
    using admin
    by (cases op)
      (auto simp: mint_reset_def mint_admin_recovery_def deliver_reset_def committed_def
        intro: administrator_same[OF credential_users(1)] administrator_same[OF credential_users(2)]
          administrator_same[OF credential_users(3)] administrator_same[OF credential_users(4)] email
        split: option.splits sum.splits)
qed

lemma administrator_invitation: "has_administrator db \<Longrightarrow> has_administrator (invitation_do P op db)"
  by (cases op)
    (auto simp: invite_def revoke_invitation_def reveal_def register_def bindR_Inr_iff Let_def committed_def has_administrator_def
      dest!: insert_Inr split: option.splits sum.splits)

lemma administrator_mode:
  "record_mode P m db = Inr db' \<Longrightarrow> has_administrator db \<Longrightarrow> has_administrator db'"
  using record_mode_tables by (simp add: has_administrator_def)

lemma administrator_adopt:
  assumes "adopt P i a p db = Inr (x, db')" "has_administrator db"
  shows "has_administrator db'"
proof -
  obtain u where "ac_users db' = upd_where (\<lambda>v. u_id v = u)
      (\<lambda>v. v\<lparr>u_email := a, u_role := ''admin'', u_state := ''active'', u_mail_verified := False\<rparr>) (ac_users db)"
    using assms(1) by (auto simp: adopt_def bindR_Inr_iff set_user_rows split: option.splits dest!: insert_Inr)
  then show ?thesis by (rule administrator_upd[OF assms(2)]) (simp add: active_admin_def)
qed

lemmas administrator_spend = administrator_same[OF install_users(1)]

lemma administrator_insert: "insert_user P u db = Inr db' \<Longrightarrow> has_administrator db \<Longrightarrow> has_administrator db'"
  using insert_Inr(1)[of P u db db'] by (auto intro: administrator_snoc)

lemma administrator_set:
  "has_administrator db \<Longrightarrow> has_administrator (set_user i (\<lambda>v. v\<lparr>u_role := ''admin''\<rparr>) db)"
  "has_administrator db \<Longrightarrow> has_administrator (set_user i (\<lambda>u. u\<lparr>u_state := ''active'', u_role := ''admin'', u_prior_state := None,
      u_deletion_requested_at := None\<rparr>) db)"
  by (rule administrator_upd[OF _ set_user_rows], assumption, simp add: active_admin_def)+

lemma administrator_collapse: "collapse k c db = Inr (x, db') \<Longrightarrow> has_administrator db'"
proof -
  assume run: "collapse k c db = Inr (x, db')"
  then obtain u where u: "local_user db = Some u" by (auto simp: collapse_def split: option.splits)
  then have "u \<in> set (ac_users db)" by (auto simp: local_user_def dest: find_SomeD)
  with run u show ?thesis by (auto simp: collapse_def Let_def has_administrator_iff active_admin_def)
qed

lemma administrator_install:
  assumes "has_administrator db"
  shows "has_administrator (install_do P op db)"
proof -
  note admin = assms
  have start: "has_administrator db'" if "decide_startup_auth_mode P m db = Inr (x, db')" for m x db'
    using that admin by (auto simp: decide_startup_auth_mode_def bindR_Inr_iff Let_def dest: administrator_mode split: if_splits option.splits)
  have local: "has_administrator db'" if "ensure_local_user P i m db = Inr (x, db')" for i m x db'
    using that admin administrator_set(1)[OF admin]
    by (auto simp: ensure_local_user_def bindR_Inr_iff dest: administrator_insert split: if_splits option.splits)
  have claim: "has_administrator db'" if "claim P n i t e p db = Inr (x, db')" for n i t e p x db'
    using that admin by (auto simp: claim_def bindR_Inr_iff dest!: administrator_spend dest: administrator_adopt administrator_mode)
  have decline: "has_administrator db'" if "decline_accounts P n t db = Inr (x, db')" for n t x db'
    using that admin by (auto simp: decline_accounts_def bindR_Inr_iff dest!: administrator_spend dest: administrator_mode)
  have turn_on: "has_administrator db'" if "turn_accounts_on P i e p db = Inr (x, db')" for i e p x db'
    using that admin by (auto simp: turn_accounts_on_def bindR_Inr_iff dest: administrator_adopt administrator_mode)
  have claimable: "has_administrator db'" if "ensure_claimable P i db = Inr (x, db')" for i x db'
    using that admin by (auto simp: ensure_claimable_def bindR_Inr_iff dest: administrator_insert split: if_splits)
  have restore: "has_administrator db'" if "reclaim_restore P e db = Inr (x, db')" for e x db'
    using that administrator_set(2)[OF admin] by (auto simp: reclaim_restore_def split: option.splits)
  have mode: "has_administrator db'" if "record_mode P ''accounts'' db = Inr db'" for db'
    using administrator_mode[OF that admin] .
  show ?thesis
    using admin administrator_same[OF install_users(2)] administrator_same[OF install_users(3)]
    by (cases op)
      (auto simp: committed_def dest: administrator_collapse start local claim decline turn_on claimable restore mode split: sum.splits)
qed

lemma administrator_do:
  assumes "account_inv db" "has_administrator db" "step_is_orderly C op db" "being_purged C db"
  shows "has_administrator (account_do P op db)"
proof (cases op)
  case (Sessions sop) then show ?thesis using administrator_same[OF session_users assms(2)] by simp
next
  case (Life lop) then show ?thesis using administrator_life[OF assms(1,2) _ assms(4)] assms(3) by simp
next
  case (Credentials cop) then show ?thesis using administrator_credential[OF assms(2)] by simp
next
  case (Invitations iop) then show ?thesis using administrator_invitation[OF assms(2)] by simp
next
  case (Second_factor fop) then show ?thesis using administrator_same[OF factor_users assms(2)] by simp
next
  case (Installs iop) then show ?thesis using administrator_install[OF assms(2)] by simp
qed (use assms(2) in \<open>simp add: has_administrator_def\<close>)

lemma orderly_serves: "step_is_orderly C op db \<Longrightarrow> served_again op db \<inter> C = {}"
  by (induction C op db rule: step_is_orderly.induct) simp_all

text \<open>What a purge has claimed stays claimed until it is deleted.\<close>

lemma claim_purges: "fst (purge_claim k c i db) \<Longrightarrow> account_inv db \<Longrightarrow> being_purged {i} (snd (purge_claim k c i db))"
proof -
  assume inv: "account_inv db" and won: "fst (purge_claim k c i db)"
  then obtain u where u: "u \<in> set (ac_users db)" "u_id u = i" "purgeable c u" by (auto simp: purge_claim_def Let_def split: if_splits)
  have "v = u" if "v \<in> set (ac_users db)" "u_id v = i" for v
    using that u account_invD(1)[OF inv] by (auto simp: users_ok_def distinct_map inj_on_def)
  with won u(3) show ?thesis by (auto simp: purge_claim_def Let_def being_purged_def set_upd_where split: if_splits)
qed

lemma being_purged_do:
  assumes "account_inv db" "step_is_orderly C op db" "being_purged C db"
  shows "being_purged (C \<union> claimed_for_purge op db) (account_do P op db)"
proof -
  have "u_state v = ''purging''" if "v \<in> set (ac_users (account_do P op db))" "u_id v \<in> C" for v
    using do_users[OF assms(1), of op P] that orderly_serves[OF assms(2)] assms(3)
    by (fastforce simp: rows_move_def user_keeps_def being_purged_def)
  moreover have "u_state v = ''purging''" if "v \<in> set (ac_users (account_do P op db))" "u_id v \<in> claimed_for_purge op db" for v
    using that claim_purges[OF _ assms(1)]
    by (induction op db rule: claimed_for_purge.induct) (auto simp: being_purged_def split: if_splits)
  ultimately show ?thesis by (auto simp: being_purged_def)
qed

lemma administrator_run:
  "account_inv db \<Longrightarrow> has_administrator db \<Longrightarrow> being_purged C db \<Longrightarrow> orderly P C ops db \<Longrightarrow> has_administrator (account_run P ops db)"
proof (induction ops arbitrary: C db)
  case (Cons op ops)
  then show ?case using administrator_do[of db C op P] being_purged_do[of db C op P] do_inv[of db P op] by simp
qed simp

text \<open>
  Property C14 (safety). An installation that has an active administrator keeps one through every run
  of the account modules, however the transactions of several administrators, of several purges and of
  the commands interleave, as long as no account deletes itself, every purge deletes only the account its
  own claim won, and none is claimed for, collapsed onto or created anew while it is being purged.
\<close>

theorem administrator_remains:
  assumes "account_inv db" "has_administrator db" "orderly P {} ops db"
  shows "has_administrator (account_run P ops db)"
  by (rule administrator_run[OF assms(1,2) _ assms(3)]) (simp add: being_purged_def)

text \<open>A house where ben asked to be deleted long ago: he is purged, and ann, who is then the only administrator, cannot be suspended.\<close>

definition leaving_house :: account_db where
  "leaving_house = house\<lparr>ac_users := [house_user ''ann'' ''admin'',
     (house_user ''ben'' ''user'')\<lparr>u_state := ''deletion_pending'', u_deletion_requested_at := Some 0\<rparr>]\<rparr>"

lemma leaving_house_inv: "account_inv leaving_house"
  by (simp add: account_inv_def leaving_house_def house_def house_user_def house_login_def users_ok_def user_ok_def ROLES_def ACCOUNT_STATES_def
      logins_ok_def tokens_ok_def token_ok_def factors_ok_def MAX_ATTEMPTS_def codes_ok_def invitations_ok_def identities_ok_def)

theorem administrator_remains_witness:
  "has_administrator (account_run house_prims
     [Life (Purge_claim (\<lambda>_. 1) 1 ''ben''), Life (Purge_finish (\<lambda>_. 2) ''ben''),
      Life (Change_state (\<lambda>_. 3) 3 ''ann'' ''suspended'' (house_user ''ben'' ''user''))] leaving_house)"
proof (rule administrator_remains[OF leaving_house_inv])
  show "has_administrator leaving_house" by (simp add: has_administrator_def active_admin_def leaving_house_def house_user_def)
  have "fst (purge_claim (\<lambda>_. 1) 1 ''ben'' leaving_house)"
    by (simp add: purge_claim_def purgeable_def leaving_house_def house_user_def Let_def)
  then show "orderly house_prims {} [Life (Purge_claim (\<lambda>_. 1) 1 ''ben''), Life (Purge_finish (\<lambda>_. 2) ''ben''),
      Life (Change_state (\<lambda>_. 3) 3 ''ann'' ''suspended'' (house_user ''ben'' ''user''))] leaving_house"
    by simp
qed

section \<open>Out of service\<close>

lemma erase_accounts_commands:
  "c \<in> set (db_commands (ac_fleet (erase_accounts k us db))) \<Longrightarrow> cmd_account_user_id c \<in> Some ` set us \<Longrightarrow> cmd_state c \<noteq> Pending"
proof -
  let ?sel = "account_erasure_selection us (fleet_view db)"
  assume c: "c \<in> set (db_commands (ac_fleet (erase_accounts k us db)))" "cmd_account_user_id c \<in> Some ` set us"
  have run: "erase_pending_rows k ?sel (fleet_view db) = (fst (erase_account_commands k us (fleet_view db)), ac_fleet (erase_accounts k us db))"
    by (simp add: erase_accounts_def erase_account_commands_def)
  have "fst ?sel = (\<lambda>c. cmd_account_user_id c \<in> Some ` set us)" by (simp add: account_erasure_selection_def)
  with c erase_pending_rows_effect(2)[OF run] show ?thesis by (auto simp: erased_command_def split: if_splits)
qed

lemma revoked_after:
  assumes "q \<in> set (ac_logins (revoke_where n (\<lambda>s. ls_user_id s = i) db))" "ls_user_id q = i"
  shows "ls_revoked_at q \<noteq> None"
proof -
  have "q \<in> set (upd_where (\<lambda>s. ls_user_id s = i \<and> ls_revoked_at s = None) (\<lambda>s. s\<lparr>ls_revoked_at := Some n\<rparr>) (ac_logins db))"
    using assms(1) by (simp add: revoke_where_def)
  then show ?thesis by (rule upd_whereE) (use assms(2) in simp_all)
qed

lemma spent_links: "l \<in> set (ac_tokens (spend_where n (mailed_link i) db)) \<Longrightarrow> mailed_link i l \<Longrightarrow> tk_consumed_at l \<noteq> None"
  unfolding spend_where_def by (auto elim!: upd_whereE)

text \<open>
  Property C15 (safety). Suspending, disabling or marking an account for deletion ends in one transaction
  everything in the database that acts for it: no session of it is left, no reset or recovery link works,
  no command of it is pending for a worker, no token identifies it, and an account that is disabled or
  marked cannot sign in. The handler then asks, after the commit and outside it, for every socket of the
  account to be closed and for each of its queued or running jobs to be cancelled.
\<close>

theorem out_of_service_ends_access:
  assumes "account_inv db" "change_state k n i st actor db = Inr (fx, db')" "st \<noteq> ''active''" "user_of i db = Some t" "u_state t \<noteq> st"
  shows "(\<forall>q \<in> set (ac_logins db'). ls_user_id q = i \<longrightarrow> ls_revoked_at q \<noteq> None)
     \<and> (\<forall>l \<in> set (ac_tokens db'). mailed_link i l \<longrightarrow> tk_consumed_at l \<noteq> None)
     \<and> (\<forall>c \<in> set (db_commands (ac_fleet db')). cmd_account_user_id c = Some i \<longrightarrow> cmd_state c \<noteq> Pending)
     \<and> (\<forall>s u. fst (resolve P c tok db') = Some (s, u) \<longrightarrow> u_id u \<noteq> i)
     \<and> (\<forall>u. login_admits P e pw db' = Inr u \<and> u_id u = i \<longrightarrow> st = ''suspended'')
     \<and> Close_sockets i None None \<in> set fx
     \<and> (\<forall>j \<in> set (unfinished_jobs i db'). Cancel_job j ''account suspended'' \<in> set fx)"
proof -
  let ?d = "set_user i (\<lambda>u. u\<lparr>u_state := st\<rparr>) (erase_accounts k [i] db)"
  have db': "db' = end_of_account_access n i ?d" and st: "st \<in> set STATE_REQUESTS"
    and fx: "fx = Close_sockets i None None # map (\<lambda>j. Cancel_job j ''account suspended'') (unfinished_jobs i db') @ [Audit ''account.state'' (Some i)]"
    using assms(2-5) by (auto simp: change_state_def Let_def split: option.splits)
  have logins: "\<forall>q \<in> set (ac_logins db'). ls_user_id q = i \<longrightarrow> ls_revoked_at q \<noteq> None"
    unfolding db' end_of_account_access_def by (blast dest: revoked_after)
  have links: "\<forall>l \<in> set (ac_tokens db'). mailed_link i l \<longrightarrow> tk_consumed_at l \<noteq> None"
    unfolding db' end_of_account_access_def by (auto dest: spent_links)
  have commands: "\<forall>c \<in> set (db_commands (ac_fleet db')). cmd_account_user_id c = Some i \<longrightarrow> cmd_state c \<noteq> Pending"
    using erase_accounts_commands[of _ k "[i]" db] by (auto simp: db' end_of_account_access_def)
  have tokens: "u_id u \<noteq> i" if res: "fst (resolve P c tok db') = Some (s, u)" for s u
  proof -
    obtain q where "q \<in> set (ac_logins db')" "ls_revoked_at q = None" "ls_user_id q = u_id u" using resolve_sound[OF res] by blast
    with logins show ?thesis by auto
  qed
  have state: "u_state u = st" if u: "u \<in> set (ac_users db')" "u_id u = i" for u
  proof -
    have "u \<in> set (upd_where (\<lambda>u. u_id u = i) (\<lambda>u. u\<lparr>u_state := st\<rparr>) (ac_users db))"
      using u(1) by (simp add: db' end_of_account_access_def set_user_rows)
    then show ?thesis by (rule upd_whereE) (use u(2) in simp_all)
  qed
  have admitted: "u \<in> set (ac_users db') \<and> u_state u \<notin> set CANNOT_SIGN_IN" if "login_admits P e pw db' = Inr u" for u
    using that by (auto simp: login_admits_def Let_def user_of_def split: option.splits dest: find_SomeD)
  have "st = ''suspended''" if "login_admits P e pw db' = Inr u" "u_id u = i" for u
  proof -
    have "st \<notin> set CANNOT_SIGN_IN" using admitted[OF that(1)] state that(2) by metis
    with st assms(3) show ?thesis by (auto simp: STATE_REQUESTS_def CANNOT_SIGN_IN_def)
  qed
  moreover have "Close_sockets i None None \<in> set fx" "\<forall>j \<in> set (unfinished_jobs i db'). Cancel_job j ''account suspended'' \<in> set fx"
    by (simp_all add: fx)
  ultimately show ?thesis using logins links commands tokens by blast
qed

definition house_suspended :: "account_effect list atx" where
  "house_suspended = change_state (\<lambda>_. 1) 1 ''ben'' ''suspended'' (house_user ''ann'' ''admin'') house"

lemma house_ben: "user_of ''ben'' house = Some (house_user ''ben'' ''user'')"
  by (simp add: user_of_def house_def house_user_def)

lemma house_suspended_runs: "\<exists>fx db'. house_suspended = Inr (fx, db')"
  by (simp add: house_suspended_def change_state_def STATE_REQUESTS_def TRANSITIONS_def house_ben house_user_def Let_def)

theorem out_of_service_ends_access_witness:
  "\<exists>fx db'. house_suspended = Inr (fx, db') \<and> Close_sockets ''ben'' None None \<in> set fx
     \<and> (\<forall>q \<in> set (ac_logins db'). ls_user_id q = ''ben'' \<longrightarrow> ls_revoked_at q \<noteq> None)"
proof -
  obtain fx db' where run: "house_suspended = Inr (fx, db')" using house_suspended_runs by blast
  have "u_state (house_user ''ben'' ''user'') \<noteq> ''suspended''" by (simp add: house_user_def)
  then have "Close_sockets ''ben'' None None \<in> set fx \<and> (\<forall>q \<in> set (ac_logins db'). ls_user_id q = ''ben'' \<longrightarrow> ls_revoked_at q \<noteq> None)"
    using out_of_service_ends_access[OF house_inv run[unfolded house_suspended_def] _ house_ben, where P = house_prims and c = 0] by simp
  with run show ?thesis by blast
qed

section \<open>Deletion and the way back\<close>

lemma user_of_upd:
  assumes "user_of i db = Some a" "ac_users db' = upd_where Q g (ac_users db)" "Q a" "\<And>u. u_id (g u) = u_id u"
  shows "user_of i db' = Some (g a)"
proof -
  have "find (\<lambda>u. u_id u = i) rows = Some a \<Longrightarrow> find (\<lambda>u. u_id u = i) (upd_where Q g rows) = Some (g a)" for rows
    using assms(3,4) by (induction rows) (auto split: if_splits)
  with assms(1,2) show ?thesis by (simp add: user_of_def)
qed

lemma purge_claim_row:
  assumes "account_inv db" "user_of i db = Some a"
  shows "fst (purge_claim k c i db) = purgeable c a"
proof -
  have "a \<in> set (ac_users db)" "u_id a = i" using assms(2) by (auto simp: user_of_def dest: find_SomeD)
  then have "(\<exists>u \<in> set (ac_users db). u_id u = i \<and> purgeable c u) = purgeable c a"
    using user_of_unique[OF assms] by blast
  then have "exists_row (\<lambda>u. u_id u = i \<and> purgeable c u) (ac_users db) = purgeable c a" by simp
  then show ?thesis by (simp add: purge_claim_def Let_def del: exists_row_iff)
qed

text \<open>
  Property C21 (roundtrip). An account that asked to be deleted is not purged within thirty days, and an
  administrator who restores it within them puts it back in the state it had when it asked, with its
  address and its role.
\<close>

theorem deletion_is_undone:
  assumes "account_inv db" "user_of i db = Some a" "u_state a \<noteq> ''deletion_pending''" "u_state a \<noteq> ''purging''"
    and "request_deletion k n i db = (asked, db')" "c \<le> n + RESTORE_WINDOW"
  shows "asked \<and> \<not> fst (purge_claim k' (c - RESTORE_WINDOW) i db')
     \<and> (\<exists>fx db''. restore c i db' = Inr (fx, db'')
          \<and> user_of i db'' = Some (a\<lparr>u_prior_state := None, u_deletion_requested_at := Some n\<rparr>))"
proof -
  let ?stays = "\<lambda>u. u_id u = i \<and> u_state u \<noteq> ''deletion_pending'' \<and> u_state u \<noteq> ''purging''"
  have a: "a \<in> set (ac_users db)" "u_id a = i" using assms(2) by (auto simp: user_of_def dest: find_SomeD)
  then have "exists_row ?stays (ac_users db)" using assms(3,4) by auto
  then have asked: "asked" and db': "ac_users db' = upd_where ?stays (leaving n) (ac_users db)"
    using assms(5) by (auto simp: request_deletion_def Let_def simp del: exists_row_iff)
  have now: "user_of i db' = Some (leaving n a)"
    using user_of_upd[OF assms(2) db'] a assms(3,4) by (simp add: leaving_def)
  have inv: "account_inv db'" using inv_request[OF assms(1), of k n i] assms(5) by simp
  have "\<not> fst (purge_claim k' (c - RESTORE_WINDOW) i db')"
    using assms(6) by (simp add: purge_claim_row[OF inv now] purgeable_def leaving_def)
  moreover have "u_state a \<noteq> []"
    using account_invD(1)[OF assms(1)] a by (auto simp: users_ok_def list_all_iff user_ok_def ACCOUNT_STATES_def)
  then have put_back: "restored (leaving n a) = a\<lparr>u_prior_state := None, u_deletion_requested_at := Some n\<rparr>"
    by (simp add: restored_def leaving_def)
  have "restore c i db' = Inr ([Audit ''account.restore'' (Some i)], set_user i restored db')"
    using assms(6) now by (simp add: restore_def leaving_def raise_if_def)
  moreover have "user_of i (set_user i restored db') = Some (restored (leaving n a))"
    using a by (intro user_of_upd[OF now set_user_rows]) (simp_all add: leaving_def)
  ultimately show ?thesis using asked put_back by auto
qed

theorem deletion_is_undone_witness:
  "fst (request_deletion (\<lambda>_. 1) 1 ''ben'' house)
     \<and> \<not> fst (purge_claim (\<lambda>_. 1) (DAY - RESTORE_WINDOW) ''ben'' (snd (request_deletion (\<lambda>_. 1) 1 ''ben'' house)))"
  using deletion_is_undone[OF house_inv house_ben _ _ surjective_pairing, where c = DAY and n = 1 and k = "\<lambda>_. 1" and k' = "\<lambda>_. 1"]
  by (simp add: house_user_def RESTORE_WINDOW_def DAY_def HOUR_def MINUTE_def)

text \<open>
  Property C38 (error). The deletion an administrator sets does not start the thirty days. An account
  with no request of its own on record is not taken by a purge, whatever the cutoff, and if it has no prior
  state on record either, restoring it makes it active, though it was suspended or disabled before. An
  account whose own request is on record from more than thirty days ago, because it was restored since, is
  taken by the next purge at once and a restore of it is refused.
\<close>

theorem administrator_deletion_has_no_window:
  assumes "account_inv db" "user_of i db = Some a" "u_state a \<noteq> ''deletion_pending''"
    and "change_state k n i ''deletion_pending'' actor db = Inr (fx, db')"
  shows "(u_deletion_requested_at a = None \<longrightarrow> \<not> fst (purge_claim k' cutoff i db')
       \<and> (u_prior_state a = None \<longrightarrow> (\<exists>fx' db''. restore c i db' = Inr (fx', db'') \<and> map_option u_state (user_of i db'') = Some ''active'')))
     \<and> (\<forall>t. u_deletion_requested_at a = Some t \<and> t < c - RESTORE_WINDOW \<longrightarrow> fst (purge_claim k' (c - RESTORE_WINDOW) i db')
       \<and> restore c i db' = Inl (HTTP 409 ''that account passed its 30 day restore window''))"
proof -
  let ?a = "a\<lparr>u_state := ''deletion_pending''\<rparr>"
  have i: "u_id a = i" using assms(2) by (auto simp: user_of_def dest: find_SomeD)
  have "ac_users db' = upd_where (\<lambda>u. u_id u = i) (\<lambda>u. u\<lparr>u_state := ''deletion_pending''\<rparr>) (ac_users db)"
    using assms(2-4) by (auto simp: change_state_def end_of_account_access_def Let_def set_user_rows split: option.splits)
  then have now: "user_of i db' = Some ?a" using user_of_upd[OF assms(2)] i by simp
  have inv: "account_inv db'"
    using inv_life[OF assms(1), of undefined "Change_state k n i ''deletion_pending'' actor"] assms(4) by simp
  have "user_of i (set_user i restored db') = Some (restored ?a)"
    using i by (intro user_of_upd[OF now set_user_rows]) simp_all
  then have never: "u_deletion_requested_at a = None \<Longrightarrow> u_prior_state a = None \<Longrightarrow>
      \<exists>fx' db''. restore c i db' = Inr (fx', db'') \<and> map_option u_state (user_of i db'') = Some ''active''"
    using now by (simp add: restore_def raise_if_def restored_def)
  have "\<not> fst (purge_claim k' cutoff i db')" if "u_deletion_requested_at a = None"
    using that by (simp add: purge_claim_row[OF inv now] purgeable_def)
  moreover have "fst (purge_claim k' (c - RESTORE_WINDOW) i db')" if "u_deletion_requested_at a = Some t" "t < c - RESTORE_WINDOW" for t
    using that by (simp add: purge_claim_row[OF inv now] purgeable_def)
  moreover have "restore c i db' = Inl (HTTP 409 ''that account passed its 30 day restore window'')"
    if "u_deletion_requested_at a = Some t" "t < c - RESTORE_WINDOW" for t
    using that now by (simp add: restore_def raise_if_def)
  ultimately show ?thesis using never by blast
qed

definition house_marked :: "account_effect list atx" where
  "house_marked = change_state (\<lambda>_. 1) 1 ''ben'' ''deletion_pending'' (house_user ''ann'' ''admin'') house"

lemma house_marked_runs: "\<exists>fx db'. house_marked = Inr (fx, db')"
  by (simp add: house_marked_def change_state_def STATE_REQUESTS_def TRANSITIONS_def house_ben house_user_def Let_def)

theorem administrator_deletion_has_no_window_witness:
  "\<exists>fx db'. house_marked = Inr (fx, db') \<and> \<not> fst (purge_claim (\<lambda>_. 1) (100 * DAY) ''ben'' db')"
proof -
  obtain fx db' where run: "house_marked = Inr (fx, db')" using house_marked_runs by blast
  have "u_state (house_user ''ben'' ''user'') \<noteq> ''deletion_pending''" "u_deletion_requested_at (house_user ''ben'' ''user'') = None"
    by (simp_all add: house_user_def)
  with run administrator_deletion_has_no_window[OF house_inv house_ben _ run[unfolded house_marked_def]] show ?thesis by blast
qed

section \<open>A sign-in across a reset\<close>

lemma login_admits_user: "login_admits P e pw db = Inr u \<Longrightarrow> user_of (u_id u) db = Some u"
proof -
  assume "login_admits P e pw db = Inr u"
  then obtain i where found: "user_of i db = Some u"
    by (auto simp: login_admits_def Let_def split: option.splits)
  then have "u_id u = i" by (auto simp: user_of_def dest: find_SomeD)
  with found show ?thesis by simp
qed

lemma complete_reset_logins:
  "complete_reset P k n i t p db = Inr (fx, db') \<Longrightarrow> ac_users db' = ac_users db \<and> ac_factors db' = ac_factors db
     \<and> (\<exists>v. ac_logins db' = upd_where (\<lambda>s. ls_user_id s = v \<and> ls_revoked_at s = None) (\<lambda>s. s\<lparr>ls_revoked_at := Some n\<rparr>) (ac_logins db))"
  by (auto simp: complete_reset_def bindR_Inr_iff Let_def revoke_where_def dest!: put_tables(1) split: option.splits)

text \<open>
  Property C39 (error). A sign-in that checked the old password before a reset and mints its session
  after it gets a live session: the gate in between looks at the factor again and not at the password.
  The reset, meant to end every session of whoever knew the old password, does not reach it.
\<close>

theorem stale_sign_in_survives_a_reset:
  assumes "login_admits P e pw db = Inr u" "enrolled_factor (u_id u) db = None"
    and "find (usable_reset P n t) (ac_tokens db) = Some q" "tk_user_id q = Some (u_id u)"
    and reset: "complete_reset P k n i t npw db = Inr (fx, db')"
    and unused: "\<forall>s \<in> set (ac_logins db). ls_id s \<noteq> fs_id f \<and> ls_token_hash s \<noteq> ap_sha256 P (fs_token f)"
  shows "\<exists>iss db''. mint_behind_the_gate P c f u rem None db' = Inr (Some iss, db'') \<and> is_live c (fs_id f) db''
     \<and> map_option ls_user_id (login_of (fs_id f) db'') = Some (u_id u)"
proof -
  obtain v where logins: "ac_logins db' = upd_where (\<lambda>s. ls_user_id s = v \<and> ls_revoked_at s = None) (\<lambda>s. s\<lparr>ls_revoked_at := Some n\<rparr>) (ac_logins db)"
    and same: "ac_users db' = ac_users db" "ac_factors db' = ac_factors db"
    using complete_reset_logins[OF reset] by blast
  have free: "ls_id s \<noteq> fs_id f \<and> ls_token_hash s \<noteq> ap_sha256 P (fs_token f)" if "s \<in> set (ac_logins db')" for s
    using that unused unfolding logins by (auto elim!: upd_whereE)
  define remembered idle where "remembered = fst (session_shape (u_role u) rem)" and "idle = snd (session_shape (u_role u) rem)"
  define row where "row = \<lparr>ls_id = fs_id f, ls_user_id = u_id u, ls_token_hash = ap_sha256 P (fs_token f), ls_remember_me = remembered,
    ls_absolute_expires_at = c + (if remembered then REMEMBER_ABSOLUTE else ABSOLUTE), ls_idle_expires_at = map_option (\<lambda>d. c + d) idle,
    ls_recent_auth_at = Some c, ls_revoked_at = None, ls_last_seen_at = None\<rparr>"
  have user: "user_of (u_id u) db' = Some u" using login_admits_user[OF assms(1)] same(1) by (simp add: user_of_def)
  have "insert_login row db' = Inr (ac_logins_update (\<lambda>ss. ss @ [row]) db')"
    using free user by (auto simp: insert_login_def row_def)
  moreover have "enrolled_factor (u_id u) db' = None" using assms(2) same(2) by (simp add: enrolled_factor_def)
  ultimately have "mint_behind_the_gate P c f u rem None db' = Inr (Some (issue remembered f), ac_logins_update (\<lambda>ss. ss @ [row]) db')"
    by (simp add: mint_behind_the_gate_def mint_in_def row_def remembered_def idle_def split_beta Let_def)
  moreover have new: "login_of (fs_id f) (ac_logins_update (\<lambda>ss. ss @ [row]) db') = Some row"
  proof -
    have "find (\<lambda>s. ls_id s = fs_id f) (rows @ [row]) = Some row" if "\<forall>s \<in> set rows. ls_id s \<noteq> fs_id f" for rows
      using that by (induction rows) (auto simp: row_def)
    then show ?thesis using free by (simp add: login_of_def)
  qed
  moreover have "\<not> expired c row"
    by (auto simp: expired_def row_def idle_def session_shape_def spans)
  ultimately show ?thesis by (auto simp: is_live_def row_def)
qed

definition house_old_password :: "account_exn + account" where
  "house_old_password = login_admits house_prims ''ben@x'' ''old-password'' house"

lemma house_old_password_admits: "house_old_password = Inr (house_user ''ben'' ''user'')"
  by (simp add: house_old_password_def login_admits_def normalized_def house_prims_def house_def house_user_def user_of_def CANNOT_SIGN_IN_def)

theorem stale_sign_in_survives_a_reset_witness:
  "\<exists>fx db' iss db''. house_reset = Inr (fx, db')
     \<and> mint_behind_the_gate house_prims 2 \<lparr>fs_id = ''s9'', fs_token = ''late'', fs_csrf = []\<rparr> (house_user ''ben'' ''user'') True None db'
         = Inr (Some iss, db'')
     \<and> is_live 2 ''s9'' db''"
proof -
  obtain fx db' where run: "house_reset = Inr (fx, db')" using house_reset_runs by blast
  let ?q = "\<lparr>tk_id = ''t1'', tk_user_id = Some ''ben'', tk_purpose = ''reset'', tk_token_hash = ''link'', tk_attempts = 0,
        tk_expires_at = RESET_TTL, tk_consumed_at = None\<rparr>"
  have "find (usable_reset house_prims 1 ''link'') (ac_tokens house) = Some ?q"
    by (simp add: usable_reset_def RESET_PURPOSES_def RESET_TTL_def MINUTE_def house_def house_prims_def)
  moreover have "enrolled_factor (u_id (house_user ''ben'' ''user'')) house = None"
    by (simp add: enrolled_factor_def house_def house_user_def)
  moreover have "tk_user_id ?q = Some (u_id (house_user ''ben'' ''user''))" by (simp add: house_user_def)
  moreover have "\<forall>s \<in> set (ac_logins house). ls_id s \<noteq> ''s9'' \<and> ls_token_hash s \<noteq> ap_sha256 house_prims ''late''"
    by (simp add: house_def house_login_def house_prims_def)
  ultimately show ?thesis
    using stale_sign_in_survives_a_reset[OF house_old_password_admits[unfolded house_old_password_def], of 1 "''link''" ?q _ _ _ fx db'
      "\<lparr>fs_id = ''s9'', fs_token = ''late'', fs_csrf = []\<rparr>" 2 True] run[unfolded house_reset_def] run
    by simp blast
qed

section \<open>Turning accounts off\<close>

lemma collapse_fails_iff:
  "collapse k COLLAPSE_PHRASE db = Inl (Lookup ''this install has no implicit local user to collapse onto'')
     \<longleftrightarrow> LOCAL_USER_EMAIL \<notin> u_email ` set (ac_users db)"
proof (cases "local_user db")
  case None
  then have "LOCAL_USER_EMAIL \<notin> u_email ` set (ac_users db)" by (auto simp: local_user_def find_None_iff image_iff)
  with None show ?thesis by (simp add: collapse_def raise_if_def)
next
  case (Some u)
  then have "u \<in> set (ac_users db)" "u_email u = LOCAL_USER_EMAIL" by (auto simp: local_user_def dest: find_SomeD)
  then have "LOCAL_USER_EMAIL \<in> u_email ` set (ac_users db)" by force
  with Some show ?thesis by (simp add: collapse_def raise_if_def Let_def)
qed

text \<open>
  Property C40 (error). The command that turns accounts off fails exactly where no account has the
  address of the implicit local user, and claiming an installation renames that user: once an
  installation is claimed with another address the command fails, though the phrase is typed right, and
  goes on failing as long as no account takes the address; the next start in accounts mode does not bring
  the user back.
\<close>

theorem collapse_fails_once_claimed:
  assumes "account_inv db" "claim P n i t e pw db = Inr (u, db')" "checked_email P e = Inr a" "a \<noteq> LOCAL_USER_EMAIL"
  shows "collapse k COLLAPSE_PHRASE db' = Inl (Lookup ''this install has no implicit local user to collapse onto'')
     \<and> ensure_local_user P j ''accounts'' db' = Inr (None, db')
     \<and> (\<forall>later. collapse k COLLAPSE_PHRASE later = Inl (Lookup ''this install has no implicit local user to collapse onto'')
          \<longleftrightarrow> LOCAL_USER_EMAIL \<notin> u_email ` set (ac_users later))"
proof -
  obtain db1 db2 where spend: "spend_setup P n t db = Inr db1" and ad: "adopt P i a pw db1 = Inr (u, db2)"
    and mode: "record_mode P ''accounts'' db2 = Inr db'"
    using assms(2,3) by (auto simp: claim_def bindR_Inr_iff)
  have users1: "ac_users db1 = ac_users db" using spend by (auto simp: spend_setup_def)
  obtain v where v: "local_user db1 = Some v"
    and db2: "ac_users db2 = upd_where (\<lambda>w. u_id w = u_id v) (\<lambda>w. w\<lparr>u_email := a, u_role := ''admin'', u_state := ''active'', u_mail_verified := False\<rparr>) (ac_users db1)"
    and ids: "ac_identities db2 \<noteq> []"
    using ad by (auto simp: adopt_def bindR_Inr_iff set_user_rows split: option.splits dest!: insert_Inr)
  have "u_email w \<noteq> LOCAL_USER_EMAIL" if "w \<in> set (ac_users db2)" for w
    using that unfolding db2
  proof (rule upd_whereE)
    assume w: "w \<in> set (ac_users db1)" "u_id w \<noteq> u_id v"
    have "v \<in> set (ac_users db)" "u_email v = LOCAL_USER_EMAIL" using v users1 by (auto simp: local_user_def dest: find_SomeD)
    then show ?thesis using w account_invD(1)[OF assms(1)] by (auto simp: users1 users_ok_def distinct_map inj_on_def)
  qed (use assms(4) in simp)
  then have "local_user db' = None" using record_mode_tables[OF mode] by (auto simp: local_user_def find_None_iff)
  moreover have "ac_identities db' \<noteq> []" using ids record_mode_tables[OF mode] by simp
  ultimately show ?thesis using collapse_fails_iff by (simp add: collapse_def ensure_local_user_def raise_if_def)
qed

definition fresh_house :: account_db where
  "fresh_house = (no_accounts demo_committed)\<lparr>ac_users := [implicit_user ''ann''],
     ac_tokens := [\<lparr>tk_id = ''t1'', tk_user_id = None, tk_purpose = ''setup'', tk_token_hash = ''setup'', tk_attempts = 0,
        tk_expires_at = SETUP_TTL, tk_consumed_at = None\<rparr>]\<rparr>"

lemma fresh_house_inv: "account_inv fresh_house"
  by (simp add: account_inv_def fresh_house_def no_accounts_def users_ok_def implicit_user_ok logins_ok_def
      tokens_ok_def token_ok_def factors_ok_def codes_ok_def invitations_ok_def identities_ok_def)

definition fresh_house_claim :: "uuid atx" where
  "fresh_house_claim = claim house_prims 1 ''i1'' ''setup'' ''ann@x'' ''a new password'' fresh_house"

lemma fresh_house_claim_runs: "\<exists>u db'. fresh_house_claim = Inr (u, db')"
proof -
  have "policy_hash house_prims ''a new password'' = Inr ''ha new password''"
    by (simp add: policy_hash_def hash_password_def house_prims_def py_len_def MIN_LENGTH_def MAX_LENGTH_def)
  then show ?thesis
    by (simp add: fresh_house_claim_def claim_def checked_email_def NOT_IN_AN_ADDRESS_def MAX_EMAIL_LENGTH_def py_len_def spend_setup_def
        usable_setup_def SETUP_PURPOSE_def SETUP_TTL_def HOUR_def MINUTE_def recorded_mode_def adopt_def local_user_def implicit_user_def
        insert_identity_def user_of_def set_user_def record_mode_def ring_or_raise_def spend_where_def
        raise_if_def sql_normalized_def fresh_house_def no_accounts_def house_prims_def Let_def)
qed

theorem collapse_fails_once_claimed_witness:
  "\<exists>u db'. fresh_house_claim = Inr (u, db')
     \<and> collapse (\<lambda>_. 2) COLLAPSE_PHRASE db' = Inl (Lookup ''this install has no implicit local user to collapse onto'')"
proof -
  obtain u db' where run: "fresh_house_claim = Inr (u, db')" using fresh_house_claim_runs by blast
  have "checked_email house_prims ''ann@x'' = Inr ''ann@x''"
    by (simp add: checked_email_def NOT_IN_AN_ADDRESS_def MAX_EMAIL_LENGTH_def py_len_def house_prims_def Let_def)
  moreover have "''ann@x'' \<noteq> LOCAL_USER_EMAIL" by (simp add: LOCAL_USER_EMAIL_def)
  ultimately show ?thesis using collapse_fails_once_claimed[OF fresh_house_inv run[unfolded fresh_house_claim_def]] run by blast
qed

lemma filter_key: "distinct (map f rows) \<Longrightarrow> u \<in> set rows \<Longrightarrow> filter (\<lambda>v. f v = f u) rows = [u]"
proof (induction rows)
  case (Cons r rows)
  then have "r = u \<Longrightarrow> filter (\<lambda>v. f v = f u) rows = []"
    by (auto simp: filter_empty_conv) (metis imageI)
  with Cons show ?case by (cases "r = u") auto
qed simp

lemma fence_jobs: "db_jobs (fence_conns k ws db) = db_jobs db" "db_assets (fence_conns k ws db) = db_assets db"
proof -
  have "db_jobs (fold (\<lambda>(i, key). fence_conn key (k i)) xs d) = db_jobs d \<and> db_assets (fold (\<lambda>(i, key). fence_conn key (k i)) xs d) = db_assets d"
    for xs :: "(nat \<times> string \<times> uuid) list" and d
    by (induction xs arbitrary: d) (auto simp: fence_conn_def)
  then show "db_jobs (fence_conns k ws db) = db_jobs db" "db_assets (fence_conns k ws db) = db_assets db"
    by (simp_all add: fence_conns_def)
qed

lemma erase_pending_jobs:
  "db_jobs (snd (erase_pending_rows k sel db)) = db_jobs db" "db_assets (snd (erase_pending_rows k sel db)) = db_assets db"
  by (simp_all add: erase_pending_rows_def fence_jobs Let_def)

lemma erase_jobs [simp]:
  "db_jobs (ac_fleet (erase_accounts k us db)) = db_jobs (ac_fleet db)"
  "db_assets (ac_fleet (erase_accounts k us db)) = db_assets (ac_fleet db)"
  by (simp_all add: erase_accounts_def erase_account_commands_def erase_pending_jobs fleet_view_def)

text \<open>
  Property C20 (error). A purge and the command that turns accounts off do not look at each other. When
  the account that holds the implicit user's address is claimed by a purge and the command runs before
  the purge's last transaction, the command keeps that account as the only administrator, active again and
  the owner of every generation and every file; the last transaction, which does not look at its state
  again, then deletes the account, every generation and every file.
\<close>

theorem collapse_loses_to_a_purge:
  assumes "account_inv db" "purge_claim k c i db = (True, db1)" "local_user db1 = Some u" "u_id u = i"
  shows "\<exists>v db2. collapse k' COLLAPSE_PHRASE db1 = Inr (v, db2)
     \<and> map (\<lambda>v. (u_id v, u_role v, u_state v)) (ac_users db2) = [(i, ''admin'', ''active'')]
     \<and> map (\<lambda>j. (jb_id j, jb_user_id j)) (db_jobs (ac_fleet db2)) = map (\<lambda>j. (jb_id j, i)) (db_jobs (ac_fleet db))
     \<and> map (\<lambda>a. (as_id a, as_user_id a)) (db_assets (ac_fleet db2)) = map (\<lambda>a. (as_id a, i)) (db_assets (ac_fleet db))
     \<and> ac_users (purge_finish k'' i db2) = []
     \<and> db_jobs (ac_fleet (purge_finish k'' i db2)) = [] \<and> db_assets (ac_fleet (purge_finish k'' i db2)) = []"
proof -
  have "users_ok (ac_users db1)"
    using do_inv[OF assms(1), of undefined "Life (Purge_claim k c i)"] assms(2) account_invD(1) by simp
  moreover have "u \<in> set (ac_users db1)" using assms(3) by (auto simp: local_user_def dest: find_SomeD)
  ultimately have kept: "filter (\<lambda>v. u_id v = i) (ac_users db1) = [u]"
    using filter_key[of u_id] assms(4) by (auto simp: users_ok_def)
  have same: "db_jobs (ac_fleet db1) = db_jobs (ac_fleet db)" "db_assets (ac_fleet db1) = db_assets (ac_fleet db)"
    using assms(2) by (auto simp: purge_claim_def Let_def split: if_splits)
  obtain v db2 where run: "collapse k' COLLAPSE_PHRASE db1 = Inr (v, db2)"
    using assms(3) by (auto simp: collapse_def Let_def raise_if_def)
  then have users: "ac_users db2 = [u\<lparr>u_role := ''admin'', u_state := ''active'', u_prior_state := None, u_deletion_requested_at := None\<rparr>]"
    and jobs: "db_jobs (ac_fleet db2) = map (\<lambda>j. j\<lparr>jb_user_id := i\<rparr>) (db_jobs (ac_fleet db))"
    and assets: "db_assets (ac_fleet db2) = map (\<lambda>a. a\<lparr>as_user_id := i\<rparr>) (db_assets (ac_fleet db))"
    using assms(3,4) kept same by (auto simp: collapse_def Let_def raise_if_def)
  have gone: "ac_users (purge_finish k'' i db2) = []" "db_jobs (ac_fleet (purge_finish k'' i db2)) = []"
    "db_assets (ac_fleet (purge_finish k'' i db2)) = []"
    using users jobs assets assms(4) by (auto simp: purge_finish_def delete_user_def del_where_def upd_where_def Let_def filter_empty_conv)
  show ?thesis using run users jobs assets gone assms(4) by (auto simp: o_def)
qed

definition quiet_house :: account_db where
  "quiet_house = house\<lparr>ac_users := [house_user ''ann'' ''admin'',
     (house_user ''ben'' ''user'')\<lparr>u_email := LOCAL_USER_EMAIL, u_state := ''deletion_pending'', u_deletion_requested_at := Some 0\<rparr>]\<rparr>"

lemma quiet_house_inv: "account_inv quiet_house"
  by (simp add: account_inv_def quiet_house_def house_def house_user_def house_login_def users_ok_def user_ok_def ROLES_def ACCOUNT_STATES_def
      LOCAL_USER_EMAIL_def
      logins_ok_def tokens_ok_def token_ok_def factors_ok_def MAX_ATTEMPTS_def codes_ok_def invitations_ok_def identities_ok_def)

theorem collapse_loses_to_a_purge_witness:
  "\<exists>db1 v db2. purge_claim (\<lambda>_. 1) 1 ''ben'' quiet_house = (True, db1) \<and> collapse (\<lambda>_. 2) COLLAPSE_PHRASE db1 = Inr (v, db2)
     \<and> ac_users (purge_finish (\<lambda>_. 3) ''ben'' db2) = []"
proof -
  obtain db1 where claim: "purge_claim (\<lambda>_. 1) 1 ''ben'' quiet_house = (True, db1)"
    by (simp add: purge_claim_def purgeable_def quiet_house_def house_user_def Let_def)
  then obtain u where "local_user db1 = Some u" "u_id u = ''ben''"
    by (auto simp: purge_claim_def purgeable_def quiet_house_def house_user_def local_user_def LOCAL_USER_EMAIL_def upd_where_def Let_def)
  with collapse_loses_to_a_purge[OF quiet_house_inv claim, of u "\<lambda>_. 2" "\<lambda>_. 3"] claim show ?thesis by blast
qed

end
