(* ===== verification/Account_Routes.thy ===== *)
theory Account_Routes
  imports Session_Contract
begin

text \<open>
  The handlers of more than one transaction, from the request to the answer: signing in and out
  (\<open>accounts.py\<close>), answering a challenge, removing and enrolling a factor (\<open>factors.py\<close>),
  registering (\<open>invitations.py\<close>), the rotation of a session (\<open>sessions.py\<close>), the setup page, the
  runtime enable and the enabling command (\<open>enable.py\<close>), with the gate of an undecided installation
  (\<open>auth_mode.py\<close>). A handler returns what it answers or raises, the effects it had, and
  the database after the transactions it committed. Here the transactions of one request follow each
  other; what other requests do in between is the business of the runs.
\<close>

type_synonym 'a route = "(account_exn + 'a) \<times> account_effect list \<times> account_db"

section \<open>Signing in and out\<close>

datatype sign_in = Signed_in issued | Totp_required string

text \<open>\<open>charged\<close> is what the sign-in limits raise, \<open>cookie\<close> the session cookie the browser presented.\<close>

definition presented_session :: "account_prims \<Rightarrow> moment \<Rightarrow> string option \<Rightarrow> account_db \<Rightarrow> resolved option \<times> account_db" where
  "presented_session P clock cookie db =
     (case cookie of None \<Rightarrow> (None, db) | Some token \<Rightarrow> if token = [] then (None, db) else resolve P clock token db)"

text \<open>Only the session presented with the sign-in is retired.\<close>

definition retire_presented :: "clock \<Rightarrow> moment \<Rightarrow> resolved option \<Rightarrow> account_db \<Rightarrow> account_effect list atx" where
  "retire_presented clk clock presented db =
     (case presented of None \<Rightarrow> Inr ([], db) | Some (s, _) \<Rightarrow> revoke_session_row clk clock (ls_id s) db)"

definition login ::
    "account_prims \<Rightarrow> clock \<Rightarrow> moment \<Rightarrow> moment \<Rightarrow> fresh_session \<Rightarrow> fresh_token \<Rightarrow> account_exn option \<Rightarrow> string option \<Rightarrow> string \<Rightarrow> string \<Rightarrow>
     bool \<Rightarrow> account_db \<Rightarrow> sign_in route" where
  "login P clk now clock f ft charged cookie email password remember_me db =
     (case charged of
        Some e \<Rightarrow> (Inl e, [], db)
      | None \<Rightarrow>
        (case presented_session P clock cookie db of
           (presented, db1) \<Rightarrow>
             (case login_admits P email password db1 of
                Inl e \<Rightarrow> (Inl e, [], db1)
              | Inr user \<Rightarrow>
                (case retire_presented clk clock presented db1 of
                   Inl e \<Rightarrow> (Inl e, [], db1)
                 | Inr (fx, db2) \<Rightarrow>
                   (case mint_behind_the_gate P clock f user remember_me None db2 of
                      Inl e \<Rightarrow> (Inl e, fx, db2)
                    | Inr (Some issued, db3) \<Rightarrow> (Inr (Signed_in issued), fx, db3)
                    | Inr (None, db3) \<Rightarrow>
                      (case begin_challenge P now clock ft (u_id user) db3 of
                         Inl e \<Rightarrow> (Inl e, fx, db3)
                       | Inr (token, db4) \<Rightarrow> (Inr (Totp_required token), fx, db4)))))))"

definition logout :: "account_prims \<Rightarrow> clock \<Rightarrow> moment \<Rightarrow> http_request \<Rightarrow> account_db \<Rightarrow> unit route" where
  "logout P clk clock req db =
     (case current_principal P clock req db of
        (Inl e, db1) \<Rightarrow> (if e = UNAUTHENTICATED then Inr () else Inl e, [], db1)
      | (Inr (s, _), db1) \<Rightarrow>
        (case revoke_session_row clk clock (ls_id s) db1 of
           Inl e \<Rightarrow> (Inl e, [], db1)
         | Inr (fx, db2) \<Rightarrow> (Inr (), fx, db2)))"

definition rotate :: "account_prims \<Rightarrow> clock \<Rightarrow> moment \<Rightarrow> fresh_session \<Rightarrow> uuid \<Rightarrow> account \<Rightarrow> account_db \<Rightarrow> issued route" where
  "rotate P clk clock f sid user db =
     (case rotate_revoke clk clock sid user db of
        Inl e \<Rightarrow> (Inl e, [], db)
      | Inr (remembered, db1) \<Rightarrow>
        (case mint P clock f user remembered False db1 of Inl e \<Rightarrow> (Inl e, [], db1) | Inr (issued, db2) \<Rightarrow> (Inr issued, [], db2)))"

section \<open>The second factor\<close>

definition answer_challenge ::
    "account_prims \<Rightarrow> moment \<Rightarrow> moment \<Rightarrow> int \<Rightarrow> fresh_session \<Rightarrow> string option \<Rightarrow> string \<Rightarrow> bool \<Rightarrow> account_db \<Rightarrow> issued route" where
  "answer_challenge P now clock secs f presented code remembered db =
     (case presented of
        None \<Rightarrow> (Inl CODE_REFUSED, [], db)
      | Some cookie \<Rightarrow>
        if cookie = [] then (Inl CODE_REFUSED, [], db) else
        (case count_guess P now cookie db of
           (Inl e, db1) \<Rightarrow> (Inl e, [], db1)
         | (Inr (token_id, user_id), db1) \<Rightarrow>
           (case (user_of user_id db1, enrolled_factor user_id db1) of
              (Some user, Some factor) \<Rightarrow>
                if u_state user \<in> set CANNOT_SIGN_IN then (Inl CODE_REFUSED, [], db1) else
                (case verify_code P secs code user_id factor db1 of
                   None \<Rightarrow> (Inl CODE_REFUSED, [], db1)
                 | Some proof \<Rightarrow>
                   (case win_challenge now token_id (af_id factor) proof db1 of
                      Inl e \<Rightarrow> (Inl e, [], db1)
                    | Inr (_, db2) \<Rightarrow>
                      (case mint_behind_the_gate P clock f user remembered (Some (af_id factor)) db2 of
                         Inl e \<Rightarrow> (Inl e, [], db2)
                       | Inr (None, db3) \<Rightarrow> (Inl CODE_REFUSED, [], db3)
                       | Inr (Some issued, db3) \<Rightarrow> (Inr issued, [], db3))))
            | _ \<Rightarrow> (Inl CODE_REFUSED, [], db1))))"

definition remove_factor_route ::
    "account_prims \<Rightarrow> clock \<Rightarrow> moment \<Rightarrow> moment \<Rightarrow> int \<Rightarrow> fresh_session \<Rightarrow> resolved \<Rightarrow> string \<Rightarrow> account_db \<Rightarrow> issued route" where
  "remove_factor_route P clk now clock secs f who code db =
     (if u_state (snd who) \<noteq> ''active'' then (Inl (HTTP 403 ''account suspended''), [], db)
      else if \<not> is_recent clock (fst who) then (Inl (HTTP 403 ''recent authentication required''), [], db)
      else
        (case enrolled_factor (u_id (snd who)) db of
           None \<Rightarrow> (Inl CODE_REFUSED, [], db)
         | Some factor \<Rightarrow>
           (case prove_standing P secs code (u_id (snd who)) factor db of
              (Inl e, db1) \<Rightarrow> (Inl e, [], db1)
            | (Inr proof, db1) \<Rightarrow>
              (case remove_factor P clk now f who (af_id factor) proof db1 of
                 Inl e \<Rightarrow> (Inl e, [], db1)
               | Inr ((issued, fx), db2) \<Rightarrow> (Inr issued, fx, db2)))))"

text \<open>
  \<open>opened\<close> is what the sealed enrolment holds (\<open>None\<close> when it does not open or has run out), \<open>ids\<close> the
  fresh ids of its codes, \<open>nonce\<close> the one drawn for the new secret.
\<close>

definition confirm_enrolment_route ::
    "account_prims \<Rightarrow> clock \<Rightarrow> moment \<Rightarrow> moment \<Rightarrow> int \<Rightarrow> uuid \<Rightarrow> string \<Rightarrow> uuid list \<Rightarrow> fresh_session \<Rightarrow> resolved \<Rightarrow>
     (string \<times> string list) option \<Rightarrow> string \<Rightarrow> string option \<Rightarrow> account_db \<Rightarrow> issued route" where
  "confirm_enrolment_route P clk now clock secs factor_id nonce ids f who opened code current_code db =
     (let user = u_id (snd who) in
      if u_state (snd who) \<noteq> ''active'' then (Inl (HTTP 403 ''account suspended''), [], db) else
      (case opened of
         None \<Rightarrow> (Inl CODE_REFUSED, [], db)
       | Some (secret, codes) \<Rightarrow>
         (case matched_step P secret code secs of
            None \<Rightarrow> (Inl CODE_REFUSED, [], db)
          | Some step \<Rightarrow>
            (case (case enrolled_factor user db of
                     None \<Rightarrow> (Inr None, db)
                   | Some standing \<Rightarrow>
                     (case current_code of
                        None \<Rightarrow> (Inl CODE_REFUSED, db)
                      | Some current \<Rightarrow>
                        (case prove_standing P secs current user standing db of
                           (Inl e, db1) \<Rightarrow> (Inl e, db1)
                         | (Inr p, db1) \<Rightarrow> (Inr (Some (af_id standing, p)), db1)))) of
               (Inl e, db1) \<Rightarrow> (Inl e, [], db1)
             | (Inr replacing, db1) \<Rightarrow>
               if \<not> is_live clock (ls_id (fst who)) db1 then (Inl CODE_REFUSED, [], db1) else
               (case bindR (ring_or_raise P) (\<lambda>ring.
                       bindR (rethrow Ring_error (encrypt (ap_crypto P) ring nonce TOTP_PURPOSE secret (uuid_bytes user))) (\<lambda>blob.
                         confirm_enrolment P clk now factor_id f who replacing blob (kr_active ring) step (zip ids codes) db1)) of
                  Inl e \<Rightarrow> (Inl e, [], db1)
                | Inr ((issued, fx), db2) \<Rightarrow> (Inr issued, fx, db2))))))"

section \<open>Registering, setting up and enabling\<close>

definition mint_for :: "account_prims \<Rightarrow> moment \<Rightarrow> fresh_session \<Rightarrow> uuid \<Rightarrow> account_effect list \<Rightarrow> account_db \<Rightarrow> issued option route" where
  "mint_for P clock f user_id fx db =
     (case user_of user_id db of
        None \<Rightarrow> (Inl (HTTP 503 ''database unavailable''), fx, db)
      | Some owner \<Rightarrow>
        (case mint P clock f owner False False db of Inl e \<Rightarrow> (Inl e, fx, db) | Inr (issued, db1) \<Rightarrow> (Inr (Some issued), fx, db1)))"

definition register_route ::
    "account_prims \<Rightarrow> moment \<Rightarrow> moment \<Rightarrow> fresh_session \<Rightarrow> uuid \<Rightarrow> uuid \<Rightarrow> string \<Rightarrow> string \<Rightarrow> account_db \<Rightarrow> issued option route" where
  "register_route P now clock f user_id identity_id token password db =
     (case register P now user_id identity_id token password db of
        Inl e \<Rightarrow> (Inl e, [], db)
      | Inr (_, db1) \<Rightarrow> mint_for P clock f user_id [] db1)"

text \<open>
  What a process knows of its installation without asking the database: the mode it has loaded, the
  \<open>AUTH_MODE\<close> override and the \<open>ROOT_KEYS\<close> of its settings (\<open>auth_mode.py\<close>).
\<close>

record process =
  pr_loaded :: "string option"
  pr_override :: "string option"
  pr_root_keys :: string

definition current_mode :: "process \<Rightarrow> string" where
  "current_mode p =
     (case pr_loaded p of
        Some mode \<Rightarrow> mode
      | None \<Rightarrow> (case pr_override p of None \<Rightarrow> ''unclaimed'' | Some mode \<Rightarrow> if mode = [] then ''unclaimed'' else mode))"

definition setup_required :: "process \<Rightarrow> bool" where
  "setup_required p \<longleftrightarrow> pr_loaded p = Some ''unclaimed''"

definition SETUP_OPEN_HTTP :: "(string \<times> string) list" where
  "SETUP_OPEN_HTTP =
     [(''GET'', ''/api/v1/config''), (''GET'', ''/api/v1/health''), (''HEAD'', ''/api/v1/health''), (''GET'', ''/api/v1/ready''),
      (''HEAD'', ''/api/v1/ready''), (''POST'', ''/api/v1/auth/setup''), (''POST'', ''/api/v1/auth/setup/status'')]"

definition SETUP_OPEN_SOCKETS :: "string list" where
  "SETUP_OPEN_SOCKETS = [''/api/v1/fleet'']"

datatype gate_answer = Passed_on | Socket_refused | Answered int string

definition setup_gate :: "process \<Rightarrow> string \<Rightarrow> string \<Rightarrow> string \<Rightarrow> gate_answer" where
  "setup_gate p scope_type verb path =
     (if scope_type \<notin> {''http'', ''websocket''} \<or> take 5 path \<noteq> ''/api/'' \<or> \<not> setup_required p then Passed_on
      else if scope_type = ''websocket'' then (if path \<in> set SETUP_OPEN_SOCKETS then Passed_on else Socket_refused)
      else if (verb, path) \<in> set SETUP_OPEN_HTTP then Passed_on
      else Answered 503 ''setup_required'')"

text \<open>A missing key ring is explained to the operator only while no \<open>ROOT_KEYS\<close> are set.\<close>

definition missing_root_keys :: "process \<Rightarrow> account_exn \<Rightarrow> account_exn" where
  "missing_root_keys p e =
     (case e of Ring_error _ \<Rightarrow> if pr_root_keys p = [] then HTTP 503 ''root_keys_missing'' else e | _ \<Rightarrow> e)"

definition setup_route ::
    "account_prims \<Rightarrow> process \<Rightarrow> moment \<Rightarrow> moment \<Rightarrow> fresh_session \<Rightarrow> uuid \<Rightarrow> string \<Rightarrow> string \<Rightarrow> string \<Rightarrow> string \<Rightarrow> account_db \<Rightarrow>
     issued option route" where
  "setup_route P p now clock f identity_id token mode email password db =
     (if current_mode p \<notin> {''unclaimed'', ''accounts''} then (Inl (HTTP 404 ''Not Found''), [], db)
      else if mode = ''none'' then
        (case decline_accounts P now token db of
           Inl e \<Rightarrow> (Inl e, [], db)
         | Inr (_, db1) \<Rightarrow> (Inr None, [Load_mode ''none'', Audit ''POST /api/v1/auth/setup'' None], db1))
      else
        (case claim P now identity_id token email password db of
           Inl e \<Rightarrow> (Inl (missing_root_keys p e), [], db)
         | Inr (adopted, db1) \<Rightarrow>
             mint_for P clock f adopted [Load_mode ''accounts'', Audit ''POST /api/v1/auth/setup'' (Some adopted)] db1))"

text \<open>
  The runtime enable of an installation without accounts: \<open>origin\<close> is what the check of the origin
  raises, \<open>local\<close> the implicit user the process holds.
\<close>

definition enable_accounts ::
    "account_prims \<Rightarrow> process \<Rightarrow> uuid option \<Rightarrow> moment \<Rightarrow> fresh_session \<Rightarrow> uuid \<Rightarrow> http_request \<Rightarrow> account_exn option \<Rightarrow>
     string \<Rightarrow> string \<Rightarrow> account_db \<Rightarrow> issued option route" where
  "enable_accounts P p local clock f identity_id req origin email password db =
     (if current_mode p \<noteq> ''none'' then (Inl (HTTP 404 ''Not Found''), [], db) else
      (case require_role P (current_mode p) local clock ''admin'' req db of
         (Inl e, fx, db1) \<Rightarrow> (Inl e, fx, db1)
       | (Inr _, fx, db1) \<Rightarrow>
         (case origin of
            Some e \<Rightarrow> (Inl e, fx, db1)
          | None \<Rightarrow>
            if pr_override p \<noteq> None then (Inl (HTTP 409 ''AUTH_MODE=none is set in the environment''), fx, db1) else
            (case turn_accounts_on P identity_id email password db1 of
               Inl e \<Rightarrow> (Inl (missing_root_keys p e), fx, db1)
             | Inr (adopted, db2) \<Rightarrow>
                 mint_for P clock f adopted
                   (fx @ [Load_mode ''accounts'', Close_none_mode_sockets, Audit ''POST /api/v1/auth/enable'' (Some adopted)]) db2))))"

definition enable_command :: "account_prims \<Rightarrow> moment \<Rightarrow> uuid \<Rightarrow> fresh_token \<Rightarrow> account_db \<Rightarrow> string route" where
  "enable_command P clock fresh ft db =
     (case ensure_claimable P fresh db of
        Inl e \<Rightarrow> (Inl e, [], db)
      | Inr (_, db1) \<Rightarrow>
        (case record_mode P ''accounts'' db1 of
           Inl e \<Rightarrow> (Inl e, [], db1)
         | Inr db2 \<Rightarrow>
           (case mint_setup_token P clock ft db2 of Inl e \<Rightarrow> (Inl e, [], db2) | Inr (token, db3) \<Rightarrow> (Inr token, [], db3))))"

section \<open>Handlers are runs\<close>

definition run_of :: "account_prims \<Rightarrow> account_db \<Rightarrow> account_db \<Rightarrow> bool" where
  "run_of P db db' \<longleftrightarrow> (\<exists>ops. db' = account_run P ops db)"

lemma run_of_refl [simp]: "run_of P db db"
  unfolding run_of_def by (rule exI[of _ "[]"]) simp

lemma run_of_trans: "run_of P a b \<Longrightarrow> run_of P b c \<Longrightarrow> run_of P a c"
  unfolding run_of_def by (metis account_run_simps(3))

lemma run_of_op: "account_do P op db = db' \<Longrightarrow> run_of P db db'"
  unfolding run_of_def by (rule exI[of _ "[op]"]) simp

lemma run_of_transactions:
  "mint P c f u r a db = Inr (v1, db') \<Longrightarrow> run_of P db db'"
  "revoke_session_row k c s db = Inr (v2, db') \<Longrightarrow> run_of P db db'"
  "rotate_revoke k c s u db = Inr (v3, db') \<Longrightarrow> run_of P db db'"
  "mint_behind_the_gate P c f u r e db = Inr (v4, db') \<Longrightarrow> run_of P db db'"
  "begin_challenge P n c ft i db = Inr (v5, db') \<Longrightarrow> run_of P db db'"
  "count_guess P n t db = (v6, db') \<Longrightarrow> run_of P db db'"
  "win_challenge n i i' p db = Inr (v7, db') \<Longrightarrow> run_of P db db'"
  "remove_factor P k n f w i p db = Inr (v8, db') \<Longrightarrow> run_of P db db'"
  "confirm_enrolment P k n i f w re ct ver st cs db = Inr (v8, db') \<Longrightarrow> run_of P db db'"
  "register P n i i' t t' db = Inr (u, db') \<Longrightarrow> run_of P db db'"
  "claim P n i t t' t'' db = Inr (i', db') \<Longrightarrow> run_of P db db'"
  "decline_accounts P n t db = Inr (v9, db') \<Longrightarrow> run_of P db db'"
  "ensure_claimable P i db = Inr (v9, db') \<Longrightarrow> run_of P db db'"
  "record_mode P ''accounts'' db = Inr db' \<Longrightarrow> run_of P db db'"
  "mint_setup_token P c ft db = Inr (t, db') \<Longrightarrow> run_of P db db'"
  "resolve P c t db = (v10, db') \<Longrightarrow> run_of P db db'"
  "spend_replacement_attempt i db = (b, db') \<Longrightarrow> run_of P db db'"
  "turn_accounts_on P i t t' db = Inr (i', db') \<Longrightarrow> run_of P db db'"
  by (rule run_of_op[of _ "Sessions (Mint c f u r a)"], simp)
    (rule run_of_op[of _ "Sessions (Revoke k c s)"], simp,
     rule run_of_op[of _ "Sessions (Rotate_revoke k c s u)"], simp,
     rule run_of_op[of _ "Sessions (Gate c f u r e)"], simp,
     rule run_of_op[of _ "Second_factor (Begin_challenge n c ft i)"], simp,
     rule run_of_op[of _ "Second_factor (Count_guess n t)"], simp,
     rule run_of_op[of _ "Second_factor (Win_challenge n i i' p)"], simp,
     rule run_of_op[of _ "Second_factor (Remove_factor k n f w i p)"], simp,
     rule run_of_op[of _ "Second_factor (Confirm_enrolment k n i f w re ct ver st cs)"], simp,
     rule run_of_op[of _ "Invitations (Register n i i' t t')"], simp,
     rule run_of_op[of _ "Installs (Claim n i t t' t'')"], simp,
     rule run_of_op[of _ "Installs (Decline n t)"], simp,
     rule run_of_op[of _ "Installs (Ensure_claimable i)"], simp,
     rule run_of_op[of _ "Installs Enable_mode"], simp,
     rule run_of_op[of _ "Installs (Mint_setup c ft)"], simp,
     rule run_of_op[of _ "Sessions (Resolve c t)"], simp,
     rule run_of_op[of _ "Second_factor (Charge_replacement i)"], simp,
     rule run_of_op[of _ "Installs (Turn_on i t t')"], simp)

lemma run_of_standing: "prove_standing P secs code u fa db = (r, db') \<Longrightarrow> run_of P db db'"
  by (auto simp: prove_standing_def split: option.splits prod.splits bool.splits dest: run_of_transactions(17))

lemma run_of_principal: "current_principal P c req db = (r, db') \<Longrightarrow> run_of P db db'"
  by (auto simp: current_principal_def Let_def split: option.splits prod.splits if_splits dest: run_of_transactions(16))

lemma run_of_presented: "presented_session P c cookie db = (r, db') \<Longrightarrow> run_of P db db'"
  by (auto simp: presented_session_def split: option.splits if_splits dest: run_of_transactions(16))

lemmas transaction_runs = run_of_transactions run_of_standing run_of_principal run_of_presented

lemma run_of_retire: "retire_presented k c pr db = Inr (fx, db') \<Longrightarrow> run_of P db db'"
  by (auto simp: retire_presented_def split: option.splits prod.splits dest: transaction_runs(2))

lemma login_run: "run_of P db (snd (snd (login P k n c f ft ch co e pw re db)))"
  unfolding login_def
  by (auto split: option.splits sum.splits prod.splits dest!: run_of_retire[where P = P] run_of_presented[where P = P] transaction_runs(4,5)
      intro: run_of_trans)

lemma logout_run: "run_of P db (snd (snd (logout P k c req db)))"
  unfolding logout_def
  by (auto split: option.splits sum.splits prod.splits dest!: run_of_principal transaction_runs(2)[where P = P] intro: run_of_trans)

lemma rotate_run: "run_of P db (snd (snd (rotate P k c f sid u db)))"
  unfolding rotate_def
  by (auto split: sum.splits prod.splits dest!: transaction_runs(3)[where P = P] transaction_runs(1) intro: run_of_trans)

lemma answer_run: "run_of P db (snd (snd (answer_challenge P n c secs f pr code re db)))"
  unfolding answer_challenge_def
  by (auto split: option.splits sum.splits prod.splits dest!: transaction_runs(6) transaction_runs(7)[where P = P] transaction_runs(4)
      intro: run_of_trans)

lemma remove_run: "run_of P db (snd (snd (remove_factor_route P k n c secs f w code db)))"
  unfolding remove_factor_route_def
  by (auto split: option.splits sum.splits prod.splits dest!: run_of_standing transaction_runs(8) intro: run_of_trans)

lemma confirm_run: "run_of P db (snd (snd (confirm_enrolment_route P k n c secs i nonce ids f w op code cur db)))"
  unfolding confirm_enrolment_route_def Let_def
  by (auto split: option.splits sum.splits prod.splits simp: bindR_Inr_iff dest!: run_of_standing transaction_runs(9) intro: run_of_trans)

lemma mint_for_run: "run_of P db (snd (snd (mint_for P c f u fx db)))"
  unfolding mint_for_def by (auto split: option.splits sum.splits prod.splits dest!: transaction_runs(1))

lemma register_run: "run_of P db (snd (snd (register_route P n c f u i t pw db)))"
  unfolding register_route_def
  by (auto split: sum.splits prod.splits dest!: transaction_runs(10) intro: run_of_trans mint_for_run)

lemma setup_run: "run_of P db (snd (snd (setup_route P p n c f i t m e pw db)))"
  unfolding setup_route_def
  by (auto split: sum.splits prod.splits dest!: transaction_runs(11,12) intro: run_of_trans mint_for_run)

lemma none_mode_user: "current_user P ''none'' l c req db = (r, db') \<Longrightarrow> db' = db"
  by (auto simp: current_user_def split: option.splits)

lemma none_mode_role: "require_role P ''none'' l c m req db = (r, fx, db') \<Longrightarrow> db' = db"
  by (auto simp: require_role_def Let_def split: sum.splits prod.splits if_splits dest: none_mode_user)

lemma enable_accounts_run: "run_of P db (snd (snd (enable_accounts P p l c f i req og e pw db)))"
  unfolding enable_accounts_def
  by (auto split: option.splits sum.splits prod.splits dest!: none_mode_role transaction_runs(18) intro: run_of_trans mint_for_run)

lemma enable_run: "run_of P db (snd (snd (enable_command P c i ft db)))"
  unfolding enable_command_def
  by (auto split: sum.splits prod.splits dest!: transaction_runs(13-15) intro: run_of_trans)

text \<open>
  What every handler does to the database, whichever of its transactions raises, is a run of the
  transactions above: what is proved of every run holds across the handlers.
\<close>

lemma handlers_are_runs:
  "run_of P db (snd (snd (login P k n c f ft ch co e pw re db)))
   \<and> run_of P db (snd (snd (logout P k c req db)))
   \<and> run_of P db (snd (snd (rotate P k c f sid u db)))
   \<and> run_of P db (snd (snd (answer_challenge P n c secs f pr code re db)))
   \<and> run_of P db (snd (snd (remove_factor_route P k n c secs f w code db)))
   \<and> run_of P db (snd (snd (confirm_enrolment_route P k n c secs i nonce ids f w op code cur db)))
   \<and> run_of P db (snd (snd (register_route P n c f v i t pw db)))
   \<and> run_of P db (snd (snd (setup_route P p n c f i t m e pw db)))
   \<and> run_of P db (snd (snd (enable_accounts P p l c f i req og e pw db)))
   \<and> run_of P db (snd (snd (enable_command P c i ft db)))"
  by (intro conjI login_run logout_run rotate_run answer_run remove_run confirm_run register_run setup_run enable_accounts_run enable_run)

section \<open>What a session costs\<close>

lemma gate_Some:
  "mint_behind_the_gate P c f u re ex db = Inr (Some iss, db') \<Longrightarrow>
     map_option af_id (enrolled_factor (u_id u) db) = ex \<and> is_token iss = fs_token f
     \<and> (\<exists>s. db' = ac_logins_update (\<lambda>ss. ss @ [s]) db
          \<and> ls_id s = fs_id f \<and> ls_user_id s = u_id u \<and> ls_token_hash s = ap_sha256 P (fs_token f) \<and> ls_revoked_at s = None
          \<and> (u_role u = ''admin'' \<longrightarrow> \<not> ls_remember_me s \<and> ls_idle_expires_at s = Some (c + ADMIN_IDLE)))"
  by (auto simp: mint_behind_the_gate_def mint_in_def bindR_Inr_iff issue_def session_shape_def split: if_splits dest!: insert_Inr)

lemma presented_tables:
  assumes "presented_session P c co db = (pr, d)"
  shows "ac_identities d = ac_identities db" "ac_users d = ac_users db" "map ls_id (ac_logins d) = map ls_id (ac_logins db)"
proof -
  have "map ls_id (upd_where Q (touched c u) rows) = map ls_id rows" for Q u rows
    by (induction rows) (simp_all add: touched_def)
  with assms show "ac_identities d = ac_identities db" "ac_users d = ac_users db" "map ls_id (ac_logins d) = map ls_id (ac_logins db)"
    by (auto simp: presented_session_def resolve_def split: option.splits if_splits)
qed

lemma retire_ids: "retire_presented k c pr db = Inr (fx, d) \<Longrightarrow> map ls_id (ac_logins d) = map ls_id (ac_logins db)"
proof -
  have "map ls_id (upd_where Q (\<lambda>s. s\<lparr>ls_revoked_at := Some c\<rparr>) rows) = map ls_id rows" for Q rows
    by (induction rows) simp_all
  then show "retire_presented k c pr db = Inr (fx, d) \<Longrightarrow> map ls_id (ac_logins d) = map ls_id (ac_logins db)"
    by (auto simp: retire_presented_def revoke_session_row_def revoke_where_def Let_def split: option.splits)
qed

lemma not_enrolled: "enrolled_factor i db = None \<Longrightarrow> fa \<in> set (ac_factors db) \<Longrightarrow> af_user_id fa = i \<Longrightarrow> af_confirmed_at fa = None"
  by (auto simp: enrolled_factor_def find_None_iff)

lemma password_checked:
  assumes "login_admits P e pw db = Inr u"
  shows "\<exists>i \<in> set (ac_identities db). ai_provider i = ''password'' \<and> ai_subject i = normalized P e \<and> user_of (ai_user_id i) db = Some u
     \<and> ap_argon_verify P (case ai_password_hash i of None \<Rightarrow> [] | Some h \<Rightarrow> h) pw \<and> u_state u \<notin> set CANNOT_SIGN_IN"
proof (cases "find (\<lambda>i. ai_provider i = ''password'' \<and> ai_subject i = normalized P e) (ac_identities db)")
  case (Some i)
  with assms have "user_of (ai_user_id i) db = Some u" "ap_argon_verify P (case ai_password_hash i of None \<Rightarrow> [] | Some h \<Rightarrow> h) pw"
      "u_state u \<notin> set CANNOT_SIGN_IN"
    by (auto simp: login_admits_def Let_def raise_if_def split: option.splits if_splits)
  with find_SomeD[OF Some] show ?thesis by blast
qed (use assms in \<open>simp add: login_admits_def Let_def\<close>)

text \<open>The one session a handler added: the new row belongs to the account and is found by the token it answered with.\<close>

definition one_new_session :: "account_prims \<Rightarrow> moment \<Rightarrow> account \<Rightarrow> issued \<Rightarrow> account_db \<Rightarrow> account_db \<Rightarrow> bool" where
  "one_new_session P c u iss db db' \<longleftrightarrow> (\<exists>s. map ls_id (ac_logins db') = map ls_id (ac_logins db) @ [ls_id s] \<and> last (ac_logins db') = s
     \<and> ls_user_id s = u_id u \<and> ls_token_hash s = ap_sha256 P (is_token iss) \<and> ls_revoked_at s = None
     \<and> (u_role u = ''admin'' \<longrightarrow> \<not> ls_remember_me s \<and> ls_idle_expires_at s = Some (c + ADMIN_IDLE)))"

lemma login_session:
  assumes "login P k n c f ft ch co e pw re db = (Inr (Signed_in iss), fx, db')"
  shows "\<exists>i \<in> set (ac_identities db). \<exists>u. ai_provider i = ''password'' \<and> ai_subject i = normalized P e
     \<and> user_of (ai_user_id i) db = Some u \<and> ap_argon_verify P (case ai_password_hash i of None \<Rightarrow> [] | Some h \<Rightarrow> h) pw
     \<and> u_state u \<notin> set CANNOT_SIGN_IN
     \<and> (\<forall>fa \<in> set (ac_factors db'). af_user_id fa = u_id u \<longrightarrow> af_confirmed_at fa = None)
     \<and> one_new_session P c u iss db db'"
proof -
  obtain pr d1 u d2 where pr: "presented_session P c co db = (pr, d1)" and u: "login_admits P e pw d1 = Inr u"
    and d2: "retire_presented k c pr d1 = Inr (fx, d2)" and gate: "mint_behind_the_gate P c f u re None d2 = Inr (Some iss, db')"
    using assms by (auto simp: login_def split: option.splits prod.splits sum.splits)
  note same = presented_tables[OF pr]
  have "ac_factors db' = ac_factors d2" "enrolled_factor (u_id u) d2 = None" using gate_Some[OF gate] by auto
  then have "\<forall>fa \<in> set (ac_factors db'). af_user_id fa = u_id u \<longrightarrow> af_confirmed_at fa = None" using not_enrolled by metis
  moreover have "one_new_session P c u iss db db'"
    using gate_Some[OF gate] retire_ids[OF d2] same(3) by (auto simp: one_new_session_def)
  ultimately show ?thesis using password_checked[OF u] same(1,2) by (auto simp: user_of_def)
qed

lemma count_guess_Inr:
  assumes "count_guess P n cookie db = (Inr (i, v), d)"
  shows "\<exists>t \<in> set (ac_tokens db). guessable P n cookie t \<and> tk_id t = i \<and> tk_user_id t = Some v"
    "ac_users d = ac_users db" "ac_factors d = ac_factors db" "ac_codes d = ac_codes db" "ac_logins d = ac_logins db"
  using assms by (auto simp: count_guess_def Let_def split: option.splits dest!: find_SomeD)

text \<open>The code a request presented was a recovery code nobody had used, and is used afterwards.\<close>

definition spent_recovery_code :: "account_prims \<Rightarrow> uuid \<Rightarrow> string \<Rightarrow> account_db \<Rightarrow> account_db \<Rightarrow> bool" where
  "spent_recovery_code P user code db db' \<longleftrightarrow> (\<exists>c \<in> set (ac_codes db). rv_user_id c = user \<and> rv_code_hash c = ap_sha256 P (normalized P code)
     \<and> rv_consumed_at c = None \<and> (\<forall>c' \<in> set (ac_codes db'). rv_id c' = rv_id c \<longrightarrow> rv_consumed_at c' \<noteq> None))"

text \<open>
  Or it was the code of the factor's secret for one of three time steps, later than the last one taken,
  and that step is taken afterwards.
\<close>

definition spent_time_code :: "account_prims \<Rightarrow> int \<Rightarrow> auth_factor \<Rightarrow> string \<Rightarrow> account_db \<Rightarrow> account_db \<Rightarrow> bool" where
  "spent_time_code P secs fa code db db' \<longleftrightarrow> (\<exists>ring secret. ap_ring P = Inr ring
     \<and> decrypt (ap_crypto P) ring TOTP_PURPOSE (af_secret_ciphertext fa) (uuid_bytes (af_user_id fa)) = Inr secret
     \<and> (\<exists>d \<in> {-1, 0, 1}. code_at P secret (secs + d * STEP) = Some (ap_strip P code)
        \<and> (\<exists>f \<in> set (ac_factors db). af_id f = af_id fa \<and> (\<forall>l. af_last_step f = Some l \<longrightarrow> l < (secs + d * STEP) div STEP))
        \<and> (\<forall>f \<in> set (ac_factors db'). af_id f = af_id fa \<longrightarrow> (\<exists>l. af_last_step f = Some l \<and> (secs + d * STEP) div STEP \<le> l))))"

lemma win_effect:
  assumes "win_challenge n i fid p db = Inr ((), d)"
  shows "\<forall>t \<in> set (ac_tokens d). tk_id t = i \<longrightarrow> tk_consumed_at t \<noteq> None" "ac_logins d = ac_logins db"
    "p = Recovery cid \<Longrightarrow> \<forall>c \<in> set (ac_codes d). rv_id c = cid \<longrightarrow> rv_consumed_at c \<noteq> None"
    "p = Time_step st \<Longrightarrow> (\<exists>f \<in> set (ac_factors db). af_id f = fid \<and> (\<forall>l. af_last_step f = Some l \<longrightarrow> l < st))
       \<and> (\<forall>f \<in> set (ac_factors d). af_id f = fid \<longrightarrow> (\<exists>l. af_last_step f = Some l \<and> st \<le> l))"
proof -
  show "\<forall>t \<in> set (ac_tokens d). tk_id t = i \<longrightarrow> tk_consumed_at t \<noteq> None" "ac_logins d = ac_logins db"
    using assms by (auto simp: win_challenge_def spend_where_def spend_proof_def Let_def set_upd_where split: proof_of_factor.splits if_splits)
  show "\<forall>c \<in> set (ac_codes d). rv_id c = cid \<longrightarrow> rv_consumed_at c \<noteq> None" if "p = Recovery cid"
    using assms that by (auto simp: win_challenge_def spend_proof_def Let_def set_upd_where split: if_splits)
  assume st: "p = Time_step st"
  let ?hit = "\<lambda>f. af_id f = fid \<and> (case af_last_step f of None \<Rightarrow> True | Some l \<Rightarrow> l < st)"
  have won: "\<exists>f \<in> set (ac_factors db). ?hit f"
    and d: "ac_factors d = upd_where (\<lambda>f. af_id f = fid \<and> 0 < af_replace_attempts f) (\<lambda>f. f\<lparr>af_replace_attempts := 0\<rparr>)
      (upd_where ?hit (\<lambda>f. f\<lparr>af_last_step := Some st\<rparr>) (ac_factors db))"
    using assms by (simp_all add: st win_challenge_def spend_proof_def Let_def raise_if_def split: if_splits) auto
  have step: "\<exists>l. af_last_step f = Some l \<and> st \<le> l"
    if "f \<in> set (upd_where ?hit (\<lambda>f. f\<lparr>af_last_step := Some st\<rparr>) (ac_factors db))" "af_id f = fid" for f
    using that(1) by (rule upd_whereE) (use that(2) in \<open>auto split: option.splits\<close>)
  have "\<exists>l. af_last_step f = Some l \<and> st \<le> l" if "f \<in> set (ac_factors d)" "af_id f = fid" for f
    using that(1) unfolding d by (rule upd_whereE) (use step that(2) in auto)
  moreover obtain f where "f \<in> set (ac_factors db)" "?hit f" using won by blast
  then have "\<exists>f \<in> set (ac_factors db). af_id f = fid \<and> (\<forall>l. af_last_step f = Some l \<longrightarrow> l < st)" by force
  ultimately show "(\<exists>f \<in> set (ac_factors db). af_id f = fid \<and> (\<forall>l. af_last_step f = Some l \<longrightarrow> l < st))
       \<and> (\<forall>f \<in> set (ac_factors d). af_id f = fid \<longrightarrow> (\<exists>l. af_last_step f = Some l \<and> st \<le> l))" by blast
qed

lemma matched_offset:
  "match_offsets P secret candidate secs ds = Some st \<Longrightarrow>
     \<exists>d \<in> set ds. code_at P secret (secs + d * STEP) = Some candidate \<and> st = (secs + d * STEP) div STEP"
  by (induction ds) (auto split: option.splits if_splits)

lemma verified_code:
  assumes "verify_code P secs code (af_user_id fa) fa db = Some p" "win_challenge n i (af_id fa) p db = Inr ((), d)"
  shows "spent_recovery_code P (af_user_id fa) code db d \<or> spent_time_code P secs fa code db d"
proof (cases p)
  case (Recovery cid)
  then have "recovery_proof P (af_user_id fa) code db = Some (Recovery cid)"
    using assms(1) by (auto simp: verify_code_def totp_proof_def split: option.splits sum.splits)
  then obtain c where "c \<in> set (ac_codes db)" "rv_user_id c = af_user_id fa" "rv_code_hash c = ap_sha256 P (normalized P code)"
      "rv_consumed_at c = None" "rv_id c = cid"
    by (auto simp: recovery_proof_def dest!: find_SomeD)
  with win_effect(3)[OF assms(2) Recovery] show ?thesis by (auto simp: spent_recovery_code_def)
next
  case (Time_step st)
  then have "totp_proof P secs code (af_user_id fa) fa = Some (Time_step st)"
    using assms(1) by (auto simp: verify_code_def recovery_proof_def split: option.splits)
  then obtain ring secret where "ap_ring P = Inr ring" "matched_step P secret code secs = Some st"
      "decrypt (ap_crypto P) ring TOTP_PURPOSE (af_secret_ciphertext fa) (uuid_bytes (af_user_id fa)) = Inr secret"
    by (auto simp: totp_proof_def split: sum.splits)
  moreover from this(2) obtain d' where "d' \<in> set [-1, 0, 1]" "code_at P secret (secs + d' * STEP) = Some (ap_strip P code)"
      "st = (secs + d' * STEP) div STEP"
    using matched_offset[of P secret "ap_strip P code" secs "[-1, 0, 1]" st] unfolding matched_step_def by blast
  moreover from this(1) have "d' \<in> {-1, 0, 1}" by simp
  ultimately show ?thesis using win_effect(4)[OF assms(2) Time_step] unfolding spent_time_code_def by blast
qed

lemma challenge_session:
  assumes "answer_challenge P n c secs f (Some cookie) code re db = (Inr iss, fx, db')"
  shows "\<exists>t \<in> set (ac_tokens db). \<exists>u. \<exists>fa \<in> set (ac_factors db).
     tk_token_hash t = ap_sha256 P cookie \<and> tk_purpose t = ''challenge'' \<and> tk_user_id t = Some (u_id u)
     \<and> tk_consumed_at t = None \<and> tk_expires_at t > n \<and> tk_attempts t < 10
     \<and> (\<forall>t' \<in> set (ac_tokens db'). tk_id t' = tk_id t \<longrightarrow> tk_consumed_at t' \<noteq> None)
     \<and> user_of (u_id u) db = Some u \<and> u_state u \<notin> set CANNOT_SIGN_IN
     \<and> af_user_id fa = u_id u \<and> af_confirmed_at fa \<noteq> None
     \<and> (\<exists>fa' \<in> set (ac_factors db'). af_id fa' = af_id fa \<and> af_user_id fa' = u_id u \<and> af_confirmed_at fa' \<noteq> None)
     \<and> (spent_recovery_code P (u_id u) code db db' \<or> spent_time_code P secs fa code db db')
     \<and> one_new_session P c u iss db db'"
proof -
  obtain i v u fa p d1 d where guess: "count_guess P n cookie db = (Inr (i, v), d1)" and u: "user_of v d1 = Some u"
    and fa: "enrolled_factor v d1 = Some fa" "u_state u \<notin> set CANNOT_SIGN_IN" "verify_code P secs code v fa d1 = Some p"
    and win: "win_challenge n i (af_id fa) p d1 = Inr ((), d)"
    and mint: "mint_behind_the_gate P c f u re (Some (af_id fa)) d = Inr (Some iss, db')"
    using assms by (auto simp: answer_challenge_def split: option.splits prod.splits sum.splits if_splits)
  note same = count_guess_Inr(2-5)[OF guess] and gate = gate_Some[OF mint]
  have v: "v = u_id u" using u by (auto simp: user_of_def dest: find_SomeD)
  obtain t where t: "t \<in> set (ac_tokens db)" "guessable P n cookie t" "tk_id t = i" "tk_user_id t = Some v"
    using count_guess_Inr(1)[OF guess] by blast
  have row: "fa \<in> set (ac_factors db)" "af_user_id fa = v" "af_confirmed_at fa \<noteq> None"
    using fa(1) same(2) by (auto simp: enrolled_factor_def dest!: find_SomeD)
  have kept: "ac_tokens db' = ac_tokens d" "ac_factors db' = ac_factors d" "ac_codes db' = ac_codes d"
    using gate by auto
  have standing: "\<exists>fa' \<in> set (ac_factors db'). af_id fa' = af_id fa \<and> af_user_id fa' = u_id u \<and> af_confirmed_at fa' \<noteq> None"
    using gate kept(2) by (auto simp: enrolled_factor_def dest!: find_SomeD)
  have "spent_recovery_code P v code d1 d \<or> spent_time_code P secs fa code d1 d"
    using verified_code[of P secs code fa d1 p n i d] fa(3) win row(2) by simp
  then have spent: "spent_recovery_code P v code db db' \<or> spent_time_code P secs fa code db db'"
    by (simp add: spent_recovery_code_def spent_time_code_def same kept)
  have consumed: "\<forall>t' \<in> set (ac_tokens db'). tk_id t' = tk_id t \<longrightarrow> tk_consumed_at t' \<noteq> None"
    using win_effect(1)[OF win] t(3) kept(1) by simp
  have "one_new_session P c u iss db db'"
    using gate win_effect(2)[OF win] same(4) by (auto simp: one_new_session_def)
  moreover have "user_of (u_id u) db = Some u" using u v same(1) by (simp add: user_of_def)
  ultimately show ?thesis
    using t row fa(2) standing spent consumed unfolding v guessable_def MAX_ATTEMPTS_def by blast
qed

text \<open>
  Property C12 (safety). A sign-in answers with a session only where the presented password verifies
  against the stored hash of the password identity with the presented address, of an account that may
  sign in and has no confirmed factor in the database the session is written to. A challenge is answered
  with a session only where the cookie is that of a challenge of the account that was unspent, unexpired
  and below ten guesses and is spent afterwards, and where the presented code either is an unused recovery
  code of the account, used afterwards, or is the time-based code of the confirmed factor's decrypted
  secret for a step within one of now that is later than the last one taken and is taken afterwards;
  the same factor still stands when the session is written. Exactly one session is added; it belongs to
  that account and carries the hash of the token answered with; an administrator is never remembered.
\<close>

theorem session_needs_every_factor:
  "(login P k n c f ft ch co e pw re db = (Inr (Signed_in iss), fx, db') \<longrightarrow>
      (\<exists>i \<in> set (ac_identities db). \<exists>u. ai_provider i = ''password'' \<and> ai_subject i = normalized P e
        \<and> user_of (ai_user_id i) db = Some u \<and> ap_argon_verify P (case ai_password_hash i of None \<Rightarrow> [] | Some h \<Rightarrow> h) pw
        \<and> u_state u \<notin> set CANNOT_SIGN_IN
        \<and> (\<forall>fa \<in> set (ac_factors db'). af_user_id fa = u_id u \<longrightarrow> af_confirmed_at fa = None)
        \<and> one_new_session P c u iss db db'))
   \<and> (answer_challenge P n c secs f (Some cookie) code re db = (Inr iss, fx, db') \<longrightarrow>
      (\<exists>t \<in> set (ac_tokens db). \<exists>u. \<exists>fa \<in> set (ac_factors db).
        tk_token_hash t = ap_sha256 P cookie \<and> tk_purpose t = ''challenge'' \<and> tk_user_id t = Some (u_id u)
        \<and> tk_consumed_at t = None \<and> tk_expires_at t > n \<and> tk_attempts t < 10
        \<and> (\<forall>t' \<in> set (ac_tokens db'). tk_id t' = tk_id t \<longrightarrow> tk_consumed_at t' \<noteq> None)
        \<and> user_of (u_id u) db = Some u \<and> u_state u \<notin> set CANNOT_SIGN_IN
        \<and> af_user_id fa = u_id u \<and> af_confirmed_at fa \<noteq> None
        \<and> (\<exists>fa' \<in> set (ac_factors db'). af_id fa' = af_id fa \<and> af_user_id fa' = u_id u \<and> af_confirmed_at fa' \<noteq> None)
        \<and> (spent_recovery_code P (u_id u) code db db' \<or> spent_time_code P secs fa code db db')
        \<and> one_new_session P c u iss db db'))"
  by (intro conjI impI login_session challenge_session)

text \<open>Ben signs in with his password; Ann answers her challenge with a recovery code.\<close>

definition house_fresh :: fresh_session where
  "house_fresh = \<lparr>fs_id = ''s8'', fs_token = ''x'', fs_csrf = []\<rparr>"

lemma house_sign_in:
  "\<exists>iss db'. login house_prims (\<lambda>_. 1) 1 1 house_fresh \<lparr>ft_id = ''t8'', ft_token = ''y''\<rparr> None None
      ''ben@x'' ''old-password'' True house = (Inr (Signed_in iss), [], db')"
  by (simp add: login_def presented_session_def retire_presented_def login_admits_def normalized_def user_of_def CANNOT_SIGN_IN_def
      mint_behind_the_gate_def enrolled_factor_def mint_in_def session_shape_def insert_login_def raise_if_def Let_def
      house_fresh_def house_prims_def house_def house_user_def house_login_def)

lemma house_challenge:
  "\<exists>iss db'. answer_challenge house_prims 1 1 0 house_fresh (Some ''challenge'') ''code'' True house = (Inr iss, [], db')"
  by (simp add: answer_challenge_def count_guess_def guessable_def CHALLENGE_TTL_def MINUTE_def MAX_ATTEMPTS_def CANNOT_SIGN_IN_def
      user_of_def enrolled_factor_def verify_code_def recovery_proof_def normalized_def win_challenge_def spend_where_def spend_proof_def
      raise_if_def mint_behind_the_gate_def mint_in_def session_shape_def insert_login_def Let_def
      house_fresh_def house_prims_def house_def house_user_def house_login_def)

theorem session_needs_every_factor_witness:
  "(\<exists>iss db' u. login house_prims (\<lambda>_. 1) 1 1 house_fresh \<lparr>ft_id = ''t8'', ft_token = ''y''\<rparr> None None
      ''ben@x'' ''old-password'' True house = (Inr (Signed_in iss), [], db') \<and> one_new_session house_prims 1 u iss house db')
   \<and> (\<exists>iss db' u. answer_challenge house_prims 1 1 0 house_fresh (Some ''challenge'') ''code'' True house
      = (Inr iss, [], db') \<and> one_new_session house_prims 1 u iss house db')"
proof -
  obtain a x where a: "login house_prims (\<lambda>_. 1) 1 1 house_fresh \<lparr>ft_id = ''t8'', ft_token = ''y''\<rparr> None None
      ''ben@x'' ''old-password'' True house = (Inr (Signed_in a), [], x)"
    using house_sign_in by blast
  obtain b y where b: "answer_challenge house_prims 1 1 0 house_fresh (Some ''challenge'') ''code'' True house = (Inr b, [], y)"
    using house_challenge by blast
  from session_needs_every_factor[THEN conjunct1, rule_format, OF a] a
    session_needs_every_factor[THEN conjunct2, rule_format, OF b] b
  show ?thesis by blast
qed

end
