(* ===== verification/Whole_Installation.thy ===== *)
theory Whole_Installation
  imports Session_Contract
begin

text \<open>
  The account modules and the fleet on one database. The transactions of the account modules erase
  commands, fence workers and detach sessions; here each of them is, for the fleet tables, a run of
  fleet steps, so that what holds of every reachable fleet holds of an installation in which people
  sign in, change credentials and leave while workers are served.
\<close>

section \<open>Account transactions are fleet runs\<close>

definition fleet_follows :: "fleet_prims \<Rightarrow> account_db \<Rightarrow> account_db \<Rightarrow> bool" where
  "fleet_follows Q db db' \<longleftrightarrow> (fleet_step Q)\<^sup>*\<^sup>* (ac_fleet db) (ac_fleet db')"

lemma follows_same: "ac_fleet db' = ac_fleet db \<Longrightarrow> fleet_follows Q db db'"
  by (simp add: fleet_follows_def)

lemma follows_trans: "fleet_follows Q a b \<Longrightarrow> fleet_follows Q b c \<Longrightarrow> fleet_follows Q a c"
  unfolding fleet_follows_def by (rule rtranclp_trans)

lemma follows_after: "fleet_follows Q a b \<Longrightarrow> ac_fleet c = ac_fleet b \<Longrightarrow> fleet_follows Q a c"
  by (simp add: fleet_follows_def)

lemma view_run: "(fleet_step Q)\<^sup>*\<^sup>* (ac_fleet db) (fleet_view db)"
  by (rule r_into_rtranclp, rule fleet_step.elsewhere) (simp_all add: fleet_view_def)

lemma follows_erase_accounts: "fleet_follows Q db (erase_accounts k us db)"
  unfolding fleet_follows_def erase_accounts_def
  by (auto intro: rtranclp.rtrancl_into_rtrancl[OF view_run] fleet_step.erase_account surjective_pairing)

lemma follows_erase_realtime: "fleet_follows Q db (erase_realtime k u ids keep db)"
  unfolding fleet_follows_def erase_realtime_def
  by (auto intro: rtranclp.rtrancl_into_rtrancl[OF view_run] fleet_step.erase_realtime surjective_pairing)

lemma follows_elsewhere:
  assumes "fleet_follows Q a b" "db_connections (ac_fleet c) = db_connections (ac_fleet b)" "db_commands (ac_fleet c) = db_commands (ac_fleet b)"
    "db_leases (ac_fleet c) = db_leases (ac_fleet b)" "db_ranges (ac_fleet c) = db_ranges (ac_fleet b)"
    "db_receipts (ac_fleet c) = db_receipts (ac_fleet b)"
  shows "fleet_follows Q a c"
  using assms unfolding fleet_follows_def by (blast intro: rtranclp.rtrancl_into_rtrancl fleet_step.elsewhere)

lemma follows_committed: "(\<And>v db'. r = Inr (v, db') \<Longrightarrow> fleet_follows Q db db') \<Longrightarrow> fleet_follows Q db (committed r db)"
  by (cases r) (auto intro: follows_same)

text \<open>An erasure first, then statements that leave the fleet alone.\<close>

lemma follows_erased:
  "ac_fleet c = ac_fleet (erase_accounts k us b) \<Longrightarrow> ac_fleet b = ac_fleet a \<Longrightarrow> fleet_follows Q a c"
  "ac_fleet c = ac_fleet (erase_realtime k u ids keep b) \<Longrightarrow> ac_fleet b = ac_fleet a \<Longrightarrow> fleet_follows Q a c"
  using follows_erase_accounts[of Q b k us] follows_erase_realtime[of Q b k u ids keep] by (simp_all add: fleet_follows_def)

lemma mint_fleet: "mint_in P c f u r a db = Inr (v, db') \<Longrightarrow> ac_fleet db' = ac_fleet db"
  by (auto simp: mint_in_def bindR_Inr_iff Let_def split: prod.splits dest!: insert_Inr)

lemma resolve_fleet: "ac_fleet (snd (resolve P c t db)) = ac_fleet db"
  by (simp add: resolve_def split: option.splits)

lemma session_follows: "fleet_follows Q db (session_do P op db)"
  by (cases op)
    (auto simp: revoke_session_row_def revoke_all_def rotate_revoke_def mint_def mint_behind_the_gate_def resolve_fleet
      bindR_Inr_iff Let_def intro!: follows_committed intro: follows_same[OF mint_fleet] follows_same follows_erased
      split: option.splits if_splits)

lemma follows_rotation:
  assumes "rotate_and_revoke_others P k n f w spend db1 = Inr (v, db')" "ac_fleet db1 = ac_fleet db"
  shows "fleet_follows Q db db'"
proof -
  have "ac_fleet db' = ac_fleet (erase_realtime k (u_id (snd w)) None (Some (ls_id (fst w))) db1)"
    unfolding rotate_others_Inr(1)[OF assms(1)] by (simp add: before_swap_def Let_def)
  then show ?thesis using assms(2) by (rule follows_erased(2))
qed

lemma follows_purge: "fleet_follows Q db (purge_finish k u db)"
  unfolding purge_finish_def Let_def
  by (rule follows_elsewhere[OF follows_erase_accounts]) (simp_all add: delete_user_def)

lemma life_follows: "fleet_follows Q db (life_do P op db)"
  by (cases op)
    (auto simp: change_role_def change_state_def delete_account_def request_deletion_def restore_def purge_claim_def
      end_of_account_access_def Let_def intro!: follows_committed intro: follows_same follows_erased follows_purge
      split: option.splits if_splits)

lemma link_fleet: "mint_link P c f u pu ttl db = Inr (v, db') \<Longrightarrow> ac_fleet db' = ac_fleet db"
  by (auto simp: mint_link_def bindR_Inr_iff dest!: insert_Inr)

lemma complete_follows: "complete_reset P k n i t p db = Inr (v, db') \<Longrightarrow> fleet_follows Q db db'"
  by (auto simp: complete_reset_def bindR_Inr_iff Let_def dest!: put_tables(1) intro: follows_erased split: option.splits)

lemma credential_change_follows:
  "change_password P k n c i f w p cur db = Inr (v, db') \<Longrightarrow> fleet_follows Q db db'"
  "change_email P k n c f w e db = Inr (v', db') \<Longrightarrow> fleet_follows Q db db'"
  "unlink_identity P k n c f w p db = Inr (v, db') \<Longrightarrow> fleet_follows Q db db'"
  "remove_factor P k n f w i pr db = Inr (v, db') \<Longrightarrow> fleet_follows Q db db'"
  "confirm_enrolment P k n i f w r ct ver st cs db = Inr (v, db') \<Longrightarrow> fleet_follows Q db db'"
proof goal_cases
  case 1 then show ?case
    by (auto simp: change_password_def bindR_Inr_iff Let_def dest!: store_password_tables elim!: follows_rotation)
next
  case 2 then show ?case
    by (auto simp: change_email_def bindR_Inr_iff Let_def dest!: put_tables(2) elim!: follows_rotation intro: follows_same
        split: option.splits if_splits)
next
  case 3 then show ?case
    by (auto simp: unlink_identity_def bindR_Inr_iff Let_def elim!: follows_rotation split: option.splits)
next
  case 4 then show ?case
    by (auto simp: remove_factor_def drop_codes_def bindR_Inr_iff Let_def dest!: drop_factor_tables elim!: follows_rotation)
next
  case 5 then show ?case
    by (auto simp: confirm_enrolment_def drop_codes_def bindR_Inr_iff Let_def dest!: drop_factor_tables insert_Inr(6) insert_codes_tables
        elim!: follows_rotation split: option.splits)
qed

lemma credential_follows: "fleet_follows Q db (credential_do P op db)"
  by (cases op)
    (auto simp: mint_reset_def mint_admin_recovery_def deliver_reset_def intro!: follows_committed
      intro: follows_same[OF link_fleet] follows_same credential_change_follows complete_follows split: option.splits sum.splits)

lemma invitation_follows: "fleet_follows Q db (invitation_do P op db)"
  by (cases op)
    (auto simp: invite_def revoke_invitation_def reveal_def register_def bindR_Inr_iff Let_def dest!: insert_Inr
      intro!: follows_committed simp: follows_same split: option.splits)

lemma factor_follows: "fleet_follows Q db (factor_do P op db)"
  by (cases op)
    (auto simp: begin_challenge_def count_guess_def win_challenge_def spend_proof_def spend_replacement_attempt_def clear_factor_def
      bindR_Inr_iff Let_def drop_codes_def
      dest!: insert_Inr intro!: follows_committed simp: follows_same intro: credential_change_follows follows_erased split: option.splits proof_of_factor.splits)

lemma collapse_follows: "collapse k s db = Inr (v, db') \<Longrightarrow> fleet_follows Q db db'"
  by (auto simp: collapse_def bindR_Inr_iff Let_def intro!: follows_elsewhere[OF follows_erase_accounts] split: option.splits)

lemma install_follows: "fleet_follows Q db (install_do P op db)"
  by (cases op)
    (auto simp: decide_startup_auth_mode_def ensure_local_user_def mint_setup_token_def claim_def decline_accounts_def turn_accounts_on_def
      ensure_claimable_def reclaim_restore_def rotate_keys_def spend_setup_def bindR_Inr_iff Let_def
      dest!: insert_Inr record_mode_tables adopt_tables intro!: follows_committed simp: follows_same intro: collapse_follows
      split: option.splits if_splits sum.splits)

text \<open>Every operation of an account module; the last constructor stands for the fleet itself.\<close>

fun of_accounts :: "account_op \<Rightarrow> bool" where
  "of_accounts (Fleet_moves f) = False"
| "of_accounts _ = True"

lemma do_follows: "of_accounts op \<Longrightarrow> fleet_follows Q db (account_do P op db)"
  by (cases op) (simp_all add: session_follows life_follows credential_follows invitation_follows factor_follows install_follows)

section \<open>The installation\<close>

text \<open>
  A step of the installation is a transaction of an account module, or one of the fleet, which reads the
  users and sessions of the account tables.
\<close>

inductive installation_step :: "account_prims \<Rightarrow> fleet_prims \<Rightarrow> account_db \<Rightarrow> account_db \<Rightarrow> bool" for P Q where
  account: "of_accounts op \<Longrightarrow> installation_step P Q db (account_do P op db)"
| fleet: "fleet_step Q (fleet_view db) f \<Longrightarrow> installation_step P Q db (db\<lparr>ac_fleet := f\<rparr>)"

inductive_cases installation_stepE: "installation_step P Q db db'"

lemma step_follows: "installation_step P Q db db' \<Longrightarrow> fleet_follows Q db db'"
proof (erule installation_stepE)
  fix op assume "db' = account_do P op db" "of_accounts op" then show "fleet_follows Q db db'" by (simp add: do_follows)
next
  fix f assume "db' = db\<lparr>ac_fleet := f\<rparr>" "fleet_step Q (fleet_view db) f"
  then show "fleet_follows Q db db'" by (auto simp: fleet_follows_def intro: rtranclp.rtrancl_into_rtrancl[OF view_run])
qed

lemma step_inv: "installation_step P Q db db' \<Longrightarrow> account_inv db \<Longrightarrow> account_inv db'"
  by (erule installation_stepE) (use do_inv[where op = "Fleet_moves _"] in \<open>auto intro: do_inv\<close>)

lemma step_reachable: "installation_step P Q db db' \<Longrightarrow> reachable Q (ac_fleet db) \<Longrightarrow> reachable Q (ac_fleet db')"
  using step_follows reachable_run unfolding fleet_follows_def by blast

interpretation installation: guarded_steps "installation_step P Q" "\<lambda>db. account_inv db \<and> reachable Q (ac_fleet db)" for P Q
  by unfold_locales (blast intro: step_inv step_reachable)

text \<open>
  Property C9 (invariant). Whatever the account modules and the fleet do to one database, in whatever
  order, from a fleet that runs and an installation without accounts on: the account tables keep their
  types, and the fleet stays in a state its own transactions reach, so that every property of the
  journal, the leases and the reports holds while accounts come and go.
\<close>

theorem installation_keeps_both_contracts:
  assumes "(installation_step P Q)\<^sup>*\<^sup>* (no_accounts f) db" "reachable Q f"
  shows "account_inv db \<and> reachable Q (ac_fleet db) \<and> journal_inv (ac_fleet db)"
proof -
  have "account_inv (no_accounts f) \<and> reachable Q (ac_fleet (no_accounts f))"
    using assms(2) account_inv_empty by (simp add: no_accounts_def)
  with installation.run_good[OF assms(1)] show ?thesis using reachable_journal by blast
qed

theorem installation_keeps_both_contracts_witness:
  "journal_inv (ac_fleet (account_do house_prims (Installs (Ensure_local_user ''u'' ''none'')) (no_accounts demo_committed)))"
proof -
  have "(installation_step house_prims demo_prims)\<^sup>*\<^sup>* (no_accounts demo_committed)
      (account_do house_prims (Installs (Ensure_local_user ''u'' ''none'')) (no_accounts demo_committed))"
    by (intro r_into_rtranclp installation_step.account) simp
  from installation_keeps_both_contracts[OF this demo_committed_reachable] show ?thesis by simp
qed

section \<open>Delivery\<close>

lemma view_tables [simp]:
  "db_sessions (fleet_view db) = db_sessions (ac_fleet db)" "db_commands (fleet_view db) = db_commands (ac_fleet db)"
  by (simp_all add: fleet_view_def)

lemma find_map_rows: "find Q (map g rows) = map_option g (find (Q \<circ> g) rows)"
  by (induction rows) simp_all

lemma view_owner:
  assumes "current_owner a (fleet_view db)"
  shows "\<exists>u. user_of a db = Some u \<and> u_state u = ''active'' \<and> u_role u \<in> {''user'', ''admin''}"
  using assms by (auto simp: current_owner_def fleet_view_def user_of_def find_map_rows comp_def split: option.splits)

lemma view_binding:
  assumes "lock_browser_binding env a sid (fleet_view db) = Some deadlines" "pe_auth_mode env \<noteq> ''none''"
  shows "\<exists>s \<in> set (ac_logins db). sid = Some (ls_id s) \<and> ls_user_id s = a \<and> ls_revoked_at s = None
     \<and> deadlines = (ls_idle_expires_at s, Some (ls_absolute_expires_at s))"
  using assms by (auto simp: lock_browser_binding_def fleet_view_def find_map_rows comp_def split: option.splits if_splits dest!: find_SomeD)

lemma subject_owner:
  assumes "lock_delivery_subject env cmd a body w i o' db = Inr d"
  shows "current_owner a db"
    "ends_with (the_str (dget body ''type'')) ''session'' \<Longrightarrow>
       \<exists>r dl. session_of (the (st_subject_id cmd)) db = Some r \<and> d = Some dl \<and> lock_browser_binding env a (rs_auth_session_id r) db = Some dl"
  using assms
  by (auto simp: lock_delivery_subject_def lock_session_delivery_def lock_job_delivery_def lock_browser_binding_def Let_def
      bindR_Inr_iff split: option.splits if_splits)

lemma head_row:
  assumes "journal_head_matches cmd (row_at_sequence n (conn_commands w i db))"
  shows "\<exists>row \<in> set (db_commands db). cmd_conn row = (w, i) \<and> cmd_state row = Pending \<and> cmd_command_id row = st_command_id cmd
     \<and> cmd_account_user_id row = st_account_user_id cmd"
  using assms
  by (auto simp: journal_head_matches_def row_at_sequence_def conn_commands_def cmd_conn_def split: option.splits dest!: find_SomeD)

lemma delivery_checks:
  assumes "register_delivery Q env k cmd w i o' out db = Inr True"
  obtains a body d where "st_account_user_id cmd = Some a" "delivery_body Q cmd w i = Inr body"
    "lock_delivery_subject env cmd a body w i o' db = Inr d"
    "journal_head_matches cmd (row_at_sequence (st_sequence cmd) (conn_commands w i db))"
    "case d of None \<Rightarrow> True | Some (idle, absolute) \<Rightarrow> not_past absolute (k 3) \<and> not_past idle (k 4)"
proof -
  obtain a where a: "st_account_user_id cmd = Some a"
    using assms by (auto simp: register_delivery_def split: option.splits)
  obtain worker where worker: "conn_of w i db = Some worker"
    using assms by (cases "conn_of w i db") (auto simp: register_delivery_def a bindR_Inr_iff)
  obtain lease where lease: "lease_of (wc_region worker) db = Some lease"
    using assms by (cases "lease_of (wc_region worker) db") (auto simp: register_delivery_def a worker bindR_Inr_iff)
  obtain body d where steps: "delivery_body Q cmd w i = Inr body" "lock_delivery_subject env cmd a body w i o' db = Inr d"
      "journal_head_matches cmd (row_at_sequence (st_sequence cmd) (conn_commands w i db))"
    and times: "not_past (snd (case d of None \<Rightarrow> (None, None) | Some d \<Rightarrow> d)) (k 3)" "not_past (fst (case d of None \<Rightarrow> (None, None) | Some d \<Rightarrow> d)) (k 4)"
    using assms unfolding register_delivery_def a Let_def case_prod_beta by (auto simp: bindR_Inr_iff worker lease)
  have "case d of None \<Rightarrow> True | Some (idle, absolute) \<Rightarrow> not_past absolute (k 3) \<and> not_past idle (k 4)"
    using times by (auto split: option.splits)
  with that a steps show thesis by blast
qed

text \<open>
  Property C10 (safety). A command reaches a worker only while its account may work: at the moment of the
  delivery the account is active with a role that works, and where accounts are on, a command of a
  realtime session needs the browser session it was opened under, of that account, not past a deadline
  and not revoked. A session that was revoked once carries no delivery in any later state, whatever
  else happened, unless one is minted under its id.
\<close>

theorem delivery_follows_the_account:
  assumes "account_inv db" "login_of sid db = Some ended" "ls_revoked_at ended \<noteq> None" "\<forall>op \<in> set ops. sid \<notin> session_ids P op"
    and "register_delivery Q env k cmd w i o' out (fleet_view (account_run P ops db)) = Inr True"
  shows "\<exists>a u. st_account_user_id cmd = Some a \<and> user_of a (account_run P ops db) = Some u \<and> u_state u = ''active'' \<and> u_role u \<in> {''user'', ''admin''}
     \<and> (\<exists>row \<in> set (db_commands (ac_fleet (account_run P ops db))). cmd_conn row = (w, i) \<and> cmd_state row = Pending
          \<and> cmd_command_id row = st_command_id cmd \<and> cmd_account_user_id row = Some a)
     \<and> (\<forall>body. delivery_body Q cmd w i = Inr body \<and> ends_with (the_str (dget body ''type'')) ''session'' \<and> pe_auth_mode env \<noteq> ''none'' \<longrightarrow>
          (\<exists>r s. session_of (the (st_subject_id cmd)) (fleet_view (account_run P ops db)) = Some r
             \<and> s \<in> set (ac_logins (account_run P ops db)) \<and> rs_auth_session_id r = Some (ls_id s) \<and> ls_id s \<noteq> sid \<and> ls_user_id s = a
             \<and> ls_revoked_at s = None \<and> ls_absolute_expires_at s > k 3 \<and> not_past (ls_idle_expires_at s) (k 4)))"
proof -
  let ?db = "account_run P ops db"
  obtain a body d where body: "st_account_user_id cmd = Some a" "delivery_body Q cmd w i = Inr body"
    and lock: "lock_delivery_subject env cmd a body w i o' (fleet_view ?db) = Inr d"
    and row: "journal_head_matches cmd (row_at_sequence (st_sequence cmd) (conn_commands w i (fleet_view ?db)))"
    and times: "case d of None \<Rightarrow> True | Some (idle, absolute) \<Rightarrow> not_past absolute (k 3) \<and> not_past idle (k 4)"
    using assms(5) by (rule delivery_checks)
  have gone: "\<forall>q \<in> set (ac_logins ?db). ls_id q = sid \<longrightarrow> ls_revoked_at q \<noteq> None"
    using login_of_unique[OF assms(1,2)] assms(3) by (intro login_runs.run_keeps[OF assms(4)]) (auto simp: login_keeps_def)
  have "\<exists>r s. session_of (the (st_subject_id cmd)) (fleet_view ?db) = Some r \<and> s \<in> set (ac_logins ?db) \<and> rs_auth_session_id r = Some (ls_id s)
      \<and> ls_id s \<noteq> sid \<and> ls_user_id s = a \<and> ls_revoked_at s = None \<and> ls_absolute_expires_at s > k 3 \<and> not_past (ls_idle_expires_at s) (k 4)"
    if kind: "ends_with (the_str (dget body ''type'')) ''session''" and mode: "pe_auth_mode env \<noteq> ''none''"
  proof -
    obtain r dl where r: "session_of (the (st_subject_id cmd)) (fleet_view ?db) = Some r" "d = Some dl"
      and binding: "lock_browser_binding env a (rs_auth_session_id r) (fleet_view ?db) = Some dl"
      using subject_owner(2)[OF lock kind] by blast
    from view_binding[OF binding mode] obtain s where "s \<in> set (ac_logins ?db)" "rs_auth_session_id r = Some (ls_id s)" "ls_user_id s = a"
      "ls_revoked_at s = None" "dl = (ls_idle_expires_at s, Some (ls_absolute_expires_at s))" by blast
    with r gone times show ?thesis by (intro exI[of _ r] exI[of _ s]) (auto simp: not_past_def)
  qed
  with view_owner[OF subject_owner(1)[OF lock]] body head_row[OF row] show ?thesis by auto
qed

text \<open>The owner of the demo job has signed out of a browser; the job is delivered all the same.\<close>

definition busy_house :: account_db where
  "busy_house = (no_accounts demo_committed)
     \<lparr>ac_users := [house_user (uid CHR ''c'') ''user''],
      ac_logins := [(house_login ''s1'' (uid CHR ''c''))\<lparr>ls_revoked_at := Some 1\<rparr>]\<rparr>"

lemma busy_house_inv: "account_inv busy_house"
  by (simp add: account_inv_def busy_house_def no_accounts_def house_user_def house_login_def users_ok_def user_ok_def ROLES_def
      ACCOUNT_STATES_def logins_ok_def tokens_ok_def factors_ok_def codes_ok_def invitations_ok_def identities_ok_def)

definition demo_opened :: stored_command where
  "demo_opened = demo_stored\<lparr>st_body := demo_body\<rparr>"

lemma demo_delivery_body: "delivery_body demo_prims demo_opened ''w1'' (uid CHR ''1'') = Inr demo_command"
proof -
  have size: "demo_body \<noteq> []" "length demo_body < 1000" using demo_short by (auto simp: demo_body_def)
  have "decode_control demo_loads (Raw_bytes demo_body) = Inr demo_command"
    using size demo_utf8 by (simp add: decode_control_def raw_data_def demo_loads_def loaded_def demo_canonical demo_limit MAX_HELLO_BYTES_def
        MAX_PARAMETER_CONTROL_BYTES_def)
  moreover have "dget demo_command ''worker_id'' = Some (JStr ''w1'')" "dget demo_command ''incarnation'' = Some (JStr (uid CHR ''1''))"
    "delivery_kind demo_command = Inr ''dispatch_job''" "dwithout ''body_hash'' demo_command = demo_message" by code_simp+
  ultimately show ?thesis
    by (simp add: delivery_body_def demo_opened_def demo_stored_def demo_digest demo_canonical_message demo_identity bindR_def lift_py_def Let_def
        raise_if_def)
qed

lemma demo_delivery:
  "register_delivery demo_prims demo_env (\<lambda>_. 4 * second) demo_opened ''w1'' (uid CHR ''1'') (uid CHR ''b'') True (fleet_view busy_house) = Inr True"
proof -
  have body: "delivery_body demo_prims demo_opened ''w1'' (uid CHR ''1'') = Inr demo_command" by (rule demo_delivery_body)
  have lock: "lock_delivery_subject demo_env demo_opened (uid CHR ''c'') demo_command ''w1'' (uid CHR ''1'') (uid CHR ''b'') (fleet_view busy_house) = Inr None"
    by code_simp
  have "conn_of ''w1'' (uid CHR ''1'') (fleet_view busy_house) = Some (demo_conn\<lparr>wc_next_command_sequence := 2\<rparr>)"
    "lease_of ''local'' (fleet_view busy_house) = Some demo_lease"
    "row_at_sequence 1 (conn_commands ''w1'' (uid CHR ''1'') (fleet_view busy_house)) = Some demo_row"
    by code_simp+
  moreover have "journal_head_matches demo_opened (Some demo_row)"
    "delivery_lease_current demo_env (uid CHR ''b'') demo_lease (demo_conn\<lparr>wc_next_command_sequence := 2\<rparr>)" by code_simp+
  moreover have "st_worker_id demo_opened = ''w1''" "st_incarnation demo_opened = uid CHR ''1''" "st_sequence demo_opened = 1"
    "st_account_user_id demo_opened = Some (uid CHR ''c'')" "st_body demo_opened \<noteq> []"
    by (simp_all add: demo_opened_def demo_stored_def demo_body_def)
  moreover have "wc_region demo_conn = ''local''" "wc_acknowledged_floor demo_conn = 0" "sl_expires_at demo_lease > 4 * second"
    "wc_grant_expires_at demo_conn > 4 * second" by (simp_all add: demo_conn_def demo_lease_def second_def)
  ultimately show ?thesis using body lock by (simp add: register_delivery_def not_past_def)
qed

theorem delivery_follows_the_account_witness:
  "\<exists>u. user_of (uid CHR ''c'') busy_house = Some u \<and> u_state u = ''active''"
proof -
  have out: "login_of ''s1'' busy_house = Some ((house_login ''s1'' (uid CHR ''c''))\<lparr>ls_revoked_at := Some 1\<rparr>)"
    by (simp add: login_of_def busy_house_def house_login_def)
  from delivery_follows_the_account[OF busy_house_inv out, of "[]" house_prims] demo_delivery show ?thesis
    by (fastforce simp: demo_opened_def demo_stored_def)
qed

end
