(* ===== verification/Spec2Isabelle.thy ===== *)
theory Spec2Isabelle
  imports Memory_Ladder Lease_Contract Command_Contract Journal_Refinement Report_Contract
    Worker_Contract Worker_Sessions Frame_Batch Sign_In_Limits Challenge_Budget Account_Life Account_Routes Whole_Installation
begin

text \<open>
  A verification library for the server side of Potocolom and its workers: the durable worker protocol
  (protocol 6), the worker that speaks it, and the accounts that use it. Every definition is translated
  from the Python sources under \<open>src/backend/app\<close>, \<open>src/backend/migrations\<close> and
  \<open>src/worker/worker\<close>; the names are the names of the sources.

  \<^bold>\<open>The program.\<close> An installation is a PostgreSQL database, one or several API processes and any number of
  GPU workers. One process per region holds the scheduler lease. A worker connects, is registered as one
  incarnation under that lease and gets work grants. Work for it is committed as a numbered, encrypted
  command to the journal of its connection, delivered from the head of the journal, applied once by the
  ledger of the worker and settled by the acknowledgement that comes back. What it measured arrives in
  reports that are accounted once. People sign in through sessions, second factors and links; taking an
  account out of service erases the commands that act for it and fences the workers that may hold one.

  \<^bold>\<open>Theories and sources.\<close>
  Shared: \<open>Prelude\<close> (tables as lists of rows, keyed tables, state machines with an invariant, arithmetic of
  doubles), \<open>Json\<close> and \<open>Protocol6\<close> (\<open>protocol6.py\<close>), \<open>Keyring\<close> (\<open>keyring.py\<close>).
  Fleet: \<open>Fleet_Tables\<close> (migrations 0029 to 0034 and the columns read of other tables), \<open>Subjects\<close>
  (\<open>command_subjects.py\<close>), \<open>Command_Store\<close> (\<open>command_store.py\<close>), \<open>Authority\<close> (\<open>worker_authority.py\<close>);
  \<open>Journal\<close> (invariant of the journal), \<open>Fleet\<close> (one step for every transaction, reachable states),
  \<open>Fleet_Effects\<close>, \<open>Command_Contract\<close>, \<open>Journal_Refinement\<close>, \<open>Lease_Contract\<close>, \<open>Report_Contract\<close> (what
  they promise), \<open>Demo_Fleet\<close> and \<open>Demo_Journal\<close> (a concrete installation the witnesses run on).
  Worker: \<open>Worker_Ledger\<close> and \<open>Worker_Sessions\<close> (\<open>client.py\<close>, \<open>manifests.py\<close>), \<open>Frame_Batch\<close>
  (\<open>frame_batch.py\<close>), \<open>Memory_Ladder\<close> (\<open>memory_ladder.py\<close>), \<open>Worker_Contract\<close> (both ends together).
  Accounts: \<open>Sign_In_Limits\<close> (\<open>rate_limit.py\<close>), \<open>Account_Tables\<close> (\<open>tables.py\<close>), \<open>Login_Sessions\<close>
  (\<open>sessions.py\<close>, \<open>auth.py\<close>, \<open>passwords.py\<close>), \<open>Accounts\<close> (\<open>roles.py\<close>, \<open>states.py\<close>, \<open>deletion.py\<close>,
  \<open>recovery.py\<close>, \<open>credentials.py\<close>, \<open>invitations.py\<close>, the password check of \<open>accounts.py\<close>), \<open>Factors\<close>
  (\<open>totp.py\<close>, \<open>factors.py\<close>), \<open>Installation\<close> (\<open>enable.py\<close>, the mode functions of \<open>db.py\<close>, \<open>operator.py\<close>),
  \<open>Account_Routes\<close> (handlers of several transactions, \<open>auth_mode.py\<close>); \<open>Account_Runs\<close> (one operation per
  transaction, runs), \<open>Account_Contract\<close>, \<open>Account_Invariant\<close>, \<open>Spent_Rows\<close>, \<open>Session_Contract\<close>,
  \<open>Challenge_Budget\<close>, \<open>Account_Users\<close>, \<open>Account_Life\<close> (what they promise), \<open>Whole_Installation\<close> (accounts and
  fleet on one database).

  \<^bold>\<open>State and operations.\<close> A table is the list of its rows (records \<open>fleet_db\<close> and \<open>account_db\<close>), a
  transaction a function of the database that returns an exception, which rolls it back, or a value and
  the new database. \<open>SELECT ... FOR UPDATE\<close> and the advisory lock of an account are the atomicity of a
  transaction; values a route read in an earlier transaction, or before it took its locks, are arguments,
  so a run also contains every stale reading. Clock readings are a function from the number of the
  reading, because one transaction of the sources reads \<open>clock_timestamp()\<close> several times; random ids and
  tokens are arguments. Instants are microseconds. JSON is \<open>json\<close> with dictionaries in insertion order.
  The in-memory state of the worker (ledger, runners, manager, collector) is a record per class.

  \<^bold>\<open>Interfaces.\<close> \<open>keyed_rows\<close> is a table with a key (nine interpretations, one per fleet table);
  \<open>guarded_steps\<close> a step relation with an invariant (the fleet, the abstract journal, the ledger, the
  manager, the runner log, the collector, the account modules, the whole installation); \<open>row_moves\<close> and
  \<open>moved_by_runs\<close> describe how the rows of an account table may change under any operation (accounts,
  sessions, links, factors, recovery codes).

  \<^bold>\<open>What is shown.\<close> The journal: bounded, without gaps, append-only as a refinement of an abstract
  journal, its constraints hold in every reachable state, only proof settles a command, erasure is
  complete. Lease and connections: a stale connection is fenced for ever, one open connection per
  worker, a free region gets its owner back within two rounds. Reports are accounted once. Both ends:
  commands are applied once and in order, the answer of the worker is the proof the server accepts, and
  it settles the command. Sessions of the worker: a closed generation never runs again, the latest input
  wins. Batching: the ring cursor is a queue, nobody waits longer than the classes before it, draining
  ends. Accounts: typed tables, sessions and links and codes that are used up stay so, ten guesses at a
  factor until one is right, every factor is needed, one session after a change of credentials, an
  administrator remains as long as purges keep to what they claimed and no account deletes itself, leaving
  ends all access and can be undone for thirty days. Together: account transactions keep the
  fleet in its reachable states, and no command is delivered for an account or browser session that
  ended. Six theorems show where the code does not do what its documentation says; they are of kind
  error.

  \<^bold>\<open>Fuel and bounds.\<close> The only fuelled loop is \<open>drain\<close> of the collector; \<open>draining_terminates\<close> shows that
  as much fuel as classes wait is enough. All other recursion is structural or on a list. The JSON
  reader's depth and size limits, 256 retained commands, 4 MiB of pending bodies, 256 receipts, ten
  sign-ins and ten guesses in ten minutes are the constants of the sources.

  \<^bold>\<open>Parameters.\<close> SHA-256, HMAC, HKDF and AES-GCM, Argon2, the Unicode functions behind \<open>strip\<close> and
  \<open>lower\<close>, the two lower-casing functions of the database, the text of a float, the standard JSON
  reader, and the executor of a batch are arguments. The laws used of them (what is encrypted is
  decrypted again, the length of a digest) are hypotheses, met by the concrete functions of the witnesses.

  \<^bold>\<open>Not modelled.\<close> The queued jobs API and the realtime API (\<open>jobs.py\<close>, \<open>realtime.py\<close>): HTTP and
  WebSocket handlers around an in-memory scheduler of asyncio tasks and timers whose orders of events are
  those of the event loop, with image files in between; the tables they share with the fleet are open to
  any change of those rows in every run (\<open>elsewhere\<close>). The inference engine and the pipelines: calls into
  torch and diffusers without a specification. The model store: downloads, directories and file locks.
  OAuth: the answers of a provider. Cookies, headers, mail bodies, the sealed enrolment and pages that
  only list rows. Deadlocks and lock waits: a transaction that waits too long raises before it wrote.
  Connecting to PostgreSQL, schema checks, logging, metrics, scripts and the frontend.
\<close>

section \<open>The journal in every reachable state\<close>

text \<open>
  Property C24 (invariant). Whatever the processes of an installation do, every row of the command
  journal satisfies the table constraints of migration 0034: a pending command has its encrypted
  body, a positive key version, an owner and a subject, and a size within the limit of its kind;
  an acknowledged one has lost its body and carries an acceptance or one of the eleven consuming
  refusals; an erased one carries nothing. The database never rejects a write of these modules for
  one of those constraints.
\<close>

theorem rows_meet_table_checks:
  assumes "reachable P db" "c \<in> set (db_commands db)"
  shows "table_checks c"
  using reachable_journal[OF assms(1)] assms(2) by (intro row_contract_checks journal_invD(4))

theorem rows_meet_table_checks_witness: "table_checks demo_row"
  using rows_meet_table_checks[OF demo_committed_reachable, of demo_row]
  by (simp add: demo_committed_def)

text \<open>
  Property C4 (bounds). A connection never retains more than 256 commands, and its pending
  commands never exceed 4 MiB together.
\<close>

theorem journal_is_bounded:
  assumes "reachable P db"
  shows "length (conn_commands w i db) \<le> MAX_RETAINED_COMMANDS \<and>
     sum_list (map cmd_complete_bytes (filter (\<lambda>c. cmd_state c = Pending) (conn_commands w i db))) \<le> MAX_PENDING_BYTES"
  using journal_invD(6)[OF reachable_journal[OF assms], of "(w, i)"] pending_bytes_sort_key[of cmd_sequence]
  by (simp add: within_bounds_def conn_commands_rows pending_bytes_def)

theorem journal_is_bounded_witness:
  "length (conn_commands ''w1'' (uid CHR ''1'') demo_committed) \<le> 256"
  using journal_is_bounded[OF demo_committed_reachable, of "''w1''" "uid CHR ''1''"]
  by (simp add: MAX_RETAINED_COMMANDS_def)


text \<open>
  Property C3 (invariant). The commands retained for a connection are numbered without a gap from
  its acknowledged floor, exclusive, to its next sequence number, exclusive, whatever was committed,
  acknowledged or erased, and whoever was fenced in between.
\<close>

theorem journal_has_no_gap:
  assumes "reachable P db" "w \<in> set (db_connections db)"
  shows "0 \<le> wc_acknowledged_floor w \<and> wc_acknowledged_floor w < wc_next_command_sequence w \<and>
     map cmd_sequence (conn_commands (wc_worker_id w) (wc_incarnation w) db)
       = [wc_acknowledged_floor w + 1 .. wc_next_command_sequence w - 1]"
proof -
  let ?rows = "conn_commands (wc_worker_id w) (wc_incarnation w) db"
  have inv: "journal_inv db" using assms(1) by (rule reachable_journal)
  have cont: "contiguous db w" using inv assms(2) by (rule journal_invD(3))
  have "distinct (map cmd_sequence (rows_of (conn_key w) db))"
    unfolding rows_of_def by (rule distinct_conn_sequences) (use inv in \<open>simp add: journal_inv_def cmds.keyed_def\<close>)
  then have "distinct (map cmd_sequence ?rows)"
    by (simp add: conn_commands_rows conn_key_def distinct_map)
  moreover have "sorted (map cmd_sequence ?rows)" by (simp add: conn_commands_def)
  moreover have "set (map cmd_sequence ?rows) = set [wc_acknowledged_floor w + 1 .. wc_next_command_sequence w - 1]"
    using cont by (auto simp: contiguous_def conn_commands_rows conn_key_def)
  ultimately have "map cmd_sequence ?rows = [wc_acknowledged_floor w + 1 .. wc_next_command_sequence w - 1]"
    by (intro sorted_distinct_set_unique) auto
  with cont show ?thesis by (simp add: contiguous_def)
qed

theorem journal_has_no_gap_witness:
  "map cmd_sequence (conn_commands ''w1'' (uid CHR ''1'') demo_committed) = [1]"
  using journal_has_no_gap[OF demo_committed_reachable, of "demo_conn\<lparr>wc_next_command_sequence := 2\<rparr>"]
  by (simp add: demo_committed_def demo_conn_def)

text \<open>
  Reading the head of the journal of a live connection never meets a gap:
  either nothing is pending, or the row behind the floor is there, and it is delivered when it is
  pending, refused as unresolved when it was erased or acknowledged out of order.
\<close>

theorem journal_head_is_found:
  assumes "reachable P db" "delivery_authority now wid inc owner db = Some w"
  shows "(if wc_acknowledged_floor w + 1 < wc_next_command_sequence w
          then \<exists>row. command_of wid inc (wc_acknowledged_floor w + 1) db = Some row
            \<and> cmd_sequence row = wc_acknowledged_floor w + 1
            \<and> read_exact_pending Q env now wid inc (Some owner) db
              = (if cmd_state row = Pending then bindR (open_command Q w row) (\<lambda>stored. Inr (Some stored))
                 else Inl (CommandRefused ''worker command head is unresolved''))
          else read_exact_pending Q env now wid inc (Some owner) db = Inr None)"
proof -
  have w: "w \<in> set (db_connections db)" "conn_key w = (wid, inc)"
    using assms(2) conn_of_key by (auto simp: delivery_authority_def)
  have "contiguous db w" by (rule journal_invD(3)[OF reachable_journal[OF assms(1)] w(1)])
  show ?thesis
  proof (cases "wc_acknowledged_floor w + 1 < wc_next_command_sequence w")
    case True
    then have "wc_acknowledged_floor w + 1 \<in> cmd_sequence ` set (rows_of (wid, inc) db)"
      using \<open>contiguous db w\<close> w(2) by (simp add: contiguous_def)
    then obtain c where c: "c \<in> set (db_commands db)" "cmd_key c = (wid, inc, wc_acknowledged_floor w + 1)"
      by (auto simp: rows_of_def cmd_key_def cmd_conn_def)
    then have "command_of wid inc (wc_acknowledged_floor w + 1) db \<noteq> None"
      by (auto simp: command_of_def find_None_iff)
    then obtain row where row: "command_of wid inc (wc_acknowledged_floor w + 1) db = Some row"
        "cmd_sequence row = wc_acknowledged_floor w + 1"
      by (auto simp: command_of_def cmd_key_def dest: find_SomeD)
    then have "read_exact_pending Q env now wid inc (Some owner) db
        = (if cmd_state row = Pending then bindR (open_command Q w row) (\<lambda>stored. Inr (Some stored))
           else Inl (CommandRefused ''worker command head is unresolved''))"
      using assms(2) True by (simp add: read_exact_pending_def)
    with True row show ?thesis by (simp only: if_True) blast
  next
    case False
    with assms(2) show ?thesis by (simp add: read_exact_pending_def)
  qed
qed

theorem journal_head_is_found_witness:
  "command_of ''w1'' (uid CHR ''1'') 1 demo_committed \<noteq> None"
proof -
  have "delivery_authority second ''w1'' (uid CHR ''1'') (uid CHR ''b'') demo_committed
      = Some (demo_conn\<lparr>wc_next_command_sequence := 2\<rparr>)"
    by (simp add: delivery_authority_def demo_committed_def demo_granted_def demo_start_def conn_of_def lease_of_def
        demo_conn_def demo_lease_def conn_key_def open_conn_def second_def)
  from journal_head_is_found[OF demo_committed_reachable this] show ?thesis by (auto simp: demo_conn_def)
qed

end
